(* ===== verification/Prelude.thy ===== *)
theory Prelude
  imports Complex_Main
begin

text \<open>
  Shared vocabulary of the development: the JavaScript values the modelled code
  stores (objects with JavaScript's key order, array slots that may be undefined or
  null, JSON values), the results of code that may throw, and the list lemmas that the
  component theories use.  Nothing here models one function of the repository.
\<close>

named_theorems obj_simps "look-up and domain laws of JavaScript objects"
named_theorems graph_simps "unfolding rules of the connection graph"
named_theorems engine_simps "frame and unfolding rules of the execution engine"

section \<open>Numbers, undefined and null\<close>

text \<open>
  The numbers that the modelled code compares or stores (positions, type versions,
  JSON numbers) are finite doubles, every one of which is a rational; no rounding
  arithmetic is modelled on them.  Indices and counters are natural numbers.
\<close>

type_synonym number = rat

text \<open>An array slot or variable that may be undefined, null or hold a value.\<close>

datatype 'a slot = Undefined | Null | Val 'a

fun slot_truthy :: "'a slot \<Rightarrow> bool" where
  "slot_truthy (Val _) = True"
| "slot_truthy _ = False"

fun slot_option :: "'a slot \<Rightarrow> 'a option" where
  "slot_option (Val x) = Some x"
| "slot_option _ = None"

lemma slot_truthy_iff: "slot_truthy s \<longleftrightarrow> (\<exists>x. s = Val x)"
  by (cases s) auto

text \<open>Reading an array: undefined out of range.\<close>

definition arr_get :: "'a slot list \<Rightarrow> nat \<Rightarrow> 'a slot" where
  "arr_get xs i = (if i < length xs then xs ! i else Undefined)"

text \<open>Assigning an array element: the array is extended with holes when needed.\<close>

definition arr_set :: "'a slot list \<Rightarrow> nat \<Rightarrow> 'a slot \<Rightarrow> 'a slot list" where
  "arr_set xs i v =
     (if i < length xs then xs[i := v]
      else xs @ replicate (i - length xs) Undefined @ [v])"

lemma length_arr_set: "length (arr_set xs i v) = max (length xs) (Suc i)"
  by (auto simp: arr_set_def)

lemma arr_get_set_same [simp]: "arr_get (arr_set xs i v) i = v"
  by (auto simp: arr_get_def arr_set_def nth_append)

lemma arr_get_set_other: "j \<noteq> i \<Longrightarrow> arr_get (arr_set xs i v) j = arr_get xs j"
  by (auto simp: arr_get_def arr_set_def nth_append nth_Cons')

text \<open>Reading a list whose elements are plain values.\<close>

definition list_get :: "'a list \<Rightarrow> nat \<Rightarrow> 'a option" where
  "list_get xs i = (if i < length xs then Some (xs ! i) else None)"

lemma list_get_Some: "list_get xs i = Some x \<longleftrightarrow> i < length xs \<and> xs ! i = x"
  by (auto simp: list_get_def)

text \<open>The idiom \<open>n || undefined\<close> on a number.\<close>

definition or_undefined :: "nat \<Rightarrow> nat option" where
  "or_undefined n = (if n = 0 then None else Some n)"

section \<open>Code that may throw\<close>

datatype js_error =
    TypeError
  | ApplicationError string
  | WorkflowOperationError string

definition res_bind :: "'e + 'a \<Rightarrow> ('a \<Rightarrow> 'e + 'b) \<Rightarrow> 'e + 'b" where
  "res_bind r f = (case r of Inl e \<Rightarrow> Inl e | Inr x \<Rightarrow> f x)"

lemma res_bind_simps [simp]: "res_bind (Inl e) f = Inl e" "res_bind (Inr x) f = f x"
  by (simp_all add: res_bind_def)

lemma res_bind_Inr: "res_bind r f = Inr y \<longleftrightarrow> (\<exists>x. r = Inr x \<and> f x = Inr y)"
  by (cases r) auto

lemma res_bindE:
  assumes "res_bind r f = Inr y"
  obtains x where "r = Inr x" and "f x = Inr y"
  using assms by (cases r) auto

lemma not_isl_Inr: "\<not> isl r \<Longrightarrow> \<exists>x. r = Inr x"
  by (cases r) auto

text \<open>A for-of loop whose body may throw.\<close>

fun res_fold :: "('a \<Rightarrow> 's \<Rightarrow> 'e + 's) \<Rightarrow> 'a list \<Rightarrow> 's \<Rightarrow> 'e + 's" where
  "res_fold f [] s = Inr s"
| "res_fold f (x # xs) s = res_bind (f x s) (res_fold f xs)"

lemma res_fold_invariant:
  assumes "\<And>x s s'. x \<in> set xs \<Longrightarrow> I s \<Longrightarrow> f x s = Inr s' \<Longrightarrow> I s'"
    and "I s" and "res_fold f xs s = Inr s'"
  shows "I s'"
  using assms
proof (induction xs arbitrary: s)
  case Nil
  then show ?case by simp
next
  case (Cons x xs)
  from Cons.prems(3) obtain t where t: "f x s = Inr t" "res_fold f xs t = Inr s'"
    by (auto simp: res_bind_Inr)
  have "I t" using Cons.prems(1)[of x s t] Cons.prems(2) t(1) by simp
  with Cons.IH[of t] Cons.prems(1) t(2) show ?case
    by (meson list.set_intros(2))
qed

section \<open>Steps that keep an invariant\<close>

text \<open>
  What every component with operations in any order promises of its state: each step keeps the
  invariant, and so do all steps together.
\<close>

locale step_invariant =
  fixes step :: "'s \<Rightarrow> 's \<Rightarrow> bool"
    and inv :: "'s \<Rightarrow> bool"
  assumes inv_step: "inv s \<Longrightarrow> step s s' \<Longrightarrow> inv s'"
begin

lemma inv_steps: "step\<^sup>*\<^sup>* s s' \<Longrightarrow> inv s \<Longrightarrow> inv s'"
  by (induction rule: rtranclp_induct) (auto intro: inv_step)

end

section \<open>Objects\<close>

text \<open>
  A JavaScript object is the list of its own properties in the order in which
  \<open>Object.keys\<close> and \<open>for ... in\<close> visit them.  \<open>prec k k'\<close> says that a new key \<open>k\<close>
  is placed in front of the present key \<open>k'\<close>: never for ordinary string keys, which go
  to the end, and by number for integer keys, which come first in ascending order.
\<close>

type_synonym ('k, 'v) obj = "('k \<times> 'v) list"

definition obj_get :: "('k, 'v) obj \<Rightarrow> 'k \<Rightarrow> 'v option" where
  "obj_get ob k = map_of ob k"

definition obj_has :: "('k, 'v) obj \<Rightarrow> 'k \<Rightarrow> bool" where
  "obj_has ob k = (map_of ob k \<noteq> None)"

definition obj_keys :: "('k, 'v) obj \<Rightarrow> 'k list" where
  "obj_keys ob = map fst ob"

fun obj_put :: "('k \<Rightarrow> 'k \<Rightarrow> bool) \<Rightarrow> 'k \<Rightarrow> 'v \<Rightarrow> ('k, 'v) obj \<Rightarrow> ('k, 'v) obj" where
  "obj_put prec k v [] = [(k, v)]"
| "obj_put prec k v ((k', w) # ob) =
     (if k = k' then (k, v) # ob
      else if prec k k' then (k, v) # (k', w) # ob
      else (k', w) # obj_put prec k v ob)"

definition obj_del :: "'k \<Rightarrow> ('k, 'v) obj \<Rightarrow> ('k, 'v) obj" where
  "obj_del k ob = filter (\<lambda>e. fst e \<noteq> k) ob"

definition obj_wf :: "('k \<Rightarrow> 'k \<Rightarrow> bool) \<Rightarrow> ('k, 'v) obj \<Rightarrow> bool" where
  "obj_wf prec ob =
     (distinct (obj_keys ob) \<and> sorted_wrt (\<lambda>x y. \<not> prec y x) (obj_keys ob))"

lemma map_of_obj_put [obj_simps]: "map_of (obj_put b k v ob) = (map_of ob)(k \<mapsto> v)"
  by (induction ob) (auto simp: fun_eq_iff)

lemma map_of_obj_del [obj_simps]: "map_of (obj_del k ob) = (map_of ob)(k := None)"
  by (induction ob) (auto simp: obj_del_def fun_eq_iff)

lemma set_keys_obj_put: "fst ` set (obj_put b k v ob) = insert k (fst ` set ob)"
  by (simp add: dom_map_of_conv_image_fst[symmetric] map_of_obj_put)

lemma set_obj_put: "set (obj_put b k v ob) \<subseteq> insert (k, v) (set ob)"
  by (induction ob) (auto split: if_splits)

lemma obj_has_iff: "obj_has ob k \<longleftrightarrow> k \<in> set (obj_keys ob)"
  by (simp add: obj_has_def obj_keys_def map_of_eq_None_iff)

lemma obj_wf_Nil [simp]: "obj_wf b []"
  by (simp add: obj_wf_def obj_keys_def)

lemma obj_wf_del: "obj_wf b ob \<Longrightarrow> obj_wf b (obj_del k ob)"
  by (induction ob) (auto simp: obj_wf_def obj_keys_def obj_del_def)

text \<open>
  The contract that every user of an object relies on, as a locale: look-up after
  insertion and deletion, the keys, and the well-formedness that keeps keys distinct.
\<close>

locale js_object =
  fixes put :: "'k \<Rightarrow> 'v \<Rightarrow> 'o \<Rightarrow> 'o"
    and del :: "'k \<Rightarrow> 'o \<Rightarrow> 'o"
    and get :: "'o \<Rightarrow> 'k \<Rightarrow> 'v option"
    and keys :: "'o \<Rightarrow> 'k list"
    and wf :: "'o \<Rightarrow> bool"
  assumes get_put: "get (put k v ob) = (get ob)(k \<mapsto> v)"
    and get_del: "get (del k ob) = (get ob)(k := None)"
    and keys_dom: "set (keys ob) = dom (get ob)"
    and wf_put: "wf ob \<Longrightarrow> wf (put k v ob)"
    and wf_del: "wf ob \<Longrightarrow> wf (del k ob)"
    and wf_distinct: "wf ob \<Longrightarrow> distinct (keys ob)"
begin

lemma get_put_same: "get (put k v ob) k = Some v"
  by (simp add: get_put)

lemma get_put_other: "j \<noteq> k \<Longrightarrow> get (put k v ob) j = get ob j"
  by (simp add: get_put)

lemma get_del_same: "get (del k ob) k = None"
  by (simp add: get_del)

lemma get_del_other: "j \<noteq> k \<Longrightarrow> get (del k ob) j = get ob j"
  by (simp add: get_del)

lemma keys_put: "set (keys (put k v ob)) = insert k (set (keys ob))"
  by (auto simp: keys_dom get_put)

lemma keys_del: "set (keys (del k ob)) = set (keys ob) - {k}"
  by (auto simp: keys_dom get_del)

lemma length_keys_put:
  assumes "wf ob"
  shows "length (keys (put k v ob)) = card (insert k (set (keys ob)))"
  using wf_distinct[OF wf_put[OF assms]] keys_put distinct_card by metis

end

text \<open>The orders under which objects are kept: strict partial orders on keys.\<close>

definition strict_order :: "('k \<Rightarrow> 'k \<Rightarrow> bool) \<Rightarrow> bool" where
  "strict_order b = ((\<forall>x. \<not> b x x) \<and> (\<forall>x y z. b x y \<longrightarrow> \<not> b z y \<longrightarrow> \<not> b z x))"

lemma obj_wf_put:
  assumes "strict_order b" and "obj_wf b ob"
  shows "obj_wf b (obj_put b k v ob)"
  using assms(2)
proof (induction ob)
  case Nil
  then show ?case by (simp add: obj_wf_def obj_keys_def)
next
  case (Cons e ob)
  obtain k' w where e: "e = (k', w)" by (cases e)
  from Cons have IH: "obj_wf b (obj_put b k v ob)"
    by (simp add: obj_wf_def obj_keys_def)
  have ord: "\<And>x y z. b x y \<Longrightarrow> \<not> b z y \<Longrightarrow> \<not> b z x" and irr: "\<And>x. \<not> b x x"
    using assms(1) unfolding strict_order_def by blast+
  show ?case
  proof (cases "k = k'")
    case True
    with Cons.prems e show ?thesis by (simp add: obj_wf_def obj_keys_def)
  next
    case neq: False
    show ?thesis
    proof (cases "b k k'")
      case True
      have later: "\<forall>y \<in> fst ` set ob. \<not> b y k'"
        using Cons.prems e by (simp add: obj_wf_def obj_keys_def)
      then have "k \<notin> fst ` set ob" using True by blast
      moreover have "\<forall>y \<in> fst ` set ob. \<not> b y k"
        using later ord[OF True] by blast
      moreover have "\<not> b k' k" using ord[OF True irr] .
      ultimately show ?thesis
        using Cons.prems e True neq by (simp add: obj_wf_def obj_keys_def)
    next
      case False
      then show ?thesis
        using Cons.prems e neq IH
        by (simp add: obj_wf_def obj_keys_def set_keys_obj_put)
    qed
  qed
qed

lemma js_object_obj:
  assumes "strict_order b"
  shows "js_object (obj_put b) obj_del obj_get obj_keys (obj_wf b)"
proof (unfold_locales, goal_cases)
  case (1 k v ob) show ?case by (simp add: obj_get_def map_of_obj_put fun_eq_iff)
next
  case (2 k ob) show ?case by (simp add: obj_get_def map_of_obj_del fun_eq_iff)
next
  case (3 ob) show ?case by (simp add: obj_keys_def obj_get_def dom_map_of_conv_image_fst[symmetric] dom_def)
next
  case 4 then show ?case by (rule obj_wf_put[OF assms])
next
  case 5 then show ?case by (rule obj_wf_del)
next
  case 6 then show ?case by (simp add: obj_wf_def)
qed

text \<open>
  The key orders of the model.  A string key that is the canonical decimal form of an
  integer below \<open>2^32 - 1\<close> is an array index: such keys precede all others, ascending.
\<close>

definition is_digit :: "char \<Rightarrow> bool" where
  "is_digit c = (48 \<le> (of_char c :: nat) \<and> (of_char c :: nat) \<le> 57)"

definition decimal :: "string \<Rightarrow> nat" where
  "decimal s = fold (\<lambda>c n. 10 * n + ((of_char c :: nat) - 48)) s 0"

definition index_key :: "string \<Rightarrow> nat option" where
  "index_key s =
     (if s \<noteq> [] \<and> list_all is_digit s \<and> (hd s \<noteq> CHR ''0'' \<or> tl s = []) \<and> decimal s < 4294967295
      then Some (decimal s) else None)"

definition str_before :: "string \<Rightarrow> string \<Rightarrow> bool" where
  "str_before k k' =
     (case index_key k of
        None \<Rightarrow> False
      | Some i \<Rightarrow> (case index_key k' of None \<Rightarrow> True | Some j \<Rightarrow> i < j))"

definition nat_before :: "nat \<Rightarrow> nat \<Rightarrow> bool" where
  "nat_before i j = (i < j)"

definition never_before :: "'k \<Rightarrow> 'k \<Rightarrow> bool" where
  "never_before k k' = False"

lemma strict_order_str: "strict_order str_before"
  by (auto simp: strict_order_def str_before_def split: option.splits)

lemma strict_order_nat: "strict_order nat_before"
  by (auto simp: strict_order_def nat_before_def)

lemma strict_order_never: "strict_order never_before"
  by (auto simp: strict_order_def never_before_def)

type_synonym 'v str_obj = "(string, 'v) obj"
type_synonym 'v nat_obj = "(nat, 'v) obj"

abbreviation str_put :: "string \<Rightarrow> 'v \<Rightarrow> 'v str_obj \<Rightarrow> 'v str_obj" where
  "str_put \<equiv> obj_put str_before"

abbreviation nat_put :: "nat \<Rightarrow> 'v \<Rightarrow> 'v nat_obj \<Rightarrow> 'v nat_obj" where
  "nat_put \<equiv> obj_put nat_before"

abbreviation enum_put :: "'k \<Rightarrow> 'v \<Rightarrow> ('k, 'v) obj \<Rightarrow> ('k, 'v) obj" where
  "enum_put \<equiv> obj_put never_before"

interpretation sobj: js_object str_put obj_del obj_get obj_keys "obj_wf str_before"
  by (rule js_object_obj[OF strict_order_str])

interpretation nobj: js_object nat_put obj_del obj_get obj_keys "obj_wf nat_before"
  by (rule js_object_obj[OF strict_order_nat])

interpretation eobj: js_object enum_put obj_del obj_get obj_keys "obj_wf never_before"
  by (rule js_object_obj[OF strict_order_never])

lemma obj_get_put [simp]: "obj_get (obj_put b k v ob) j = (if j = k then Some v else obj_get ob j)"
  by (simp add: obj_get_def map_of_obj_put)

lemma obj_get_del [simp]: "obj_get (obj_del k ob) j = (if j = k then None else obj_get ob j)"
  by (simp add: obj_get_def map_of_obj_del)

lemma obj_get_Nil [simp]: "obj_get [] k = None"
  by (simp add: obj_get_def)

lemma obj_get_Cons [simp]: "obj_get ((k, v) # ob) j = (if j = k then Some v else obj_get ob j)"
  by (simp add: obj_get_def)

lemma obj_put_neq_Nil [simp]: "obj_put b k v ob \<noteq> []"
  by (cases ob) (auto split: if_splits)

lemma obj_has_get: "obj_has ob k \<longleftrightarrow> (\<exists>v. obj_get ob k = Some v)"
  by (auto simp: obj_has_def obj_get_def)

lemma obj_keys_get: "k \<in> set (obj_keys ob) \<longleftrightarrow> (\<exists>v. obj_get ob k = Some v)"
  by (simp add: obj_has_get[symmetric] obj_has_iff)

section \<open>JSON values\<close>

datatype jval =
    JUndef
  | JNull
  | JBool bool
  | JNum number
  | JStr string
  | JArr "jval list"
  | JObj "(string \<times> jval) list"

type_synonym IDataObject = "jval str_obj"

text \<open>JavaScript truthiness.\<close>

fun truthy :: "jval \<Rightarrow> bool" where
  "truthy JUndef = False"
| "truthy JNull = False"
| "truthy (JBool b) = b"
| "truthy (JNum n) = (n \<noteq> 0)"
| "truthy (JStr s) = (s \<noteq> [])"
| "truthy (JArr _) = True"
| "truthy (JObj _) = True"

text \<open>Reading a property of an object: undefined when absent.\<close>

definition get_prop :: "IDataObject \<Rightarrow> string \<Rightarrow> jval" where
  "get_prop ob k = (case obj_get ob k of None \<Rightarrow> JUndef | Some v \<Rightarrow> v)"

section \<open>Lists\<close>

text \<open>\<open>[...new Set(xs)]\<close>: the elements in the order of their first occurrence.\<close>

definition dedupe_list :: "'a list \<Rightarrow> 'a list" where
  "dedupe_list xs = fold (\<lambda>x acc. if x \<in> set acc then acc else acc @ [x]) xs []"

lemma dedupe_acc:
  "distinct acc \<Longrightarrow>
     set (fold (\<lambda>x acc. if x \<in> set acc then acc else acc @ [x]) xs acc) = set acc \<union> set xs \<and>
     distinct (fold (\<lambda>x acc. if x \<in> set acc then acc else acc @ [x]) xs acc)"
  by (induction xs arbitrary: acc) auto

lemma dedupe_list_set [simp]: "set (dedupe_list xs) = set xs"
  and distinct_dedupe_list [simp]: "distinct (dedupe_list xs)"
  using dedupe_acc[of "[]" xs] by (simp_all add: dedupe_list_def)

text \<open>The path part of a transitive closure that does not come back to its start.\<close>

lemma trancl_avoid_start:
  assumes "(a, m) \<in> R\<^sup>+" and "m \<noteq> a"
  shows "(a, m) \<in> (R \<inter> {(x, y). y \<noteq> a})\<^sup>+"
  using assms
proof (induction rule: trancl_induct)
  case (base y)
  then show ?case by auto
next
  case (step y z)
  show ?case
  proof (cases "y = a")
    case True
    with step show ?thesis by auto
  next
    case False
    with step have "(a, y) \<in> (R \<inter> {(x, y). y \<noteq> a})\<^sup>+" by simp
    moreover have "(y, z) \<in> R \<inter> {(x, y). y \<noteq> a}" using step by auto
    ultimately show ?thesis by (rule trancl_into_trancl)
  qed
qed

text \<open>Sums over the values of an object.\<close>

lemma sum_obj_put:
  fixes f :: "'v \<Rightarrow> nat"
  assumes "obj_wf prec ob" and "obj_get ob k = Some v"
  shows "sum_list (map (\<lambda>(k, v). f v) (obj_put prec k v' ob)) + f v = sum_list (map (\<lambda>(k, v). f v) ob) + f v'"
  using assms
proof (induction ob)
  case Nil
  then show ?case by (simp add: obj_get_def)
next
  case (Cons e ob)
  obtain k1 v1 where e: "e = (k1, v1)" by (cases e)
  show ?case
  proof (cases "k = k1")
    case True
    with Cons.prems(2) e show ?thesis by (simp add: obj_get_def)
  next
    case False
    with Cons.prems(2) e have g: "obj_get ob k = Some v" by (simp add: obj_get_def)
    then have "k \<in> set (obj_keys ob)" by (auto simp: obj_keys_get)
    with Cons.prems(1) e have "\<not> prec k k1" and "obj_wf prec ob"
      by (auto simp: obj_wf_def obj_keys_def)
    with Cons.IH g False e show ?thesis by simp
  qed
qed

lemma sum_obj_del:
  fixes f :: "'v \<Rightarrow> nat"
  assumes "obj_wf prec ob" and "obj_get ob k = Some v"
  shows "sum_list (map (\<lambda>(k, v). f v) (obj_del k ob)) + f v = sum_list (map (\<lambda>(k, v). f v) ob)"
  using assms
proof (induction ob)
  case Nil
  then show ?case by (simp add: obj_get_def)
next
  case (Cons e ob)
  obtain k1 v1 where e: "e = (k1, v1)" by (cases e)
  have wf: "obj_wf prec ob" using Cons.prems(1) by (simp add: obj_wf_def obj_keys_def)
  show ?case
  proof (cases "k = k1")
    case True
    with Cons.prems e have "v1 = v" "k \<notin> fst ` set ob"
      by (auto simp: obj_get_def obj_wf_def obj_keys_def)
    then have "obj_del k ob = ob" unfolding obj_del_def by (intro filter_True) force
    with True e \<open>v1 = v\<close> show ?thesis by (simp add: obj_del_def)
  next
    case False
    with Cons.prems(2) e have "obj_get ob k = Some v" by (simp add: obj_get_def)
    with Cons.IH wf False e show ?thesis by (simp add: obj_del_def)
  qed
qed

lemma sum_obj_put_new:
  fixes f :: "'v \<Rightarrow> nat"
  shows "obj_get ob k = None \<Longrightarrow>
    sum_list (map (\<lambda>(k, v). f v) (obj_put prec k v' ob)) = sum_list (map (\<lambda>(k, v). f v) ob) + f v'"
  by (induction ob) (auto simp: obj_get_def split: if_splits)

end
