(* ===== verification/WorkflowTypes.thy ===== *)
theory WorkflowTypes
  imports Prelude
begin

text \<open>
  The data model of packages/workflow/src/Interfaces.ts: connections, nodes, node types,
  the items that flow between nodes and the record of one execution.  Optional fields
  are options (or slots where the code tells undefined from null); an object keyed by
  names is an \<open>obj\<close>; fields no modelled code reads keep an opaque JSON value.
\<close>

section \<open>Connections\<close>

datatype NodeConnectionType =
    AiAgent | AiChain | AiDocument | AiEmbedding | AiLanguageModel | AiMemory
  | AiOutputParser | AiRetriever | AiTextSplitter | AiTool | AiVectorStore | MainConn

record IConnection =
  conn_node :: string
  conn_type :: NodeConnectionType
  conn_index :: nat

type_synonym NodeInputConnections = "IConnection list list"
type_synonym INodeConnections = "(NodeConnectionType, NodeInputConnections) obj"
type_synonym IConnections = "INodeConnections str_obj"

record INodeConnection =
  sourceIndex :: nat
  destinationIndex :: nat

record IConnectedNode =
  cn_name :: string
  cn_indicies :: "nat list"
  cn_depth :: nat

section \<open>Nodes and node types\<close>

datatype OnError = ContinueErrorOutput | ContinueRegularOutput | StopWorkflow

record INode =
  node_id :: string
  node_name :: string
  typeVersion :: number
  node_type :: string
  position :: "number \<times> number"
  disabled :: "bool option"
  node_notes :: "string option"
  notesInFlow :: "bool option"
  retryOnFail :: "bool option"
  maxTries :: "int option"
  waitBetweenTries :: "int option"
  alwaysOutputData :: "bool option"
  executeOnce :: "bool option"
  onError :: "OnError option"
  continueOnFail :: "bool option"
  parameters :: IDataObject
  credentials :: jval
  webhookId :: "string option"
  extendsCredential :: "string option"

type_synonym INodes = "INode str_obj"

record INodeOutputConfiguration =
  out_category_error :: bool
  out_displayName :: "string option"
  out_type :: NodeConnectionType

text \<open>An output (or input) is a plain type name or a configuration with a type.\<close>

datatype NodeOutput = OutName NodeConnectionType | OutConfig INodeOutputConfiguration

text \<open>Inputs, outputs and required inputs are a list or an expression over the node.\<close>

datatype NodeOutputs = OutputList "NodeOutput list" | OutputExpression string

datatype RequiredInputs = RequiredList "nat list" | RequiredCount nat | RequiredExpression string

record INodeTypeDescription =
  type_name :: string
  type_inputs :: NodeOutputs
  requiredInputs :: "RequiredInputs option"
  type_outputs :: NodeOutputs

text \<open>
  Of a node type's methods the modelled code asks first of all which are defined.
\<close>

record INodeType =
  description :: INodeTypeDescription
  has_execute :: bool
  has_poll :: bool
  has_trigger :: bool
  has_webhook :: bool

text \<open>\<open>INodeTypes.getByNameAndVersion\<close>: the registry the host passes in.\<close>

type_synonym INodeTypes = "string \<Rightarrow> number \<Rightarrow> INodeType option"

section \<open>Items and their provenance\<close>

record ISourceData =
  previousNode :: string
  previousNodeOutput :: "nat option"
  previousNodeRun :: "nat option"

record IPairedItemData =
  pi_item :: nat
  pi_input :: "nat option"
  pi_sourceOverwrite :: "ISourceData option"

datatype PairedItem =
    PairedNumber nat
  | PairedOne IPairedItemData
  | PairedMany "IPairedItemData list"

record INodeExecutionData =
  json :: IDataObject
  binary :: jval
  item_error :: jval
  pairedItem :: "PairedItem option"
  item_index :: "nat option"

type_synonym items = "INodeExecutionData list"
type_synonym ITaskDataConnections = "(NodeConnectionType, items slot list) obj"
type_synonym ITaskDataConnectionsSource = "(NodeConnectionType, ISourceData slot list) obj"

definition empty_item :: INodeExecutionData where
  "empty_item = \<lparr>json = [], binary = JUndef, item_error = JUndef, pairedItem = None, item_index = None\<rparr>"

section \<open>Execution data\<close>

datatype WorkflowExecuteMode =
    ModeCli | ModeError | ModeIntegrated | ModeInternal | ModeManual | ModeRetry
  | ModeTrigger | ModeWebhook

datatype ExecutionStatus =
    Canceled | Crashed | StatusError | New | Running | Success | Unknown | Waiting

record ExecutionError =
  err_name :: string
  err_message :: string

record IExecuteData =
  exec_data :: ITaskDataConnections
  exec_node :: INode
  exec_source :: "ITaskDataConnectionsSource option"

record ITaskData =
  startTime :: int
  executionTime :: int
  executionStatus :: "ExecutionStatus option"
  task_data :: "ITaskDataConnections option"
  task_error :: "ExecutionError option"
  hints :: "string list"
  task_source :: "ISourceData slot list"
  task_metadata :: "jval option"

type_synonym IRunData = "ITaskData list str_obj"
type_synonym IPinData = "items str_obj"
type_synonym IWaitingForExecution = "ITaskDataConnections nat_obj str_obj"
type_synonym IWaitingForExecutionSource = "ITaskDataConnectionsSource nat_obj str_obj"

record StartData =
  destinationNode :: "string option"
  runNodeFilter :: "string list option"

record ResultData =
  result_error :: "ExecutionError option"
  runData :: IRunData
  pinData :: "IPinData option"
  lastNodeExecuted :: "string option"

record ExecutionData =
  contextData :: "IDataObject str_obj"
  nodeExecutionStack :: "IExecuteData list"
  exec_metadata :: "jval list str_obj"
  waitingExecution :: IWaitingForExecution
  waitingExecutionSource :: "IWaitingForExecutionSource option"

record IRunExecutionData =
  startData :: "StartData option"
  resultData :: ResultData
  executionData :: ExecutionData
  waitTill :: "int option"

record StartNodeData =
  start_name :: string
  start_sourceData :: "ISourceData option"

record IRun =
  run_data :: IRunExecutionData
  run_finished :: bool
  run_mode :: WorkflowExecuteMode
  run_waitTill :: "int option"
  startedAt :: int
  stoppedAt :: int
  run_status :: ExecutionStatus

section \<open>Workflows\<close>

datatype ExecutionOrder = OrderV0 | OrderV1

record Workflow =
  wf_id :: string
  wf_name :: "string option"
  nodes :: INodes
  connectionsBySourceNode :: IConnections
  connectionsByDestinationNode :: IConnections
  wf_active :: bool
  executionOrder :: "ExecutionOrder option"
  wf_pinData :: "IPinData option"
  staticData :: "IDataObject str_obj"
  testStaticData :: "IDataObject str_obj option"

text \<open>
  Property reads with JavaScript's result for a missing key, and the nodes every
  example of the development builds on.
\<close>

definition is_disabled :: "INode \<Rightarrow> bool" where
  "is_disabled n = (disabled n = Some True)"

definition mk_node :: "string \<Rightarrow> string \<Rightarrow> INode" where
  "mk_node nm ty =
     \<lparr>node_id = nm, node_name = nm, typeVersion = 1, node_type = ty, position = (0, 0),
      disabled = None, node_notes = None, notesInFlow = None, retryOnFail = None, maxTries = None,
      waitBetweenTries = None, alwaysOutputData = None, executeOnce = None, onError = None,
      continueOnFail = None, parameters = [], credentials = JUndef, webhookId = None,
      extendsCredential = None\<rparr>"

end
