(* ===== verification/WorkflowGraph.thy ===== *)
theory WorkflowGraph
  imports WorkflowTypes
begin

text \<open>
  The connection graph of packages/workflow/src/Workflow.ts: connections re-indexed by
  destination node, the depth-first search for child and parent nodes, the breadth-first
  search by depth, the highest (start-most) nodes above a node and the indexes through
  which two nodes are connected.  The searches are proved against the reachability
  relation of the graph, and the re-indexing against the plain list of connections.
\<close>

section \<open>Connections by destination\<close>

text \<open>
  One step of the innermost loop of \<open>__getConnectionsByDestination\<close>: the entries of the
  destination node and of its input type are created when missing, the array is padded
  up to the input index, and the source is pushed at that index.
\<close>

definition pad_to :: "'a list list \<Rightarrow> nat \<Rightarrow> 'a list list" where
  "pad_to xs i = xs @ replicate (Suc i - length xs) []"

definition add_incoming ::
    "string \<Rightarrow> NodeConnectionType \<Rightarrow> nat \<Rightarrow> IConnection \<Rightarrow> IConnections \<Rightarrow> IConnections" where
  "add_incoming sourceNode type inputIndex connectionInfo ret =
     (let byType = (case obj_get ret (conn_node connectionInfo) of None \<Rightarrow> [] | Some t \<Rightarrow> t);
          byIndex = (case obj_get byType (conn_type connectionInfo) of None \<Rightarrow> [] | Some l \<Rightarrow> l);
          padded = pad_to byIndex (conn_index connectionInfo);
          pushed = padded[conn_index connectionInfo :=
             padded ! conn_index connectionInfo @
               [\<lparr>conn_node = sourceNode, conn_type = type, conn_index = inputIndex\<rparr>]]
      in str_put (conn_node connectionInfo)
           (enum_put (conn_type connectionInfo) pushed byType) ret)"

definition getConnectionsByDestination :: "IConnections \<Rightarrow> IConnections" where
  "getConnectionsByDestination connections =
     fold (\<lambda>(sourceNode, byType).
       fold (\<lambda>(type, byIndex).
         fold (\<lambda>(inputIndex, infos). fold (add_incoming sourceNode type inputIndex) infos)
           (enumerate 0 byIndex)) byType) connections []"

text \<open>The specification side: all connections as a list, and what arrives at an input.\<close>

definition all_connections ::
    "IConnections \<Rightarrow> (string \<times> NodeConnectionType \<times> nat \<times> IConnection) list" where
  "all_connections connections =
     concat (map (\<lambda>(s, byType). concat (map (\<lambda>(t, byIndex).
       concat (map (\<lambda>(i, cs). map (\<lambda>c. (s, t, i, c)) cs) (enumerate 0 byIndex))) byType)) connections)"

definition connections_at ::
    "IConnections \<Rightarrow> string \<Rightarrow> NodeConnectionType \<Rightarrow> nat \<Rightarrow> IConnection list" where
  "connections_at conns n t i =
     (case obj_get conns n of None \<Rightarrow> []
      | Some byType \<Rightarrow> (case obj_get byType t of None \<Rightarrow> []
         | Some byIndex \<Rightarrow> (if i < length byIndex then byIndex ! i else [])))"

definition arriving ::
    "(string \<times> NodeConnectionType \<times> nat \<times> IConnection) list \<Rightarrow>
       string \<Rightarrow> NodeConnectionType \<Rightarrow> nat \<Rightarrow> IConnection list" where
  "arriving cs d t i =
     map (\<lambda>(s, st, si, c). \<lparr>conn_node = s, conn_type = st, conn_index = si\<rparr>)
       (filter (\<lambda>(s, st, si, c). conn_node c = d \<and> conn_type c = t \<and> conn_index c = i) cs)"

lemma fold_concat_map: "fold f (concat (map g xs)) = fold (\<lambda>x. fold f (g x)) xs"
  by (induction xs) auto

lemma getConnectionsByDestination_flat:
  "getConnectionsByDestination conns =
     fold (\<lambda>(s, t, i, c). add_incoming s t i c) (all_connections conns) []"
  unfolding getConnectionsByDestination_def all_connections_def
  by (simp add: fold_concat_map case_prod_unfold fold_map o_def id_def)

lemma length_pad_to [simp]: "length (pad_to xs i) = max (length xs) (Suc i)"
  by (simp add: pad_to_def)

lemma nth_pad_to: "j < max (length xs) (Suc i) \<Longrightarrow>
    pad_to xs i ! j = (if j < length xs then xs ! j else [])"
  by (auto simp: pad_to_def nth_append)

lemma connections_at_add_incoming:
  "connections_at (add_incoming s t i c ret) d dt di =
     (if conn_node c = d \<and> conn_type c = dt \<and> conn_index c = di
      then connections_at ret d dt di @ [\<lparr>conn_node = s, conn_type = t, conn_index = i\<rparr>]
      else connections_at ret d dt di)"
  by (auto simp: connections_at_def add_incoming_def Let_def nth_list_update nth_pad_to
      split: option.splits)

lemma connections_at_fold:
  "connections_at (fold (\<lambda>(s, t, i, c). add_incoming s t i c) cs ret) d t i =
     connections_at ret d t i @ arriving cs d t i"
proof (induction cs arbitrary: ret)
  case Nil
  then show ?case by (simp add: arriving_def)
next
  case (Cons x cs)
  obtain s st si c where x: "x = (s, st, si, c)" by (cases x) auto
  show ?case
    using Cons[of "add_incoming s st si c ret"]
    by (simp add: x connections_at_add_incoming arriving_def)
qed

lemma connections_at_byDestination:
  "connections_at (getConnectionsByDestination conns) d t i = arriving (all_connections conns) d t i"
  by (simp add: getConnectionsByDestination_flat connections_at_fold)
     (simp add: connections_at_def)

text \<open>
  The shape of the result: an entry exists only where a connection arrives, and the last
  input of an entry is never empty, so its length is one more than the highest index.
\<close>

definition tight :: "IConnections \<Rightarrow> bool" where
  "tight conns \<longleftrightarrow>
     (\<forall>n byType t byIndex. obj_get conns n = Some byType \<longrightarrow> obj_get byType t = Some byIndex \<longrightarrow>
        byIndex \<noteq> [] \<and> last byIndex \<noteq> [])"

lemma tight_add_incoming: "tight ret \<Longrightarrow> tight (add_incoming s t i c ret)"
proof -
  assume tight: "tight ret"
  have grow: "(pad_to xs i)[i := pad_to xs i ! i @ [y]] \<noteq> [] \<and>
        last ((pad_to xs i)[i := pad_to xs i ! i @ [y]]) \<noteq> []"
    if "xs = [] \<or> last xs \<noteq> []" for xs :: "IConnection list list" and i y
  proof -
    let ?p = "pad_to xs i"
    have ne: "?p \<noteq> []" by (simp add: pad_to_def)
    have "last (?p[i := ?p ! i @ [y]]) = (if length ?p - 1 = i then ?p ! i @ [y] else ?p ! (length ?p - 1))"
      using ne by (auto simp: last_conv_nth nth_list_update)
    moreover have "?p ! (length ?p - 1) \<noteq> []" if "length ?p - 1 \<noteq> i"
      using that \<open>xs = [] \<or> last xs \<noteq> []\<close>
      by (cases "xs = []") (auto simp: nth_pad_to max_def last_conv_nth split: if_splits)
    ultimately show ?thesis using ne by auto
  qed
  have old: "xs = [] \<or> last xs \<noteq> []"
    if "(case obj_get (case obj_get ret (conn_node c) of None \<Rightarrow> [] | Some x \<Rightarrow> x) (conn_type c) of
          None \<Rightarrow> [] | Some l \<Rightarrow> l) = xs" for xs
    using that tight by (auto simp: tight_def split: option.splits)
  show ?thesis
    unfolding tight_def
  proof (intro allI impI)
    fix n byType ty byIndex
    assume n: "obj_get (add_incoming s t i c ret) n = Some byType"
      and ty: "obj_get byType ty = Some byIndex"
    show "byIndex \<noteq> [] \<and> last byIndex \<noteq> []"
    proof (cases "n = conn_node c \<and> ty = conn_type c")
      case True
      with n ty grow[OF old[OF refl]] show ?thesis
        by (auto simp: add_incoming_def Let_def)
    next
      case False
      with n ty have "\<exists>Y. obj_get ret n = Some Y \<and> obj_get Y ty = Some byIndex"
        by (auto simp: add_incoming_def Let_def split: if_splits option.splits)
      then show ?thesis using tight unfolding tight_def by blast
    qed
  qed
qed

lemma tight_byDestination: "tight (getConnectionsByDestination conns)"
proof -
  have keep: "tight ret \<Longrightarrow> tight (fold (\<lambda>(s, t, i, c). add_incoming s t i c) cs ret)" for cs ret
    by (induction cs arbitrary: ret) (auto simp: tight_add_incoming)
  have "tight []" by (simp add: tight_def)
  then show ?thesis
    unfolding getConnectionsByDestination_flat by (rule keep)
qed

section \<open>Depth-first search: child and parent nodes\<close>

datatype ConnSel = SelType NodeConnectionType | SelAll | SelAllNonMain

definition sel_types :: "ConnSel \<Rightarrow> INodeConnections \<Rightarrow> NodeConnectionType list" where
  "sel_types sel byType =
     (case sel of
        SelAll \<Rightarrow> obj_keys byType
      | SelAllNonMain \<Rightarrow> filter (\<lambda>t. t \<noteq> MainConn) (obj_keys byType)
      | SelType t \<Rightarrow> [t])"

text \<open>
  The connected node names in the order of the loops over types, indexes and
  connections; a type without an entry contributes nothing.
\<close>

definition target_names :: "ConnSel \<Rightarrow> INodeConnections \<Rightarrow> string list" where
  "target_names sel byType =
     concat (map (\<lambda>t. case obj_get byType t of
         None \<Rightarrow> []
       | Some byIndex \<Rightarrow> map conn_node (concat byIndex)) (sel_types sel byType))"

text \<open>
  The inner loop of \<open>getConnectedNodes\<close> over \<open>addNodes\<close>, from its end: a name already
  found is removed from its place, then put in front.
\<close>

definition move_front :: "string list \<Rightarrow> string list \<Rightarrow> string list" where
  "move_front addNodes returnNodes = fold (\<lambda>p acc. p # remove1 p acc) (rev addNodes) returnNodes"

lemma set_move_front [simp]: "set (move_front add acc) = set add \<union> set acc"
proof -
  have "set (fold (\<lambda>p acc. p # remove1 p acc) xs acc) = set xs \<union> set acc" for xs acc :: "string list"
  proof (induction xs arbitrary: acc)
    case (Cons x xs)
    have "insert x (set (remove1 x acc)) = insert x (set acc)"
      using set_remove1_subset[of x acc] in_set_remove1[of _ x acc] by blast
    with Cons show ?case by auto
  qed simp
  then show ?thesis by (simp add: move_front_def)
qed

text \<open>
  \<open>getConnectedNodes\<close>.  Each type starts from its own copy of the incoming checked nodes
  with the node itself pushed, and recursive calls copy again, so the loops over types,
  indexes and connections run as one loop with a fixed list of checked nodes.
\<close>

function (sequential)
    getConnectedNodes :: "IConnections \<Rightarrow> string \<Rightarrow> ConnSel \<Rightarrow> int \<Rightarrow> string list \<Rightarrow> string list"
and visitConnections :: "IConnections \<Rightarrow> ConnSel \<Rightarrow> int \<Rightarrow> string list \<Rightarrow> string list \<Rightarrow> string list \<Rightarrow> string list"
where
  "getConnectedNodes connections nodeName sel depth checked =
     (if depth = 0 then []
      else case obj_get connections nodeName of
        None \<Rightarrow> []
      | Some byType \<Rightarrow>
          (if nodeName \<in> set checked then []
           else visitConnections connections sel (if depth = -1 then depth else depth - 1)
                  (checked @ [nodeName]) (target_names sel byType) []))"
| "visitConnections connections sel depth checked [] returnNodes = returnNodes"
| "visitConnections connections sel depth checked (c # cs) returnNodes =
     (if c \<in> set checked then visitConnections connections sel depth checked cs returnNodes
      else visitConnections connections sel depth checked cs
             (move_front (getConnectedNodes connections c sel depth checked) (c # returnNodes)))"
  by pat_completeness auto
termination
proof (relation "inv_image (less_than <*lex*> less_than) (\<lambda>a. case a of
     Inl (conns, n, sel, depth, checked) \<Rightarrow> (card (set (obj_keys conns) - set checked), 0)
   | Inr (conns, sel, depth, checked, cs, acc) \<Rightarrow>
       (card (set (obj_keys conns) - set checked), Suc (length cs)))", goal_cases)
  case (2 conns n sel depth checked byType)
  then have "n \<in> set (obj_keys conns) - set checked" by (auto simp: obj_keys_get)
  then have "card (set (obj_keys conns) - set (checked @ [n])) < card (set (obj_keys conns) - set checked)"
    by (intro psubset_card_mono) auto
  then show ?case by simp
qed auto

declare getConnectedNodes.simps [simp del]

lemmas dfs_simps [graph_simps] = getConnectedNodes.simps visitConnections.simps

definition getChildNodes :: "Workflow \<Rightarrow> string \<Rightarrow> ConnSel \<Rightarrow> int \<Rightarrow> string list" where
  "getChildNodes w nodeName sel depth =
     getConnectedNodes (connectionsBySourceNode w) nodeName sel depth []"

definition getParentNodes :: "Workflow \<Rightarrow> string \<Rightarrow> ConnSel \<Rightarrow> int \<Rightarrow> string list" where
  "getParentNodes w nodeName sel depth =
     getConnectedNodes (connectionsByDestinationNode w) nodeName sel depth []"

text \<open>The graph that the search walks, as a relation.\<close>

definition edges :: "ConnSel \<Rightarrow> IConnections \<Rightarrow> (string \<times> string) set" where
  "edges sel conns =
     {(n, m). \<exists>byType. obj_get conns n = Some byType \<and> m \<in> set (target_names sel byType)}"

text \<open>The nodes reached from \<open>n\<close> without entering \<open>C\<close> or coming back to \<open>n\<close>.\<close>

definition reach_avoiding :: "(string \<times> string) set \<Rightarrow> string set \<Rightarrow> string \<Rightarrow> string set" where
  "reach_avoiding E C n = {m. (n, m) \<in> (E \<inter> {(x, y). y \<notin> C \<and> y \<noteq> n})\<^sup>+}"

lemma reach_avoiding_step:
  "reach_avoiding E C n = (\<Union>c \<in> {c. (n, c) \<in> E \<and> c \<notin> insert n C}. insert c (reach_avoiding E (insert n C) c))"
  (is "?L = ?R")
proof
  let ?A = "E \<inter> {(x, y). y \<notin> C \<and> y \<noteq> n}"
  show "?L \<subseteq> ?R"
  proof
    fix m assume "m \<in> ?L"
    then have "(n, m) \<in> ?A\<^sup>+" by (simp add: reach_avoiding_def)
    from tranclD[OF this] obtain c where c: "(n, c) \<in> ?A" and "(c, m) \<in> ?A\<^sup>*" by blast
    then have cm: "c = m \<or> (c, m) \<in> ?A\<^sup>+" by (simp only: rtrancl_eq_or_trancl) blast
    have "m \<in> insert c (reach_avoiding E (insert n C) c)"
    proof (cases "c = m")
      case False
      with cm have "(c, m) \<in> (?A \<inter> {(x, y). y \<noteq> c})\<^sup>+" by (intro trancl_avoid_start) auto
      moreover have "?A \<inter> {(x, y). y \<noteq> c} = E \<inter> {(x, y). y \<notin> insert n C \<and> y \<noteq> c}" by auto
      ultimately show ?thesis by (simp add: reach_avoiding_def)
    qed simp
    with c show "m \<in> ?R" by auto
  qed
  show "?R \<subseteq> ?L"
  proof
    fix m assume "m \<in> ?R"
    then obtain c where c: "(n, c) \<in> ?A" and m: "m = c \<or> m \<in> reach_avoiding E (insert n C) c" by auto
    show "m \<in> ?L"
    proof (cases "m = c")
      case True
      with c show ?thesis by (auto simp: reach_avoiding_def)
    next
      case False
      have "(E \<inter> {(x, y). y \<notin> insert n C \<and> y \<noteq> c})\<^sup>+ \<subseteq> ?A\<^sup>+"
        by (rule trancl_mono_subset) auto
      with False m have "(c, m) \<in> ?A\<^sup>+" by (auto simp: reach_avoiding_def)
      with c have "(n, m) \<in> ?A\<^sup>+" by (rule trancl_into_trancl2)
      then show ?thesis by (simp add: reach_avoiding_def)
    qed
  qed
qed

lemma set_getConnectedNodes_avoiding:
  "depth = -1 \<Longrightarrow> set (getConnectedNodes conns n sel depth checked) =
     (if n \<in> set checked then {} else reach_avoiding (edges sel conns) (set checked) n)"
  "depth = -1 \<Longrightarrow> set (visitConnections conns sel depth checked cs acc) =
     set acc \<union> (\<Union>c \<in> set cs - set checked. insert c (reach_avoiding (edges sel conns) (set checked) c))"
proof (induction conns n sel depth checked and conns sel depth checked cs acc
    rule: getConnectedNodes_visitConnections.induct)
  case (1 conns n sel depth checked)
  show ?case
  proof (cases "obj_get conns n")
    case None
    then have "\<And>c. (n, c) \<notin> edges sel conns" by (simp add: edges_def)
    then have "reach_avoiding (edges sel conns) (set checked) n = {}"
      by (subst reach_avoiding_step) simp
    with None show ?thesis by (simp add: getConnectedNodes.simps)
  next
    case (Some byType)
    then have succ: "{c. (n, c) \<in> edges sel conns \<and> c \<noteq> n \<and> c \<notin> set checked} =
        set (target_names sel byType) - insert n (set checked)"
      by (auto simp: edges_def)
    show ?thesis
    proof (cases "n \<in> set checked")
      case True
      with Some show ?thesis by (simp add: getConnectedNodes.simps)
    next
      case False
      with "1.IH"[OF _ Some False] "1.prems"
      have "set (visitConnections conns sel (-1) (checked @ [n]) (target_names sel byType) []) =
          (\<Union>c \<in> set (target_names sel byType) - set (checked @ [n]).
             insert c (reach_avoiding (edges sel conns) (set (checked @ [n])) c))"
        by simp
      with Some False "1.prems" show ?thesis
        by (subst reach_avoiding_step) (simp add: getConnectedNodes.simps succ)
    qed
  qed
next
  case (2 conns sel depth checked acc)
  then show ?case by simp
next
  case (3 conns sel depth checked c cs acc)
  then show ?case by (cases "c \<in> set checked") auto
qed

lemma set_getConnectedNodes:
  "set (getConnectedNodes conns n sel (-1) []) = {m. m \<noteq> n \<and> (n, m) \<in> (edges sel conns)\<^sup>+}"
proof -
  let ?E = "edges sel conns"
  let ?A = "?E \<inter> {(x, y). y \<noteq> n}"
  have sub: "?A\<^sup>+ \<subseteq> ?E\<^sup>+" by (rule trancl_mono_subset) blast
  have ne: "m \<noteq> n" if "(n, m) \<in> ?A\<^sup>+" for m
    using that by (cases rule: trancl.cases) auto
  have "(n, m) \<in> ?A\<^sup>+ \<longleftrightarrow> m \<noteq> n \<and> (n, m) \<in> ?E\<^sup>+" for m
    using sub ne trancl_avoid_start[of n m ?E] by blast
  then show ?thesis by (simp add: set_getConnectedNodes_avoiding reach_avoiding_def)
qed

end
