(* ===== verification/GraphSearch.thy ===== *)
theory GraphSearch
  imports WorkflowGraph
begin

text \<open>
  The searches of Workflow.ts that share state across their recursion: the breadth-first
  search by depth, the highest nodes above a node, and the connection indexes between two
  nodes; and the duality of the two connection indexes that all of them rely on.
\<close>

section \<open>The two indexes are converse graphs\<close>

lemma enumerate_mem: "(i, x) \<in> set (enumerate 0 xs) \<longleftrightarrow> i < length xs \<and> xs ! i = x"
  by (auto simp: in_set_enumerate_eq)

lemma all_connections_mem:
  "(s, t, i, c) \<in> set (all_connections conns) \<longleftrightarrow>
     (\<exists>byType byIndex. (s, byType) \<in> set conns \<and> (t, byIndex) \<in> set byType \<and>
        i < length byIndex \<and> c \<in> set (byIndex ! i))"
  by (fastforce simp: all_connections_def enumerate_mem)

definition conns_wf :: "IConnections \<Rightarrow> bool" where
  "conns_wf conns =
     (obj_wf str_before conns \<and> (\<forall>n byType. (n, byType) \<in> set conns \<longrightarrow> obj_wf never_before byType))"

lemma obj_get_mem: "distinct (obj_keys ob) \<Longrightarrow> obj_get ob k = Some v \<longleftrightarrow> (k, v) \<in> set ob"
  by (simp add: obj_get_def obj_keys_def)

lemma obj_get_memD: "obj_get ob k = Some v \<Longrightarrow> (k, v) \<in> set ob"
  by (simp add: obj_get_def map_of_SomeD)

lemma edges_SelType:
  assumes "conns_wf conns"
  shows "(s, d) \<in> edges (SelType t) conns \<longleftrightarrow>
           (\<exists>i c. (s, t, i, c) \<in> set (all_connections conns) \<and> conn_node c = d)"
proof -
  have d1: "distinct (obj_keys conns)" and
    d2: "\<And>n byType. (n, byType) \<in> set conns \<Longrightarrow> distinct (obj_keys byType)"
    using assms by (auto simp: conns_wf_def obj_wf_def)
  have "(s, d) \<in> edges (SelType t) conns \<longleftrightarrow>
      (\<exists>byType byIndex. obj_get conns s = Some byType \<and> obj_get byType t = Some byIndex \<and>
         d \<in> conn_node ` set (concat byIndex))"
    by (auto simp: edges_def target_names_def sel_types_def simp del: set_concat split: option.splits)
      force+
  also have "\<dots> \<longleftrightarrow>
      (\<exists>byType byIndex. (s, byType) \<in> set conns \<and> (t, byIndex) \<in> set byType \<and>
         d \<in> conn_node ` set (concat byIndex))"
    using d2 obj_get_mem[OF d2] by (simp only: obj_get_mem[OF d1]) blast
  also have "\<dots> \<longleftrightarrow> (\<exists>i c. (s, t, i, c) \<in> set (all_connections conns) \<and> conn_node c = d)"
  proof -
    have "d \<in> conn_node ` set (concat byIndex) \<longleftrightarrow>
        (\<exists>i < length byIndex. \<exists>c \<in> set (byIndex ! i). conn_node c = d)" for byIndex :: "IConnection list list"
    proof -
      have "d \<in> conn_node ` set (concat byIndex) \<longleftrightarrow> (\<exists>cs \<in> set byIndex. \<exists>c \<in> set cs. conn_node c = d)"
        by auto
      also have "\<dots> \<longleftrightarrow> (\<exists>i < length byIndex. \<exists>c \<in> set (byIndex ! i). conn_node c = d)"
        by (metis in_set_conv_nth)
      finally show ?thesis .
    qed
    then show ?thesis unfolding all_connections_mem by blast
  qed
  finally show ?thesis .
qed

lemma edges_connections_at:
  "(n, m) \<in> edges (SelType t) conns \<longleftrightarrow> (\<exists>i. m \<in> conn_node ` set (connections_at conns n t i))"
  by (force simp: edges_def target_names_def sel_types_def connections_at_def in_set_conv_nth
      split: option.splits)

lemma edges_byDestination:
  "(d, s) \<in> edges (SelType t) (getConnectionsByDestination conns) \<longleftrightarrow>
     (\<exists>st i c. (s, st, i, c) \<in> set (all_connections conns) \<and> conn_node c = d \<and> conn_type c = t)"
  unfolding edges_connections_at connections_at_byDestination
  by (force simp: arriving_def)

text \<open>Connections whose source and destination types agree, as the editor draws them.\<close>

definition well_typed :: "IConnections \<Rightarrow> bool" where
  "well_typed conns \<longleftrightarrow> (\<forall>(s, t, i, c) \<in> set (all_connections conns). conn_type c = t)"

lemma edges_converse:
  assumes "conns_wf conns" and "well_typed conns"
  shows "edges (SelType t) (getConnectionsByDestination conns) = (edges (SelType t) conns)\<inverse>"
proof -
  have ty: "conn_type c = st" if "(n, st, i, c) \<in> set (all_connections conns)" for n st i c
    using assms(2) that unfolding well_typed_def by blast
  have "(d, n) \<in> edges (SelType t) (getConnectionsByDestination conns) \<longleftrightarrow>
      (n, d) \<in> edges (SelType t) conns" for d n
    unfolding edges_byDestination edges_SelType[OF assms(1)] using ty by blast
  then show ?thesis by auto
qed

section \<open>Breadth-first search\<close>

text \<open>
  The state of \<open>searchNodesBFS\<close>.  \<open>returnConns\<close> holds the same objects as \<open>visited\<close>, so the
  names are kept in order and the entries are read back from \<open>visited\<close> at the end: a later
  visit that merges indexes changes the returned entry too.
\<close>

record BFSState =
  bfs_queue :: "IConnectedNode list"
  visited :: "IConnectedNode str_obj"
  returnNames :: "string list"

definition bfs_targets :: "IConnections \<Rightarrow> nat \<Rightarrow> string \<Rightarrow> IConnectedNode list" where
  "bfs_targets connections depth nm =
     (case obj_get connections nm of
        None \<Rightarrow> []
      | Some byType \<Rightarrow> (case obj_get byType MainConn of
          None \<Rightarrow> []
        | Some byIndex \<Rightarrow> map (\<lambda>c. \<lparr>cn_name = conn_node c, cn_indicies = [conn_index c], cn_depth = depth\<rparr>)
            (concat byIndex)))"

definition bfs_visit :: "IConnections \<Rightarrow> string \<Rightarrow> nat \<Rightarrow> IConnectedNode \<Rightarrow> BFSState \<Rightarrow> BFSState" where
  "bfs_visit connections sourceNode depth cur st =
     (case obj_get (visited st) (cn_name cur) of
        Some v \<Rightarrow> st\<lparr>visited := str_put (cn_name cur)
          (v\<lparr>cn_indicies := dedupe_list (cn_indicies v @ cn_indicies cur)\<rparr>) (visited st)\<rparr>
      | None \<Rightarrow>
          \<lparr>bfs_queue = bfs_queue st @ bfs_targets connections depth (cn_name cur),
           visited = str_put (cn_name cur) cur (visited st),
           returnNames = (if cn_name cur \<noteq> sourceNode then returnNames st @ [cn_name cur]
             else returnNames st)\<rparr>)"

definition bfs_level :: "IConnections \<Rightarrow> string \<Rightarrow> nat \<Rightarrow> BFSState \<Rightarrow> BFSState" where
  "bfs_level connections sourceNode depth st =
     fold (bfs_visit connections sourceNode depth) (bfs_queue st) (st\<lparr>bfs_queue := []\<rparr>)"

lemma bfs_visit_dom:
  "dom (obj_get (visited (bfs_visit conns src d cur st))) = insert (cn_name cur) (dom (obj_get (visited st)))"
  by (auto simp: bfs_visit_def split: option.splits)

lemma bfs_fold_dom:
  "dom (obj_get (visited (fold (bfs_visit conns src d) cs st))) = cn_name ` set cs \<union> dom (obj_get (visited st))"
  by (induction cs arbitrary: st) (auto simp: bfs_visit_dom)

lemma bfs_fold_progress:
  "bfs_queue (fold (bfs_visit conns src d) cs st) = bfs_queue st \<or>
   (\<exists>n \<in> set (obj_keys conns). n \<notin> dom (obj_get (visited st)) \<and> n \<in> cn_name ` set cs)"
proof (induction cs arbitrary: st)
  case Nil
  then show ?case by simp
next
  case (Cons c cs)
  show ?case
  proof (cases "bfs_queue (bfs_visit conns src d c st) = bfs_queue st")
    case True
    with Cons[of "bfs_visit conns src d c st"] show ?thesis
      by (auto simp: bfs_visit_dom)
  next
    case False
    then have "cn_name c \<in> set (obj_keys conns)" "cn_name c \<notin> dom (obj_get (visited st))"
      by (auto simp: bfs_visit_def bfs_targets_def obj_keys_get split: option.splits)
    then show ?thesis by auto
  qed
qed

function bfs_loop :: "IConnections \<Rightarrow> string \<Rightarrow> int \<Rightarrow> nat \<Rightarrow> BFSState \<Rightarrow> BFSState" where
  "bfs_loop connections sourceNode maxDepth depth st =
     (if bfs_queue st = [] then st
      else if maxDepth \<noteq> -1 \<and> int depth > maxDepth then st
      else bfs_loop connections sourceNode maxDepth (Suc depth)
             (bfs_level connections sourceNode (Suc depth) st))"
  by pat_completeness auto
termination
proof (relation "inv_image (less_than <*lex*> less_than) (\<lambda>(conns, src, md, d, st).
    (card (set (obj_keys conns) - dom (obj_get (visited st))), length (bfs_queue st)))", goal_cases)
  case (2 conns src md d st)
  let ?st = "bfs_level conns src (Suc d) st"
  let ?K = "set (obj_keys conns)"
  have sub: "?K - dom (obj_get (visited ?st)) \<subseteq> ?K - dom (obj_get (visited st))"
    by (auto simp: bfs_level_def bfs_fold_dom)
  show ?case
  proof (cases "bfs_queue ?st = []")
    case True
    with 2 sub show ?thesis
      using card_mono[OF _ sub] by (auto simp: le_less)
  next
    case False
    with bfs_fold_progress[of conns src "Suc d" "bfs_queue st" "st\<lparr>bfs_queue := []\<rparr>"]
    obtain n where "n \<in> ?K" "n \<notin> dom (obj_get (visited st))" "n \<in> cn_name ` set (bfs_queue st)"
      by (auto simp: bfs_level_def)
    then have "?K - dom (obj_get (visited ?st)) \<subset> ?K - dom (obj_get (visited st))"
      using sub by (auto simp: bfs_level_def bfs_fold_dom)
    then have "card (?K - dom (obj_get (visited ?st))) < card (?K - dom (obj_get (visited st)))"
      by (rule psubset_card_mono[rotated]) simp
    then show ?thesis by simp
  qed
qed auto

declare bfs_loop.simps [simp del]

definition bfs_init :: "string \<Rightarrow> BFSState" where
  "bfs_init src = \<lparr>bfs_queue = [\<lparr>cn_name = src, cn_indicies = [], cn_depth = 0\<rparr>],
     visited = [], returnNames = []\<rparr>"

definition searchNodesBFS :: "IConnections \<Rightarrow> string \<Rightarrow> int \<Rightarrow> IConnectedNode list" where
  "searchNodesBFS connections sourceNode maxDepth =
     (let st = bfs_loop connections sourceNode maxDepth 0 (bfs_init sourceNode)
      in map (\<lambda>n. the (obj_get (visited st) n)) (returnNames st))"

definition getParentNodesByDepth :: "Workflow \<Rightarrow> string \<Rightarrow> int \<Rightarrow> IConnectedNode list" where
  "getParentNodesByDepth w nodeName maxDepth =
     searchNodesBFS (connectionsByDestinationNode w) nodeName maxDepth"

text \<open>
  Correctness: the returned nodes are those within the depth bound, and the recorded
  depth is the distance from the source.
\<close>

definition dist_le :: "(string \<times> string) set \<Rightarrow> string \<Rightarrow> nat \<Rightarrow> string set" where
  "dist_le E src k = {m. \<exists>j \<le> k. (src, m) \<in> E ^^ j}"

definition dist_lt :: "(string \<times> string) set \<Rightarrow> string \<Rightarrow> nat \<Rightarrow> string set" where
  "dist_lt E src k = {m. \<exists>j < k. (src, m) \<in> E ^^ j}"

lemma dist_lt_Suc: "dist_lt E src (Suc k) = dist_le E src k"
  by (auto simp: dist_lt_def dist_le_def less_Suc_eq_le)

lemma dist_le_Suc: "dist_le E src (Suc k) = dist_le E src k \<union> E `` (dist_le E src k - dist_lt E src k)"
proof
  show "dist_le E src (Suc k) \<subseteq> dist_le E src k \<union> E `` (dist_le E src k - dist_lt E src k)"
  proof
    fix m assume "m \<in> dist_le E src (Suc k)"
    then obtain j where j: "j \<le> Suc k" "(src, m) \<in> E ^^ j" by (auto simp: dist_le_def)
    show "m \<in> dist_le E src k \<union> E `` (dist_le E src k - dist_lt E src k)"
    proof (cases "m \<in> dist_le E src k")
      case False
      with j have jk: "j = Suc k" by (auto simp: dist_le_def le_Suc_eq)
      with j obtain y where y: "(src, y) \<in> E ^^ k" "(y, m) \<in> E" by auto
      have "y \<notin> dist_lt E src k"
      proof
        assume "y \<in> dist_lt E src k"
        then obtain i where i: "i < k" "(src, y) \<in> E ^^ i" by (auto simp: dist_lt_def)
        with y have "(src, m) \<in> E ^^ Suc i" by auto
        moreover have "Suc i \<le> k" using i by simp
        ultimately show False using False unfolding dist_le_def by blast
      qed
      with y show ?thesis by (auto simp: dist_le_def)
    qed simp
  qed
  show "dist_le E src k \<union> E `` (dist_le E src k - dist_lt E src k) \<subseteq> dist_le E src (Suc k)"
  proof
    fix m assume "m \<in> dist_le E src k \<union> E `` (dist_le E src k - dist_lt E src k)"
    then consider "m \<in> dist_le E src k" | y j where "j \<le> k" "(src, y) \<in> E ^^ j" "(y, m) \<in> E"
      by (auto simp: dist_le_def)
    then show "m \<in> dist_le E src (Suc k)"
    proof cases
      case 1
      then show ?thesis by (auto simp: dist_le_def intro: le_SucI)
    next
      case 2
      then have "(src, m) \<in> E ^^ Suc j" "Suc j \<le> Suc k" by auto
      then show ?thesis unfolding dist_le_def by blast
    qed
  qed
qed

definition bfs_inv :: "(string \<times> string) set \<Rightarrow> string \<Rightarrow> nat \<Rightarrow> BFSState \<Rightarrow> bool" where
  "bfs_inv E src d st \<longleftrightarrow>
     dom (obj_get (visited st)) = dist_lt E src d \<and>
     dom (obj_get (visited st)) \<union> cn_name ` set (bfs_queue st) = dist_le E src d \<and>
     (\<forall>q \<in> set (bfs_queue st). cn_depth q = d) \<and>
     (\<forall>n v. obj_get (visited st) n = Some v \<longrightarrow>
        cn_name v = n \<and> n \<in> dist_le E src (cn_depth v) \<and> n \<notin> dist_lt E src (cn_depth v)) \<and>
     set (returnNames st) = dom (obj_get (visited st)) - {src} \<and> distinct (returnNames st)"

lemma bfs_targets_names:
  "cn_name ` set (bfs_targets conns d n) = edges (SelType MainConn) conns `` {n}"
  by (force simp: bfs_targets_def edges_def target_names_def sel_types_def split: option.splits)

lemma bfs_targets_depth: "q \<in> set (bfs_targets conns d n) \<Longrightarrow> cn_depth q = d"
  by (auto simp: bfs_targets_def split: option.splits)

lemma bfs_visit_fields:
  "bfs_queue (bfs_visit conns src d c st) =
     (if obj_get (visited st) (cn_name c) = None
      then bfs_queue st @ bfs_targets conns d (cn_name c) else bfs_queue st)"
  "obj_get (visited (bfs_visit conns src d c st)) n =
     (if n = cn_name c then Some (case obj_get (visited st) n of None \<Rightarrow> c
        | Some v \<Rightarrow> v\<lparr>cn_indicies := dedupe_list (cn_indicies v @ cn_indicies c)\<rparr>)
      else obj_get (visited st) n)"
  "returnNames (bfs_visit conns src d c st) =
     (if obj_get (visited st) (cn_name c) = None \<and> cn_name c \<noteq> src
      then returnNames st @ [cn_name c] else returnNames st)"
  by (auto simp: bfs_visit_def split: option.splits)

lemma bfs_visit_queue_names:
  "cn_name ` set (bfs_queue (bfs_visit conns src d c st)) = cn_name ` set (bfs_queue st) \<union>
     (if obj_get (visited st) (cn_name c) = None then edges (SelType MainConn) conns `` {cn_name c} else {})"
  by (cases "obj_get (visited st) (cn_name c)")
    (simp_all add: bfs_visit_fields image_Un bfs_targets_names)

lemma bfs_fold_state:
  fixes conns :: IConnections
  defines "E \<equiv> edges (SelType MainConn) conns"
  assumes "set (returnNames st) \<subseteq> dom (obj_get (visited st))" and "distinct (returnNames st)"
  shows "cn_name ` set (bfs_queue (fold (bfs_visit conns src d) cs st)) =
       cn_name ` set (bfs_queue st) \<union> E `` (cn_name ` set cs - dom (obj_get (visited st)))"
    and "(\<forall>q \<in> set (bfs_queue (fold (bfs_visit conns src d) cs st)). q \<in> set (bfs_queue st) \<or> cn_depth q = d)"
    and "obj_get (visited (fold (bfs_visit conns src d) cs st)) n = Some v \<Longrightarrow>
       (case obj_get (visited st) n of
          Some u \<Rightarrow> cn_name v = cn_name u \<and> cn_depth v = cn_depth u
        | None \<Rightarrow> cn_name v = n \<and> (\<exists>c \<in> set cs. cn_name c = n \<and> cn_depth v = cn_depth c))"
    and "set (returnNames (fold (bfs_visit conns src d) cs st)) =
       set (returnNames st) \<union> (cn_name ` set cs - dom (obj_get (visited st)) - {src}) \<and>
       distinct (returnNames (fold (bfs_visit conns src d) cs st))"
  using assms(2,3)
proof (induction cs arbitrary: st)
  case Nil
  {
    case 1 show ?case by simp
  next
    case 2 show ?case by simp
  next
    case 3 then show ?case by simp
  next
    case 4 then show ?case by simp
  }
next
  case (Cons c cs)
  have pre: "set (returnNames (bfs_visit conns src d c st)) \<subseteq> dom (obj_get (visited (bfs_visit conns src d c st)))"
      "distinct (returnNames (bfs_visit conns src d c st))"
    if "set (returnNames st) \<subseteq> dom (obj_get (visited st))" "distinct (returnNames st)" for st
    using that by (auto simp: bfs_visit_fields)
  {
    case 1
    show ?case
      using Cons.IH(1)[OF pre[OF 1]] bfs_visit_queue_names[of conns src d c st]
      by (auto simp: E_def bfs_visit_dom split: if_splits)
  next
    case 2
    have "q \<in> set (bfs_queue (bfs_visit conns src d c st)) \<Longrightarrow> q \<in> set (bfs_queue st) \<or> cn_depth q = d" for q
      by (auto simp: bfs_visit_fields bfs_targets_depth split: if_splits)
    with Cons.IH(2)[OF pre[OF 2]] show ?case by auto
  next
    case 3
    have "obj_get (visited (fold (bfs_visit conns src d) cs (bfs_visit conns src d c st))) n = Some v"
      using 3(1) by simp
    from Cons.IH(3)[OF this pre[OF 3(2,3)]] show ?case
      by (auto simp: bfs_visit_fields split: option.splits if_splits)
  next
    case 4
    show ?case
      using Cons.IH(4)[OF pre[OF 4]] by (auto simp: bfs_visit_fields(3) bfs_visit_dom split: if_splits)
  }
qed

lemma bfs_level_inv:
  fixes conns :: IConnections
  defines "E \<equiv> edges (SelType MainConn) conns"
  assumes inv: "bfs_inv E src d st"
  shows "bfs_inv E src (Suc d) (bfs_level conns src (Suc d) st)"
proof -
  let ?init = "st\<lparr>bfs_queue := []\<rparr>"
  let ?st = "bfs_level conns src (Suc d) st"
  from inv have V: "dom (obj_get (visited st)) = dist_lt E src d"
    and VQ: "dom (obj_get (visited st)) \<union> cn_name ` set (bfs_queue st) = dist_le E src d"
    and Q: "\<And>q. q \<in> set (bfs_queue st) \<Longrightarrow> cn_depth q = d"
    and ent: "\<And>n v. obj_get (visited st) n = Some v \<Longrightarrow>
        cn_name v = n \<and> n \<in> dist_le E src (cn_depth v) \<and> n \<notin> dist_lt E src (cn_depth v)"
    and R: "set (returnNames st) = dom (obj_get (visited st)) - {src}" "distinct (returnNames st)"
    by (auto simp: bfs_inv_def)
  have R0: "set (returnNames ?init) \<subseteq> dom (obj_get (visited ?init))" "distinct (returnNames ?init)"
    using R by auto
  note fold = bfs_fold_state[OF R0, of conns src "Suc d" "bfs_queue st", folded E_def bfs_level_def]
  have dom': "dom (obj_get (visited ?st)) = dist_le E src d"
    using VQ by (auto simp: bfs_level_def bfs_fold_dom)
  have new: "cn_name ` set (bfs_queue st) - dom (obj_get (visited st)) = dist_le E src d - dist_lt E src d"
    using V VQ by blast
  have "cn_name ` set (bfs_queue ?st) = E `` (dist_le E src d - dist_lt E src d)"
    using fold(1) new by simp
  then have VQ': "dom (obj_get (visited ?st)) \<union> cn_name ` set (bfs_queue ?st) = dist_le E src (Suc d)"
    using dom' by (simp add: dist_le_Suc)
  have ent': "cn_name v = n \<and> n \<in> dist_le E src (cn_depth v) \<and> n \<notin> dist_lt E src (cn_depth v)"
    if v: "obj_get (visited ?st) n = Some v" for n v
  proof (cases "obj_get (visited st) n")
    case (Some u)
    with fold(3)[OF v] ent[OF Some] show ?thesis by simp
  next
    case None
    with fold(3)[OF v] obtain c where c: "cn_name v = n" "c \<in> set (bfs_queue st)" "cn_name c = n"
      "cn_depth v = cn_depth c" by auto
    have "n \<in> cn_name ` set (bfs_queue st)" using imageI[OF c(2), of cn_name] c(3) by simp
    then have "n \<in> dist_le E src d" "n \<notin> dist_lt E src d" using None V VQ by auto
    with c Q show ?thesis by simp
  qed
  have "set (returnNames ?st) = dom (obj_get (visited ?st)) - {src} \<and> distinct (returnNames ?st)"
    using fold(4) R VQ dom' V by (simp add: new) blast
  then show ?thesis
    unfolding bfs_inv_def dist_lt_Suc
    using dom' VQ' fold(2) ent' by auto
qed

lemma bfs_loop_inv:
  assumes "bfs_inv (edges (SelType MainConn) conns) src d st"
  shows "\<exists>k. bfs_inv (edges (SelType MainConn) conns) src k (bfs_loop conns src maxDepth d st) \<and>
     (bfs_queue (bfs_loop conns src maxDepth d st) = [] \<or> maxDepth \<noteq> -1 \<and> int k > maxDepth) \<and>
     (k = d \<or> maxDepth = -1 \<or> int k \<le> maxDepth + 1)"
  using assms
proof (induction conns src maxDepth d st rule: bfs_loop.induct)
  case (1 conns src maxDepth d st)
  show ?case
  proof (cases "bfs_queue st = [] \<or> maxDepth \<noteq> -1 \<and> int d > maxDepth")
    case True
    then have "bfs_loop conns src maxDepth d st = st" by (subst bfs_loop.simps) auto
    with True "1.prems" show ?thesis by auto
  next
    case False
    then have step: "bfs_loop conns src maxDepth d st =
        bfs_loop conns src maxDepth (Suc d) (bfs_level conns src (Suc d) st)"
      by (subst bfs_loop.simps) auto
    have "bfs_inv (edges (SelType MainConn) conns) src (Suc d) (bfs_level conns src (Suc d) st)"
      using "1.prems" by (rule bfs_level_inv)
    from "1.IH"[OF _ _ this] False obtain k where
      k: "bfs_inv (edges (SelType MainConn) conns) src k (bfs_loop conns src maxDepth d st)"
      "bfs_queue (bfs_loop conns src maxDepth d st) = [] \<or> maxDepth \<noteq> -1 \<and> int k > maxDepth"
      "k = Suc d \<or> maxDepth = -1 \<or> int k \<le> maxDepth + 1"
      unfolding step by blast
    from k(3) False have "k = d \<or> maxDepth = -1 \<or> int k \<le> maxDepth + 1" by auto
    with k(1,2) show ?thesis by blast
  qed
qed

lemma bfs_inv_init: "bfs_inv E src 0 (bfs_init src)"
  by (auto simp: bfs_inv_def bfs_init_def dist_lt_def dist_le_def)

lemma dist_lt_closed:
  assumes "dist_le E src k \<subseteq> dist_lt E src k"
  shows "dist_lt E src k = {m. (src, m) \<in> E\<^sup>*}"
proof -
  have "dist_lt E src k \<subseteq> dist_le E src k" by (auto simp: dist_lt_def dist_le_def intro: less_imp_le)
  with assms have fix_k: "dist_le E src k = dist_lt E src k" by blast
  have "(src, m) \<in> E\<^sup>* \<Longrightarrow> m \<in> dist_le E src k" for m
  proof (induction rule: rtrancl_induct)
    case base
    show ?case unfolding dist_le_def by (auto intro: exI[of _ 0])
  next
    case (step y z)
    then obtain j where "j < k" "(src, y) \<in> E ^^ j" using fix_k by (auto simp: dist_lt_def)
    with step have "(src, z) \<in> E ^^ Suc j" "Suc j \<le> k" by auto
    then show ?case unfolding dist_le_def by blast
  qed
  moreover have "m \<in> dist_lt E src k \<Longrightarrow> (src, m) \<in> E\<^sup>*" for m
    by (auto simp: dist_lt_def dest: relpow_imp_rtrancl)
  ultimately show ?thesis using fix_k by blast
qed

lemma searchNodesBFS_entries:
  assumes "bfs_inv E src k st" and "x \<in> set (map (\<lambda>n. the (obj_get (visited st) n)) (returnNames st))"
  shows "(src, cn_name x) \<in> E ^^ cn_depth x \<and> (\<forall>j < cn_depth x. (src, cn_name x) \<notin> E ^^ j)"
proof -
  from assms obtain n where n: "n \<in> dom (obj_get (visited st))" "x = the (obj_get (visited st) n)"
    by (auto simp: bfs_inv_def)
  then have "obj_get (visited st) n = Some x" by auto
  with assms(1) have "cn_name x = n" "n \<in> dist_le E src (cn_depth x)" "n \<notin> dist_lt E src (cn_depth x)"
    by (auto simp: bfs_inv_def)
  then show ?thesis
    by (auto simp: dist_le_def dist_lt_def le_less)
qed

lemma searchNodesBFS_names:
  assumes "bfs_inv E src k st"
  shows "map cn_name (map (\<lambda>n. the (obj_get (visited st) n)) (returnNames st)) = returnNames st"
    and "set (returnNames st) = dist_lt E src k - {src}" and "distinct (returnNames st)"
proof -
  have "cn_name (the (obj_get (visited st) n)) = n" if "n \<in> set (returnNames st)" for n
  proof -
    have "n \<in> dom (obj_get (visited st))" using that assms by (auto simp: bfs_inv_def)
    then obtain v where "obj_get (visited st) n = Some v" by blast
    with assms show ?thesis by (simp add: bfs_inv_def)
  qed
  then show "map cn_name (map (\<lambda>n. the (obj_get (visited st) n)) (returnNames st)) = returnNames st"
    by (simp add: map_idI)
qed (use assms in \<open>auto simp: bfs_inv_def\<close>)

section \<open>Searches that share the checked nodes\<close>

text \<open>
  \<open>getHighestNode\<close> and \<open>getNodeConnectionIndexes\<close> pass one array of checked nodes through
  the whole recursion.  Each is a fuelled function that returns the array too; \<open>None\<close> is
  fuel exhausted, which the lemmas \<open>highest_fuel_enough\<close> and \<open>indexes_fuel_enough\<close> exclude for
  one unit of fuel per checked node and one more.
\<close>

fun highest_visit ::
    "(string \<Rightarrow> string list \<Rightarrow> (js_error + string list \<times> string list) option) \<Rightarrow> Workflow \<Rightarrow>
     string list \<Rightarrow> string list \<Rightarrow> string list \<Rightarrow> (js_error + string list \<times> string list) option" where
  "highest_visit search w [] returnNodes checkedNodes = Some (Inr (returnNodes, checkedNodes))"
| "highest_visit search w (c # cs) returnNodes checkedNodes =
     (if c \<in> set checkedNodes then highest_visit search w cs returnNodes checkedNodes
      else case search c checkedNodes of
        None \<Rightarrow> None
      | Some (Inl e) \<Rightarrow> Some (Inl e)
      | Some (Inr (found, checkedNodes')) \<Rightarrow>
          (case obj_get (nodes w) c of
             None \<Rightarrow> Some (Inl TypeError)
           | Some n \<Rightarrow>
               let addNodes = (if found = [] \<and> disabled n \<noteq> Some True then [c] else found)
               in highest_visit search w cs
                    (fold (\<lambda>nm acc. if nm \<in> set acc then acc else acc @ [nm]) addNodes returnNodes)
                    checkedNodes'))"

definition indexed_connections :: "nat option \<Rightarrow> NodeInputConnections \<Rightarrow> string list" where
  "indexed_connections nodeConnectionIndex byIndex =
     map conn_node (case nodeConnectionIndex of
        None \<Rightarrow> concat byIndex
      | Some i \<Rightarrow> (if i < length byIndex then byIndex ! i else []))"

primrec highest_fuel ::
    "nat \<Rightarrow> Workflow \<Rightarrow> NodeConnectionType \<Rightarrow> nat option \<Rightarrow> string \<Rightarrow> string list \<Rightarrow>
     (js_error + string list \<times> string list) option" where
  "highest_fuel 0 w type idx nodeName checkedNodes = None"
| "highest_fuel (Suc fuel) w type idx nodeName checkedNodes =
     (case obj_get (nodes w) nodeName of
        None \<Rightarrow> Some (Inl TypeError)
      | Some node \<Rightarrow>
          let currentHighest = (if disabled node = Some False then [nodeName] else []);
              unchanged = Some (Inr (currentHighest, checkedNodes))
          in (case obj_get (connectionsByDestinationNode w) nodeName of
                None \<Rightarrow> unchanged
              | Some byType \<Rightarrow> (case obj_get byType type of
                  None \<Rightarrow> unchanged
                | Some byIndex \<Rightarrow>
                    if nodeName \<in> set checkedNodes then unchanged
                    else highest_visit (highest_fuel fuel w type None) w
                           (indexed_connections idx byIndex) [] (checkedNodes @ [nodeName]))))"

definition destination_names :: "Workflow \<Rightarrow> string list" where
  "destination_names w = obj_keys (connectionsByDestinationNode w)"

definition getHighestNode ::
    "Workflow \<Rightarrow> string \<Rightarrow> NodeConnectionType \<Rightarrow> nat option \<Rightarrow> js_error + string list" where
  "getHighestNode w nodeName type nodeConnectionIndex =
     (case highest_fuel (Suc (length (destination_names w))) w type nodeConnectionIndex nodeName [] of
        Some (Inr (found, _)) \<Rightarrow> Inr found
      | Some (Inl e) \<Rightarrow> Inl e
      | None \<Rightarrow> Inl (ApplicationError ''out of fuel''))"

fun indexes_visit ::
    "(string \<Rightarrow> string list \<Rightarrow> (INodeConnection option \<times> string list) option) \<Rightarrow> string \<Rightarrow>
     (nat \<times> IConnection) list \<Rightarrow> string list \<Rightarrow> (INodeConnection option \<times> string list) option" where
  "indexes_visit search parentNodeName [] checkedNodes = Some (None, checkedNodes)"
| "indexes_visit search parentNodeName ((destinationIndex', connection) # cs) checkedNodes =
     (if parentNodeName = conn_node connection then
        Some (Some \<lparr>sourceIndex = conn_index connection, destinationIndex = destinationIndex'\<rparr>, checkedNodes)
      else if conn_node connection \<in> set checkedNodes then
        indexes_visit search parentNodeName cs checkedNodes
      else case search (conn_node connection) checkedNodes of
        None \<Rightarrow> None
      | Some (Some outputIndex, checkedNodes') \<Rightarrow> Some (Some outputIndex, checkedNodes')
      | Some (None, checkedNodes') \<Rightarrow> indexes_visit search parentNodeName cs checkedNodes')"

primrec indexes_fuel ::
    "nat \<Rightarrow> Workflow \<Rightarrow> string \<Rightarrow> NodeConnectionType \<Rightarrow> int \<Rightarrow> string \<Rightarrow> string list \<Rightarrow>
     (INodeConnection option \<times> string list) option" where
  "indexes_fuel 0 w parentNodeName type depth nodeName checkedNodes = None"
| "indexes_fuel (Suc fuel) w parentNodeName type depth nodeName checkedNodes =
     (if obj_get (nodes w) parentNodeName = None then Some (None, checkedNodes)
      else if depth = 0 then Some (None, checkedNodes)
      else case obj_get (connectionsByDestinationNode w) nodeName of
        None \<Rightarrow> Some (None, checkedNodes)
      | Some byType \<Rightarrow> (case obj_get byType type of
          None \<Rightarrow> Some (None, checkedNodes)
        | Some byIndex \<Rightarrow>
            if nodeName \<in> set checkedNodes then Some (None, checkedNodes)
            else indexes_visit
                   (indexes_fuel fuel w parentNodeName type (if depth = -1 then depth else depth - 1))
                   parentNodeName (concat (map (enumerate 0) byIndex)) (checkedNodes @ [nodeName])))"

definition getNodeConnectionIndexes ::
    "Workflow \<Rightarrow> string \<Rightarrow> string \<Rightarrow> NodeConnectionType \<Rightarrow> int \<Rightarrow> INodeConnection option" where
  "getNodeConnectionIndexes w nodeName parentNodeName type depth =
     (case indexes_fuel (Suc (length (destination_names w))) w parentNodeName type depth nodeName [] of
        Some (r, _) \<Rightarrow> r
      | None \<Rightarrow> None)"

end
