(* ===== verification/HighestNode.thy ===== *)
theory HighestNode
  imports GraphSearch
begin

text \<open>
  What the searches with shared checked nodes compute: enough fuel always gives a result,
  the highest nodes are enabled ancestors, and there is none exactly when every node
  upstream is disabled, which is how the execution engine uses them.
\<close>

section \<open>Enough fuel\<close>

abbreviation remaining :: "Workflow \<Rightarrow> string list \<Rightarrow> nat" where
  "remaining w checked \<equiv> card (set (destination_names w) - set checked)"

lemma remaining_mono: "set a \<subseteq> set b \<Longrightarrow> remaining w b \<le> remaining w a"
  by (intro card_mono) auto

lemma remaining_push:
  assumes "obj_get (connectionsByDestinationNode w) n = Some byType" and "n \<notin> set checked"
  shows "remaining w (checked @ [n]) < remaining w checked"
proof -
  have "n \<in> set (destination_names w)"
    using assms(1) by (auto simp: destination_names_def obj_keys_get)
  with assms(2) show ?thesis by (intro psubset_card_mono) auto
qed

lemma remaining_le_length: "remaining w [] \<le> length (destination_names w)"
  by (simp add: card_length)

lemma highest_visit_defined:
  assumes "\<And>c chk. set base \<subseteq> set chk \<Longrightarrow>
      \<exists>r. search c chk = Some r \<and> (\<forall>found chk'. r = Inr (found, chk') \<longrightarrow> set chk \<subseteq> set chk')"
    and "set base \<subseteq> set checked"
  shows "\<exists>r. highest_visit search w cs ret checked = Some r \<and>
      (\<forall>found chk'. r = Inr (found, chk') \<longrightarrow> set checked \<subseteq> set chk')"
  using assms(2)
proof (induction cs arbitrary: ret checked)
  case Nil
  then show ?case by simp
next
  case (Cons c cs)
  show ?case
  proof (cases "c \<in> set checked")
    case True
    with Cons show ?thesis by simp
  next
    case False
    from assms(1)[OF Cons.prems] obtain r where r: "search c checked = Some r"
      "\<And>found chk'. r = Inr (found, chk') \<Longrightarrow> set checked \<subseteq> set chk'" by blast
    show ?thesis
    proof (cases r)
      case (Inl e)
      with False r show ?thesis by simp
    next
      case (Inr p)
      obtain found chk' where p: "p = (found, chk')" by (cases p)
      with r Inr have sub: "set checked \<subseteq> set chk'" by simp
      with Cons.prems have "set base \<subseteq> set chk'" by blast
      note IH = Cons.IH[OF this]
      show ?thesis
      proof (cases "obj_get (nodes w) c")
        case None
        with False r(1) Inr p show ?thesis by simp
      next
        case (Some node)
        let ?ret = "fold (\<lambda>nm acc. if nm \<in> set acc then acc else acc @ [nm])
            (if found = [] \<and> disabled node \<noteq> Some True then [c] else found) ret"
        from IH[of ?ret] obtain r' where r': "highest_visit search w cs ?ret chk' = Some r'"
          "\<And>fd ck. r' = Inr (fd, ck) \<Longrightarrow> set chk' \<subseteq> set ck" by blast
        have "highest_visit search w (c # cs) ret checked = Some r'"
          using False r(1) Inr p Some r'(1) by (simp add: Let_def)
        then show ?thesis using r'(2) sub by blast
      qed
    qed
  qed
qed

lemma highest_fuel_enough:
  "remaining w checked < fuel \<Longrightarrow>
     \<exists>r. highest_fuel fuel w ty idx n checked = Some r \<and>
       (\<forall>found chk'. r = Inr (found, chk') \<longrightarrow> set checked \<subseteq> set chk')"
proof (induction fuel arbitrary: idx n checked)
  case 0
  then show ?case by simp
next
  case (Suc fuel)
  show ?case
  proof (cases "\<exists>node byType byIndex. obj_get (nodes w) n = Some node \<and>
      obj_get (connectionsByDestinationNode w) n = Some byType \<and>
      obj_get byType ty = Some byIndex \<and> n \<notin> set checked")
    case True
    then obtain node byType byIndex where h: "obj_get (nodes w) n = Some node"
      "obj_get (connectionsByDestinationNode w) n = Some byType"
      "obj_get byType ty = Some byIndex" "n \<notin> set checked" by blast
    have lt: "remaining w chk < fuel" if "set (checked @ [n]) \<subseteq> set chk" for chk
      using remaining_mono[OF that, of w] remaining_push[OF h(2,4)] Suc.prems by linarith
    have IH: "\<exists>r. highest_fuel fuel w ty None c chk = Some r \<and>
        (\<forall>found chk'. r = Inr (found, chk') \<longrightarrow> set chk \<subseteq> set chk')"
      if "set (checked @ [n]) \<subseteq> set chk" for c chk by (rule Suc.IH[OF lt[OF that]])
    have "\<exists>r. highest_visit (highest_fuel fuel w ty None) w (indexed_connections idx byIndex) []
          (checked @ [n]) = Some r \<and>
        (\<forall>found chk'. r = Inr (found, chk') \<longrightarrow> set (checked @ [n]) \<subseteq> set chk')"
      by (rule highest_visit_defined[where base = "checked @ [n]"]) (erule IH, rule order_refl)
    then obtain r where r: "highest_visit (highest_fuel fuel w ty None) w
        (indexed_connections idx byIndex) [] (checked @ [n]) = Some r"
      "\<forall>fd ck. r = Inr (fd, ck) \<longrightarrow> set (checked @ [n]) \<subseteq> set ck" by (elim exE conjE)
    have "highest_fuel (Suc fuel) w ty idx n checked = Some r" using h r(1) by (simp add: Let_def)
    moreover have "set checked \<subseteq> set ck" if "r = Inr (fd, ck)" for fd ck
      using r(2)[rule_format, OF that] by simp
    ultimately show ?thesis by blast
  next
    case False
    then show ?thesis by (auto simp: Let_def split: option.splits)
  qed
qed

lemma indexes_visit_defined:
  assumes "\<And>c chk. set base \<subseteq> set chk \<Longrightarrow> \<exists>r chk'. search c chk = Some (r, chk') \<and> set chk \<subseteq> set chk'"
    and "set base \<subseteq> set checked"
  shows "\<exists>r chk'. indexes_visit search parent cs checked = Some (r, chk') \<and> set checked \<subseteq> set chk'"
  using assms(2)
proof (induction cs arbitrary: checked)
  case Nil
  then show ?case by simp
next
  case (Cons ic cs)
  obtain i c where ic: "ic = (i, c)" by (cases ic)
  from assms(1)[OF Cons.prems] obtain r chk' where r: "search (conn_node c) checked = Some (r, chk')"
    "set checked \<subseteq> set chk'" by blast
  have "set base \<subseteq> set chk'" using r(2) Cons.prems by blast
  from Cons.IH[OF this] obtain r1 chk1 where r1: "indexes_visit search parent cs chk' = Some (r1, chk1)"
    "set chk' \<subseteq> set chk1" by blast
  from Cons.IH[OF Cons.prems] obtain r2 chk2 where r2: "indexes_visit search parent cs checked = Some (r2, chk2)"
    "set checked \<subseteq> set chk2" by blast
  have "set checked \<subseteq> set chk1" using r(2) r1(2) by blast
  with r r1(1) r2 ic show ?case by (cases r) auto
qed

lemma indexes_fuel_enough:
  "remaining w checked < fuel \<Longrightarrow>
     \<exists>r chk'. indexes_fuel fuel w parent ty depth n checked = Some (r, chk') \<and> set checked \<subseteq> set chk'"
proof (induction fuel arbitrary: depth n checked)
  case 0
  then show ?case by simp
next
  case (Suc fuel)
  show ?case
  proof (cases "\<exists>byType byIndex. obj_get (connectionsByDestinationNode w) n = Some byType \<and>
      obj_get byType ty = Some byIndex \<and> n \<notin> set checked")
    case True
    then obtain byType byIndex where h: "obj_get (connectionsByDestinationNode w) n = Some byType"
      "obj_get byType ty = Some byIndex" "n \<notin> set checked" by blast
    have lt: "remaining w chk < fuel" if "set (checked @ [n]) \<subseteq> set chk" for chk
      using remaining_mono[OF that, of w] remaining_push[OF h(1,3)] Suc.prems by linarith
    let ?d = "if depth = -1 then depth else depth - 1"
    let ?cs = "concat (map (enumerate 0) byIndex)"
    have IH: "\<exists>r chk'. indexes_fuel fuel w parent ty ?d c chk = Some (r, chk') \<and> set chk \<subseteq> set chk'"
      if "set (checked @ [n]) \<subseteq> set chk" for c chk by (rule Suc.IH[OF lt[OF that]])
    have "\<exists>r chk'. indexes_visit (indexes_fuel fuel w parent ty ?d) parent ?cs (checked @ [n])
        = Some (r, chk') \<and> set (checked @ [n]) \<subseteq> set chk'"
      by (rule indexes_visit_defined[where base = "checked @ [n]"]) (erule IH, rule order_refl)
    then obtain r chk' where r: "indexes_visit (indexes_fuel fuel w parent ty ?d) parent ?cs (checked @ [n])
        = Some (r, chk')" "set (checked @ [n]) \<subseteq> set chk'" by (elim exE conjE)
    show ?thesis
    proof (cases "obj_get (nodes w) parent = None \<or> depth = 0")
      case True
      then show ?thesis by auto
    next
      case False
      then have "obj_get (nodes w) parent \<noteq> None" "depth \<noteq> 0" by auto
      then have "indexes_fuel (Suc fuel) w parent ty depth n checked = Some (r, chk')"
        using h r(1) by (simp del: not_None_eq)
      with r(2) show ?thesis by auto
    qed
  next
    case False
    then show ?thesis by (auto split: option.splits)
  qed
qed

lemma getHighestNode_Inr:
  assumes "getHighestNode w n ty idx = Inr found"
  shows "\<exists>chk'. highest_fuel (Suc (length (destination_names w))) w ty idx n [] = Some (Inr (found, chk'))"
  using assms unfolding getHighestNode_def
  by (auto simp del: highest_fuel.simps split: option.splits sum.splits)

lemma getHighestNode_total:
  "getHighestNode w n ty idx \<noteq> Inl (ApplicationError ''out of fuel'') \<or>
   highest_fuel (Suc (length (destination_names w))) w ty idx n [] = Some (Inl (ApplicationError ''out of fuel''))"
proof -
  have "remaining w [] < Suc (length (destination_names w))"
    using remaining_le_length[of w] by simp
  from highest_fuel_enough[OF this, of ty idx n] show ?thesis
    by (auto simp: getHighestNode_def simp del: highest_fuel.simps split: option.splits sum.splits)
qed

section \<open>The highest nodes\<close>

definition enabled :: "Workflow \<Rightarrow> string \<Rightarrow> bool" where
  "enabled w n = (\<exists>node. obj_get (nodes w) n = Some node \<and> disabled node \<noteq> Some True)"

abbreviation upEdges :: "NodeConnectionType \<Rightarrow> Workflow \<Rightarrow> (string \<times> string) set" where
  "upEdges ty w \<equiv> edges (SelType ty) (connectionsByDestinationNode w)"

abbreviation avoiding :: "string set \<Rightarrow> (string \<times> string) set \<Rightarrow> (string \<times> string) set" where
  "avoiding C E \<equiv> E \<inter> {(x, y). y \<notin> C}"

lemma avoiding_mono: "C \<subseteq> D \<Longrightarrow> (avoiding D E)\<^sup>* \<subseteq> (avoiding C E)\<^sup>*"
  by (rule rtrancl_mono) auto

lemma set_fold_add:
  "set (fold (\<lambda>nm acc. if nm \<in> set acc then acc else acc @ [nm]) xs acc) = set acc \<union> set xs"
  by (induction xs arbitrary: acc) auto

lemma edges_indexed:
  assumes "obj_get (connectionsByDestinationNode w) n = Some byType" and "obj_get byType ty = Some byIndex"
  shows "upEdges ty w `` {n} = set (indexed_connections None byIndex)"
  using assms by (auto simp: edges_def target_names_def sel_types_def indexed_connections_def)

lemma edges_none:
  assumes "obj_get (connectionsByDestinationNode w) n = None \<or>
     (\<exists>byType. obj_get (connectionsByDestinationNode w) n = Some byType \<and> obj_get byType ty = None)"
  shows "upEdges ty w `` {n} = {}"
  using assms by (auto simp: edges_def target_names_def sel_types_def)

lemma indexed_subset: "set (indexed_connections idx byIndex) \<subseteq> set (indexed_connections None byIndex)"
  by (auto simp: indexed_connections_def split: option.splits) (metis UN_I image_eqI nth_mem)

lemma highest_visit_sound:
  assumes search: "\<And>c chk found chk'. search c chk = Some (Inr (found, chk')) \<Longrightarrow>
      set chk \<subseteq> set chk' \<and> (\<forall>x \<in> set found. enabled w x \<and> (c, x) \<in> (avoiding (set chk) E)\<^sup>*)"
    and "highest_visit search w cs ret chk = Some (Inr (ret', chk'))"
  shows "set chk \<subseteq> set chk' \<and>
     (\<forall>x \<in> set ret'. x \<in> set ret \<or> enabled w x \<and>
        (\<exists>m \<in> set cs. m \<notin> set chk \<and> (m, x) \<in> (avoiding (set chk) E)\<^sup>*))"
  using assms(2)
proof (induction cs arbitrary: ret chk)
  case Nil
  then show ?case by simp
next
  case (Cons c cs)
  show ?case
  proof (cases "c \<in> set chk")
    case True
    with Cons.prems have "highest_visit search w cs ret chk = Some (Inr (ret', chk'))" by simp
    from Cons.IH[OF this] show ?thesis by auto
  next
    case False
    with Cons.prems obtain found chk1 node where s: "search c chk = Some (Inr (found, chk1))"
      and node: "obj_get (nodes w) c = Some node"
      and rest: "highest_visit search w cs
          (fold (\<lambda>nm acc. if nm \<in> set acc then acc else acc @ [nm])
            (if found = [] \<and> disabled node \<noteq> Some True then [c] else found) ret) chk1
          = Some (Inr (ret', chk'))"
      by (auto simp: Let_def split: option.splits sum.splits)
    have sub: "set chk \<subseteq> set chk1"
      and fnd: "\<And>x. x \<in> set found \<Longrightarrow> enabled w x \<and> (c, x) \<in> (avoiding (set chk) E)\<^sup>*"
      using search[OF s] by auto
    have "enabled w c" if "found = []" "disabled node \<noteq> Some True"
      using node that by (auto simp: enabled_def)
    note IH = Cons.IH[OF rest]
    have "x \<in> set ret \<or> enabled w x \<and>
        (\<exists>m \<in> set (c # cs). m \<notin> set chk \<and> (m, x) \<in> (avoiding (set chk) E)\<^sup>*)" if "x \<in> set ret'" for x
    proof -
      from IH that consider "x \<in> set ret" | "x = c" "found = []" "disabled node \<noteq> Some True"
        | "x \<in> set found" | m where "enabled w x" "m \<in> set cs" "m \<notin> set chk1"
          "(m, x) \<in> (avoiding (set chk1) E)\<^sup>*"
        by (auto simp: set_fold_add split: if_splits)
      then show ?thesis
      proof cases
        case 1 then show ?thesis by simp
      next
        case 2
        with \<open>found = [] \<Longrightarrow> disabled node \<noteq> Some True \<Longrightarrow> enabled w c\<close> False show ?thesis by auto
      next
        case 3
        with fnd[OF 3] False show ?thesis by auto
      next
        case 4
        then have "(m, x) \<in> (avoiding (set chk) E)\<^sup>*" using avoiding_mono[OF sub, of E] by blast
        with 4 sub show ?thesis by auto
      qed
    qed
    with IH sub show ?thesis by blast
  qed
qed

lemma highest_fuel_sound:
  "highest_fuel fuel w ty idx n chk = Some (Inr (found, chk')) \<Longrightarrow>
     set chk \<subseteq> set chk' \<and>
     (\<forall>x \<in> set found. enabled w x \<and>
        (x = n \<and> chk' = chk \<or> (\<exists>byType byIndex. obj_get (connectionsByDestinationNode w) n = Some byType \<and>
           obj_get byType ty = Some byIndex \<and>
           (\<exists>m \<in> set (indexed_connections idx byIndex). m \<notin> insert n (set chk) \<and>
              (m, x) \<in> (avoiding (insert n (set chk)) (upEdges ty w))\<^sup>*))))"
proof (induction fuel arbitrary: idx n chk found chk')
  case 0
  then show ?case by simp
next
  case (Suc fuel)
  let ?E = "upEdges ty w"
  have search: "set chk \<subseteq> set chk' \<and> (\<forall>x \<in> set found. enabled w x \<and> (c, x) \<in> (avoiding (set chk) ?E)\<^sup>*)"
    if s: "highest_fuel fuel w ty None c chk = Some (Inr (found, chk'))" for c chk found chk'
  proof (intro conjI ballI)
    show "set chk \<subseteq> set chk'" using Suc.IH[OF s] by blast
  next
    fix x assume x: "x \<in> set found"
    show "enabled w x" using Suc.IH[OF s] x by blast
    from Suc.IH[OF s] x consider "x = c" | byType byIndex m where
      "obj_get (connectionsByDestinationNode w) c = Some byType" "obj_get byType ty = Some byIndex"
      "m \<in> set (indexed_connections None byIndex)" "m \<notin> insert c (set chk)"
      "(m, x) \<in> (avoiding (insert c (set chk)) ?E)\<^sup>*" by blast
    then show "(c, x) \<in> (avoiding (set chk) ?E)\<^sup>*"
    proof cases
      case 1 then show ?thesis by simp
    next
      case 2
      then have "(c, m) \<in> avoiding (set chk) ?E" using edges_indexed[OF 2(1,2)] by auto
      moreover have "(m, x) \<in> (avoiding (set chk) ?E)\<^sup>*"
        using 2(5) avoiding_mono[of "set chk" "insert c (set chk)" ?E] by blast
      ultimately show ?thesis by (rule converse_rtrancl_into_rtrancl)
    qed
  qed
  from Suc.prems obtain node where node: "obj_get (nodes w) n = Some node"
    by (auto split: option.splits)
  have self: "enabled w n" if "disabled node = Some False" using node that by (simp add: enabled_def)
  show ?case
  proof (cases "\<exists>byType byIndex. obj_get (connectionsByDestinationNode w) n = Some byType \<and>
      obj_get byType ty = Some byIndex \<and> n \<notin> set chk")
    case True
    then obtain byType byIndex where h: "obj_get (connectionsByDestinationNode w) n = Some byType"
      "obj_get byType ty = Some byIndex" "n \<notin> set chk" by blast
    with Suc.prems node have
      "highest_visit (highest_fuel fuel w ty None) w (indexed_connections idx byIndex) [] (chk @ [n]) =
         Some (Inr (found, chk'))" by (simp add: Let_def)
    from highest_visit_sound[OF search this] h show ?thesis by auto
  next
    case False
    with Suc.prems node have "found = (if disabled node = Some False then [n] else [])" "chk' = chk"
      by (auto simp: Let_def split: option.splits)
    with self show ?thesis by auto
  qed
qed

text \<open>
  The nodes upstream of an input: what the connections of that input lead up to without
  passing through the node itself.
\<close>

definition upstream :: "Workflow \<Rightarrow> NodeConnectionType \<Rightarrow> nat option \<Rightarrow> string \<Rightarrow> string set" where
  "upstream w ty idx n =
     {x. \<exists>byType byIndex. obj_get (connectionsByDestinationNode w) n = Some byType \<and>
         obj_get byType ty = Some byIndex \<and>
         (\<exists>m \<in> set (indexed_connections idx byIndex). m \<noteq> n \<and> (m, x) \<in> (avoiding {n} (upEdges ty w))\<^sup>*)}"

lemma highest_visit_empty:
  assumes search: "\<And>c chk chk'. search c chk = Some (Inr ([], chk')) \<Longrightarrow> c \<notin> set chk \<Longrightarrow>
      \<exists>P. E `` insert c P \<subseteq> set chk \<union> insert c P \<and> set chk' \<subseteq> set chk \<union> insert c P \<and>
        (\<forall>x \<in> P. \<not> enabled w x)"
    and "highest_visit search w cs ret chk = Some (Inr (ret', chk'))" and "ret' = []"
  shows "\<exists>P. set cs \<subseteq> set chk \<union> P \<and> E `` P \<subseteq> set chk \<union> P \<and> set chk' \<subseteq> set chk \<union> P \<and>
      (\<forall>x \<in> P. \<not> enabled w x) \<and> ret = []"
  using assms(2,3)
proof (induction cs arbitrary: ret chk)
  case Nil
  then show ?case by (intro exI[of _ "{}"]) simp
next
  case (Cons c cs)
  show ?case
  proof (cases "c \<in> set chk")
    case True
    with Cons.prems have "highest_visit search w cs ret chk = Some (Inr (ret', chk'))" by simp
    from Cons.IH[OF this Cons.prems(2)] True show ?thesis by auto
  next
    case False
    with Cons.prems obtain found chk1 node where s: "search c chk = Some (Inr (found, chk1))"
      and node: "obj_get (nodes w) c = Some node"
      and rest: "highest_visit search w cs
          (fold (\<lambda>nm acc. if nm \<in> set acc then acc else acc @ [nm])
            (if found = [] \<and> disabled node \<noteq> Some True then [c] else found) ret) chk1
          = Some (Inr (ret', chk'))"
      by (auto simp: Let_def split: option.splits sum.splits)
    from Cons.IH[OF rest Cons.prems(2)] obtain P where
      P: "set cs \<subseteq> set chk1 \<union> P" "E `` P \<subseteq> set chk1 \<union> P" "set chk' \<subseteq> set chk1 \<union> P"
      "\<forall>x \<in> P. \<not> enabled w x"
      and nil: "fold (\<lambda>nm acc. if nm \<in> set acc then acc else acc @ [nm])
            (if found = [] \<and> disabled node \<noteq> Some True then [c] else found) ret = []" by blast
    from arg_cong[OF nil, of set] have e: "ret = []" "found = []" "disabled node = Some True"
      by (auto simp: set_fold_add split: if_splits)
    have dis: "\<not> enabled w c" using node e(3) by (simp add: enabled_def)
    from search[OF s[unfolded e(2)] False] obtain Q where
      Q: "E `` insert c Q \<subseteq> set chk \<union> insert c Q" "set chk1 \<subseteq> set chk \<union> insert c Q"
      "\<forall>x \<in> Q. \<not> enabled w x" by blast
    show ?thesis
    proof (intro exI[of _ "insert c Q \<union> P"] conjI)
      show "set (c # cs) \<subseteq> set chk \<union> (insert c Q \<union> P)" using P(1) Q(2) by auto
      show "E `` (insert c Q \<union> P) \<subseteq> set chk \<union> (insert c Q \<union> P)"
        unfolding Image_Un using P(2) Q(1,2) by blast
      show "set chk' \<subseteq> set chk \<union> (insert c Q \<union> P)" using P(3) Q(2) by auto
      show "\<forall>x \<in> insert c Q \<union> P. \<not> enabled w x" using dis P(4) Q(3) by blast
      show "ret = []" by (rule e(1))
    qed
  qed
qed

lemma highest_fuel_empty:
  "highest_fuel fuel w ty None n chk = Some (Inr ([], chk')) \<Longrightarrow> n \<notin> set chk \<Longrightarrow>
     \<exists>P. upEdges ty w `` insert n P \<subseteq> set chk \<union> insert n P \<and> set chk' \<subseteq> set chk \<union> insert n P \<and>
       (\<forall>x \<in> P. \<not> enabled w x)"
proof (induction fuel arbitrary: n chk chk')
  case 0
  then show ?case by simp
next
  case (Suc fuel)
  show ?case
  proof (cases "\<exists>byType byIndex. obj_get (connectionsByDestinationNode w) n = Some byType \<and>
      obj_get byType ty = Some byIndex")
    case True
    then obtain byType byIndex where h: "obj_get (connectionsByDestinationNode w) n = Some byType"
      "obj_get byType ty = Some byIndex" by blast
    with Suc.prems have
      v: "highest_visit (highest_fuel fuel w ty None) w (indexed_connections None byIndex) [] (chk @ [n]) =
         Some (Inr ([], chk'))" by (auto simp: Let_def split: option.splits)
    have "\<exists>P. set (indexed_connections None byIndex) \<subseteq> set (chk @ [n]) \<union> P \<and>
        upEdges ty w `` P \<subseteq> set (chk @ [n]) \<union> P \<and> set chk' \<subseteq> set (chk @ [n]) \<union> P \<and>
        (\<forall>x \<in> P. \<not> enabled w x) \<and> [] = ([] :: string list)"
      using highest_visit_empty[where E = "upEdges ty w", OF Suc.IH v refl] .
    then obtain P where P: "set (indexed_connections None byIndex) \<subseteq> set (chk @ [n]) \<union> P"
      "upEdges ty w `` P \<subseteq> set (chk @ [n]) \<union> P" "set chk' \<subseteq> set (chk @ [n]) \<union> P"
      "\<forall>x \<in> P. \<not> enabled w x" by blast
    have "upEdges ty w `` insert n P = upEdges ty w `` {n} \<union> upEdges ty w `` P" by blast
    then show ?thesis
      using P edges_indexed[OF h] by (intro exI[of _ P]) auto
  next
    case False
    then have "upEdges ty w `` {n} = {}" by (intro edges_none) auto
    moreover have "chk' = chk" using False Suc.prems by (auto simp: Let_def split: option.splits)
    ultimately show ?thesis by (intro exI[of _ "{}"]) auto
  qed
qed

lemma closed_rtrancl:
  assumes "E `` S \<subseteq> S" and "m \<in> S" and "(m, x) \<in> E\<^sup>*"
  shows "x \<in> S"
  using assms(3,1,2) by (induction rule: rtrancl_induct) auto

lemma getHighestNode_empty:
  assumes "getHighestNode w n ty idx = Inr []"
    and h: "obj_get (connectionsByDestinationNode w) n = Some byType" "obj_get byType ty = Some byIndex"
  shows "\<forall>x \<in> upstream w ty idx n. \<not> enabled w x"
proof -
  let ?E = "upEdges ty w"
  from getHighestNode_Inr[OF assms(1)] obtain chk' where
    hf: "highest_fuel (Suc (length (destination_names w))) w ty idx n [] = Some (Inr ([], chk'))" ..
  with h have v: "highest_visit (highest_fuel (length (destination_names w)) w ty None) w
      (indexed_connections idx byIndex) [] [n] = Some (Inr ([], chk'))"
    by (auto simp: Let_def split: option.splits)
  have "\<exists>P. set (indexed_connections idx byIndex) \<subseteq> set [n] \<union> P \<and>
      ?E `` P \<subseteq> set [n] \<union> P \<and> set chk' \<subseteq> set [n] \<union> P \<and>
      (\<forall>x \<in> P. \<not> enabled w x) \<and> [] = ([] :: string list)"
    using highest_visit_empty[where E = ?E, OF highest_fuel_empty v refl] .
  then obtain P where P: "set (indexed_connections idx byIndex) \<subseteq> insert n P"
    "?E `` P \<subseteq> insert n P" "\<forall>x \<in> P. \<not> enabled w x" by auto
  have "(avoiding {n} ?E) `` P \<subseteq> P" using P(2) by blast
  then have "x \<in> P" if "x \<in> upstream w ty idx n" for x
    using that P(1) h closed_rtrancl[of "avoiding {n} ?E" P] by (auto simp: upstream_def)
  with P(3) show ?thesis by blast
qed

lemma getHighestNode_sound:
  assumes "getHighestNode w n ty idx = Inr found" and "x \<in> set found"
  shows "enabled w x \<and> (x = n \<or> x \<in> upstream w ty idx n)"
proof -
  from getHighestNode_Inr[OF assms(1)] obtain chk' where
    hf: "highest_fuel (Suc (length (destination_names w))) w ty idx n [] = Some (Inr (found, chk'))" ..
  from highest_fuel_sound[OF hf] assms(2) show ?thesis
    unfolding upstream_def by auto
qed

end
