(* ===== verification/Samples.thy ===== *)
theory Samples
  imports WorkflowGraph
begin

text \<open>
  Concrete workflows at which the properties of the development are evaluated: a trigger
  whose two branches meet again at a merge node.
\<close>

definition link :: "string \<Rightarrow> nat \<Rightarrow> IConnection" where
  "link n i = \<lparr>conn_node = n, conn_type = MainConn, conn_index = i\<rparr>"

definition sample_nodes :: INodes where
  "sample_nodes =
     [(''T'', mk_node ''T'' ''trigger''), (''A'', mk_node ''A'' ''set''),
      (''B'', mk_node ''B'' ''set''), (''M'', mk_node ''M'' ''merge'')]"

definition sample_connections :: IConnections where
  "sample_connections =
     [(''T'', [(MainConn, [[link ''A'' 0, link ''B'' 0]])]),
      (''A'', [(MainConn, [[link ''M'' 0]])]),
      (''B'', [(MainConn, [[link ''M'' 1]])])]"

definition mk_workflow :: "INodes \<Rightarrow> IConnections \<Rightarrow> ExecutionOrder option \<Rightarrow> Workflow" where
  "mk_workflow ns cs order =
     \<lparr>wf_id = ''1'', wf_name = None, nodes = ns, connectionsBySourceNode = cs,
      connectionsByDestinationNode = getConnectionsByDestination cs, wf_active = False,
      executionOrder = order, wf_pinData = None, staticData = [], testStaticData = None\<rparr>"

definition sample_workflow :: Workflow where
  "sample_workflow = mk_workflow sample_nodes sample_connections (Some OrderV1)"

definition no_execution :: ExecutionData where
  "no_execution = \<lparr>contextData = [], nodeExecutionStack = [], exec_metadata = [],
     waitingExecution = [], waitingExecutionSource = None\<rparr>"

lemma sample_byDestination:
  "connectionsByDestinationNode sample_workflow = getConnectionsByDestination (connectionsBySourceNode sample_workflow)"
  by (simp add: sample_workflow_def mk_workflow_def)

text \<open>An item that can be told from others, and a merge node with three inputs.\<close>

definition item_of :: "string \<Rightarrow> INodeExecutionData" where
  "item_of s = empty_item\<lparr>json := [(''k'', JStr s)]\<rparr>"

definition merge3_workflow :: Workflow where
  "merge3_workflow = mk_workflow
     [(''T'', mk_node ''T'' ''trigger''), (''A'', mk_node ''A'' ''set''), (''B'', mk_node ''B'' ''set''),
      (''C'', mk_node ''C'' ''set''), (''M'', mk_node ''M'' ''merge'')]
     [(''T'', [(MainConn, [[link ''A'' 0, link ''B'' 0, link ''C'' 0]])]),
      (''A'', [(MainConn, [[link ''M'' 0]])]),
      (''B'', [(MainConn, [[link ''M'' 1]])]),
      (''C'', [(MainConn, [[link ''M'' 2]])])] (Some OrderV1)"

text \<open>A registry that knows the types of the sample nodes.\<close>

definition node_type_of :: "string \<Rightarrow> bool \<Rightarrow> bool \<Rightarrow> INodeType" where
  "node_type_of nm exec trig =
     \<lparr>description = \<lparr>type_name = nm, type_inputs = OutputList [OutName MainConn], requiredInputs = None,
        type_outputs = OutputList [OutName MainConn]\<rparr>,
      has_execute = exec, has_poll = False, has_trigger = trig, has_webhook = False\<rparr>"

definition sample_types :: INodeTypes where
  "sample_types ty v =
     (if ty = ''trigger'' then Some (node_type_of ty False True)
      else if ty = ''set'' \<or> ty = ''merge'' then Some (node_type_of ty True False) else None)"

end
