(* ===== verification/GraphProperties.thy ===== *)
theory GraphProperties
  imports HighestNode Samples
begin

text \<open>
  The searches of the workflow graph against the reachability relation of its connections:
  the child and parent nodes, the breadth-first search by depth, the highest nodes and the
  indexes through which two nodes are connected.
\<close>

section \<open>Connections by destination\<close>

text \<open>
  C15: The connections are re-indexed by destination without loss, invention or change of
  order: what arrives at an input is the list, in the order of the source side, of the
  connections that point at it; and an entry exists only where something arrives, with no
  empty input at its end.
\<close>

theorem getConnectionsByDestination_correct:
  "connections_at (getConnectionsByDestination conns) d t i = arriving (all_connections conns) d t i \<and>
   tight (getConnectionsByDestination conns)"
  by (simp add: connections_at_byDestination tight_byDestination)

section \<open>Child and parent nodes\<close>

text \<open>
  C16: The child nodes of a node are the other nodes reachable along its connections of the
  type, and the parent nodes are those from which it is reachable, when the connections by
  destination are those of the connections by source and every connection keeps its type.
\<close>

theorem children_and_parents_correct:
  assumes "connectionsByDestinationNode w = getConnectionsByDestination (connectionsBySourceNode w)"
    and "conns_wf (connectionsBySourceNode w)" and "well_typed (connectionsBySourceNode w)"
  shows "set (getChildNodes w n (SelType t) (-1)) =
       {m. m \<noteq> n \<and> (n, m) \<in> (edges (SelType t) (connectionsBySourceNode w))\<^sup>+} \<and>
     set (getParentNodes w n (SelType t) (-1)) =
       {m. m \<noteq> n \<and> (m, n) \<in> (edges (SelType t) (connectionsBySourceNode w))\<^sup>+}"
  unfolding getChildNodes_def getParentNodes_def set_getConnectedNodes assms(1)
    edges_converse[OF assms(2,3)] trancl_converse
  by auto

lemma sample_graph_ok:
  "conns_wf (connectionsBySourceNode sample_workflow)" "well_typed (connectionsBySourceNode sample_workflow)"
proof -
  have "obj_wf str_before sample_connections" by code_simp
  moreover have "\<forall>x \<in> set sample_connections. obj_wf never_before (snd x)" by code_simp
  ultimately show "conns_wf (connectionsBySourceNode sample_workflow)"
    by (auto simp: conns_wf_def sample_workflow_def mk_workflow_def)
  show "well_typed (connectionsBySourceNode sample_workflow)" by code_simp
qed

theorem children_and_parents_correct_witness:
  "set (getParentNodes sample_workflow ''M'' (SelType MainConn) (-1)) = {''A'', ''B'', ''T''} \<and>
   {m. m \<noteq> ''M'' \<and> (m, ''M'') \<in> (edges (SelType MainConn) sample_connections)\<^sup>+} = {''A'', ''B'', ''T''}"
proof -
  have p: "set (getParentNodes sample_workflow ''M'' (SelType MainConn) (-1)) = {''A'', ''B'', ''T''}"
    by code_simp
  with children_and_parents_correct[OF sample_byDestination sample_graph_ok, of "''M''" MainConn]
  show ?thesis by (simp add: sample_workflow_def mk_workflow_def)
qed

section \<open>Breadth-first search\<close>

text \<open>
  C17: The breadth-first search returns each node other than the start once, exactly those
  within the depth asked for (all reachable ones for -1), and the depth it gives a node is
  the length of the shortest path to it.
\<close>

theorem searchNodesBFS_correct:
  fixes conns :: IConnections
  defines "E \<equiv> edges (SelType MainConn) conns"
  shows "distinct (map cn_name (searchNodesBFS conns src d)) \<and>
    set (map cn_name (searchNodesBFS conns src d)) =
      {m. m \<noteq> src \<and> (if d = -1 then (src, m) \<in> E\<^sup>* else (\<exists>j. int j \<le> d \<and> (src, m) \<in> E ^^ j))} \<and>
    (\<forall>x \<in> set (searchNodesBFS conns src d).
      (src, cn_name x) \<in> E ^^ cn_depth x \<and> (\<forall>j < cn_depth x. (src, cn_name x) \<notin> E ^^ j))"
proof -
  define st where "st = bfs_loop conns src d 0 (bfs_init src)"
  have ret: "searchNodesBFS conns src d = map (\<lambda>n. the (obj_get (visited st) n)) (returnNames st)"
    by (simp add: searchNodesBFS_def st_def Let_def)
  obtain k where inv: "bfs_inv E src k st"
    and stop: "bfs_queue st = [] \<or> d \<noteq> -1 \<and> int k > d" and low: "k = 0 \<or> d = -1 \<or> int k \<le> d + 1"
    using bfs_loop_inv[OF bfs_inv_init, of conns src d] unfolding st_def E_def by blast
  have reached: "set (map cn_name (searchNodesBFS conns src d)) = dist_lt E src k - {src}"
    unfolding ret searchNodesBFS_names(1)[OF inv] by (rule searchNodesBFS_names(2)[OF inv])
  have bounds: "dist_lt E src k = {m. if d = -1 then (src, m) \<in> E\<^sup>* else (\<exists>j. int j \<le> d \<and> (src, m) \<in> E ^^ j)}"
  proof (cases "bfs_queue st = []")
    case True
    with inv have "dist_le E src k \<subseteq> dist_lt E src k" by (auto simp: bfs_inv_def)
    from dist_lt_closed[OF this] have all: "dist_lt E src k = {m. (src, m) \<in> E\<^sup>*}" .
    show ?thesis
    proof (cases "d = -1")
      case True
      with all show ?thesis by simp
    next
      case False
      have "k \<noteq> 0" using True inv by (auto simp: bfs_inv_def dist_lt_def dist_le_def)
      with False low have kd: "int k \<le> d + 1" by auto
      have "(\<exists>j. int j \<le> d \<and> (src, m) \<in> E ^^ j) \<longleftrightarrow> m \<in> dist_lt E src k" for m
      proof
        assume "\<exists>j. int j \<le> d \<and> (src, m) \<in> E ^^ j"
        then show "m \<in> dist_lt E src k" using all by (auto dest: relpow_imp_rtrancl)
      next
        assume "m \<in> dist_lt E src k"
        then obtain j where "j < k" "(src, m) \<in> E ^^ j" by (auto simp: dist_lt_def)
        with kd show "\<exists>j. int j \<le> d \<and> (src, m) \<in> E ^^ j" by (intro exI[of _ j]) auto
      qed
      with False show ?thesis by auto
    qed
  next
    case False
    with stop have d: "d \<noteq> -1" "int k > d" by auto
    have "int j \<le> d \<longleftrightarrow> j < k" for j using low d by auto
    with d(1) show ?thesis by (auto simp: dist_lt_def)
  qed
  have "distinct (map cn_name (searchNodesBFS conns src d))"
    unfolding ret searchNodesBFS_names(1)[OF inv] by (rule searchNodesBFS_names(3)[OF inv])
  moreover have "\<forall>x \<in> set (searchNodesBFS conns src d).
      (src, cn_name x) \<in> E ^^ cn_depth x \<and> (\<forall>j < cn_depth x. (src, cn_name x) \<notin> E ^^ j)"
    using searchNodesBFS_entries[OF inv] unfolding ret by blast
  ultimately show ?thesis using reached bounds by auto
qed

theorem searchNodesBFS_correct_witness:
  "searchNodesBFS sample_connections ''T'' (-1) =
     [\<lparr>cn_name = ''A'', cn_indicies = [0], cn_depth = 1\<rparr>, \<lparr>cn_name = ''B'', cn_indicies = [0], cn_depth = 1\<rparr>,
      \<lparr>cn_name = ''M'', cn_indicies = [0, 1], cn_depth = 2\<rparr>] \<and>
   (''T'', ''M'') \<notin> edges (SelType MainConn) sample_connections"
proof -
  have r: "searchNodesBFS sample_connections ''T'' (-1) =
     [\<lparr>cn_name = ''A'', cn_indicies = [0], cn_depth = 1\<rparr>, \<lparr>cn_name = ''B'', cn_indicies = [0], cn_depth = 1\<rparr>,
      \<lparr>cn_name = ''M'', cn_indicies = [0, 1], cn_depth = 2\<rparr>]"
    by code_simp
  note depths = searchNodesBFS_correct[of sample_connections "''T''" "-1", THEN conjunct2, THEN conjunct2]
  have "\<lparr>cn_name = ''M'', cn_indicies = [0, 1], cn_depth = 2\<rparr> \<in> set (searchNodesBFS sample_connections ''T'' (-1))"
    by (simp add: r)
  from bspec[OF depths this]
  have "\<forall>j < 2. (''T'', ''M'') \<notin> edges (SelType MainConn) sample_connections ^^ j" by simp
  then have "(''T'', ''M'') \<notin> edges (SelType MainConn) sample_connections ^^ 1" by (rule allE[of _ 1]) simp
  with r show ?thesis by simp
qed

section \<open>The highest nodes\<close>

text \<open>
  C18: The search for the highest nodes always ends within its fuel, returns only enabled
  nodes at or above the start, and when it returns none at all no node above the inputs
  asked for is enabled.
\<close>

theorem getHighestNode_correct:
  assumes "obj_get (connectionsByDestinationNode w) n = Some byType" and "obj_get byType ty = Some byIndex"
  shows "(\<exists>r. highest_fuel (Suc (length (destination_names w))) w ty idx n [] = Some r) \<and>
    (\<forall>found. getHighestNode w n ty idx = Inr found \<longrightarrow>
       (\<forall>x \<in> set found. enabled w x \<and> (x = n \<or> x \<in> upstream w ty idx n)) \<and>
       (found = [] \<longrightarrow> (\<forall>x \<in> upstream w ty idx n. \<not> enabled w x)))"
proof -
  have "remaining w [] < Suc (length (destination_names w))"
    using remaining_le_length[of w] by simp
  from highest_fuel_enough[OF this, of ty idx n]
  have "\<exists>r. highest_fuel (Suc (length (destination_names w))) w ty idx n [] = Some r" by blast
  then show ?thesis using getHighestNode_sound getHighestNode_empty[OF _ assms] by blast
qed

theorem getHighestNode_correct_witness:
  "getHighestNode sample_workflow ''M'' MainConn None = Inr [''T''] \<and> enabled sample_workflow ''T''"
proof -
  have g: "getHighestNode sample_workflow ''M'' MainConn None = Inr [''T'']" by code_simp
  have d: "obj_get (connectionsByDestinationNode sample_workflow) ''M'' =
        Some [(MainConn, [[link ''A'' 0], [link ''B'' 0]])]"
     "obj_get [(MainConn, [[link ''A'' 0], [link ''B'' 0]])] MainConn = Some [[link ''A'' 0], [link ''B'' 0]]"
    by code_simp+
  from getHighestNode_correct[OF d, of None] g have "\<forall>x \<in> set [''T'']. enabled sample_workflow x" by blast
  with g show ?thesis by simp
qed

section \<open>Through which indexes two nodes are connected\<close>

definition joins :: "Workflow \<Rightarrow> NodeConnectionType \<Rightarrow> string \<Rightarrow> string \<Rightarrow> INodeConnection \<Rightarrow> bool" where
  "joins w ty m parent x \<longleftrightarrow>
     (\<exists>i. destinationIndex x < length (connections_at (connectionsByDestinationNode w) m ty i) \<and>
        conn_node (connections_at (connectionsByDestinationNode w) m ty i ! destinationIndex x) = parent \<and>
        conn_index (connections_at (connectionsByDestinationNode w) m ty i ! destinationIndex x) = sourceIndex x)"

lemma joins_edge:
  assumes "joins w ty m parent x"
  shows "(m, parent) \<in> edges (SelType ty) (connectionsByDestinationNode w)"
proof -
  from assms obtain i where i: "destinationIndex x < length (connections_at (connectionsByDestinationNode w) m ty i)"
    "conn_node (connections_at (connectionsByDestinationNode w) m ty i ! destinationIndex x) = parent"
    unfolding joins_def by blast
  then obtain byType byIndex where h: "obj_get (connectionsByDestinationNode w) m = Some byType"
    "obj_get byType ty = Some byIndex" "i < length byIndex"
    by (auto simp: connections_at_def split: option.splits if_splits)
  with i have "destinationIndex x < length (byIndex ! i)" "conn_node (byIndex ! i ! destinationIndex x) = parent"
    by (simp_all add: connections_at_def)
  then have "parent \<in> conn_node ` set (byIndex ! i)" by force
  moreover have "byIndex ! i \<in> set byIndex" using h(3) by simp
  ultimately have "parent \<in> conn_node ` set (concat byIndex)" by auto
  with h show ?thesis by (simp add: edges_def target_names_def sel_types_def)
qed

lemma indexes_visit_found:
  assumes "indexes_visit search parent cs chk = Some (Some x, chk')"
  shows "(\<exists>(d, c) \<in> set cs. conn_node c = parent \<and> conn_index c = sourceIndex x \<and> d = destinationIndex x) \<or>
    (\<exists>(d, c) \<in> set cs. \<exists>chk1 chk2. search (conn_node c) chk1 = Some (Some x, chk2))"
  using assms
proof (induction cs arbitrary: chk)
  case Nil
  then show ?case by simp
next
  case (Cons p cs)
  obtain d c where p: "p = (d, c)" by (cases p)
  show ?case
  proof (cases "parent = conn_node c")
    case True
    with Cons.prems p show ?thesis by auto
  next
    case other: False
    show ?thesis
    proof (cases "conn_node c \<in> set chk")
      case True
      with Cons.prems p other have "indexes_visit search parent cs chk = Some (Some x, chk')" by simp
      from Cons.IH[OF this] show ?thesis by auto
    next
      case False
      with Cons.prems p other consider chk1 where "search (conn_node c) chk = Some (Some x, chk1)"
        | chk1 where "search (conn_node c) chk = Some (None, chk1)"
            "indexes_visit search parent cs chk1 = Some (Some x, chk')"
        by (auto split: option.splits prod.splits)
      then show ?thesis
      proof cases
        case 1
        with p show ?thesis by auto
      next
        case 2
        from Cons.IH[OF 2(2)] show ?thesis by auto
      qed
    qed
  qed
qed

lemma enumerated_input:
  assumes "(d, c) \<in> set (concat (map (enumerate 0) byIndex))"
  shows "\<exists>i < length byIndex. d < length (byIndex ! i) \<and> byIndex ! i ! d = c"
proof -
  from assms obtain xs where "xs \<in> set byIndex" "(d, c) \<in> set (enumerate 0 xs)" by auto
  then show ?thesis by (auto simp: in_set_conv_nth[of xs byIndex] enumerate_mem)
qed

lemma enumerated_targets:
  "snd ` set (concat (map (enumerate 0) byIndex)) = set (concat byIndex)"
proof -
  have "snd ` set (enumerate 0 xs) = set xs" for xs :: "'a list"
    by (metis list.set_map map_snd_enumerate)
  then show ?thesis by (simp add: image_UN)
qed

lemma indexes_fuel_found:
  assumes "indexes_fuel fuel w parent ty depth n chk = Some (Some x, chk')"
  shows "\<exists>m. (n, m) \<in> (edges (SelType ty) (connectionsByDestinationNode w))\<^sup>* \<and> joins w ty m parent x"
  using assms
proof (induction fuel arbitrary: depth n chk chk')
  case 0
  then show ?case by simp
next
  case (Suc fuel)
  then obtain byType byIndex where h: "obj_get (connectionsByDestinationNode w) n = Some byType"
      "obj_get byType ty = Some byIndex"
    and v: "indexes_visit (indexes_fuel fuel w parent ty (if depth = -1 then depth else depth - 1))
       parent (concat (map (enumerate 0) byIndex)) (chk @ [n]) = Some (Some x, chk')"
    by (auto split: option.splits if_splits)
  from indexes_visit_found[OF v] show ?case
  proof (elim disjE)
    assume "\<exists>(d, c) \<in> set (concat (map (enumerate 0) byIndex)).
        conn_node c = parent \<and> conn_index c = sourceIndex x \<and> d = destinationIndex x"
    then obtain c where "(destinationIndex x, c) \<in> set (concat (map (enumerate 0) byIndex))"
      "conn_node c = parent" "conn_index c = sourceIndex x" by blast
    with enumerated_input[OF this(1)] h have "joins w ty n parent x"
      unfolding joins_def connections_at_def by auto
    then show ?thesis by blast
  next
    assume "\<exists>(d, c) \<in> set (concat (map (enumerate 0) byIndex)). \<exists>chk1 chk2.
        indexes_fuel fuel w parent ty (if depth = -1 then depth else depth - 1) (conn_node c) chk1 = Some (Some x, chk2)"
    then obtain d c chk1 chk2 where c: "(d, c) \<in> set (concat (map (enumerate 0) byIndex))"
      "indexes_fuel fuel w parent ty (if depth = -1 then depth else depth - 1) (conn_node c) chk1 = Some (Some x, chk2)"
      by blast
    from c(1) have "c \<in> snd ` set (concat (map (enumerate 0) byIndex))" by (rule rev_image_eqI) simp
    then have "c \<in> set (concat byIndex)" unfolding enumerated_targets .
    with h have "(n, conn_node c) \<in> edges (SelType ty) (connectionsByDestinationNode w)"
      by (auto simp: edges_def target_names_def sel_types_def)
    with Suc.IH[OF c(2)] show ?thesis by (meson converse_rtrancl_into_rtrancl)
  qed
qed

text \<open>
  When nothing is found, every node that was checked has all its incoming nodes checked too
  (or they have no incoming connections), and none of them is the parent.
\<close>

definition searched :: "(string \<times> string) set \<Rightarrow> string \<Rightarrow> string list \<Rightarrow> string list \<Rightarrow> bool" where
  "searched E parent chk chk' \<longleftrightarrow>
     set chk \<subseteq> set chk' \<and>
     E `` (set chk' - set chk) \<subseteq> (set chk' \<union> {m. E `` {m} = {}}) - {parent}"

lemma searched_refl: "searched E parent chk chk"
  by (simp add: searched_def)

lemma searched_trans: "searched E parent a b \<Longrightarrow> searched E parent b c \<Longrightarrow> searched E parent a c"
  unfolding searched_def by blast

lemma indexes_visit_missed:
  assumes search: "\<And>c chk chk'. search c chk = Some (None, chk') \<Longrightarrow>
      searched E parent chk chk' \<and> (c \<in> set chk' \<or> E `` {c} = {})"
    and "indexes_visit search parent cs chk = Some (None, chk')"
  shows "searched E parent chk chk' \<and>
    (\<forall>(d, c) \<in> set cs. conn_node c \<noteq> parent \<and> (conn_node c \<in> set chk' \<or> E `` {conn_node c} = {}))"
  using assms(2)
proof (induction cs arbitrary: chk)
  case Nil
  then show ?case by (simp add: searched_refl)
next
  case (Cons p cs)
  obtain d c where p: "p = (d, c)" by (cases p)
  from Cons.prems p have ne: "conn_node c \<noteq> parent" by (auto split: if_splits)
  show ?case
  proof (cases "conn_node c \<in> set chk")
    case True
    with Cons.prems p ne have "indexes_visit search parent cs chk = Some (None, chk')" by simp
    from Cons.IH[OF this] True p ne show ?thesis by (auto simp: searched_def)
  next
    case False
    with Cons.prems p ne obtain chk1 where s: "search (conn_node c) chk = Some (None, chk1)"
      and v: "indexes_visit search parent cs chk1 = Some (None, chk')"
      by (auto split: option.splits prod.splits)
    note S = search[OF s] Cons.IH[OF v]
    then have "searched E parent chk chk'" using searched_trans by blast
    moreover have "conn_node c \<in> set chk' \<or> E `` {conn_node c} = {}"
      using S unfolding searched_def by blast
    ultimately show ?thesis using S p ne by auto
  qed
qed

lemma indexes_fuel_missed:
  assumes "obj_get (nodes w) parent \<noteq> None"
    and "indexes_fuel fuel w parent ty (-1) n chk = Some (None, chk')"
  shows "searched (edges (SelType ty) (connectionsByDestinationNode w)) parent chk chk' \<and>
     (n \<in> set chk' \<or> edges (SelType ty) (connectionsByDestinationNode w) `` {n} = {})"
  using assms(2)
proof (induction fuel arbitrary: n chk chk')
  case 0
  then show ?case by simp
next
  case (Suc fuel)
  let ?E = "edges (SelType ty) (connectionsByDestinationNode w)"
  show ?case
  proof (cases "\<exists>byType byIndex. obj_get (connectionsByDestinationNode w) n = Some byType \<and>
      obj_get byType ty = Some byIndex")
    case False
    then have "?E `` {n} = {}" by (auto simp: edges_def target_names_def sel_types_def)
    moreover have "chk' = chk" using Suc.prems assms(1) False by (auto split: option.splits)
    ultimately show ?thesis by (simp add: searched_refl)
  next
    case True
    then obtain byType byIndex where h: "obj_get (connectionsByDestinationNode w) n = Some byType"
      "obj_get byType ty = Some byIndex" by blast
    show ?thesis
    proof (cases "n \<in> set chk")
      case True
      with Suc.prems h assms(1) have "chk' = chk" by (auto split: if_splits)
      with True show ?thesis by (simp add: searched_refl)
    next
      case False
      with Suc.prems h assms(1) have v: "indexes_visit (indexes_fuel fuel w parent ty (-1)) parent
          (concat (map (enumerate 0) byIndex)) (chk @ [n]) = Some (None, chk')"
        by (auto split: if_splits)
      have S: "searched ?E parent (chk @ [n]) chk' \<and>
        (\<forall>(d, c) \<in> set (concat (map (enumerate 0) byIndex)). conn_node c \<noteq> parent \<and>
          (conn_node c \<in> set chk' \<or> ?E `` {conn_node c} = {}))"
        by (rule indexes_visit_missed[OF Suc.IH v])
      have targets: "?E `` {n} = conn_node ` snd ` set (concat (map (enumerate 0) byIndex))"
        unfolding enumerated_targets using h by (auto simp: edges_def target_names_def sel_types_def)
      have "?E `` {n} \<subseteq> (set chk' \<union> {m. ?E `` {m} = {}}) - {parent}"
      proof
        fix m assume "m \<in> ?E `` {n}"
        then obtain p where p: "p \<in> set (concat (map (enumerate 0) byIndex))" "m = conn_node (snd p)"
          unfolding targets by blast
        from bspec[OF conjunct2[OF S] p(1)] p(2)
        show "m \<in> (set chk' \<union> {m. ?E `` {m} = {}}) - {parent}" by (simp add: case_prod_beta)
      qed
      with S False show ?thesis unfolding searched_def by auto
    qed
  qed
qed

lemma getNodeConnectionIndexes_fuel:
  "\<exists>chk'. indexes_fuel (Suc (length (destination_names w))) w parent ty depth n [] =
     Some (getNodeConnectionIndexes w n parent ty depth, chk')"
proof -
  have "remaining w [] < Suc (length (destination_names w))"
    using remaining_le_length[of w] by simp
  from indexes_fuel_enough[OF this, of parent ty depth n] show ?thesis
    by (auto simp: getNodeConnectionIndexes_def simp del: indexes_fuel.simps)
qed

text \<open>
  The indexes through which two nodes are connected: an answer names a connection that
  leaves the parent and enters the node or a node above it, and without a depth limit there
  is no answer exactly when the parent is not above the node.
\<close>

theorem getNodeConnectionIndexes_correct:
  fixes w :: Workflow and ty :: NodeConnectionType
  assumes "obj_get (nodes w) parent \<noteq> None"
  defines "E \<equiv> edges (SelType ty) (connectionsByDestinationNode w)"
  shows "(\<forall>x. getNodeConnectionIndexes w n parent ty depth = Some x \<longrightarrow>
      (\<exists>m. (n, m) \<in> E\<^sup>* \<and> joins w ty m parent x)) \<and>
    (getNodeConnectionIndexes w n parent ty (-1) = None \<longleftrightarrow> (n, parent) \<notin> E\<^sup>+)"
proof -
  have found: "\<exists>m. (n, m) \<in> E\<^sup>* \<and> joins w ty m parent x" if g: "getNodeConnectionIndexes w n parent ty depth = Some x" for x depth
  proof -
    obtain chk' where "indexes_fuel (Suc (length (destination_names w))) w parent ty depth n [] = Some (Some x, chk')"
      using getNodeConnectionIndexes_fuel[of w parent ty depth n] g by auto
    from indexes_fuel_found[OF this] show ?thesis unfolding E_def .
  qed
  have edge: "(m, parent) \<in> E" if "joins w ty m parent x" for m x
    using that joins_edge unfolding E_def by blast
  have "(n, parent) \<notin> E\<^sup>+" if none: "getNodeConnectionIndexes w n parent ty (-1) = None"
  proof
    assume path: "(n, parent) \<in> E\<^sup>+"
    obtain chk' where "indexes_fuel (Suc (length (destination_names w))) w parent ty (-1) n [] = Some (None, chk')"
      using getNodeConnectionIndexes_fuel[of w parent ty "-1" n] none by auto
    from indexes_fuel_missed[OF assms(1) this]
    have S: "E `` set chk' \<subseteq> (set chk' \<union> {m. E `` {m} = {}}) - {parent}" "n \<in> set chk' \<or> E `` {n} = {}"
      unfolding E_def searched_def by auto
    obtain m where m: "(n, m) \<in> E\<^sup>*" "(m, parent) \<in> E" using path by (meson tranclD2)
    have "E `` {n} \<noteq> {}" using path by (auto dest: tranclD)
    with S(2) have "n \<in> set chk'" by blast
    have "m \<in> set chk' \<union> {m. E `` {m} = {}}"
      using m(1) by (rule closed_rtrancl[rotated 2]) (use S \<open>n \<in> set chk'\<close> in auto)
    with S(1) m(2) show False by auto
  qed
  with found edge show ?thesis by (metis not_None_eq rtrancl_into_trancl1)
qed

theorem getNodeConnectionIndexes_correct_witness:
  "getNodeConnectionIndexes sample_workflow ''M'' ''T'' MainConn (-1)
     = Some \<lparr>sourceIndex = 0, destinationIndex = 0\<rparr> \<and>
   (''M'', ''T'') \<in> (edges (SelType MainConn) (connectionsByDestinationNode sample_workflow))\<^sup>+"
proof -
  have g: "getNodeConnectionIndexes sample_workflow ''M'' ''T'' MainConn (-1)
     = Some \<lparr>sourceIndex = 0, destinationIndex = 0\<rparr>" by code_simp
  have "obj_get (nodes sample_workflow) ''T'' \<noteq> None" by code_simp
  from getNodeConnectionIndexes_correct[OF this, of "''M''" MainConn "-1", THEN conjunct2] g show ?thesis by simp
qed

end
