(* ===== verification/WaitingExecution.thy ===== *)
theory WaitingExecution
  imports GraphSearch
begin

text \<open>
  How packages/core/src/WorkflowExecute.ts decides what runs next: a node with one input
  goes straight onto the execution stack, a node with several inputs waits in
  \<open>waitingExecution\<close> until all of them have data, and the first time it waits its other
  inputs are put on the stack where the execution order asks for it.  A throw abandons
  the execution, so an operation returns either the error or the new execution data.
  A stack entry whose node does not exist is reported as the TypeError that the main
  loop raises when it reads the name of that node.
\<close>

section \<open>Reading the graph and the run data\<close>

definition forceInputNodeExecution :: "Workflow \<Rightarrow> bool" where
  "forceInputNodeExecution w = (executionOrder w \<noteq> Some OrderV1)"

definition mainInputs :: "Workflow \<Rightarrow> string \<Rightarrow> js_error + NodeInputConnections" where
  "mainInputs w n =
     (case obj_get (connectionsByDestinationNode w) n of
        None \<Rightarrow> Inl TypeError
      | Some byType \<Rightarrow> (case obj_get byType MainConn of None \<Rightarrow> Inl TypeError | Some l \<Rightarrow> Inr l))"

definition firstInput :: "Workflow \<Rightarrow> string \<Rightarrow> js_error + IConnection list" where
  "firstInput w n = res_bind (mainInputs w n) (\<lambda>l. case l of [] \<Rightarrow> Inl TypeError | cs # _ \<Rightarrow> Inr cs)"

definition incoming_slot :: "IRunData \<Rightarrow> IConnection \<Rightarrow> nat \<Rightarrow> items slot" where
  "incoming_slot rd c runIndex =
     (case obj_get rd (conn_node c) of
        None \<Rightarrow> Undefined
      | Some runs \<Rightarrow> (case list_get runs runIndex of
          None \<Rightarrow> Undefined
        | Some t \<Rightarrow> (case task_data t of
            None \<Rightarrow> Undefined
          | Some d \<Rightarrow> (case obj_get d MainConn of
              None \<Rightarrow> Undefined
            | Some m \<Rightarrow> arr_get m (conn_index c)))))"

primrec incomingConnectionIsEmpty :: "IRunData \<Rightarrow> IConnection list \<Rightarrow> nat \<Rightarrow> js_error + bool" where
  "incomingConnectionIsEmpty rd [] runIndex = Inr True"
| "incomingConnectionIsEmpty rd (c # cs) runIndex =
     (case incoming_slot rd c runIndex of
        Undefined \<Rightarrow> incomingConnectionIsEmpty rd cs runIndex
      | Null \<Rightarrow> Inl TypeError
      | Val its \<Rightarrow> (if its \<noteq> [] then Inr False else incomingConnectionIsEmpty rd cs runIndex))"

definition mk_source :: "string \<Rightarrow> nat \<Rightarrow> nat \<Rightarrow> ISourceData" where
  "mk_source parent outputIndex runIndex =
     \<lparr>previousNode = parent, previousNodeOutput = or_undefined outputIndex,
      previousNodeRun = or_undefined runIndex\<rparr>"

section \<open>The waiting entries\<close>

text \<open>
  \<open>waitingExecution\<close> and \<open>waitingExecutionSource\<close> have the same nesting: node name, run
  index, input type, array of inputs.
\<close>

type_synonym 'a waiting = "(NodeConnectionType, 'a slot list) obj nat_obj str_obj"

definition waiting_main :: "'a waiting \<Rightarrow> string \<Rightarrow> nat \<Rightarrow> 'a slot list option" where
  "waiting_main ob n idx =
     (case obj_get ob n of
        None \<Rightarrow> None
      | Some runs \<Rightarrow> (case obj_get runs idx of None \<Rightarrow> None | Some e \<Rightarrow> obj_get e MainConn))"

definition waiting_update ::
    "string \<Rightarrow> nat \<Rightarrow> ('a slot list \<Rightarrow> 'a slot list) \<Rightarrow> 'a waiting \<Rightarrow> js_error + 'a waiting" where
  "waiting_update n idx f ob =
     (case obj_get ob n of
        None \<Rightarrow> Inl TypeError
      | Some runs \<Rightarrow> (case obj_get runs idx of
          None \<Rightarrow> Inl TypeError
        | Some e \<Rightarrow> (case obj_get e MainConn of
            None \<Rightarrow> Inl TypeError
          | Some m \<Rightarrow> Inr (str_put n (nat_put idx (enum_put MainConn (f m) e) runs) ob))))"

definition waiting_open :: "string \<Rightarrow> nat \<Rightarrow> nat \<Rightarrow> 'a waiting \<Rightarrow> js_error + 'a waiting" where
  "waiting_open n idx k ob =
     (case obj_get ob n of
        None \<Rightarrow> Inl TypeError
      | Some runs \<Rightarrow> Inr (str_put n (nat_put idx [(MainConn, replicate k Null)] runs) ob))"

definition source_of :: "ExecutionData \<Rightarrow> IWaitingForExecutionSource" where
  "source_of ed = (case waitingExecutionSource ed of None \<Rightarrow> [] | Some s \<Rightarrow> s)"

definition prepareWaitingToExecution ::
    "string \<Rightarrow> nat \<Rightarrow> nat \<Rightarrow> ExecutionData \<Rightarrow> js_error + ExecutionData" where
  "prepareWaitingToExecution nodeName numberOfConnections runIndex ed =
     res_bind (waiting_open nodeName runIndex numberOfConnections (waitingExecution ed)) (\<lambda>we.
     res_bind (waiting_open nodeName runIndex numberOfConnections (source_of ed)) (\<lambda>ws.
       Inr (ed\<lparr>waitingExecution := we, waitingExecutionSource := Some ws\<rparr>)))"

text \<open>The first waiting run, in ascending order, that has no data for the given input.\<close>

fun findWaitingIndex :: "ITaskDataConnections nat_obj \<Rightarrow> nat \<Rightarrow> js_error + nat option" where
  "findWaitingIndex [] i = Inr None"
| "findWaitingIndex ((k, e) # runs) i =
     (case obj_get e MainConn of
        None \<Rightarrow> Inl TypeError
      | Some m \<Rightarrow> (if slot_truthy (arr_get m i) then findWaitingIndex runs i else Inr (Some k)))"

text \<open>
  The entry to add the data to: an existing one, or a new one at the index that is the
  number of entries.  Also returned: whether the node was waiting before.
\<close>

definition openNode :: "string \<Rightarrow> ExecutionData \<Rightarrow> ExecutionData" where
  "openNode n ed =
     (if obj_get (waitingExecution ed) n \<noteq> None then ed\<lparr>waitingExecutionSource := Some (source_of ed)\<rparr>
      else ed\<lparr>waitingExecution := str_put n [] (waitingExecution ed),
              waitingExecutionSource := Some (str_put n [] (source_of ed))\<rparr>)"

definition waitingRuns :: "string \<Rightarrow> ExecutionData \<Rightarrow> ITaskDataConnections nat_obj" where
  "waitingRuns n ed = (case obj_get (waitingExecution ed) n of None \<Rightarrow> [] | Some r \<Rightarrow> r)"

definition openWaitingEntry :: "Workflow \<Rightarrow> IConnection \<Rightarrow> ExecutionData \<Rightarrow> js_error + nat \<times> bool \<times> ExecutionData" where
  "openWaitingEntry w connectionData ed =
     (let n = conn_node connectionData;
          nodeWasWaiting = (obj_get (waitingExecution ed) n \<noteq> None);
          ed1 = openNode n ed;
          runs = waitingRuns n ed1
      in res_bind (findWaitingIndex runs (conn_index connectionData)) (\<lambda>found.
           case found of
             Some idx \<Rightarrow> Inr (idx, nodeWasWaiting, ed1)
           | None \<Rightarrow>
               res_bind (mainInputs w n) (\<lambda>inputs.
               res_bind (prepareWaitingToExecution n (length inputs) (length runs) ed1) (\<lambda>ed2.
                 Inr (length runs, nodeWasWaiting, ed2)))))"

text \<open>The data of one output of the executed node: null when there is no data at all.\<close>

type_synonym outputs = "items slot list"

definition success_slot :: "outputs option \<Rightarrow> nat \<Rightarrow> items slot" where
  "success_slot nodeSuccessData outputIndex =
     (case nodeSuccessData of None \<Rightarrow> Null | Some outs \<Rightarrow> arr_get outs outputIndex)"

definition addWaitingData ::
    "Workflow \<Rightarrow> IConnection \<Rightarrow> nat \<Rightarrow> string \<Rightarrow> outputs option \<Rightarrow> nat \<Rightarrow> ExecutionData \<Rightarrow>
     js_error + nat \<times> bool \<times> ExecutionData" where
  "addWaitingData w connectionData outputIndex parentNodeName nodeSuccessData runIndex ed =
     res_bind (openWaitingEntry w connectionData ed) (\<lambda>(idx, nodeWasWaiting, ed1).
     res_bind (waiting_update (conn_node connectionData) idx
       (\<lambda>m. arr_set m (conn_index connectionData) (success_slot nodeSuccessData outputIndex))
       (waitingExecution ed1)) (\<lambda>we.
     res_bind (waiting_update (conn_node connectionData) idx
       (\<lambda>m. arr_set m (conn_index connectionData)
          (if nodeSuccessData = None then Null else Val (mk_source parentNodeName outputIndex runIndex)))
       (source_of ed1)) (\<lambda>ws.
     Inr (idx, nodeWasWaiting, ed1\<lparr>waitingExecution := we, waitingExecutionSource := Some ws\<rparr>))))"

definition allDataFound :: "items slot list \<Rightarrow> bool" where
  "allDataFound m = (Null \<notin> set m)"

section \<open>Putting nodes on the execution stack\<close>

definition enqueue :: "Workflow \<Rightarrow> IExecuteData \<Rightarrow> ExecutionData \<Rightarrow> ExecutionData" where
  "enqueue w item ed =
     (if executionOrder w = Some OrderV1
      then ed\<lparr>nodeExecutionStack := item # nodeExecutionStack ed\<rparr>
      else ed\<lparr>nodeExecutionStack := nodeExecutionStack ed @ [item]\<rparr>)"

definition stack_item ::
    "Workflow \<Rightarrow> string \<Rightarrow> ITaskDataConnections \<Rightarrow> ITaskDataConnectionsSource option \<Rightarrow> js_error + IExecuteData" where
  "stack_item w n data source =
     (case obj_get (nodes w) n of
        None \<Rightarrow> Inl TypeError
      | Some node \<Rightarrow> Inr \<lparr>exec_data = data, exec_node = node, exec_source = source\<rparr>)"

text \<open>
  Removing a waiting run; the node goes too when it has no other run waiting, and its
  sources with it.
\<close>

definition removeWaiting :: "string \<Rightarrow> nat \<Rightarrow> ExecutionData \<Rightarrow> js_error + ExecutionData" where
  "removeWaiting n idx ed =
     (case (obj_get (waitingExecution ed) n, obj_get (source_of ed) n) of
        (Some runs, Some sources) \<Rightarrow>
          (if obj_del idx runs = []
           then Inr (ed\<lparr>waitingExecution := obj_del n (waitingExecution ed),
                        waitingExecutionSource := Some (obj_del n (source_of ed))\<rparr>)
           else Inr (ed\<lparr>waitingExecution := str_put n (obj_del idx runs) (waitingExecution ed),
                        waitingExecutionSource := Some (str_put n (obj_del idx sources) (source_of ed))\<rparr>))
      | _ \<Rightarrow> Inl TypeError)"

definition enqueueWaiting :: "Workflow \<Rightarrow> string \<Rightarrow> nat \<Rightarrow> ExecutionData \<Rightarrow> js_error + ExecutionData" where
  "enqueueWaiting w n idx ed =
     (case (obj_get (waitingExecution ed) n, obj_get (source_of ed) n) of
        (Some runs, Some sources) \<Rightarrow>
          (case obj_get runs idx of
             None \<Rightarrow> Inl TypeError
           | Some data \<Rightarrow>
               res_bind (stack_item w n data (obj_get sources idx)) (\<lambda>item.
                 removeWaiting n idx (enqueue w item ed)))
      | _ \<Rightarrow> Inl TypeError)"

text \<open>
  The node to force for a missing input: walking from the input node up its parents, the
  last one before a node that has run already; none when a sibling output of the parent
  or an entry of the stack will bring the data anyway.
\<close>

fun chooseNodeToAdd ::
    "string \<Rightarrow> string list \<Rightarrow> string list \<Rightarrow> IRunData \<Rightarrow> string list \<Rightarrow> string option \<Rightarrow> string option" where
  "chooseNodeToAdd inputNode checkOutputNodes stackNodes rd [] nodeToAdd = nodeToAdd"
| "chooseNodeToAdd inputNode checkOutputNodes stackNodes rd (parentNode # parents) nodeToAdd =
     (if inputNode \<noteq> parentNode \<and> parentNode \<in> set checkOutputNodes then None
      else if parentNode \<in> set stackNodes then None
      else if obj_get rd parentNode \<noteq> None then nodeToAdd
      else chooseNodeToAdd inputNode checkOutputNodes stackNodes rd parents (Some parentNode))"

definition empty_input :: ITaskDataConnections where
  "empty_input = [(MainConn, [Val [empty_item]])]"

definition addSiblingInput ::
    "Workflow \<Rightarrow> nat \<Rightarrow> string \<Rightarrow> outputs option \<Rightarrow> nat \<Rightarrow> IRunData \<Rightarrow> string list \<Rightarrow>
     IConnection \<Rightarrow> ExecutionData \<Rightarrow> js_error + ExecutionData" where
  "addSiblingInput w outputIndex parentNodeName nodeSuccessData runIndex rd checkOutputNodes inputData ed =
     (let inode = conn_node inputData;
          stackNodes = map (\<lambda>e. node_name (exec_node e)) (nodeExecutionStack ed)
      in
      if inode = parentNodeName then Inr ed
      else res_bind
        (if inode \<in> set checkOutputNodes
         then res_bind (firstInput w inode) (\<lambda>cs. res_bind (incomingConnectionIsEmpty rd cs runIndex) (\<lambda>e. Inr (\<not> e)))
         else Inr False) (\<lambda>willBeAdded.
      if willBeAdded then Inr ed
      else if inode \<in> set stackNodes then Inr ed
      else if obj_get rd inode \<noteq> None then Inr ed
      else if \<not> forceInputNodeExecution w then Inr ed
      else
        (let parents = rev (getParentNodes w inode (SelType MainConn) (-1) @ [inode]);
             chosen = chooseNodeToAdd inode checkOutputNodes stackNodes rd parents (Some inode);
             parentsOfChosen = getParentNodes w
               (case chosen of None \<Rightarrow> ''undefined'' | Some n \<Rightarrow> n) (SelType MainConn) (-1)
         in res_bind
           (if parentNodeName \<in> set parentsOfChosen
            then (case success_slot nodeSuccessData outputIndex of
                    Val its \<Rightarrow> Inr (if its = [] then None else chosen)
                  | _ \<Rightarrow> Inl TypeError)
            else Inr chosen) (\<lambda>nodeToAdd.
         case nodeToAdd of
           None \<Rightarrow> Inr ed
         | Some n \<Rightarrow>
             res_bind
               (if obj_get (connectionsByDestinationNode w) n = None then Inr True
                else res_bind (firstInput w n) (\<lambda>cs. incomingConnectionIsEmpty rd cs runIndex)) (\<lambda>addEmptyItem.
             if addEmptyItem
             then res_bind (stack_item w n empty_input
                    (Some [(MainConn, [Val (mk_source parentNodeName outputIndex runIndex)])])) (\<lambda>item.
                    Inr (enqueue w item ed))
             else Inr ed)))))"

text \<open>The nodes behind the outputs of the parent, and the loop over all the inputs.\<close>

definition outputNodes :: "Workflow \<Rightarrow> string \<Rightarrow> js_error + string list" where
  "outputNodes w parentNodeName =
     (case obj_get (connectionsBySourceNode w) parentNodeName of
        None \<Rightarrow> Inl TypeError
      | Some byType \<Rightarrow> Inr (case obj_get byType MainConn of
          None \<Rightarrow> [] | Some byIndex \<Rightarrow> map conn_node (concat byIndex)))"

definition addSiblingInputs ::
    "Workflow \<Rightarrow> IConnection \<Rightarrow> nat \<Rightarrow> string \<Rightarrow> outputs option \<Rightarrow> nat \<Rightarrow> IRunData \<Rightarrow>
     ExecutionData \<Rightarrow> js_error + ExecutionData" where
  "addSiblingInputs w connectionData outputIndex parentNodeName nodeSuccessData runIndex rd ed =
     res_bind (outputNodes w parentNodeName) (\<lambda>checkOutputNodes.
     res_bind (mainInputs w (conn_node connectionData)) (\<lambda>inputs.
       res_fold (addSiblingInput w outputIndex parentNodeName nodeSuccessData runIndex rd checkOutputNodes)
         (concat inputs) ed))"

text \<open>
  Data is still missing: the entry is written again, with the collected data; its sources
  are reset to null except that of the input just added.
\<close>

definition keepWaiting ::
    "Workflow \<Rightarrow> IConnection \<Rightarrow> nat \<Rightarrow> string \<Rightarrow> outputs option \<Rightarrow> nat \<Rightarrow> nat \<Rightarrow>
     ExecutionData \<Rightarrow> js_error + ExecutionData" where
  "keepWaiting w connectionData outputIndex parentNodeName nodeSuccessData runIndex idx ed =
     (let n = conn_node connectionData;
          i = conn_index connectionData;
          found = (case waiting_main (waitingExecution ed) n idx of
             None \<Rightarrow> replicate (Suc i) Null | Some m \<Rightarrow> m);
          connectionDataArray = arr_set found i (success_slot nodeSuccessData outputIndex)
      in res_bind (mainInputs w n) (\<lambda>inputs.
         res_bind (prepareWaitingToExecution n (length inputs) idx ed) (\<lambda>ed1.
         res_bind (waiting_update n idx (\<lambda>_. connectionDataArray) (waitingExecution ed1)) (\<lambda>we.
         res_bind (waiting_update n idx
           (\<lambda>m. arr_set m i (Val (mk_source parentNodeName outputIndex runIndex))) (source_of ed1)) (\<lambda>ws.
         Inr (ed1\<lparr>waitingExecution := we, waitingExecutionSource := Some ws\<rparr>))))))"

definition addDirectly ::
    "Workflow \<Rightarrow> IConnection \<Rightarrow> nat \<Rightarrow> string \<Rightarrow> outputs option \<Rightarrow> nat \<Rightarrow>
     ExecutionData \<Rightarrow> js_error + ExecutionData" where
  "addDirectly w connectionData outputIndex parentNodeName nodeSuccessData runIndex ed =
     (let connectionDataArray = arr_set (replicate (Suc (conn_index connectionData)) Null)
            (conn_index connectionData) (success_slot nodeSuccessData outputIndex)
      in res_bind (stack_item w (conn_node connectionData) [(MainConn, connectionDataArray)]
           (Some [(MainConn, [Val (mk_source parentNodeName outputIndex runIndex)])])) (\<lambda>item.
         Inr (enqueue w item ed)))"

definition addNodeToBeExecuted ::
    "Workflow \<Rightarrow> IConnection \<Rightarrow> nat \<Rightarrow> string \<Rightarrow> outputs option \<Rightarrow> nat \<Rightarrow> IRunData \<Rightarrow>
     ExecutionData \<Rightarrow> js_error + ExecutionData" where
  "addNodeToBeExecuted w connectionData outputIndex parentNodeName nodeSuccessData runIndex rd ed =
     res_bind (mainInputs w (conn_node connectionData)) (\<lambda>inputs.
     if length inputs > 1 then
       res_bind (addWaitingData w connectionData outputIndex parentNodeName nodeSuccessData runIndex ed)
         (\<lambda>(idx, nodeWasWaiting, ed1).
         case waiting_main (waitingExecution ed1) (conn_node connectionData) idx of
           None \<Rightarrow> Inl TypeError
         | Some m \<Rightarrow>
             if allDataFound m then enqueueWaiting w (conn_node connectionData) idx ed1
             else res_bind
               (if nodeWasWaiting then Inr ed1
                else addSiblingInputs w connectionData outputIndex parentNodeName nodeSuccessData runIndex rd ed1)
               (keepWaiting w connectionData outputIndex parentNodeName nodeSuccessData runIndex idx))
     else addDirectly w connectionData outputIndex parentNodeName nodeSuccessData runIndex ed)"

section \<open>The waiting store as a partial map\<close>

text \<open>
  Abstractly a waiting store is a map from node and run index to the inputs collected so
  far; \<open>waiting_main\<close> is the abstraction function and every operation is an update or a
  deletion of that map.  \<open>tidy\<close> is the representation invariant: no node without a run,
  distinct run indexes in ascending order, no run without its array of inputs.
\<close>

definition tidy :: "'a waiting \<Rightarrow> bool" where
  "tidy ob \<longleftrightarrow>
     (\<forall>n runs. obj_get ob n = Some runs \<longrightarrow>
        runs \<noteq> [] \<and> obj_wf nat_before runs \<and> (\<forall>idx e. obj_get runs idx = Some e \<longrightarrow> obj_get e MainConn \<noteq> None))"

definition tidy_except :: "string \<Rightarrow> 'a waiting \<Rightarrow> bool" where
  "tidy_except n0 ob \<longleftrightarrow>
     (\<forall>n runs. obj_get ob n = Some runs \<longrightarrow>
        (n \<noteq> n0 \<longrightarrow> runs \<noteq> []) \<and> obj_wf nat_before runs \<and> (\<forall>idx e. obj_get runs idx = Some e \<longrightarrow> obj_get e MainConn \<noteq> None))"

lemma tidy_imp_except: "tidy ob \<Longrightarrow> tidy_except n ob"
  unfolding tidy_def tidy_except_def by blast

lemma tidy_put_empty: "tidy ob \<Longrightarrow> tidy_except n (str_put n [] ob)"
  unfolding tidy_def tidy_except_def by auto

lemma waiting_main_cases:
  "waiting_main ob n idx = Some m \<longleftrightarrow>
     (\<exists>runs e. obj_get ob n = Some runs \<and> obj_get runs idx = Some e \<and> obj_get e MainConn = Some m)"
  by (auto simp: waiting_main_def split: option.splits)

lemma tidy_waiting_main:
  "tidy_except n0 ob \<Longrightarrow> obj_get ob n = Some runs \<Longrightarrow> waiting_main ob n idx = None \<longleftrightarrow> obj_get runs idx = None"
  by (auto simp: waiting_main_def tidy_except_def split: option.splits)

lemma waiting_main_put_empty:
  "obj_get ob n = None \<Longrightarrow> waiting_main (str_put n [] ob) = waiting_main ob"
  by (auto simp: fun_eq_iff waiting_main_def)

lemma waiting_updateD:
  assumes "waiting_update n idx f ob = Inr ob'" and "tidy ob"
  obtains m where "waiting_main ob n idx = Some m" and "tidy ob'"
    and "waiting_main ob' = (\<lambda>n' idx'. if n' = n \<and> idx' = idx then Some (f m) else waiting_main ob n' idx')"
proof -
  from assms(1) obtain runs e m where g: "obj_get ob n = Some runs" "obj_get runs idx = Some e"
    "obj_get e MainConn = Some m"
    and ob': "ob' = str_put n (nat_put idx (enum_put MainConn (f m) e) runs) ob"
    by (auto simp: waiting_update_def split: option.splits)
  show ?thesis
  proof (rule that)
    show "waiting_main ob n idx = Some m" using g by (simp add: waiting_main_def)
    show "tidy ob'" using assms(2) g unfolding tidy_def ob' by (auto intro: nobj.wf_put)
    show "waiting_main ob' = (\<lambda>n' idx'. if n' = n \<and> idx' = idx then Some (f m) else waiting_main ob n' idx')"
      using g by (auto simp: fun_eq_iff waiting_main_def ob')
  qed
qed

lemma waiting_openD:
  assumes "waiting_open n idx k ob = Inr ob'" and "tidy_except n ob"
  shows "tidy ob'"
    and "waiting_main ob' = (\<lambda>n' idx'. if n' = n \<and> idx' = idx then Some (replicate k Null) else waiting_main ob n' idx')"
proof -
  from assms(1) obtain runs where g: "obj_get ob n = Some runs"
    and ob': "ob' = str_put n (nat_put idx [(MainConn, replicate k Null)] runs) ob"
    by (auto simp: waiting_open_def split: option.splits)
  show "tidy ob'" using assms(2) g unfolding tidy_def tidy_except_def ob' by (auto intro: nobj.wf_put)
  show "waiting_main ob' = (\<lambda>n' idx'. if n' = n \<and> idx' = idx then Some (replicate k Null) else waiting_main ob n' idx')"
    using g by (auto simp: fun_eq_iff waiting_main_def ob')
qed

section \<open>The invariant of the waiting entries\<close>

text \<open>
  Every waiting run belongs to a node with several inputs, has one slot per input, still
  misses the data of at least one of them, and has a source entry of the same shape.
\<close>

definition waiting_inv :: "Workflow \<Rightarrow> ExecutionData \<Rightarrow> bool" where
  "waiting_inv w ed \<longleftrightarrow>
     tidy (waitingExecution ed) \<and> tidy (source_of ed) \<and>
     (\<forall>n idx. (waiting_main (waitingExecution ed) n idx = None) = (waiting_main (source_of ed) n idx = None)) \<and>
     (\<forall>n idx m. waiting_main (waitingExecution ed) n idx = Some m \<longrightarrow>
        (\<exists>inputs. mainInputs w n = Inr inputs \<and> 1 < length inputs \<and> length m = length inputs \<and> Null \<in> set m))"

text \<open>The same with one entry that may have become complete: the state between steps.\<close>

definition waiting_inv_but :: "Workflow \<Rightarrow> string \<Rightarrow> nat \<Rightarrow> ExecutionData \<Rightarrow> bool" where
  "waiting_inv_but w n0 idx0 ed \<longleftrightarrow>
     tidy (waitingExecution ed) \<and> tidy (source_of ed) \<and>
     (\<forall>n idx. (waiting_main (waitingExecution ed) n idx = None) = (waiting_main (source_of ed) n idx = None)) \<and>
     (\<forall>n idx m. waiting_main (waitingExecution ed) n idx = Some m \<longrightarrow>
        (\<exists>inputs. mainInputs w n = Inr inputs \<and> 1 < length inputs \<and> length m = length inputs \<and>
           (Null \<in> set m \<or> n = n0 \<and> idx = idx0)))"

lemma waiting_inv_imp_but: "waiting_inv w ed \<Longrightarrow> waiting_inv_but w n idx ed"
  unfolding waiting_inv_def waiting_inv_but_def by blast

lemma waiting_inv_stack [simp]:
  "waiting_inv w (ed\<lparr>nodeExecutionStack := st\<rparr>) = waiting_inv w ed"
  "waiting_inv_but w n idx (ed\<lparr>nodeExecutionStack := st\<rparr>) = waiting_inv_but w n idx ed"
  by (simp_all add: waiting_inv_def waiting_inv_but_def source_of_def)

lemma enqueue_frame [simp]:
  "waitingExecution (enqueue w item ed) = waitingExecution ed"
  "waitingExecutionSource (enqueue w item ed) = waitingExecutionSource ed"
  "contextData (enqueue w item ed) = contextData ed"
  "exec_metadata (enqueue w item ed) = exec_metadata ed"
  "source_of (enqueue w item ed) = source_of ed"
  by (simp_all add: enqueue_def source_of_def)

lemma enqueue_stack:
  "nodeExecutionStack (enqueue w item ed) =
     (if executionOrder w = Some OrderV1 then item # nodeExecutionStack ed else nodeExecutionStack ed @ [item])"
  by (simp add: enqueue_def)

lemma waiting_inv_enqueue [simp]:
  "waiting_inv w (enqueue w' item ed) = waiting_inv w ed"
  "waiting_inv_but w n idx (enqueue w' item ed) = waiting_inv_but w n idx ed"
  by (simp_all add: enqueue_def)

lemma prepareD:
  assumes "prepareWaitingToExecution n k idx ed = Inr ed'"
    and "tidy_except n (waitingExecution ed)" and "tidy_except n (source_of ed)"
  shows "tidy (waitingExecution ed')" and "tidy (source_of ed')"
    and "waiting_main (waitingExecution ed') =
      (\<lambda>n' idx'. if n' = n \<and> idx' = idx then Some (replicate k Null) else waiting_main (waitingExecution ed) n' idx')"
    and "waiting_main (source_of ed') =
      (\<lambda>n' idx'. if n' = n \<and> idx' = idx then Some (replicate k Null) else waiting_main (source_of ed) n' idx')"
    and "nodeExecutionStack ed' = nodeExecutionStack ed"
proof -
  from assms(1) obtain we ws where o: "waiting_open n idx k (waitingExecution ed) = Inr we"
    "waiting_open n idx k (source_of ed) = Inr ws"
    and ed': "ed' = ed\<lparr>waitingExecution := we, waitingExecutionSource := Some ws\<rparr>"
    by (auto simp: prepareWaitingToExecution_def res_bind_Inr)
  note 1 = waiting_openD[OF o(1) assms(2)] and 2 = waiting_openD[OF o(2) assms(3)]
  show "tidy (waitingExecution ed')" "tidy (source_of ed')"
    using 1(1) 2(1) by (simp_all add: ed' source_of_def)
  show "waiting_main (waitingExecution ed') =
      (\<lambda>n' idx'. if n' = n \<and> idx' = idx then Some (replicate k Null) else waiting_main (waitingExecution ed) n' idx')"
    using 1(2) by (simp add: ed')
  show "waiting_main (source_of ed') =
      (\<lambda>n' idx'. if n' = n \<and> idx' = idx then Some (replicate k Null) else waiting_main (source_of ed) n' idx')"
    using 2(2) by (simp add: ed' source_of_def)
  show "nodeExecutionStack ed' = nodeExecutionStack ed" by (simp add: ed')
qed

lemma findWaitingIndex_Some:
  "findWaitingIndex runs i = Inr (Some k) \<Longrightarrow> \<exists>e m. (k, e) \<in> set runs \<and> obj_get e MainConn = Some m"
  by (induction runs i rule: findWaitingIndex.induct) (auto split: option.splits if_splits)

lemma findWaitingIndex_key:
  "findWaitingIndex runs i = Inr (Some k) \<Longrightarrow> obj_get runs k \<noteq> None"
proof -
  assume "findWaitingIndex runs i = Inr (Some k)"
  then have "k \<in> set (obj_keys runs)" using findWaitingIndex_Some by (force simp: obj_keys_def)
  then show ?thesis by (auto simp: obj_keys_get)
qed

lemma openWaitingEntry_cases:
  assumes "openWaitingEntry w c ed = Inr (idx, was, ed')" and "mainInputs w (conn_node c) = Inr inputs"
  obtains (old) "findWaitingIndex (waitingRuns (conn_node c) (openNode (conn_node c) ed)) (conn_index c) = Inr (Some idx)"
      "ed' = openNode (conn_node c) ed" "was = (obj_get (waitingExecution ed) (conn_node c) \<noteq> None)"
  | (new) "findWaitingIndex (waitingRuns (conn_node c) (openNode (conn_node c) ed)) (conn_index c) = Inr None"
      "idx = length (waitingRuns (conn_node c) (openNode (conn_node c) ed))"
      "prepareWaitingToExecution (conn_node c) (length inputs) idx (openNode (conn_node c) ed) = Inr ed'"
      "was = (obj_get (waitingExecution ed) (conn_node c) \<noteq> None)"
proof -
  let ?n = "conn_node c" and ?ed1 = "openNode (conn_node c) ed"
  let ?runs = "waitingRuns ?n ?ed1" and ?was = "obj_get (waitingExecution ed) ?n \<noteq> None"
  from assms(1) obtain found where f: "findWaitingIndex ?runs (conn_index c) = Inr found"
    and rest: "(case found of
          Some i \<Rightarrow> Inr (i, ?was, ?ed1)
        | None \<Rightarrow> res_bind (mainInputs w ?n) (\<lambda>inputs.
            res_bind (prepareWaitingToExecution ?n (length inputs) (length ?runs) ?ed1) (\<lambda>ed2.
              Inr (length ?runs, ?was, ed2)))) = Inr (idx, was, ed')"
    unfolding openWaitingEntry_def Let_def by (rule res_bindE)
  show thesis
  proof (cases found)
    case None
    have "res_bind (prepareWaitingToExecution ?n (length inputs) (length ?runs) ?ed1) (\<lambda>ed2.
            Inr (length ?runs, ?was, ed2)) = Inr (idx, was, ed')"
      using rest unfolding None assms(2) option.case res_bind_simps .
    then obtain ed2 where p: "prepareWaitingToExecution ?n (length inputs) (length ?runs) ?ed1 = Inr ed2"
      and q: "Inr (length ?runs, ?was, ed2) = (Inr (idx, was, ed') :: js_error + _)"
      by (rule res_bindE)
    from q have "idx = length ?runs" "was = ?was" "ed' = ed2" by (simp_all only: sum.inject prod.inject)
    with f None p show thesis by (intro new) simp_all
  next
    case (Some i)
    with f rest show thesis by (intro old) simp_all
  qed
qed

lemma waiting_inv_dom:
  assumes "waiting_inv w ed" and "obj_get (waitingExecution ed) n = None"
  shows "obj_get (source_of ed) n = None"
proof (rule ccontr)
  assume "obj_get (source_of ed) n \<noteq> None"
  then obtain sr where sr: "obj_get (source_of ed) n = Some sr" by blast
  have t: "tidy (source_of ed)" using assms(1) by (simp only: waiting_inv_def)
  with sr have "sr \<noteq> []" unfolding tidy_def by blast
  then obtain k e rest where "sr = (k, e) # rest" by (cases sr) auto
  then have "obj_get sr k = Some e" by simp
  with sr t have "waiting_main (source_of ed) n k \<noteq> None"
    unfolding tidy_def waiting_main_def by auto
  moreover have "waiting_main (waitingExecution ed) n k = None"
    using assms(2) by (simp add: waiting_main_def)
  moreover have "(waiting_main (waitingExecution ed) n k = None) = (waiting_main (source_of ed) n k = None)"
    using assms(1) by (simp only: waiting_inv_def)
  ultimately show False by simp
qed

lemma openNode_facts:
  assumes "waiting_inv w ed"
  shows "tidy_except n (waitingExecution (openNode n ed))" and "tidy_except n (source_of (openNode n ed))"
    and "waiting_main (waitingExecution (openNode n ed)) = waiting_main (waitingExecution ed)"
    and "waiting_main (source_of (openNode n ed)) = waiting_main (source_of ed)"
    and "nodeExecutionStack (openNode n ed) = nodeExecutionStack ed"
    and "waitingRuns n (openNode n ed) = waitingRuns n ed"
proof -
  have t: "tidy (waitingExecution ed)" "tidy (source_of ed)"
    using assms by (simp_all only: waiting_inv_def)
  note src = source_of_def[of "_\<lparr>waitingExecutionSource := Some _\<rparr>"]
  show "tidy_except n (waitingExecution (openNode n ed))" "tidy_except n (source_of (openNode n ed))"
    using t by (simp_all add: openNode_def src tidy_imp_except tidy_put_empty)
  show "waiting_main (waitingExecution (openNode n ed)) = waiting_main (waitingExecution ed)"
    by (simp add: openNode_def waiting_main_put_empty)
  show "waiting_main (source_of (openNode n ed)) = waiting_main (source_of ed)"
    using waiting_inv_dom[OF assms, of n] by (simp add: openNode_def src waiting_main_put_empty)
  show "nodeExecutionStack (openNode n ed) = nodeExecutionStack ed" by (simp add: openNode_def)
  show "waitingRuns n (openNode n ed) = waitingRuns n ed"
    by (simp add: waitingRuns_def openNode_def split: option.splits)
qed

text \<open>
  The store after opening an entry: either it is unchanged and the entry misses the data
  of the input, or the entry is all null and every waiting run has data for the input.
\<close>

lemma findWaitingIndex_missing:
  assumes "findWaitingIndex runs i = Inr (Some k)" and "obj_wf b runs"
  shows "\<exists>e m. obj_get runs k = Some e \<and> obj_get e MainConn = Some m \<and> \<not> slot_truthy (arr_get m i)"
  using assms
proof (induction runs i rule: findWaitingIndex.induct)
  case (1 i)
  then show ?case by simp
next
  case (2 k' e runs i)
  show ?case
  proof (cases "\<exists>m. obj_get e MainConn = Some m \<and> slot_truthy (arr_get m i)")
    case True
    then have f: "findWaitingIndex runs i = Inr (Some k)" using 2(2) by auto
    have "obj_wf b runs" and "k' \<notin> set (obj_keys runs)"
      using 2(3) by (auto simp: obj_wf_def obj_keys_def)
    with 2(1) True f obtain e' m where "obj_get runs k = Some e'" "obj_get e' MainConn = Some m"
      "\<not> slot_truthy (arr_get m i)" by blast
    moreover from this(1) have "k \<noteq> k'"
      using \<open>k' \<notin> set (obj_keys runs)\<close> by (auto simp: obj_keys_get)
    ultimately show ?thesis by simp
  next
    case False
    then show ?thesis using 2(2) by (auto split: option.splits if_splits)
  qed
qed

lemma findWaitingIndex_None:
  "findWaitingIndex runs i = Inr None \<Longrightarrow> obj_get runs k = Some e \<Longrightarrow> obj_get e MainConn = Some m
     \<Longrightarrow> slot_truthy (arr_get m i)"
  by (induction runs i rule: findWaitingIndex.induct) (auto split: option.splits if_splits)

lemma openWaitingEntry_inv:
  assumes "openWaitingEntry w c ed = Inr (idx, was, ed')" and "waiting_inv w ed"
    and "mainInputs w (conn_node c) = Inr inputs" and "1 < length inputs"
  shows "waiting_inv w ed'" and "nodeExecutionStack ed' = nodeExecutionStack ed"
    and "waiting_main (waitingExecution ed') (conn_node c) idx \<noteq> None"
    and "was = (obj_get (waitingExecution ed) (conn_node c) \<noteq> None)"
proof -
  let ?n = "conn_node c"
  note N = openNode_facts[OF assms(2), of ?n]
  have "waiting_inv w ed' \<and> nodeExecutionStack ed' = nodeExecutionStack ed \<and>
      waiting_main (waitingExecution ed') ?n idx \<noteq> None \<and>
      was = (obj_get (waitingExecution ed) (conn_node c) \<noteq> None)"
  using assms(1,3)
  proof (cases rule: openWaitingEntry_cases)
    case old
    then have key: "obj_get (waitingRuns ?n ed) idx \<noteq> None"
      unfolding N(6) by (intro findWaitingIndex_key)
    then obtain r where r: "obj_get (waitingExecution ed) ?n = Some r" "waitingRuns ?n ed = r"
      by (auto simp: waitingRuns_def split: option.splits)
    have t: "tidy (waitingExecution ed)" using assms(2) by (simp only: waiting_inv_def)
    have "waiting_main (waitingExecution ed) ?n idx \<noteq> None"
      using tidy_waiting_main[OF tidy_imp_except[OF t] r(1)] key r(2) by simp
    moreover have "waiting_inv w (openNode ?n ed)" using assms(2) r(1)
      by (simp add: waiting_inv_def openNode_def source_of_def[of "_\<lparr>waitingExecutionSource := Some _\<rparr>"])
    ultimately show ?thesis using old(2,3) N(3,5) by simp
  next
    case new
    note P = prepareD[OF new(3) N(1,2)]
    have "waiting_inv w ed'"
      using assms(2-4) P(1,2) unfolding waiting_inv_def P(3,4) N(3,4)
      by (auto simp: in_set_replicate split: if_splits)
    then show ?thesis using P(3,5) N(5) new(4) by simp
  qed
  then show "waiting_inv w ed'" "nodeExecutionStack ed' = nodeExecutionStack ed"
    "waiting_main (waitingExecution ed') ?n idx \<noteq> None"
    "was = (obj_get (waitingExecution ed) (conn_node c) \<noteq> None)" by blast+
qed

lemma openWaitingEntry_store:
  assumes "openWaitingEntry w c ed = Inr (idx, was, ed')" and "waiting_inv w ed"
    and "mainInputs w (conn_node c) = Inr inputs" and "1 < length inputs"
  obtains m0 where "waiting_main (waitingExecution ed') =
      (\<lambda>n' idx'. if n' = conn_node c \<and> idx' = idx then Some m0 else waiting_main (waitingExecution ed) n' idx')"
    and "waiting_main (waitingExecution ed) (conn_node c) idx = Some m0 \<and> \<not> slot_truthy (arr_get m0 (conn_index c)) \<or>
      m0 = replicate (length inputs) Null \<and> idx = length (waitingRuns (conn_node c) ed) \<and>
      (\<forall>k m. waiting_main (waitingExecution ed) (conn_node c) k = Some m \<longrightarrow> slot_truthy (arr_get m (conn_index c)))"
  using assms(1,3)
proof (cases rule: openWaitingEntry_cases)
  case old
  note N = openNode_facts[OF assms(2), of "conn_node c"]
  have "obj_wf nat_before (waitingRuns (conn_node c) ed)"
    using assms(2) by (auto simp: waiting_inv_def tidy_def waitingRuns_def split: option.splits)
  from findWaitingIndex_missing[OF old(1)[unfolded N(6)] this] obtain e m where
    e: "obj_get (waitingRuns (conn_node c) ed) idx = Some e" "obj_get e MainConn = Some m"
      "\<not> slot_truthy (arr_get m (conn_index c))" by blast
  then have "waiting_main (waitingExecution ed) (conn_node c) idx = Some m"
    by (auto simp: waiting_main_def waitingRuns_def split: option.splits)
  with e(3) show thesis by (intro that[of m]) (auto simp: old(2) N(3) fun_eq_iff)
next
  case new
  note N = openNode_facts[OF assms(2), of "conn_node c"]
  have "\<forall>k m. waiting_main (waitingExecution ed) (conn_node c) k = Some m \<longrightarrow> slot_truthy (arr_get m (conn_index c))"
  proof (intro allI impI)
    fix k m assume "waiting_main (waitingExecution ed) (conn_node c) k = Some m"
    then obtain runs e where "obj_get (waitingExecution ed) (conn_node c) = Some runs"
      "obj_get runs k = Some e" "obj_get e MainConn = Some m" unfolding waiting_main_cases by blast
    then show "slot_truthy (arr_get m (conn_index c))"
      using findWaitingIndex_None[OF new(1)[unfolded N(6)]] by (simp add: waitingRuns_def)
  qed
  then show thesis
    using prepareD(3)[OF new(3) N(1,2)] new(2) unfolding N(3,6)
    by (intro that[of "replicate (length inputs) Null"]) simp_all
qed

end
