(* ===== verification/WorkflowNodes.thy ===== *)
theory WorkflowNodes
  imports GraphSearch Samples
begin

text \<open>
  The rest of packages/workflow/src/Workflow.ts apart from running a node: building a
  workflow from its parameters, the checks before activation and execution, the static
  data, queries over the nodes, the start node, and the life cycle of a webhook.  The
  node type registry, the resolution of expressions, the default parameters and the
  parameter issues of a node type come from outside and are arguments.
\<close>

section \<open>Construction\<close>

record WorkflowParameters =
  par_id :: string
  par_name :: "string option"
  par_nodes :: "INode list"
  par_connections :: IConnections
  par_active :: bool
  par_staticData :: "IDataObject str_obj option"
  par_order :: "ExecutionOrder option"
  par_pinData :: "IPinData option"

text \<open>
  \<open>defaults\<close> is \<open>NodeHelpers.getNodeParameters\<close>: the parameters of a node with the
  default values of its type, or null.
\<close>

definition with_defaults :: "INodeTypes \<Rightarrow> (INodeType \<Rightarrow> INode \<Rightarrow> IDataObject option) \<Rightarrow> INode \<Rightarrow> INode" where
  "with_defaults nodeTypes defaults node =
     (case nodeTypes (node_type node) (typeVersion node) of
        None \<Rightarrow> node
      | Some nodeType \<Rightarrow>
          node\<lparr>parameters := (case defaults nodeType node of None \<Rightarrow> [] | Some p \<Rightarrow> p)\<rparr>)"

definition newWorkflow ::
    "INodeTypes \<Rightarrow> (INodeType \<Rightarrow> INode \<Rightarrow> IDataObject option) \<Rightarrow> WorkflowParameters \<Rightarrow> Workflow" where
  "newWorkflow nodeTypes defaults p =
     \<lparr>wf_id = par_id p, wf_name = par_name p,
      nodes = fold (\<lambda>node ns. str_put (node_name node) (with_defaults nodeTypes defaults node) ns) (par_nodes p) [],
      connectionsBySourceNode = par_connections p,
      connectionsByDestinationNode = getConnectionsByDestination (par_connections p),
      wf_active = par_active p, executionOrder = par_order p, wf_pinData = par_pinData p,
      staticData = (case par_staticData p of None \<Rightarrow> [] | Some d \<Rightarrow> d), testStaticData = None\<rparr>"

section \<open>Queries over the nodes\<close>

fun can_be_activated_loop :: "INodeTypes \<Rightarrow> string list option \<Rightarrow> INode list \<Rightarrow> bool" where
  "can_be_activated_loop nodeTypes ignoreNodeTypes [] = False"
| "can_be_activated_loop nodeTypes ignoreNodeTypes (node # ns) =
     (if is_disabled node then can_be_activated_loop nodeTypes ignoreNodeTypes ns
      else if (case ignoreNodeTypes of None \<Rightarrow> False | Some ig \<Rightarrow> node_type node \<in> set ig)
      then can_be_activated_loop nodeTypes ignoreNodeTypes ns
      else case nodeTypes (node_type node) (typeVersion node) of
          None \<Rightarrow> can_be_activated_loop nodeTypes ignoreNodeTypes ns
        | Some nodeType \<Rightarrow>
            (if has_poll nodeType \<or> has_trigger nodeType \<or> has_webhook nodeType then True
             else can_be_activated_loop nodeTypes ignoreNodeTypes ns))"

definition checkIfWorkflowCanBeActivated :: "INodeTypes \<Rightarrow> Workflow \<Rightarrow> string list option \<Rightarrow> bool" where
  "checkIfWorkflowCanBeActivated nodeTypes w ignoreNodeTypes =
     can_be_activated_loop nodeTypes ignoreNodeTypes (map snd (nodes w))"

definition queryNodes :: "INodeTypes \<Rightarrow> (INodeType \<Rightarrow> bool) \<Rightarrow> Workflow \<Rightarrow> INode list" where
  "queryNodes nodeTypes checkFunction w =
     filter (\<lambda>node. \<not> is_disabled node \<and>
        (case nodeTypes (node_type node) (typeVersion node) of
           None \<Rightarrow> False | Some nodeType \<Rightarrow> checkFunction nodeType)) (map snd (nodes w))"

definition getTriggerNodes :: "INodeTypes \<Rightarrow> Workflow \<Rightarrow> INode list" where
  "getTriggerNodes nodeTypes = queryNodes nodeTypes has_trigger"

definition getPollNodes :: "INodeTypes \<Rightarrow> Workflow \<Rightarrow> INode list" where
  "getPollNodes nodeTypes = queryNodes nodeTypes has_poll"

definition getNode :: "Workflow \<Rightarrow> string \<Rightarrow> INode option" where
  "getNode w nodeName = obj_get (nodes w) nodeName"

definition getPinDataOfNode :: "Workflow \<Rightarrow> string \<Rightarrow> items option" where
  "getPinDataOfNode w nodeName = (case wf_pinData w of None \<Rightarrow> None | Some p \<Rightarrow> obj_get p nodeName)"

section \<open>Issues before an execution\<close>

datatype NodeIssues = TypeUnknown | ParameterIssues jval

text \<open>
  \<open>issues\<close> is \<open>NodeHelpers.getNodeParametersIssues\<close>: the issues of a node of a known
  type, given the names of the nodes with pinned data, or null.
\<close>

type_synonym issue_check = "INodeType \<Rightarrow> INode \<Rightarrow> string list option \<Rightarrow> jval option"

definition check_node ::
    "INodeTypes \<Rightarrow> issue_check \<Rightarrow> string list option \<Rightarrow> Workflow \<Rightarrow> string \<Rightarrow>
     NodeIssues str_obj \<Rightarrow> js_error + NodeIssues str_obj" where
  "check_node nodeTypes issues pinned w nodeName found =
     (case obj_get (nodes w) nodeName of
        None \<Rightarrow> Inl TypeError
      | Some node \<Rightarrow>
          (if is_disabled node then Inr found
           else case nodeTypes (node_type node) (typeVersion node) of
               None \<Rightarrow> Inr (str_put (node_name node) TypeUnknown found)
             | Some nodeType \<Rightarrow>
                 (case issues nodeType node pinned of
                    None \<Rightarrow> Inr found
                  | Some i \<Rightarrow> Inr (str_put (node_name node) (ParameterIssues i) found))))"

definition nodes_to_check :: "Workflow \<Rightarrow> string option \<Rightarrow> string option \<Rightarrow> string list" where
  "nodes_to_check w startNode destNode =
     (case destNode of
        Some (d # ds) \<Rightarrow> getParentNodes w (d # ds) (SelType MainConn) (-1) @ [d # ds]
      | _ \<Rightarrow> (case startNode of
          Some (s # ss) \<Rightarrow> getChildNodes w (s # ss) (SelType MainConn) (-1) @ [s # ss]
        | _ \<Rightarrow> []))"

definition checkReadyForExecution ::
    "INodeTypes \<Rightarrow> issue_check \<Rightarrow> Workflow \<Rightarrow> string option \<Rightarrow> string option \<Rightarrow> string list option \<Rightarrow>
     js_error + NodeIssues str_obj option" where
  "checkReadyForExecution nodeTypes issues w startNode destNode pinned =
     res_bind (res_fold (check_node nodeTypes issues pinned w) (nodes_to_check w startNode destNode) [])
       (\<lambda>found. Inr (if found = [] then None else Some found))"

section \<open>Static data\<close>

definition static_key :: "string \<Rightarrow> INode option \<Rightarrow> js_error + string" where
  "static_key ty node =
     (if ty = ''global'' then Inr ''global''
      else if ty = ''node'' then
        (case node of
           None \<Rightarrow> Inl (ApplicationError
             ''The request data of context type \"node\" the node parameter has to be set!'')
         | Some n \<Rightarrow> Inr (''node:'' @ node_name n))
      else Inl (ApplicationError ''Unknown context type. Only `global` and `node` are supported.''))"

text \<open>
  The data and the workflow afterwards: the entry is created when it is missing.  An
  entry of the static data is an object, which is truthy.
\<close>

definition getStaticData :: "Workflow \<Rightarrow> string \<Rightarrow> INode option \<Rightarrow> js_error + IDataObject \<times> Workflow" where
  "getStaticData w ty node =
     res_bind (static_key ty node) (\<lambda>key.
       case (case testStaticData w of None \<Rightarrow> None | Some d \<Rightarrow> obj_get d key) of
         Some d \<Rightarrow> Inr (d, w)
       | None \<Rightarrow>
           (case obj_get (staticData w) key of
              Some d \<Rightarrow> Inr (d, w)
            | None \<Rightarrow> Inr ([], w\<lparr>staticData := str_put key [] (staticData w)\<rparr>)))"

definition setTestStaticData :: "IDataObject str_obj \<Rightarrow> Workflow \<Rightarrow> Workflow" where
  "setTestStaticData d w = w\<lparr>testStaticData := Some d\<rparr>"

section \<open>The start node\<close>

definition MANUAL_CHAT_TRIGGER_LANGCHAIN_NODE_TYPE :: string where
  "MANUAL_CHAT_TRIGGER_LANGCHAIN_NODE_TYPE = ''@n8n/n8n-nodes-langchain.manualChatTrigger''"

definition STARTING_NODE_TYPES :: "string list" where
  "STARTING_NODE_TYPES =
     [''n8n-nodes-base.manualTrigger'', ''n8n-nodes-base.executeWorkflowTrigger'',
      ''n8n-nodes-base.errorTrigger'', ''n8n-nodes-base.start'']"

fun index_of :: "'a list \<Rightarrow> 'a \<Rightarrow> nat" where
  "index_of [] x = 0"
| "index_of (y # ys) x = (if x = y then 0 else Suc (index_of ys x))"

text \<open>\<open>Array.indexOf\<close> shifted by one, so that \<open>-1\<close> is \<open>0\<close>: only the order matters.\<close>

definition starting_rank :: "INode \<Rightarrow> nat" where
  "starting_rank n =
     (if node_type n \<in> set STARTING_NODE_TYPES then Suc (index_of STARTING_NODE_TYPES (node_type n)) else 0)"

fun start_loop :: "INodeTypes \<Rightarrow> Workflow \<Rightarrow> bool \<Rightarrow> string list \<Rightarrow> js_error + INode option" where
  "start_loop nodeTypes w single [] = Inr None"
| "start_loop nodeTypes w single (nodeName # names) =
     (case obj_get (nodes w) nodeName of
        None \<Rightarrow> Inl TypeError
      | Some node \<Rightarrow>
          (if single \<and> \<not> is_disabled node then Inr (Some node)
           else case nodeTypes (node_type node) (typeVersion node) of
               None \<Rightarrow> Inl TypeError
             | Some nodeType \<Rightarrow>
                 (if type_name (description nodeType) = MANUAL_CHAT_TRIGGER_LANGCHAIN_NODE_TYPE
                  then start_loop nodeTypes w single names
                  else if has_trigger nodeType \<or> has_poll nodeType
                  then (if is_disabled node then start_loop nodeTypes w single names else Inr (Some node))
                  else start_loop nodeTypes w single names)))"

fun first_starting :: "INodes \<Rightarrow> string list \<Rightarrow> js_error + INode option" where
  "first_starting ns [] = Inr None"
| "first_starting ns (nodeName # names) =
     (case obj_get ns nodeName of
        None \<Rightarrow> Inl TypeError
      | Some node \<Rightarrow>
          (if node_type node \<in> set STARTING_NODE_TYPES
           then (if is_disabled node then first_starting ns names else Inr (Some node))
           else first_starting ns names))"

definition sorted_node_names :: "Workflow \<Rightarrow> string list" where
  "sorted_node_names w = map node_name (sort_key starting_rank (map snd (nodes w)))"

definition startNodeOf :: "INodeTypes \<Rightarrow> Workflow \<Rightarrow> string list \<Rightarrow> js_error + INode option" where
  "startNodeOf nodeTypes w nodeNames =
     res_bind (start_loop nodeTypes w (length nodeNames = 1) nodeNames) (\<lambda>found.
       case found of
         Some node \<Rightarrow> Inr (Some node)
       | None \<Rightarrow> first_starting (nodes w) (sorted_node_names w))"

definition getStartNode :: "INodeTypes \<Rightarrow> Workflow \<Rightarrow> string option \<Rightarrow> js_error + INode option" where
  "getStartNode nodeTypes w destNode =
     (case destNode of
        Some (d # ds) \<Rightarrow>
          res_bind (getHighestNode w (d # ds) MainConn None) (\<lambda>highest.
            let nodeNames = (if highest = [] then [d # ds] else highest)
            in res_bind (startNodeOf nodeTypes w nodeNames) (\<lambda>found.
                 case found of
                   Some node \<Rightarrow> Inr (Some node)
                 | None \<Rightarrow> Inr (obj_get (nodes w) (hd nodeNames))))
      | _ \<Rightarrow> startNodeOf nodeTypes w (obj_keys (nodes w)))"

section \<open>Outputs of a node and the main node of a sub-node\<close>

fun output_type :: "NodeOutput \<Rightarrow> NodeConnectionType" where
  "output_type (OutName t) = t"
| "output_type (OutConfig c) = out_type c"

definition getConnectionTypes :: "NodeOutput list \<Rightarrow> NodeConnectionType list" where
  "getConnectionTypes connections = map output_type connections"

text \<open>
  \<open>evaluate\<close> resolves an expression over a node, None when that throws, and an empty
  list for a falsy value.
\<close>

definition success_output :: "NodeOutput \<Rightarrow> NodeOutput" where
  "success_output out =
     (case out of
        OutName t \<Rightarrow> OutConfig \<lparr>out_category_error = False, out_displayName = Some ''Success'', out_type = t\<rparr>
      | OutConfig c \<Rightarrow> OutConfig (c\<lparr>out_displayName := Some ''Success''\<rparr>))"

definition getNodeOutputs ::
    "(INode \<Rightarrow> string \<Rightarrow> NodeOutput list option) \<Rightarrow> INode \<Rightarrow> INodeTypeDescription \<Rightarrow> NodeOutput list" where
  "getNodeOutputs evaluate node desc =
     (let outputs = (case type_outputs desc of
            OutputList l \<Rightarrow> l
          | OutputExpression e \<Rightarrow> (case evaluate node e of None \<Rightarrow> [] | Some l \<Rightarrow> l))
      in if onError node = Some ContinueErrorOutput
         then (case outputs of [out] \<Rightarrow> [success_output out] | _ \<Rightarrow> outputs) @
              [OutConfig \<lparr>out_category_error = True, out_displayName = Some ''Error'', out_type = MainConn\<rparr>]
         else outputs)"

partial_function (option) getParentMainInputNode ::
    "INodeTypes \<Rightarrow> (INode \<Rightarrow> string \<Rightarrow> NodeOutput list option) \<Rightarrow> Workflow \<Rightarrow> INode \<Rightarrow> (js_error + INode) option" where
  "getParentMainInputNode nodeTypes evaluate w node =
     (case nodeTypes (node_type node) (typeVersion node) of
        None \<Rightarrow> Some (Inl TypeError)
      | Some nodeType \<Rightarrow>
          (let outputs = getConnectionTypes (getNodeOutputs evaluate node (description nodeType))
           in if \<exists>t \<in> set outputs. t \<noteq> MainConn
              then (case concat (map (\<lambda>t. getChildNodes w (node_name node) (SelType t) (-1)) outputs) of
                      [] \<Rightarrow> Some (Inr node)
                    | name # _ \<Rightarrow>
                        (case getNode w name of
                           None \<Rightarrow> Some (Inl (ApplicationError (''Node \"'' @ name @ ''\" not found'')))
                         | Some returnNode \<Rightarrow> getParentMainInputNode nodeTypes evaluate w returnNode))
              else Some (Inr node)))"

section \<open>Webhooks of a node\<close>

datatype WebhookSetupMethod = CheckExists | CreateHook | DeleteHook

record WebhookSetup =
  wh_node :: string
  wh_name :: string

text \<open>
  The methods of a node type act on the external service, whose state is \<open>'s\<close>; a missing
  method, and a node that does not exist, do nothing.
\<close>

type_synonym 's webhook_methods =
  "INodeType \<Rightarrow> string \<Rightarrow> WebhookSetupMethod \<Rightarrow> (INode \<Rightarrow> 's \<Rightarrow> (js_error + bool option) \<times> 's) option"

definition runWebhookMethod ::
    "INodeTypes \<Rightarrow> 's webhook_methods \<Rightarrow> Workflow \<Rightarrow> WebhookSetupMethod \<Rightarrow> WebhookSetup \<Rightarrow> 's \<Rightarrow>
     (js_error + bool option) \<times> 's" where
  "runWebhookMethod nodeTypes methods w meth d s =
     (case getNode w (wh_node d) of
        None \<Rightarrow> (Inr None, s)
      | Some node \<Rightarrow>
          (case nodeTypes (node_type node) (typeVersion node) of
             None \<Rightarrow> (Inl TypeError, s)
           | Some nodeType \<Rightarrow>
               (case methods nodeType (wh_name d) meth of
                  None \<Rightarrow> (Inr None, s)
                | Some f \<Rightarrow> f node s)))"

definition createWebhookIfNotExists ::
    "INodeTypes \<Rightarrow> 's webhook_methods \<Rightarrow> Workflow \<Rightarrow> WebhookSetup \<Rightarrow> 's \<Rightarrow> (js_error + unit) \<times> 's" where
  "createWebhookIfNotExists nodeTypes methods w d s =
     (case runWebhookMethod nodeTypes methods w CheckExists d s of
        (Inl e, s1) \<Rightarrow> (Inl e, s1)
      | (Inr webhookExists, s1) \<Rightarrow>
          (if webhookExists = Some True then (Inr (), s1)
           else case runWebhookMethod nodeTypes methods w CreateHook d s1 of
               (Inl e, s2) \<Rightarrow> (Inl e, s2)
             | (Inr _, s2) \<Rightarrow> (Inr (), s2)))"

definition deleteWebhook ::
    "INodeTypes \<Rightarrow> 's webhook_methods \<Rightarrow> Workflow \<Rightarrow> WebhookSetup \<Rightarrow> 's \<Rightarrow> (js_error + unit) \<times> 's" where
  "deleteWebhook nodeTypes methods w d s =
     (case runWebhookMethod nodeTypes methods w DeleteHook d s of
        (Inl e, s1) \<Rightarrow> (Inl e, s1)
      | (Inr _, s1) \<Rightarrow> (Inr (), s1))"

section \<open>Which workflows can be activated, and which nodes answer a query\<close>

definition type_has :: "INodeTypes \<Rightarrow> (INodeType \<Rightarrow> bool) \<Rightarrow> INode \<Rightarrow> bool" where
  "type_has nodeTypes f node =
     (case nodeTypes (node_type node) (typeVersion node) of None \<Rightarrow> False | Some t \<Rightarrow> f t)"

definition ignored :: "string list option \<Rightarrow> INode \<Rightarrow> bool" where
  "ignored ig node = (case ig of None \<Rightarrow> False | Some l \<Rightarrow> node_type node \<in> set l)"

lemma can_be_activated_step:
  "can_be_activated_loop T ig (n # ns) \<longleftrightarrow>
     \<not> is_disabled n \<and> \<not> ignored ig n \<and> type_has T (\<lambda>t. has_poll t \<or> has_trigger t \<or> has_webhook t) n \<or>
     can_be_activated_loop T ig ns"
  by (cases "T (node_type n) (typeVersion n)"; cases ig) (auto simp: type_has_def ignored_def)

lemma can_be_activated_iff:
  "can_be_activated_loop T ig ns \<longleftrightarrow>
     (\<exists>n \<in> set ns. \<not> is_disabled n \<and> \<not> ignored ig n \<and>
        type_has T (\<lambda>t. has_poll t \<or> has_trigger t \<or> has_webhook t) n)"
  by (induction ns) (simp_all only: can_be_activated_step can_be_activated_loop.simps(1) list.set bex_simps
      insert_iff Bex_def empty_iff simp_thms ex_disj_distrib conj_disj_distribR)

lemma queryNodes_set:
  "n \<in> set (queryNodes T f w) \<longleftrightarrow> n \<in> set (map snd (nodes w)) \<and> \<not> is_disabled n \<and> type_has T f n"
  by (simp add: queryNodes_def type_has_def)

lemma type_has_disj: "type_has T (\<lambda>t. f t \<or> g t) n \<longleftrightarrow> type_has T f n \<or> type_has T g n"
  by (simp add: type_has_def split: option.split)

text \<open>
  A workflow can be activated exactly if one of its enabled nodes, of a type that is not
  ignored, is known to the registry and has a poll, trigger or webhook method; with nothing
  ignored that is to say that one of the queries for such nodes finds something.
\<close>

theorem checkIfWorkflowCanBeActivated_correct:
  "checkIfWorkflowCanBeActivated T w ig =
     (\<exists>n \<in> set (map snd (nodes w)). \<not> is_disabled n \<and> \<not> ignored ig n \<and>
        type_has T (\<lambda>t. has_poll t \<or> has_trigger t \<or> has_webhook t) n) \<and>
   checkIfWorkflowCanBeActivated T w None =
     (getTriggerNodes T w \<noteq> [] \<or> getPollNodes T w \<noteq> [] \<or> queryNodes T has_webhook w \<noteq> [])"
proof
  show "checkIfWorkflowCanBeActivated T w ig =
     (\<exists>n \<in> set (map snd (nodes w)). \<not> is_disabled n \<and> \<not> ignored ig n \<and>
        type_has T (\<lambda>t. has_poll t \<or> has_trigger t \<or> has_webhook t) n)"
    unfolding checkIfWorkflowCanBeActivated_def can_be_activated_iff ..
  have ne: "xs \<noteq> [] \<longleftrightarrow> (\<exists>x. x \<in> set xs)" for xs :: "INode list" by (cases xs) auto
  show "checkIfWorkflowCanBeActivated T w None =
     (getTriggerNodes T w \<noteq> [] \<or> getPollNodes T w \<noteq> [] \<or> queryNodes T has_webhook w \<noteq> [])"
    unfolding checkIfWorkflowCanBeActivated_def can_be_activated_iff
      getTriggerNodes_def getPollNodes_def ne queryNodes_set Bex_def type_has_disj ignored_def
    by (simp only: option.case simp_thms) blast
qed

theorem checkIfWorkflowCanBeActivated_correct_witness:
  "checkIfWorkflowCanBeActivated sample_types sample_workflow None \<and>
   getTriggerNodes sample_types sample_workflow \<noteq> [] \<and> getPollNodes sample_types sample_workflow = []"
proof -
  have "getTriggerNodes sample_types sample_workflow = [mk_node ''T'' ''trigger'']"
    "getPollNodes sample_types sample_workflow = []" by code_simp+
  with checkIfWorkflowCanBeActivated_correct[of sample_types sample_workflow None, THEN conjunct2] show ?thesis by simp
qed

section \<open>Issues\<close>

text \<open>The nodes with an issue among the given names.\<close>

definition node_issue :: "INodeTypes \<Rightarrow> issue_check \<Rightarrow> string list option \<Rightarrow> INode \<Rightarrow> NodeIssues option" where
  "node_issue nodeTypes issues pinned node =
     (if is_disabled node then None
      else case nodeTypes (node_type node) (typeVersion node) of
          None \<Rightarrow> Some TypeUnknown
        | Some nodeType \<Rightarrow> map_option ParameterIssues (issues nodeType node pinned))"

text \<open>Nodes are filed under their own name.\<close>

definition named :: "Workflow \<Rightarrow> bool" where
  "named w \<longleftrightarrow> (\<forall>k n. obj_get (nodes w) k = Some n \<longrightarrow> node_name n = k)"

lemma check_node_eq:
  "check_node nodeTypes issues pinned w k found =
     (case obj_get (nodes w) k of
        None \<Rightarrow> Inl TypeError
      | Some node \<Rightarrow> Inr (case node_issue nodeTypes issues pinned node of
          None \<Rightarrow> found | Some i \<Rightarrow> str_put (node_name node) i found))"
  by (auto simp: check_node_def node_issue_def split: option.splits)

lemma check_nodes_get:
  assumes "named w" and "res_fold (check_node nodeTypes issues pinned w) ks found = Inr found'"
  shows "obj_get found' k =
     (if k \<in> set ks \<and> (\<exists>n i. obj_get (nodes w) k = Some n \<and> node_issue nodeTypes issues pinned n = Some i)
      then (case obj_get (nodes w) k of None \<Rightarrow> None | Some n \<Rightarrow> node_issue nodeTypes issues pinned n)
      else obj_get found k)"
  using assms(2)
proof (induction ks arbitrary: found)
  case Nil
  then show ?case by simp
next
  case (Cons x ks)
  from Cons.prems have "res_bind (check_node nodeTypes issues pinned w x found)
      (res_fold (check_node nodeTypes issues pinned w) ks) = Inr found'" by simp
  then obtain f1 where f1: "check_node nodeTypes issues pinned w x found = Inr f1"
    and rest: "res_fold (check_node nodeTypes issues pinned w) ks f1 = Inr found'" by (rule res_bindE)
  from f1 obtain n where n: "obj_get (nodes w) x = Some n"
    by (auto simp: check_node_eq split: option.splits)
  then have nm: "node_name n = x" using assms(1) by (simp add: named_def)
  have get1: "obj_get f1 k = (if k = x \<and> node_issue nodeTypes issues pinned n \<noteq> None
      then node_issue nodeTypes issues pinned n else obj_get found k)"
    using f1 n nm by (auto simp: check_node_eq split: option.splits)
  show ?case unfolding Cons.IH[OF rest] get1 using n by auto
qed

lemma check_nodes_total:
  "(\<forall>k \<in> set ks. obj_get (nodes w) k \<noteq> None) \<Longrightarrow>
     \<exists>found'. res_fold (check_node nodeTypes issues pinned w) ks found = Inr found'"
  by (induction ks arbitrary: found) (auto simp: check_node_eq split: option.splits)

lemma nodes_to_check_destination:
  "d \<noteq> [] \<Longrightarrow> set (nodes_to_check w s (Some d)) =
     insert d {m. (d, m) \<in> (edges (SelType MainConn) (connectionsByDestinationNode w))\<^sup>+}"
  by (cases d) (auto simp: nodes_to_check_def getParentNodes_def set_getConnectedNodes)

lemma node_issue_iff:
  "node_issue T issues pinned n = None \<longleftrightarrow>
     is_disabled n \<or> (\<exists>t. T (node_type n) (typeVersion n) = Some t \<and> issues t n pinned = None)"
  by (auto simp: node_issue_def split: option.split)

text \<open>
  The check before running to a destination looks at the destination and at exactly the
  nodes from which it can be reached over main connections: it finds nothing exactly if
  each of them is disabled or of a known type without parameter issues, and otherwise it
  reports under each node's name the node's own issue.
\<close>

theorem checkReadyForExecution_destination:
  assumes "named w" and "d \<noteq> []"
    and "\<forall>m. (d, m) \<in> (edges (SelType MainConn) (connectionsByDestinationNode w))\<^sup>* \<longrightarrow> obj_get (nodes w) m \<noteq> None"
  shows "\<exists>r. checkReadyForExecution T issues w s (Some d) pinned = Inr r \<and>
    (r = None \<longleftrightarrow> (\<forall>m n. (d, m) \<in> (edges (SelType MainConn) (connectionsByDestinationNode w))\<^sup>* \<longrightarrow>
        obj_get (nodes w) m = Some n \<longrightarrow> node_issue T issues pinned n = None)) \<and>
    (\<forall>found m. r = Some found \<longrightarrow> obj_get found m =
        (if (d, m) \<in> (edges (SelType MainConn) (connectionsByDestinationNode w))\<^sup>*
         then (case obj_get (nodes w) m of None \<Rightarrow> None | Some n \<Rightarrow> node_issue T issues pinned n) else None))"
proof -
  let ?R = "(edges (SelType MainConn) (connectionsByDestinationNode w))\<^sup>*"
  let ?ks = "nodes_to_check w s (Some d)"
  have ks: "m \<in> set ?ks \<longleftrightarrow> (d, m) \<in> ?R" for m
    unfolding nodes_to_check_destination[OF assms(2)] by (auto simp: rtrancl_eq_or_trancl)
  have "\<forall>k \<in> set ?ks. obj_get (nodes w) k \<noteq> None" using ks assms(3) by blast
  from check_nodes_total[OF this] obtain found where
    f: "res_fold (check_node T issues pinned w) ?ks [] = Inr found" by blast
  have get: "obj_get found m = (if (d, m) \<in> ?R
      then (case obj_get (nodes w) m of None \<Rightarrow> None | Some n \<Rightarrow> node_issue T issues pinned n) else None)" for m
    unfolding check_nodes_get[OF assms(1) f] ks by (auto split: option.splits)
  have empty: "found = [] \<longleftrightarrow> (\<forall>m n. (d, m) \<in> ?R \<longrightarrow> obj_get (nodes w) m = Some n \<longrightarrow>
      node_issue T issues pinned n = None)"
  proof
    assume "found = []"
    then have "obj_get found m = None" for m by simp
    then show "\<forall>m n. (d, m) \<in> ?R \<longrightarrow> obj_get (nodes w) m = Some n \<longrightarrow> node_issue T issues pinned n = None"
      unfolding get by (metis option.simps(5))
  next
    assume none: "\<forall>m n. (d, m) \<in> ?R \<longrightarrow> obj_get (nodes w) m = Some n \<longrightarrow> node_issue T issues pinned n = None"
    have "obj_get found m = None" for m
      unfolding get using none by (simp split: option.split)
    then show "found = []" by (metis not_Cons_self2 obj_get_Cons option.distinct(1) surj_pair list.exhaust)
  qed
  have "checkReadyForExecution T issues w s (Some d) pinned = Inr (if found = [] then None else Some found)"
    by (simp add: checkReadyForExecution_def f)
  then show ?thesis using empty get by (intro exI[of _ "if found = [] then None else Some found"]) simp
qed

lemma sample_named: "named sample_workflow"
  by (simp add: named_def sample_workflow_def mk_workflow_def sample_nodes_def mk_node_def)

lemma sample_above_T:
  "(''T'', m) \<in> (edges (SelType MainConn) (connectionsByDestinationNode sample_workflow))\<^sup>* \<Longrightarrow> m = ''T''"
proof (induction rule: rtrancl_induct)
  case base
  show ?case ..
next
  case (step y z)
  have "obj_get (connectionsByDestinationNode sample_workflow) ''T'' = None" by code_simp
  with step show ?case by (simp add: edges_def)
qed

theorem checkReadyForExecution_destination_witness:
  "\<exists>r. checkReadyForExecution sample_types (\<lambda>_ _ _. None) sample_workflow None (Some ''T'') None = Inr r \<and> r = None"
proof -
  have T: "obj_get (nodes sample_workflow) ''T'' = Some (mk_node ''T'' ''trigger'')" by code_simp
  then have "\<forall>m. (''T'', m) \<in> (edges (SelType MainConn) (connectionsByDestinationNode sample_workflow))\<^sup>* \<longrightarrow>
      obj_get (nodes sample_workflow) m \<noteq> None" using sample_above_T by auto
  from checkReadyForExecution_destination[OF sample_named _ this, of sample_types "\<lambda>_ _ _. None" None None]
  obtain r where r: "checkReadyForExecution sample_types (\<lambda>_ _ _. None) sample_workflow None (Some ''T'') None = Inr r"
    "r = None \<longleftrightarrow> (\<forall>m n. (''T'', m) \<in> (edges (SelType MainConn) (connectionsByDestinationNode sample_workflow))\<^sup>* \<longrightarrow>
        obj_get (nodes sample_workflow) m = Some n \<longrightarrow> node_issue sample_types (\<lambda>_ _ _. None) None n = None)"
    by blast
  have "node_issue sample_types (\<lambda>_ _ _. None) None n = None" if "obj_get (nodes sample_workflow) ''T'' = Some n" for n
  proof -
    have "node_issue sample_types (\<lambda>_ _ _. None) None (mk_node ''T'' ''trigger'') = None" by code_simp
    moreover have "n = mk_node ''T'' ''trigger''" using that T by simp
    ultimately show ?thesis by simp
  qed
  with r sample_above_T show ?thesis by blast
qed

section \<open>Static data\<close>

lemma static_key_global_or_node:
  "static_key ty node = Inr k \<Longrightarrow> k = ''global'' \<or> (\<exists>n. node = Some n \<and> k = ''node:'' @ node_name n)"
  by (auto simp: static_key_def split: if_splits option.splits)

text \<open>
  Reading the static data of a context twice gives the same data and changes nothing
  the second time; reading one context never changes the data of another, and the global
  data and the data of different nodes are different contexts.
\<close>

theorem getStaticData_stable:
  assumes "getStaticData w ty node = Inr (d, w')"
  shows "getStaticData w' ty node = Inr (d, w') \<and>
    (\<exists>k. static_key ty node = Inr k \<and>
      (testStaticData w = None \<longrightarrow> obj_get (staticData w') k = Some d) \<and>
      (\<forall>k'. k' \<noteq> k \<longrightarrow> obj_get (staticData w') k' = obj_get (staticData w) k') \<and>
      (\<forall>ty' node'. static_key ty' node' = Inr k \<longrightarrow>
         ty' = ty \<and> (ty = ''node'' \<longrightarrow> map_option node_name node' = map_option node_name node)))"
proof -
  obtain key where key: "static_key ty node = Inr key"
    using assms by (cases "static_key ty node") (auto simp: getStaticData_def)
  have eq: "getStaticData v ty node =
      (case (case testStaticData v of None \<Rightarrow> None | Some d \<Rightarrow> obj_get d key) of
         Some d \<Rightarrow> Inr (d, v)
       | None \<Rightarrow> (case obj_get (staticData v) key of
              Some d \<Rightarrow> Inr (d, v)
            | None \<Rightarrow> Inr ([], v\<lparr>staticData := str_put key [] (staticData v)\<rparr>)))" for v
    by (simp add: getStaticData_def key)
  have again: "getStaticData w' ty node = Inr (d, w')"
    using assms unfolding eq by (auto split: option.splits)
  have stored: "testStaticData w = None \<Longrightarrow> obj_get (staticData w') key = Some d"
    using assms unfolding eq by (auto split: option.splits)
  have others: "k' \<noteq> key \<Longrightarrow> obj_get (staticData w') k' = obj_get (staticData w) k'" for k'
    using assms unfolding eq by (auto split: option.splits)
  have "ty' = ty \<and> (ty = ''node'' \<longrightarrow> map_option node_name node' = map_option node_name node)"
    if "static_key ty' node' = Inr key" for ty' node'
    using key that by (auto simp: static_key_def split: if_splits option.splits)
  note same = this
  show ?thesis
  proof (intro conjI exI[of _ key] allI impI)
    show "getStaticData w' ty node = Inr (d, w')" by (rule again)
    show "static_key ty node = Inr key" by (rule key)
  qed (use stored others same in blast)+
qed

theorem getStaticData_stable_witness:
  "\<exists>w'. getStaticData sample_workflow ''node'' (Some (mk_node ''A'' ''set'')) = Inr ([], w') \<and>
     getStaticData w' ''node'' (Some (mk_node ''A'' ''set'')) = Inr ([], w')"
proof -
  have "getStaticData sample_workflow ''node'' (Some (mk_node ''A'' ''set'')) =
      Inr ([], sample_workflow\<lparr>staticData := [(''node:A'', [])]\<rparr>)"
    by (simp add: getStaticData_def static_key_def sample_workflow_def mk_workflow_def mk_node_def)
  from this getStaticData_stable[OF this] show ?thesis by blast
qed

section \<open>The start node\<close>

text \<open>A node from which a whole workflow may be started.\<close>

definition is_start :: "INodeTypes \<Rightarrow> INode \<Rightarrow> bool" where
  "is_start T node \<longleftrightarrow> \<not> is_disabled node \<and>
     (type_has T (\<lambda>t. type_name (description t) \<noteq> MANUAL_CHAT_TRIGGER_LANGCHAIN_NODE_TYPE \<and>
                        (has_trigger t \<or> has_poll t)) node \<or>
      node_type node \<in> set STARTING_NODE_TYPES)"

lemma start_loop_Some:
  "start_loop T w single ks = Inr (Some node) \<Longrightarrow>
     \<exists>k \<in> set ks. obj_get (nodes w) k = Some node \<and> \<not> is_disabled node \<and>
       (single \<or> type_has T (\<lambda>t. type_name (description t) \<noteq> MANUAL_CHAT_TRIGGER_LANGCHAIN_NODE_TYPE \<and>
                        (has_trigger t \<or> has_poll t)) node)"
  by (induction ks) (auto simp: type_has_def split: option.splits if_splits)

lemma start_loop_None:
  "start_loop T w single ks = Inr None \<Longrightarrow> k \<in> set ks \<Longrightarrow> obj_get (nodes w) k = Some node \<Longrightarrow>
     \<not> is_disabled node \<Longrightarrow> \<not> single \<and> \<not> type_has T
       (\<lambda>t. type_name (description t) \<noteq> MANUAL_CHAT_TRIGGER_LANGCHAIN_NODE_TYPE \<and> (has_trigger t \<or> has_poll t)) node"
  by (induction ks) (auto simp: type_has_def split: option.splits if_splits)

lemma first_starting_Some:
  "first_starting ns ks = Inr (Some node) \<Longrightarrow>
     \<exists>k \<in> set ks. obj_get ns k = Some node \<and> \<not> is_disabled node \<and> node_type node \<in> set STARTING_NODE_TYPES"
  by (induction ks) (auto split: option.splits if_splits)

lemma first_starting_None:
  "first_starting ns ks = Inr None \<Longrightarrow> k \<in> set ks \<Longrightarrow> obj_get ns k = Some node \<Longrightarrow>
     is_disabled node \<or> node_type node \<notin> set STARTING_NODE_TYPES"
  by (induction ks) (auto split: option.splits if_splits)

lemma sorted_node_names_set:
  assumes "named w" and "obj_wf str_before (nodes w)"
  shows "set (sorted_node_names w) = set (obj_keys (nodes w))"
proof -
  have "node_name n = k" if "(k, n) \<in> set (nodes w)" for k n
  proof -
    have "obj_get (nodes w) k = Some n"
      using that assms(2) obj_get_mem by (metis obj_wf_def)
    then show ?thesis using assms(1) by (simp add: named_def)
  qed
  then show ?thesis by (force simp: sorted_node_names_def obj_keys_def)
qed

text \<open>
  Without a destination the start node is an enabled node of the workflow that may
  start it, or the only node; and none is found only if no enabled node may start it.
\<close>

theorem getStartNode_correct:
  assumes "named w" and "obj_wf str_before (nodes w)"
    and "getStartNode T w None = Inr r"
  shows "case r of
      Some node \<Rightarrow> (\<exists>k. obj_get (nodes w) k = Some node) \<and> \<not> is_disabled node \<and>
        (is_start T node \<or> length (nodes w) = 1)
    | None \<Rightarrow> (\<forall>k node. obj_get (nodes w) k = Some node \<longrightarrow> \<not> is_start T node)"
proof -
  have len: "length (obj_keys (nodes w)) = length (nodes w)" by (simp add: obj_keys_def)
  have "res_bind (start_loop T w (length (nodes w) = 1) (obj_keys (nodes w))) (\<lambda>found.
       case found of Some node \<Rightarrow> Inr (Some node) | None \<Rightarrow> first_starting (nodes w) (sorted_node_names w)) = Inr r"
    using assms(3) by (simp add: getStartNode_def startNodeOf_def len)
  then obtain found where l: "start_loop T w (length (nodes w) = 1) (obj_keys (nodes w)) = Inr found"
    and f: "(case found of Some node \<Rightarrow> Inr (Some node)
       | None \<Rightarrow> first_starting (nodes w) (sorted_node_names w)) = Inr r" by (rule res_bindE)
  have some: "(\<exists>k. obj_get (nodes w) k = Some node) \<and> \<not> is_disabled node \<and>
      (is_start T node \<or> length (nodes w) = 1)" if "r = Some node" for node
  proof (cases found)
    case None
    with f that have "first_starting (nodes w) (sorted_node_names w) = Inr (Some node)" by simp
    from first_starting_Some[OF this] show ?thesis by (auto simp: is_start_def)
  next
    case (Some x)
    with f that l have "start_loop T w (length (nodes w) = 1) (obj_keys (nodes w)) = Inr (Some node)" by simp
    from start_loop_Some[OF this] show ?thesis by (auto simp: is_start_def)
  qed
  have "\<not> is_start T node" if "r = None" "obj_get (nodes w) k = Some node" for k node
  proof -
    from f that(1) have none: "found = None" "first_starting (nodes w) (sorted_node_names w) = Inr None"
      by (auto split: option.splits)
    have k: "k \<in> set (obj_keys (nodes w))" using that(2) by (auto simp: obj_keys_get)
    then have "k \<in> set (sorted_node_names w)" using sorted_node_names_set[OF assms(1,2)] by simp
    from first_starting_None[OF none(2) this that(2)] start_loop_None[OF l[unfolded none(1)] k that(2)]
    show ?thesis by (auto simp: is_start_def)
  qed
  with some show ?thesis by (cases r) simp_all
qed

theorem getStartNode_correct_witness:
  "getStartNode sample_types sample_workflow None = Inr (Some (mk_node ''T'' ''trigger'')) \<and>
   is_start sample_types (mk_node ''T'' ''trigger'')"
proof -
  have e: "getStartNode sample_types sample_workflow None = Inr (Some (mk_node ''T'' ''trigger''))"
    by code_simp
  have "obj_wf str_before (nodes sample_workflow)" and "length (nodes sample_workflow) = 4" by code_simp+
  with getStartNode_correct[OF sample_named _ e] e show ?thesis by simp
qed

section \<open>Webhooks\<close>

text \<open>
  Against a service whose check tells the truth and whose creation, when it succeeds,
  registers the webhook: a successful call leaves the webhook registered, does nothing when
  it was registered before, and a second call changes nothing.
\<close>

theorem createWebhookIfNotExists_idempotent:
  assumes check: "\<forall>s. runWebhookMethod T methods w CheckExists d s = (Inr (Some (registered s)), s)"
    and create: "\<forall>s r s'. runWebhookMethod T methods w CreateHook d s = (Inr r, s') \<longrightarrow> registered s'"
    and call: "createWebhookIfNotExists T methods w d s = (Inr (), s')"
  shows "registered s' \<and> (registered s \<longrightarrow> s' = s) \<and> createWebhookIfNotExists T methods w d s' = (Inr (), s')"
proof -
  have r: "registered s'"
  proof (cases "registered s")
    case True
    with call check show ?thesis by (simp add: createWebhookIfNotExists_def)
  next
    case False
    with call check have "\<exists>r. runWebhookMethod T methods w CreateHook d s = (Inr r, s')"
      by (auto simp: createWebhookIfNotExists_def split: prod.splits sum.splits)
    with create show ?thesis by blast
  qed
  moreover have "registered s \<longrightarrow> s' = s"
    using call check by (auto simp: createWebhookIfNotExists_def)
  moreover have "createWebhookIfNotExists T methods w d s' = (Inr (), s')"
    using r check by (simp add: createWebhookIfNotExists_def)
  ultimately show ?thesis by blast
qed

text \<open>A service with one webhook: its state says whether it is registered.\<close>

definition bool_service :: "bool webhook_methods" where
  "bool_service t nm meth = Some (\<lambda>node s. case meth of
     CheckExists \<Rightarrow> (Inr (Some s), s) | CreateHook \<Rightarrow> (Inr (Some True), True)
   | DeleteHook \<Rightarrow> (Inr (Some True), False))"

theorem createWebhookIfNotExists_idempotent_witness:
  "createWebhookIfNotExists sample_types bool_service sample_workflow \<lparr>wh_node = ''T'', wh_name = ''default''\<rparr> False
     = (Inr (), True)"
proof -
  let ?d = "\<lparr>wh_node = ''T'', wh_name = ''default''\<rparr>"
  have run: "runWebhookMethod sample_types bool_service sample_workflow m ?d s =
      (case m of CheckExists \<Rightarrow> (Inr (Some s), s) | CreateHook \<Rightarrow> (Inr (Some True), True)
       | DeleteHook \<Rightarrow> (Inr (Some True), False))" for m s
    by (simp add: runWebhookMethod_def getNode_def sample_workflow_def mk_workflow_def sample_nodes_def
        mk_node_def sample_types_def bool_service_def)
  have c: "createWebhookIfNotExists sample_types bool_service sample_workflow ?d False = (Inr (), True)"
    by (simp add: createWebhookIfNotExists_def run)
  have "True \<and> (False \<longrightarrow> True = False) \<and>
      createWebhookIfNotExists sample_types bool_service sample_workflow ?d True = (Inr (), True)"
    by (rule createWebhookIfNotExists_idempotent[where registered = "\<lambda>s. s", OF _ _ c]) (simp_all add: run)
  with c show ?thesis by blast
qed

end
