(* ===== verification/NodeExecution.thy ===== *)
theory NodeExecution
  imports WaitingExecution WorkflowNodes
begin

text \<open>
  Executing one entry of the execution stack, from packages/workflow/src/Workflow.ts
  (\<open>runNode\<close>) and the inner loop of packages/core/src/WorkflowExecute.ts: the provenance of
  the input items, pinned data, the tries, the routing of failed items to the error
  output, the repair of missing provenance and the forced empty output.  What a node type
  itself does is an argument, \<open>node_body\<close>: it sees the node, its inputs and the execution
  data and a counter that tells its calls apart, and answers with data or an error, and
  with the execution data it may change (waiting, context and metadata).
\<close>

section \<open>Errors and the environment\<close>

text \<open>
  A thrown value becomes the execution error.  The text of a TypeError is that of the
  JavaScript engine and is not modelled.
\<close>

definition mk_error :: "js_error \<Rightarrow> ExecutionError" where
  "mk_error e =
     (case e of
        TypeError \<Rightarrow> \<lparr>err_name = ''TypeError'', err_message = ''''\<rparr>
      | ApplicationError m \<Rightarrow> \<lparr>err_name = ''ApplicationError'', err_message = m\<rparr>
      | WorkflowOperationError m \<Rightarrow> \<lparr>err_name = ''WorkflowOperationError'', err_message = m\<rparr>)"

definition lift_error :: "js_error + 'a \<Rightarrow> ExecutionError + 'a" where
  "lift_error r = (case r of Inl e \<Rightarrow> Inl (mk_error e) | Inr x \<Rightarrow> Inr x)"

datatype body_kind = ExecuteBody | PollBody | TriggerBody | RoutingBody

record body_args =
  ba_node :: INode
  ba_input :: ITaskDataConnections
  ba_connectionInput :: items
  ba_runIndex :: nat
  ba_exec :: IRunExecutionData

text \<open>
  \<open>br_closing\<close>: what the rejected close functions of an execute call gave, None for a value
  that is not an Error.
\<close>

record body_result =
  br_data :: "ExecutionError + outputs slot"
  br_hints :: "string list"
  br_closing :: "ExecutionError option list"
  br_waitTill :: "int option"
  br_context :: "IDataObject str_obj"
  br_metadata :: "jval list str_obj"

type_synonym node_body = "nat \<Rightarrow> body_kind \<Rightarrow> body_args \<Rightarrow> body_result"

record engine_env =
  env_types :: INodeTypes
  env_body :: node_body
  env_outputs :: "INode \<Rightarrow> string \<Rightarrow> NodeOutput list option"
  env_required :: "INode \<Rightarrow> string \<Rightarrow> RequiredInputs option"
  env_paired :: "string \<Rightarrow> ISourceData \<Rightarrow> IPairedItemData \<Rightarrow> ExecutionError + INodeExecutionData option"
  env_mode :: WorkflowExecuteMode

section \<open>Running a node\<close>

definition main_of :: "ITaskDataConnections \<Rightarrow> items slot list option" where
  "main_of d = obj_get d MainConn"

text \<open>\<open>inputData.main\<close> passed through as the result.\<close>

definition pass_through :: "ITaskDataConnections \<Rightarrow> outputs slot" where
  "pass_through d = (case main_of d of None \<Rightarrow> Undefined | Some m \<Rightarrow> Val m)"

definition runDisabled :: "ITaskDataConnections \<Rightarrow> outputs slot" where
  "runDisabled d =
     (case main_of d of
        None \<Rightarrow> Undefined
      | Some [] \<Rightarrow> Undefined
      | Some (x # _) \<Rightarrow> (if x = Null then Undefined else Val [x]))"

fun first_nonempty :: "items slot list \<Rightarrow> items option" where
  "first_nonempty [] = None"
| "first_nonempty (Val its # xs) = (if its \<noteq> [] then Some its else first_nonempty xs)"
| "first_nonempty (_ # xs) = first_nonempty xs"

text \<open>The data of the input that an execute call works on; null has no length.\<close>

definition connectionInputData :: "Workflow \<Rightarrow> ITaskDataConnections \<Rightarrow> js_error + items" where
  "connectionInputData w d =
     (let first = (case main_of d of
            None \<Rightarrow> Val []
          | Some [] \<Rightarrow> Val []
          | Some (x # _) \<Rightarrow> x);
          chosen = (if forceInputNodeExecution w then Inr first
            else case main_of d of
                None \<Rightarrow> Inl TypeError
              | Some m \<Rightarrow> Inr (case first_nonempty m of Some its \<Rightarrow> Val its | None \<Rightarrow> first))
      in res_bind chosen (\<lambda>s. case s of Val its \<Rightarrow> Inr its | _ \<Rightarrow> Inl TypeError))"

definition only_first_items :: "ITaskDataConnections \<Rightarrow> ITaskDataConnections" where
  "only_first_items d =
     map (\<lambda>(t, inputs). (t, map (\<lambda>s. case s of Val its \<Rightarrow> Val (take 1 its) | _ \<Rightarrow> s) inputs)) d"

text \<open>The error of an earlier attempt at the same node, thrown again.\<close>

definition failed_before :: "INode \<Rightarrow> IRunExecutionData \<Rightarrow> ExecutionError option" where
  "failed_before node re =
     (if lastNodeExecuted (resultData re) = Some (node_name node)
      then (case result_error (resultData re) of
              None \<Rightarrow> None
            | Some e \<Rightarrow> Some (if err_name e = ''NodeOperationError'' \<or> err_name e = ''NodeApiError'' then e
                             else \<lparr>err_name = ''Error'', err_message = err_message e\<rparr>))
      else None)"

record run_result =
  rr_data :: "ExecutionError + outputs slot"
  rr_hints :: "string list"
  rr_exec :: IRunExecutionData

definition no_effect :: "IRunExecutionData \<Rightarrow> ExecutionError + outputs slot \<Rightarrow> run_result" where
  "no_effect re r = \<lparr>rr_data = r, rr_hints = [], rr_exec = re\<rparr>"

definition closing_error :: "ExecutionError option list \<Rightarrow> ExecutionError option" where
  "closing_error es =
     (case es of
        [] \<Rightarrow> None
      | Some e # _ \<Rightarrow> Some e
      | None # _ \<Rightarrow> Some (mk_error (ApplicationError ''Error on execution node's close function(s)'')))"

text \<open>The effects of a body on the execution data, and its answer.\<close>

definition body_effect :: "body_result \<Rightarrow> IRunExecutionData \<Rightarrow> IRunExecutionData" where
  "body_effect b re =
     re\<lparr>waitTill := br_waitTill b,
        executionData := (executionData re)\<lparr>contextData := br_context b, exec_metadata := br_metadata b\<rparr>\<rparr>"

definition run_body :: "engine_env \<Rightarrow> nat \<Rightarrow> body_kind \<Rightarrow> body_args \<Rightarrow> run_result" where
  "run_body env clock kind args =
     (let b = env_body env clock kind args;
          answer = (case br_data b of
              Inl e \<Rightarrow> Inl e
            | Inr d \<Rightarrow>
                (case kind of
                   ExecuteBody \<Rightarrow> (case closing_error (br_closing b) of Some e \<Rightarrow> Inl e | None \<Rightarrow> Inr d)
                 | TriggerBody \<Rightarrow> Inr (if d = Undefined \<or> d = Val [] then Null else d)
                 | _ \<Rightarrow> Inr d))
      in \<lparr>rr_data = answer, rr_hints = br_hints b, rr_exec = body_effect b (ba_exec args)\<rparr>)"

definition run_enabled ::
    "engine_env \<Rightarrow> nat \<Rightarrow> INodeType \<Rightarrow> INode \<Rightarrow> ITaskDataConnections \<Rightarrow> items \<Rightarrow> nat \<Rightarrow>
     IRunExecutionData \<Rightarrow> run_result" where
  "run_enabled env clock nodeType node d connInput runIndex re =
     (case failed_before node re of
        Some e \<Rightarrow> no_effect re (Inl e)
      | None \<Rightarrow>
          (let inputData = (if executeOnce node = Some True then only_first_items d else d);
               args = \<lparr>ba_node = node, ba_input = inputData, ba_connectionInput = connInput,
                       ba_runIndex = runIndex, ba_exec = re\<rparr>
           in if has_execute nodeType then run_body env clock ExecuteBody args
              else if has_poll nodeType then
                (if env_mode env = ModeManual then run_body env clock PollBody args
                 else no_effect re (Inr (pass_through inputData)))
              else if has_trigger nodeType then
                (if env_mode env = ModeManual then run_body env clock TriggerBody args
                 else no_effect re (Inr (pass_through inputData)))
              else if has_webhook nodeType then no_effect re (Inr (pass_through inputData))
              else run_body env clock RoutingBody args))"

definition runNode ::
    "engine_env \<Rightarrow> Workflow \<Rightarrow> nat \<Rightarrow> IExecuteData \<Rightarrow> nat \<Rightarrow> IRunExecutionData \<Rightarrow> run_result" where
  "runNode env w clock item runIndex re =
     (let node = exec_node item; d = exec_data item in
      if is_disabled node then no_effect re (Inr (runDisabled d))
      else case env_types env (node_type node) (typeVersion node) of
          None \<Rightarrow> no_effect re (Inl (mk_error (ApplicationError ''Node type is unknown so cannot run it'')))
        | Some nodeType \<Rightarrow>
            (if has_execute nodeType \<or> (\<not> has_poll nodeType \<and> \<not> has_trigger nodeType \<and> \<not> has_webhook nodeType)
             then (case connectionInputData w d of
                     Inl e \<Rightarrow> no_effect re (Inl (mk_error e))
                   | Inr its \<Rightarrow>
                       (if its = [] then no_effect re (Inr Undefined)
                        else run_enabled env clock nodeType node d its runIndex re))
             else run_enabled env clock nodeType node d [] runIndex re))"

section \<open>Provenance of the input items\<close>

definition set_paired :: "nat \<Rightarrow> nat \<times> INodeExecutionData \<Rightarrow> INodeExecutionData" where
  "set_paired inputIndex e =
     (snd e)\<lparr>pairedItem := Some (PairedOne
        \<lparr>pi_item = fst e, pi_input = or_undefined inputIndex, pi_sourceOverwrite = None\<rparr>)\<rparr>"

fun pair_inputs :: "nat \<Rightarrow> items slot list \<Rightarrow> js_error + items slot list" where
  "pair_inputs i [] = Inr []"
| "pair_inputs i (Undefined # xs) = Inl TypeError"
| "pair_inputs i (Null # xs) = res_bind (pair_inputs (Suc i) xs) (\<lambda>r. Inr (Null # r))"
| "pair_inputs i (Val its # xs) =
     res_bind (pair_inputs (Suc i) xs) (\<lambda>r. Inr (Val (map (set_paired i) (enumerate 0 its)) # r))"

fun pair_items :: "ITaskDataConnections \<Rightarrow> js_error + ITaskDataConnections" where
  "pair_items [] = Inr []"
| "pair_items ((t, inputs) # d) =
     res_bind (pair_inputs 0 inputs) (\<lambda>r. res_bind (pair_items d) (\<lambda>rest. Inr ((t, r) # rest)))"

section \<open>Items that failed\<close>

text \<open>
  The error data of an item: its error, which is then cleared, or the error in its json
  when that holds nothing else but a message.
\<close>

definition error_data :: "INodeExecutionData \<Rightarrow> (jval \<times> INodeExecutionData) option" where
  "error_data it =
     (let e = get_prop (json it) ''error'' in
      if truthy (item_error it) then Some (item_error it, it\<lparr>item_error := JUndef\<rparr>)
      else if truthy e \<and> length (json it) = 1 then Some (e, it)
      else if truthy e \<and> truthy (get_prop (json it) ''message'') \<and> length (json it) = 2 then Some (e, it)
      else None)"

definition paired_data :: "INodeExecutionData \<Rightarrow> IPairedItemData option" where
  "paired_data it =
     (case pairedItem it of
        None \<Rightarrow> None
      | Some (PairedNumber _) \<Rightarrow> None
      | Some (PairedOne p) \<Rightarrow> Some p
      | Some (PairedMany []) \<Rightarrow> None
      | Some (PairedMany (p # _)) \<Rightarrow> Some p)"

text \<open>\<open>{...a, ...b}\<close>\<close>

definition obj_spread :: "'v str_obj \<Rightarrow> 'v str_obj \<Rightarrow> 'v str_obj" where
  "obj_spread a b = fold (\<lambda>(k, v) ob. str_put k v ob) b (fold (\<lambda>(k, v) ob. str_put k v ob) a [])"

definition error_item ::
    "engine_env \<Rightarrow> ITaskDataConnectionsSource option \<Rightarrow> INodeExecutionData \<Rightarrow> ExecutionError + INodeExecutionData" where
  "error_item env source it =
     (case (source, paired_data it) of
        (Some src, Some p) \<Rightarrow>
          (case obj_get src MainConn of
             None \<Rightarrow> Inl (mk_error TypeError)
           | Some m \<Rightarrow>
               (case arr_get m (case pi_input p of None \<Rightarrow> 0 | Some i \<Rightarrow> i) of
                  Val sd \<Rightarrow>
                    (case env_paired env (previousNode sd) sd p of
                       Inl e \<Rightarrow> Inl e
                     | Inr None \<Rightarrow> Inr it
                     | Inr (Some origin) \<Rightarrow> Inr (it\<lparr>json := obj_spread (json origin) (json it)\<rparr>))
                | _ \<Rightarrow> Inl (mk_error TypeError)))
      | _ \<Rightarrow> Inr it)"

text \<open>
  The loop over the items of one output.  Items are popped from the end and pushed to
  their list, so both lists come out in reverse order.
\<close>

fun split_items ::
    "engine_env \<Rightarrow> ITaskDataConnectionsSource option \<Rightarrow> INodeExecutionData list \<Rightarrow> items \<Rightarrow> items \<Rightarrow>
     ExecutionError + items \<times> items" where
  "split_items env source [] successItems errorItems = Inr (successItems, errorItems)"
| "split_items env source (it # popped) successItems errorItems =
     (case error_data it of
        None \<Rightarrow> split_items env source popped (successItems @ [it]) errorItems
      | Some (_, it') \<Rightarrow>
          res_bind (error_item env source it') (\<lambda>e. split_items env source popped successItems (errorItems @ [e])))"

definition output_items :: "outputs \<Rightarrow> nat \<Rightarrow> items" where
  "output_items outs i = (case arr_get outs i of Val its \<Rightarrow> its | _ \<Rightarrow> [])"

fun split_outputs ::
    "engine_env \<Rightarrow> ITaskDataConnectionsSource option \<Rightarrow> nat \<Rightarrow> nat \<Rightarrow> outputs \<Rightarrow> items \<Rightarrow>
     ExecutionError + outputs \<times> items" where
  "split_outputs env source i 0 outs errorItems = Inr (outs, errorItems)"
| "split_outputs env source i (Suc n) outs errorItems =
     res_bind (split_items env source (rev (output_items outs i)) [] errorItems) (\<lambda>(ok, errs).
       split_outputs env source (Suc i) n (arr_set outs i (Val ok)) errs)"

definition route_errors :: "engine_env \<Rightarrow> IExecuteData \<Rightarrow> outputs \<Rightarrow> ExecutionError + outputs" where
  "route_errors env item outs =
     (case env_types env (node_type (exec_node item)) (typeVersion (exec_node item)) of
        None \<Rightarrow> Inl (mk_error TypeError)
      | Some nodeType \<Rightarrow>
          (let mainOutputs = length (filter (\<lambda>t. t = MainConn)
                 (getConnectionTypes (getNodeOutputs (env_outputs env) (exec_node item) (description nodeType))))
           in res_bind (split_outputs env (exec_source item) 0 (mainOutputs - 1) outs []) (\<lambda>(outs1, errs).
                Inr (arr_set outs1 (mainOutputs - 1) (Val errs)))))"

section \<open>Provenance of the output items\<close>

definition main_length_one :: "ITaskDataConnections \<Rightarrow> js_error + nat option" where
  "main_length_one d =
     (case main_of d of
        None \<Rightarrow> Inl TypeError
      | Some [Val its] \<Rightarrow> Inr (Some (length its))
      | Some _ \<Rightarrow> Inr None)"

text \<open>\<open>f\<close> gives the index of the origin for an output index, if it can be told.\<close>

fun fix_items :: "(nat \<Rightarrow> nat option) \<Rightarrow> nat \<Rightarrow> items \<Rightarrow> items \<times> bool" where
  "fix_items f i [] = ([], True)"
| "fix_items f i (it # its) =
     (if pairedItem it \<noteq> None then (let (r, go) = fix_items f (Suc i) its in (it # r, go))
      else case f i of
          None \<Rightarrow> (it # its, False)
        | Some k \<Rightarrow>
            (let (r, go) = fix_items f (Suc i) its
             in (it\<lparr>pairedItem := Some (PairedOne \<lparr>pi_item = k, pi_input = None, pi_sourceOverwrite = None\<rparr>)\<rparr> # r, go)))"

fun fix_outputs :: "(nat \<Rightarrow> nat option) \<Rightarrow> outputs \<Rightarrow> js_error + outputs" where
  "fix_outputs f [] = Inr []"
| "fix_outputs f (Null # outs) = res_bind (fix_outputs f outs) (\<lambda>r. Inr (Null # r))"
| "fix_outputs f (Undefined # outs) = Inl TypeError"
| "fix_outputs f (Val its # outs) =
     (let (r, go) = fix_items f 0 its
      in if go then res_bind (fix_outputs f outs) (\<lambda>rest. Inr (Val r # rest)) else Inr (Val r # outs))"

definition autofix :: "ITaskDataConnections \<Rightarrow> outputs \<Rightarrow> js_error + outputs" where
  "autofix d outs =
     (if outs = [] then Inr outs
      else res_bind (main_length_one d) (\<lambda>inputLength.
        let singleInput = (inputLength = Some 1) in
        res_bind
          (if length outs = 1 \<and> (case main_of d of Some m \<Rightarrow> length m = 1 | None \<Rightarrow> False)
           then (case hd outs of Val its \<Rightarrow> Inr (inputLength = Some (length its)) | _ \<Rightarrow> Inl TypeError)
           else Inr False) (\<lambda>sameNumber.
        fix_outputs (\<lambda>i. if singleInput then Some 0 else if sameNumber then Some i else None) outs)))"

section \<open>The result of a try\<close>

text \<open>Provenance of a forced empty output: every item of every input.\<close>

definition all_input_items :: "items slot list \<Rightarrow> IPairedItemData list" where
  "all_input_items m =
     concat (map (\<lambda>(inputIndex, s). case s of
         Val its \<Rightarrow> map (\<lambda>i. \<lparr>pi_item = i, pi_input = Some inputIndex, pi_sourceOverwrite = None\<rparr>) [0..<length its]
       | _ \<Rightarrow> []) (enumerate 0 m))"

definition is_empty_output :: "outputs option \<Rightarrow> js_error + bool" where
  "is_empty_output d =
     (case d of
        None \<Rightarrow> Inr True
      | Some outs \<Rightarrow> (case arr_get outs 0 of Val its \<Rightarrow> Inr (its = []) | _ \<Rightarrow> Inl TypeError))"

definition force_output :: "IExecuteData \<Rightarrow> outputs option \<Rightarrow> js_error + outputs option" where
  "force_output item d =
     res_bind (is_empty_output d) (\<lambda>empty.
       if empty \<and> alwaysOutputData (exec_node item) = Some True
       then (case main_of (exec_data item) of
               None \<Rightarrow> Inl TypeError
             | Some m \<Rightarrow> Inr (Some (arr_set (case d of None \<Rightarrow> [] | Some outs \<Rightarrow> outs) 0
                 (Val [empty_item\<lparr>pairedItem := Some (PairedMany (all_input_items m))\<rparr>]))))
       else Inr d)"

text \<open>\<open>nodeSuccessData?.at(0)?.at(0)?.json?.error !== undefined\<close>\<close>

definition continued_on_fail :: "outputs slot \<Rightarrow> bool" where
  "continued_on_fail d =
     (case d of
        Val (Val (it # _) # _) \<Rightarrow> get_prop (json it) ''error'' \<noteq> JUndef
      | _ \<Rightarrow> False)"

definition slot_data :: "outputs slot \<Rightarrow> outputs option" where
  "slot_data d = (case d of Val outs \<Rightarrow> Some outs | _ \<Rightarrow> None)"

section \<open>The tries\<close>

definition or_default :: "int option \<Rightarrow> int \<Rightarrow> int" where
  "or_default v d = (case v of None \<Rightarrow> d | Some n \<Rightarrow> (if n = 0 then d else n))"

definition max_tries :: "INode \<Rightarrow> nat" where
  "max_tries node =
     (if retryOnFail node = Some True then nat (min 5 (max 2 (or_default (maxTries node) 3))) else 1)"

definition wait_between_tries :: "INode \<Rightarrow> int" where
  "wait_between_tries node =
     (if retryOnFail node = Some True then min 5000 (max 0 (or_default (waitBetweenTries node) 1000)) else 0)"

text \<open>
  The variables of the loop: the execution data, the number of node runs and the
  milliseconds slept so far, \<open>nodeSuccessData\<close>, \<open>executionHints\<close> and \<open>executionError\<close>.
\<close>

record TryState =
  ts_exec :: IRunExecutionData
  ts_clock :: nat
  ts_slept :: int
  ts_data :: "outputs slot"
  ts_hints :: "string list"
  ts_error :: "ExecutionError option"

datatype TrySignal = ContinueExecution | StopTrying

definition set_last :: "string \<Rightarrow> IRunExecutionData \<Rightarrow> IRunExecutionData" where
  "set_last n re = re\<lparr>resultData := (resultData re)\<lparr>lastNodeExecuted := Some n\<rparr>\<rparr>"

text \<open>One call of \<open>runNode\<close>: its effects are kept whether it throws or not.\<close>

definition call_node :: "engine_env \<Rightarrow> Workflow \<Rightarrow> IExecuteData \<Rightarrow> nat \<Rightarrow> TryState \<Rightarrow> run_result \<times> TryState" where
  "call_node env w item runIndex ts =
     (let r = runNode env w (ts_clock ts) item runIndex (ts_exec ts)
      in (r, ts\<lparr>ts_exec := rr_exec r, ts_clock := Suc (ts_clock ts)\<rparr>))"

text \<open>
  The inner loop \<open>while (didContinueOnFail && tryIndex !== maxTries - 1)\<close> with the number of
  rounds left: the node runs again, and what it returns is dropped.
\<close>

fun rerun :: "engine_env \<Rightarrow> Workflow \<Rightarrow> IExecuteData \<Rightarrow> nat \<Rightarrow> nat \<Rightarrow> TryState \<Rightarrow>
    ExecutionError option \<times> nat \<times> TryState" where
  "rerun env w item runIndex 0 ts = (None, 0, ts)"
| "rerun env w item runIndex (Suc n) ts =
     (let ts0 = ts\<lparr>ts_slept := ts_slept ts + wait_between_tries (exec_node item)\<rparr>;
          (r, ts1) = call_node env w item runIndex ts0
      in case rr_data r of
          Inl e \<Rightarrow> (Some e, Suc n, ts1)
        | Inr _ \<Rightarrow> rerun env w item runIndex n ts1)"

definition pinned_data :: "IRunExecutionData \<Rightarrow> INode \<Rightarrow> items option" where
  "pinned_data re node =
     (if is_disabled node then None
      else case pinData (resultData re) of None \<Rightarrow> None | Some p \<Rightarrow> obj_get p (node_name node))"

text \<open>
  Getting the data of a node: the first component says what was thrown, the second how
  many rounds of the try loop are left after it.
\<close>

definition fetch_data ::
    "engine_env \<Rightarrow> Workflow \<Rightarrow> IExecuteData \<Rightarrow> nat \<Rightarrow> nat \<Rightarrow> TryState \<Rightarrow> ExecutionError option \<times> nat \<times> TryState" where
  "fetch_data env w item runIndex left ts =
     (case pinned_data (ts_exec ts) (exec_node item) of
        Some pinned \<Rightarrow> (None, left, ts\<lparr>ts_data := Val [Val pinned]\<rparr>)
      | None \<Rightarrow>
          (let (r, ts1) = call_node env w item runIndex ts
           in case rr_data r of
               Inl e \<Rightarrow> (Some e, left, ts1)
             | Inr d \<Rightarrow>
                 (let ts2 = ts1\<lparr>ts_data := d\<rparr>;
                      (thrown, left', ts3) =
                        (if continued_on_fail d then rerun env w item runIndex left ts2 else (None, left, ts2));
                      ts4 = ts3\<lparr>ts_hints := ts_hints ts3 @ rr_hints r\<rparr>
                  in case thrown of
                      Some e \<Rightarrow> (Some e, left', ts3)
                    | None \<Rightarrow>
                        (case slot_data d of
                           Some outs \<Rightarrow>
                             (if onError (exec_node item) = Some ContinueErrorOutput
                              then (case route_errors env item outs of
                                      Inl e \<Rightarrow> (Some e, left', ts4)
                                    | Inr outs' \<Rightarrow> (None, left', ts4\<lparr>ts_data := Val outs'\<rparr>))
                              else (None, left', ts4))
                         | None \<Rightarrow> (None, left', ts4)))))"

definition finish_try :: "IExecuteData \<Rightarrow> TryState \<Rightarrow> (ExecutionError + TrySignal) \<times> TryState" where
  "finish_try item ts =
     (case (case ts_data ts of Val outs \<Rightarrow> res_bind (autofix (exec_data item) outs) (\<lambda>outs'. Inr (Val outs'))
                             | other \<Rightarrow> Inr other) of
        Inl e \<Rightarrow> (Inl (mk_error e), ts)
      | Inr d \<Rightarrow>
          (let ts1 = (if d = Undefined then ts\<lparr>ts_data := Null\<rparr>
                      else ts\<lparr>ts_data := d, ts_exec := set_last (node_name (exec_node item)) (ts_exec ts)\<rparr>)
           in case force_output item (slot_data d) of
               Inl e \<Rightarrow> (Inl (mk_error e), ts1)
             | Inr None \<Rightarrow>
                 (Inr (if waitTill (ts_exec ts1) = None then ContinueExecution else StopTrying), ts1)
             | Inr (Some outs) \<Rightarrow> (Inr StopTrying, ts1\<lparr>ts_data := Val outs\<rparr>)))"

text \<open>
  \<open>left\<close> is \<open>maxTries - 1 - tryIndex\<close>.  The result says whether the main loop goes on with the
  next entry of the stack at once.
\<close>

definition failed_try :: "IExecuteData \<Rightarrow> ExecutionError \<Rightarrow> TryState \<Rightarrow> TryState" where
  "failed_try item e ts =
     ts\<lparr>ts_error := Some e, ts_exec := set_last (node_name (exec_node item)) (ts_exec ts)\<rparr>"

definition try_once ::
    "engine_env \<Rightarrow> Workflow \<Rightarrow> IExecuteData \<Rightarrow> nat \<Rightarrow> nat \<Rightarrow> TryState \<Rightarrow> TrySignal option \<times> nat \<times> TryState" where
  "try_once env w item runIndex left ts =
     (let (thrown, left', ts1) = fetch_data env w item runIndex left ts
      in case thrown of
          Some e \<Rightarrow> (None, left', failed_try item e ts1)
        | None \<Rightarrow> (case finish_try item ts1 of
            (Inl e, ts2) \<Rightarrow> (None, left', failed_try item e ts2)
          | (Inr signal, ts2) \<Rightarrow> (Some signal, left', ts2)))"

lemma rerun_left: "rerun env w item runIndex n ts = (thrown, n', ts') \<Longrightarrow> n' \<le> n"
proof (induction n arbitrary: ts)
  case 0
  then show ?case by simp
next
  case (Suc n)
  obtain r ts1 where c: "call_node env w item runIndex
      (ts\<lparr>ts_slept := ts_slept ts + wait_between_tries (exec_node item)\<rparr>) = (r, ts1)"
    by (cases "call_node env w item runIndex
      (ts\<lparr>ts_slept := ts_slept ts + wait_between_tries (exec_node item)\<rparr>)")
  show ?case
  proof (cases "rr_data r")
    case (Inl e)
    with Suc.prems c show ?thesis by (simp add: Let_def)
  next
    case (Inr d)
    with Suc.prems c have "rerun env w item runIndex n ts1 = (thrown, n', ts')" by (simp add: Let_def)
    from Suc.IH[OF this] show ?thesis by simp
  qed
qed

lemma fetch_data_left:
  assumes "fetch_data env w item runIndex left ts = (thrown, left', ts')"
  shows "left' \<le> left"
proof (cases "pinned_data (ts_exec ts) (exec_node item)")
  case (Some p)
  then show ?thesis using assms by (simp add: fetch_data_def)
next
  case None
  obtain r ts1 where c: "call_node env w item runIndex ts = (r, ts1)" by (cases "call_node env w item runIndex ts")
  show ?thesis
  proof (cases "rr_data r")
    case (Inl e)
    then show ?thesis using assms None c by (simp add: fetch_data_def)
  next
    case (Inr d)
    obtain th l t3 where re: "(if continued_on_fail d then rerun env w item runIndex left (ts1\<lparr>ts_data := d\<rparr>)
        else (None, left, ts1\<lparr>ts_data := d\<rparr>)) = (th, l, t3)"
      by (cases "if continued_on_fail d then rerun env w item runIndex left (ts1\<lparr>ts_data := d\<rparr>)
        else (None, left, ts1\<lparr>ts_data := d\<rparr>)")
    have "l \<le> left" using re by (auto split: if_splits dest: rerun_left)
    moreover have "left' = l"
      using assms None c Inr re by (simp add: fetch_data_def Let_def split: option.splits if_splits sum.splits)
    ultimately show ?thesis by simp
  qed
qed

lemma try_once_left:
  assumes "try_once env w item runIndex left ts = (signal, left', ts')"
  shows "left' \<le> left"
proof -
  obtain thrown l t1 where f: "fetch_data env w item runIndex left ts = (thrown, l, t1)"
    by (cases "fetch_data env w item runIndex left ts")
  have "left' = l" using assms f
    by (simp add: try_once_def split: option.splits prod.splits sum.splits)
  with fetch_data_left[OF f] show ?thesis by simp
qed

function try_loop ::
    "engine_env \<Rightarrow> Workflow \<Rightarrow> IExecuteData \<Rightarrow> nat \<Rightarrow> nat \<Rightarrow> TryState \<Rightarrow> bool \<times> TryState" where
  "try_loop env w item runIndex left ts =
     (case try_once env w item runIndex left ts of
        (Some signal, _, ts1) \<Rightarrow> (signal = ContinueExecution, ts1)
      | (None, left', ts1) \<Rightarrow>
          (case left' of
             0 \<Rightarrow> (False, ts1)
           | Suc l \<Rightarrow> try_loop env w item runIndex l
               (ts1\<lparr>ts_error := None, ts_slept := ts_slept ts1 + wait_between_tries (exec_node item)\<rparr>)))"
  by pat_completeness auto
termination
  by (relation "measure (\<lambda>(env, w, item, runIndex, left, ts). left)") (auto dest!: try_once_left[OF sym])

declare try_loop.simps [simp del]

definition run_tries ::
    "engine_env \<Rightarrow> Workflow \<Rightarrow> IExecuteData \<Rightarrow> nat \<Rightarrow> IRunExecutionData \<Rightarrow> nat \<Rightarrow> bool \<times> TryState" where
  "run_tries env w item runIndex re clock =
     try_loop env w item runIndex (max_tries (exec_node item) - 1)
       \<lparr>ts_exec = re, ts_clock = clock, ts_slept = 0, ts_data = Null, ts_hints = [], ts_error = None\<rparr>"

end
