(* ===== verification/WorkflowRename.thy ===== *)
theory WorkflowRename
  imports WorkflowNodes
begin

text \<open>
  Renaming a node (packages/workflow/src/Workflow.ts): the node itself, the references to
  it in the parameters of all nodes, and both ends of its connections.  The regular
  expressions of the source are literal prefixes and suffixes around the escaped name, so
  a global replacement is a scan that tries the pattern at each position from the left.
\<close>

section \<open>References in a text\<close>

fun strip_prefix :: "string \<Rightarrow> string \<Rightarrow> string option" where
  "strip_prefix [] s = Some s"
| "strip_prefix (p # ps) [] = None"
| "strip_prefix (p # ps) (c # cs) = (if p = c then strip_prefix ps cs else None)"

fun str_includes :: "string \<Rightarrow> string \<Rightarrow> bool" where
  "str_includes [] sub = (sub = [])"
| "str_includes (c # cs) sub = (strip_prefix sub (c # cs) \<noteq> None \<or> str_includes cs sub)"

text \<open>The alternatives of a group, in the order in which the expression tries them.\<close>

fun try_alternatives :: "string list \<Rightarrow> string \<Rightarrow> (string \<times> string) option" where
  "try_alternatives [] s = None"
| "try_alternatives (a # as) s =
     (case strip_prefix a s of Some rest \<Rightarrow> Some (a, rest) | None \<Rightarrow> try_alternatives as s)"

text \<open>A match of \<open>(opening)name(closing)\<close> at the front: both groups and the length.\<close>

definition match_reference :: "string list \<Rightarrow> string \<Rightarrow> string list \<Rightarrow> string \<Rightarrow> (string \<times> string \<times> nat) option" where
  "match_reference opening name closing s =
     (case try_alternatives opening s of
        None \<Rightarrow> None
      | Some (p, s1) \<Rightarrow>
          (case strip_prefix name s1 of
             None \<Rightarrow> None
           | Some s2 \<Rightarrow>
               (case try_alternatives closing s2 of
                  None \<Rightarrow> None
                | Some (q, s3) \<Rightarrow> Some (p, q, length p + length name + length q))))"

text \<open>The scan; the first argument counts the characters of a match still to be skipped.\<close>

fun replace_scan :: "(string \<Rightarrow> (string \<times> nat) option) \<Rightarrow> nat \<Rightarrow> string \<Rightarrow> string" where
  "replace_scan f k [] = []"
| "replace_scan f (Suc k) (c # cs) = replace_scan f k cs"
| "replace_scan f 0 (c # cs) =
     (case f (c # cs) of
        None \<Rightarrow> c # replace_scan f 0 cs
      | Some (r, n) \<Rightarrow> r @ replace_scan f (n - 1) cs)"

definition setNewName :: "string \<Rightarrow> string \<Rightarrow> string list \<Rightarrow> string list \<Rightarrow> string \<Rightarrow> string" where
  "setNewName currentName newName opening closing =
     replace_scan (\<lambda>s. map_option (\<lambda>(p, q, n). (p @ newName @ q, n))
       (match_reference opening currentName closing s)) 0"

definition is_banned :: "char \<Rightarrow> bool" where
  "is_banned c = (c \<in> set ('' !@#$%^&*()_+-=[]{};:|,.<>?~'' @ [CHR 92, CHR 96, CHR 39, CHR 34]))"

definition hasDotNotationBannedChar :: "string \<Rightarrow> bool" where
  "hasDotNotationBannedChar nodeName =
     ((case nodeName of [] \<Rightarrow> False | c # _ \<Rightarrow> is_digit c) \<or> list_ex is_banned nodeName)"

text \<open>
  \<open>.NewName\<close> followed by a space or a dot, where the leading dot of the pattern is not
  escaped and so matches any character but a line break.
\<close>

definition dot_reference :: "string \<Rightarrow> string \<Rightarrow> (string \<times> nat) option" where
  "dot_reference newName s =
     (case s of
        [] \<Rightarrow> None
      | c # cs \<Rightarrow>
          (if c = CHR 10 \<or> c = CHR 13 then None
           else case strip_prefix newName cs of
               None \<Rightarrow> None
             | Some rest \<Rightarrow>
                 (case try_alternatives ['' '', ''.''] rest of
                    None \<Rightarrow> None
                  | Some (q, _) \<Rightarrow> Some (''[\"'' @ newName @ ''\"]'' @ q, Suc (length newName + length q)))))"

definition quotes :: "string list" where
  "quotes = [[CHR 39], [CHR 34]]"

definition rename_dollar_paren :: "string \<Rightarrow> string \<Rightarrow> string \<Rightarrow> string" where
  "rename_dollar_paren cur new s =
     (if str_includes s ''$('' then setNewName cur new (map ((@) ''$('') quotes) (map (\<lambda>q. q @ '')'') quotes) s else s)"

definition rename_node_bracket :: "string \<Rightarrow> string \<Rightarrow> string \<Rightarrow> string" where
  "rename_node_bracket cur new s =
     (if str_includes s ''$node['' then setNewName cur new (map ((@) ''$node['') quotes) (map (\<lambda>q. q @ '']'') quotes) s
      else s)"

definition rename_node_dot :: "string \<Rightarrow> string \<Rightarrow> string \<Rightarrow> string" where
  "rename_node_dot cur new s =
     (if str_includes s ''$node.'' then
        (let s1 = setNewName cur new [''$node.''] [''.'', ''''] s
         in if hasDotNotationBannedChar new then replace_scan (dot_reference new) 0 s1 else s1)
      else s)"

definition rename_items :: "string \<Rightarrow> string \<Rightarrow> string \<Rightarrow> string" where
  "rename_items cur new s =
     (if str_includes s ''$items('' then
        setNewName cur new (map ((@) ''$items('') quotes)
          (map (\<lambda>q. q @ '','') quotes @ map (\<lambda>q. q @ '')'') quotes) s
      else s)"

definition rename_in_text :: "string \<Rightarrow> string \<Rightarrow> string \<Rightarrow> string" where
  "rename_in_text cur new s =
     (if str_includes s cur
      then rename_items cur new (rename_node_dot cur new (rename_node_bracket cur new (rename_dollar_paren cur new s)))
      else s)"

section \<open>Parameters\<close>

text \<open>
  null is an object to \<open>typeof\<close>, and comes out as an empty object; the elements of an
  array are visited with the default options.
\<close>

fun renameNodeInParameterValue :: "string \<Rightarrow> string \<Rightarrow> bool \<Rightarrow> jval \<Rightarrow> jval" where
  "renameNodeInParameterValue cur new renamable (JStr s) =
     JStr (if (case s of [] \<Rightarrow> False | c # _ \<Rightarrow> c = CHR ''='') \<or> renamable then rename_in_text cur new s else s)"
| "renameNodeInParameterValue cur new renamable JUndef = JUndef"
| "renameNodeInParameterValue cur new renamable (JBool b) = JBool b"
| "renameNodeInParameterValue cur new renamable (JNum n) = JNum n"
| "renameNodeInParameterValue cur new renamable JNull = JObj []"
| "renameNodeInParameterValue cur new renamable (JArr vs) =
     JArr (map (renameNodeInParameterValue cur new False) vs)"
| "renameNodeInParameterValue cur new renamable (JObj ob) =
     JObj (map (\<lambda>(k, v). (k, renameNodeInParameterValue cur new renamable v)) ob)"

definition NODES_WITH_RENAMABLE_CONTENT :: "string list" where
  "NODES_WITH_RENAMABLE_CONTENT =
     [''n8n-nodes-base.code'', ''n8n-nodes-base.function'', ''n8n-nodes-base.functionItem'',
      ''n8n-nodes-base.aiTransform'']"

definition rename_parameters :: "string \<Rightarrow> string \<Rightarrow> INode \<Rightarrow> INode" where
  "rename_parameters cur new node =
     (let ps = map (\<lambda>(k, v). (k, renameNodeInParameterValue cur new False v)) (parameters node)
      in node\<lparr>parameters :=
           (if node_type node \<in> set NODES_WITH_RENAMABLE_CONTENT
            then str_put ''jsCode'' (renameNodeInParameterValue cur new True (get_prop ps ''jsCode'')) ps
            else ps)\<rparr>)"

section \<open>The node and its connections\<close>

definition rename_key :: "string \<Rightarrow> string \<Rightarrow> 'v str_obj \<Rightarrow> 'v str_obj" where
  "rename_key cur new ob =
     (case obj_get ob cur of None \<Rightarrow> ob | Some v \<Rightarrow> obj_del cur (str_put new v ob))"

definition rename_target :: "string \<Rightarrow> string \<Rightarrow> IConnection \<Rightarrow> IConnection" where
  "rename_target cur new c = (if conn_node c = cur then c\<lparr>conn_node := new\<rparr> else c)"

definition rename_targets :: "string \<Rightarrow> string \<Rightarrow> IConnections \<Rightarrow> IConnections" where
  "rename_targets cur new =
     map (\<lambda>(s, byType). (s, map (\<lambda>(t, byIndex). (t, map (map (rename_target cur new)) byIndex)) byType))"

definition renameNode :: "string \<Rightarrow> string \<Rightarrow> Workflow \<Rightarrow> Workflow" where
  "renameNode cur new w =
     (let ns = (case obj_get (nodes w) cur of
            None \<Rightarrow> nodes w
          | Some node \<Rightarrow> obj_del cur (str_put new (node\<lparr>node_name := new\<rparr>) (nodes w)));
          conns = rename_targets cur new (rename_key cur new (connectionsBySourceNode w))
      in w\<lparr>nodes := map (\<lambda>(k, n). (k, rename_parameters cur new n)) ns,
           connectionsBySourceNode := conns,
           connectionsByDestinationNode := getConnectionsByDestination conns\<rparr>)"

section \<open>Texts without the name, and what a reference becomes\<close>

lemma strip_prefix_Some: "strip_prefix p s = Some r \<longleftrightarrow> s = p @ r"
  by (induction p s rule: strip_prefix.induct) auto

lemma strip_prefix_append [simp]: "strip_prefix p (p @ r) = Some r"
  by (simp add: strip_prefix_Some)

lemma strip_prefix_None: "strip_prefix p s = None \<longleftrightarrow> (\<nexists>r. s = p @ r)"
  using strip_prefix_Some by (metis not_None_eq)

lemma str_includes_iff: "str_includes s sub \<longleftrightarrow> (\<exists>a b. s = a @ sub @ b)"
proof (induction s)
  case Nil
  then show ?case by simp
next
  case (Cons c s)
  have "(\<exists>a b. c # s = a @ sub @ b) \<longleftrightarrow> (\<exists>b. c # s = sub @ b) \<or> (\<exists>a b. s = a @ sub @ b)"
    by (metis (no_types, opaque_lifting) Cons_eq_append_conv append_Nil)
  then show ?case using Cons by (simp add: strip_prefix_None)
qed

lemma rename_in_text_absent: "\<not> str_includes s cur \<Longrightarrow> rename_in_text cur new s = s"
  by (simp add: rename_in_text_def)

lemma replace_scan_skip: "replace_scan f (length a) (a @ s) = replace_scan f 0 s"
  by (induction a) auto

lemma replace_scan_prefix:
  assumes "\<And>x y. a = x @ y \<Longrightarrow> y \<noteq> [] \<Longrightarrow> f (y @ s) = None"
  shows "replace_scan f 0 (a @ s) = a @ replace_scan f 0 s"
  using assms
proof (induction a)
  case Nil
  then show ?case by simp
next
  case (Cons c a)
  have "f (c # a @ s) = None" using Cons.prems[of "[]" "c # a"] by simp
  moreover have "replace_scan f 0 (a @ s) = a @ replace_scan f 0 s"
  proof (rule Cons.IH)
    show "f (y @ s) = None" if "a = x @ y" "y \<noteq> []" for x y
      using Cons.prems[of "c # x" y] that by simp
  qed
  ultimately show ?case by simp
qed

lemma replace_scan_match:
  assumes "f (m @ s) = Some (r, length m)" and "m \<noteq> []"
  shows "replace_scan f 0 (m @ s) = r @ replace_scan f 0 s"
proof -
  obtain c cs where m: "m = c # cs" using assms(2) by (cases m) auto
  have "replace_scan f (length cs) (cs @ s) = replace_scan f 0 s" by (rule replace_scan_skip)
  then show ?thesis using assms(1) by (simp add: m)
qed

text \<open>
  Replacing in a text: where the leftmost reference is the name between one of the
  openings and one of the closings, the text before it is kept, the name is replaced by
  the new one, the quotes are kept, and the rest is treated in the same way.
\<close>

theorem setNewName_leftmost:
  assumes before: "\<forall>x y. a = x @ y \<longrightarrow> y \<noteq> [] \<longrightarrow> match_reference op cur cl (y @ p @ cur @ q @ s) = None"
    and opens: "try_alternatives op (p @ cur @ q @ s) = Some (p, cur @ q @ s)" and "p \<noteq> []"
    and closes: "try_alternatives cl (q @ s) = Some (q, s)"
  shows "setNewName cur new op cl (a @ p @ cur @ q @ s) = a @ p @ new @ q @ setNewName cur new op cl s"
proof -
  let ?f = "\<lambda>s. map_option (\<lambda>(p, q, n). (p @ new @ q, n)) (match_reference op cur cl s)"
  have "match_reference op cur cl ((p @ cur @ q) @ s) = Some (p, q, length (p @ cur @ q))"
    using opens closes by (simp add: match_reference_def)
  then have "?f ((p @ cur @ q) @ s) = Some (p @ new @ q, length (p @ cur @ q))" by simp
  then have "replace_scan ?f 0 ((p @ cur @ q) @ s) = (p @ new @ q) @ replace_scan ?f 0 s"
    using \<open>p \<noteq> []\<close> by (intro replace_scan_match) simp_all
  moreover have "replace_scan ?f 0 (a @ (p @ cur @ q) @ s) = a @ replace_scan ?f 0 ((p @ cur @ q) @ s)"
    using before by (intro replace_scan_prefix) simp
  ultimately show ?thesis by (simp add: setNewName_def)
qed

theorem setNewName_leftmost_witness:
  "rename_dollar_paren ''Set'' ''Edit'' (''={{ $('' @ [CHR 34] @ ''Set'' @ [CHR 34] @ '') }}'') =
     ''={{ $('' @ [CHR 34] @ ''Edit'' @ [CHR 34] @ '') }}''"
proof -
  let ?op = "map ((@) ''$('') quotes" and ?cl = "map (\<lambda>q. q @ '')'') quotes"
  let ?p = "''$('' @ [CHR 34]" and ?q = "[CHR 34] @ '')''"
  have before: "\<forall>x y. ''={{ '' = x @ y \<longrightarrow> y \<noteq> [] \<longrightarrow>
      match_reference ?op ''Set'' ?cl (y @ ?p @ ''Set'' @ ?q @ '' }}'') = None"
    by (auto simp: match_reference_def quotes_def Cons_eq_append_conv)
  have o: "try_alternatives ?op (?p @ ''Set'' @ ?q @ '' }}'') = Some (?p, ''Set'' @ ?q @ '' }}'')"
    and c: "try_alternatives ?cl (?q @ '' }}'') = Some (?q, '' }}'')"
    by (simp_all add: quotes_def)
  have "setNewName ''Set'' ''Edit'' ?op ?cl '' }}'' = '' }}''"
    by (simp add: setNewName_def match_reference_def quotes_def)
  with setNewName_leftmost[OF before o _ c, of "''Edit''"]
  have "setNewName ''Set'' ''Edit'' ?op ?cl (''={{ '' @ ?p @ ''Set'' @ ?q @ '' }}'') =
      ''={{ '' @ ?p @ ''Edit'' @ ?q @ '' }}''" by simp
  moreover have "str_includes (''={{ $('' @ [CHR 34] @ ''Set'' @ [CHR 34] @ '') }}'') ''$(''" by code_simp
  ultimately show ?thesis by (simp add: rename_dollar_paren_def)
qed

text \<open>
  A reference by dot notation is matched without its end: renaming \<open>Set\<close> also changes
  the references to another node \<open>Set1\<close>, which then name no node at all.
\<close>

theorem rename_breaks_longer_name:
  "rename_in_text ''Set'' ''Edit'' ''={{ $node.Set1.json }}'' = ''={{ $node.Edit1.json }}''"
  by code_simp

text \<open>
  When the new name needs bracket notation the unescaped leading dot of the second
  pattern also matches ordinary text: the space in front of the new name in a sentence is
  lost and the name there is put into brackets.
\<close>

theorem rename_rewrites_prose:
  "rename_in_text ''A'' ''My Node'' ''={{ $node.A.json }} from My Node.'' =
     ''={{ $node['' @ [CHR 34] @ ''My Node'' @ [CHR 34] @ ''].json }} from['' @ [CHR 34] @ ''My Node'' @ [CHR 34] @ ''].''"
  by code_simp

section \<open>Parameters that do not mention the name\<close>

fun mentions :: "string \<Rightarrow> jval \<Rightarrow> bool" where
  "mentions cur (JStr s) = str_includes s cur"
| "mentions cur (JArr vs) = list_ex (mentions cur) vs"
| "mentions cur (JObj ob) = list_ex (\<lambda>(k, v). mentions cur v) ob"
| "mentions cur _ = False"

fun has_null :: "jval \<Rightarrow> bool" where
  "has_null JNull = True"
| "has_null (JArr vs) = list_ex has_null vs"
| "has_null (JObj ob) = list_ex (\<lambda>(k, v). has_null v) ob"
| "has_null _ = False"

text \<open>
  A parameter value in which no text contains the old name keeps its value under the
  renaming, provided that it holds no null.
\<close>

theorem renameNodeInParameterValue_absent:
  assumes "\<not> mentions cur v" and "\<not> has_null v"
  shows "renameNodeInParameterValue cur new renamable v = v"
  using assms
proof (induction cur new renamable v rule: renameNodeInParameterValue.induct)
  case (6 cur new renamable vs)
  then show ?case by (auto simp: list_ex_iff intro: map_idI)
next
  case (7 cur new renamable ob)
  then show ?case by (fastforce simp: list_ex_iff intro: map_idI)
qed (simp_all add: rename_in_text_absent)

theorem renameNodeInParameterValue_absent_witness:
  "renameNodeInParameterValue ''Set'' ''Fields'' False (JObj [(''url'', JStr ''=http://x''), (''n'', JArr [JBool True])])
     = JObj [(''url'', JStr ''=http://x''), (''n'', JArr [JBool True])]"
proof -
  have "\<not> mentions ''Set'' (JObj [(''url'', JStr ''=http://x''), (''n'', JArr [JBool True])])"
    "\<not> has_null (JObj [(''url'', JStr ''=http://x''), (''n'', JArr [JBool True])])" by code_simp+
  then show ?thesis by (rule renameNodeInParameterValue_absent)
qed

text \<open>A null comes out as an empty object: \<open>typeof null\<close> is \<open>object\<close>.\<close>

lemma null_parameter_becomes_object:
  "renameNodeInParameterValue cur new renamable (JObj [(''a'', JNull)]) = JObj [(''a'', JObj [])]"
  by simp

section \<open>The graph after a renaming\<close>

lemma rename_key_get:
  assumes "obj_get ob new = None" and "new \<noteq> cur"
  shows "obj_get (rename_key cur new ob) k =
     (if k = cur then None else if k = new then obj_get ob cur else obj_get ob k)"
  using assms by (simp add: rename_key_def split: option.split)

lemma obj_get_map:
  "obj_get (map (\<lambda>(k, v). (k, f v)) ob) k = map_option f (obj_get ob k)"
  by (induction ob) auto

definition renamed :: "string \<Rightarrow> string \<Rightarrow> string \<Rightarrow> string" where
  "renamed cur new n = (if n = cur then new else n)"

lemma target_names_rename:
  "target_names sel (map (\<lambda>(t, byIndex). (t, map (map (rename_target cur new)) byIndex)) byType) =
     map (renamed cur new) (target_names sel byType)"
proof -
  have keys: "obj_keys (map (\<lambda>(t, byIndex). (t, map (map (rename_target cur new)) byIndex)) byType) = obj_keys byType"
    by (simp add: obj_keys_def case_prod_unfold o_def)
  then have "sel_types sel (map (\<lambda>(t, byIndex). (t, map (map (rename_target cur new)) byIndex)) byType) =
      sel_types sel byType"
    by (simp add: sel_types_def split: ConnSel.split)
  moreover have "conn_node (rename_target cur new c) = renamed cur new (conn_node c)" for c
    by (simp add: rename_target_def renamed_def)
  then have "map conn_node (concat (map (map (rename_target cur new)) byIndex)) =
      map (renamed cur new) (map conn_node (concat byIndex))" for byIndex
    by (simp add: map_concat o_def)
  then have "(case obj_get (map (\<lambda>(t, byIndex). (t, map (map (rename_target cur new)) byIndex)) byType) t of
         None \<Rightarrow> [] | Some byIndex \<Rightarrow> map conn_node (concat byIndex)) =
      map (renamed cur new) (case obj_get byType t of None \<Rightarrow> [] | Some byIndex \<Rightarrow> map conn_node (concat byIndex))" for t
    by (cases "obj_get byType t") (simp_all add: obj_get_map del: map_map)
  ultimately show ?thesis
    unfolding target_names_def map_concat map_map o_def by (simp only:)
qed

lemma edges_rename:
  assumes "obj_get conns new = None" and "new \<noteq> cur"
  shows "edges sel (rename_targets cur new (rename_key cur new conns)) =
     map_prod (renamed cur new) (renamed cur new) ` edges sel conns"
proof -
  have get: "obj_get (rename_targets cur new (rename_key cur new conns)) k =
      map_option (map (\<lambda>(t, byIndex). (t, map (map (rename_target cur new)) byIndex)))
        (if k = cur then None else if k = new then obj_get conns cur else obj_get conns k)" for k
    by (simp add: rename_targets_def obj_get_map rename_key_get[OF assms])
  show ?thesis
  proof (intro set_eqI iffI)
    fix e assume e: "e \<in> edges sel (rename_targets cur new (rename_key cur new conns))"
    obtain a b where ab: "e = (a, b)" by (cases e)
    from e obtain byType where t: "(if a = cur then None else if a = new then obj_get conns cur
        else obj_get conns a) = Some byType" "b \<in> set (map (renamed cur new) (target_names sel byType))"
      by (auto simp: ab edges_def get target_names_rename)
    then obtain a' b' where "obj_get conns a' = Some byType" "a = renamed cur new a'"
      "b' \<in> set (target_names sel byType)" "b = renamed cur new b'"
      by (auto simp: renamed_def split: if_splits)
    then show "e \<in> map_prod (renamed cur new) (renamed cur new) ` edges sel conns"
      by (force simp: ab edges_def)
  next
    fix e assume "e \<in> map_prod (renamed cur new) (renamed cur new) ` edges sel conns"
    then obtain a b byType where e: "e = (renamed cur new a, renamed cur new b)"
      "obj_get conns a = Some byType" "b \<in> set (target_names sel byType)"
      by (auto simp: edges_def)
    have "a \<noteq> new" using e(2) assms(1) by auto
    then have "obj_get (rename_targets cur new (rename_key cur new conns)) (renamed cur new a) =
        Some (map (\<lambda>(t, byIndex). (t, map (map (rename_target cur new)) byIndex)) byType)"
      using e(2) assms(2) \<open>a \<noteq> new\<close> by (cases "a = cur") (simp_all add: get renamed_def)
    then show "e \<in> edges sel (rename_targets cur new (rename_key cur new conns))"
      using e(3) by (simp add: edges_def e(1) target_names_rename)
  qed
qed

lemma renameNode_fields:
  "connectionsBySourceNode (renameNode cur new w) =
     rename_targets cur new (rename_key cur new (connectionsBySourceNode w))"
  "connectionsByDestinationNode (renameNode cur new w) =
     getConnectionsByDestination (connectionsBySourceNode (renameNode cur new w))"
  "nodes (renameNode cur new w) = map (\<lambda>(k, n). (k, rename_parameters cur new n))
     (case obj_get (nodes w) cur of
            None \<Rightarrow> nodes w
          | Some node \<Rightarrow> obj_del cur (str_put new (node\<lparr>node_name := new\<rparr>) (nodes w)))"
  by (simp_all add: renameNode_def Let_def)

lemma rename_parameters_name [simp]: "node_name (rename_parameters cur new n) = node_name n"
  by (simp add: rename_parameters_def Let_def)

text \<open>
  C32: Renaming a node to a name that neither a node nor a connection has gives a workflow
  whose nodes are filed under their names, with the node under its new name and no node
  under the old one, whose graph is the old one with the two names exchanged for each
  other at every end of every connection, and whose index by destination is up to date.
\<close>

theorem renameNode_graph:
  assumes "named w" and "obj_get (nodes w) new = None" and "obj_get (connectionsBySourceNode w) new = None"
    and "new \<noteq> cur" and "obj_get (nodes w) cur = Some node"
  shows "named (renameNode cur new w) \<and>
    (\<forall>k. (obj_get (nodes (renameNode cur new w)) k \<noteq> None) =
         (if k = cur then False else if k = new then True else obj_get (nodes w) k \<noteq> None)) \<and>
    edges sel (connectionsBySourceNode (renameNode cur new w)) =
      map_prod (renamed cur new) (renamed cur new) ` edges sel (connectionsBySourceNode w) \<and>
    connectionsByDestinationNode (renameNode cur new w) =
      getConnectionsByDestination (connectionsBySourceNode (renameNode cur new w))"
proof (intro conjI allI)
  have get: "obj_get (nodes (renameNode cur new w)) k =
      map_option (rename_parameters cur new)
        (if k = cur then None else if k = new then Some (node\<lparr>node_name := new\<rparr>) else obj_get (nodes w) k)" for k
    using assms(4,5) by (simp add: renameNode_fields obj_get_map)
  show "named (renameNode cur new w)"
    using assms(1) by (auto simp: named_def get split: if_splits)
  show "(obj_get (nodes (renameNode cur new w)) k \<noteq> None) =
      (if k = cur then False else if k = new then True else obj_get (nodes w) k \<noteq> None)" for k
    by (simp add: get)
  show "edges sel (connectionsBySourceNode (renameNode cur new w)) =
      map_prod (renamed cur new) (renamed cur new) ` edges sel (connectionsBySourceNode w)"
    unfolding renameNode_fields(1) by (rule edges_rename[OF assms(3,4)])
  show "connectionsByDestinationNode (renameNode cur new w) =
      getConnectionsByDestination (connectionsBySourceNode (renameNode cur new w))"
    by (rule renameNode_fields(2))
qed

theorem renameNode_graph_witness:
  "edges (SelType MainConn) (connectionsBySourceNode (renameNode ''A'' ''X'' sample_workflow)) =
     map_prod (renamed ''A'' ''X'') (renamed ''A'' ''X'') `
       edges (SelType MainConn) (connectionsBySourceNode sample_workflow)"
proof -
  have "obj_get (nodes sample_workflow) ''X'' = None"
    "obj_get (connectionsBySourceNode sample_workflow) ''X'' = None"
    "obj_get (nodes sample_workflow) ''A'' = Some (mk_node ''A'' ''set'')" by code_simp+
  from renameNode_graph[OF sample_named this(1,2) _ this(3)] show ?thesis by simp
qed

text \<open>
  Renaming a node to the name it has removes it from the workflow.
\<close>

theorem renameNode_same_name:
  "obj_get (nodes (renameNode n n w)) n = None"
  by (simp add: renameNode_fields obj_get_map split: option.split)

end
