(* ===== verification/ExecutionEngine.thy ===== *)
theory ExecutionEngine
  imports NodeExecution WorkflowRename "HOL-Library.Product_Lexorder"
begin

text \<open>
  The main loop of packages/core/src/WorkflowExecute.ts.  One round of the loop is a
  function from the state of the engine to the next state, the exit of the loop or a throw;
  what happens around the loop (the clock, a cancellation, a hook that fails) is the round's
  \<open>tick\<close>.  The hooks that run are kept as a list of events.
\<close>

section \<open>State\<close>

datatype hook = WorkflowExecuteBefore | NodeExecuteBefore string | NodeExecuteAfter string | WorkflowExecuteAfter

record Engine =
  e_run :: IRunExecutionData
  e_status :: ExecutionStatus
  e_lastTry :: "(string \<times> nat) option"
  e_error :: "ExecutionError option"
  e_clock :: nat
  e_hooks :: "hook list"

record tick =
  t_timeout :: bool
  t_cancel :: bool
  t_start :: int
  t_end :: int
  t_before :: "ExecutionError option"
  t_after :: "ExecutionError option"

datatype flow = Loop Engine | Leave Engine | Throw ExecutionError Engine

definition e_exec :: "Engine \<Rightarrow> ExecutionData" where
  "e_exec st = executionData (e_run st)"

definition e_stack :: "Engine \<Rightarrow> IExecuteData list" where
  "e_stack st = nodeExecutionStack (e_exec st)"

definition set_exec :: "ExecutionData \<Rightarrow> Engine \<Rightarrow> Engine" where
  "set_exec ed st = st\<lparr>e_run := (e_run st)\<lparr>executionData := ed\<rparr>\<rparr>"

definition set_stack :: "IExecuteData list \<Rightarrow> Engine \<Rightarrow> Engine" where
  "set_stack s st = set_exec ((e_exec st)\<lparr>nodeExecutionStack := s\<rparr>) st"

definition e_runData :: "Engine \<Rightarrow> IRunData" where
  "e_runData st = runData (resultData (e_run st))"

definition set_runData :: "IRunData \<Rightarrow> Engine \<Rightarrow> Engine" where
  "set_runData rd st =
     st\<lparr>e_run := (e_run st)\<lparr>resultData := (resultData (e_run st))\<lparr>runData := rd\<rparr>\<rparr>\<rparr>"

definition log_hook :: "hook \<Rightarrow> Engine \<Rightarrow> Engine" where
  "log_hook h st = st\<lparr>e_hooks := e_hooks st @ [h]\<rparr>"

text \<open>A hook runs, and the engine goes on unless the hook throws.\<close>

definition with_hook :: "hook \<Rightarrow> ExecutionError option \<Rightarrow> Engine \<Rightarrow> (Engine \<Rightarrow> flow) \<Rightarrow> flow" where
  "with_hook h failure st k =
     (case failure of Some e \<Rightarrow> Throw e (log_hook h st) | None \<Rightarrow> k (log_hook h st))"

section \<open>Is the data there?\<close>

datatype readiness = Ready | Requeue | CheckThrows js_error

fun check_inputs :: "Workflow \<Rightarrow> IExecuteData \<Rightarrow> nat list \<Rightarrow> readiness" where
  "check_inputs w item [] = Ready"
| "check_inputs w item (connectionIndex # idxs) =
     (case getHighestNode w (node_name (exec_node item)) MainConn (Some connectionIndex) of
        Inl e \<Rightarrow> CheckThrows e
      | Inr highest \<Rightarrow>
          (if highest = [] then check_inputs w item idxs
           else case main_of (exec_data item) of
               None \<Rightarrow> Requeue
             | Some m \<Rightarrow>
                 (if forceInputNodeExecution w \<and> (length m < connectionIndex \<or> arr_get m connectionIndex = Null)
                  then Requeue else check_inputs w item idxs)))"

definition dataAvailable :: "Workflow \<Rightarrow> IExecuteData \<Rightarrow> readiness" where
  "dataAvailable w item =
     (case obj_get (connectionsByDestinationNode w) (node_name (exec_node item)) of
        None \<Rightarrow> Ready
      | Some byType \<Rightarrow> (case obj_get byType MainConn of
          None \<Rightarrow> Ready
        | Some inputConnections \<Rightarrow> check_inputs w item [0..<length inputConnections]))"

section \<open>The nodes behind the outputs\<close>

definition candidates :: "Workflow \<Rightarrow> string \<Rightarrow> (nat \<times> IConnection) list" where
  "candidates w n =
     (case obj_get (connectionsBySourceNode w) n of
        None \<Rightarrow> []
      | Some byType \<Rightarrow> (case obj_get byType MainConn of
          None \<Rightarrow> []
        | Some byIndex \<Rightarrow> concat (map (\<lambda>(i, cs). map (Pair i) cs) (enumerate 0 byIndex))))"

definition has_data_for :: "Workflow \<Rightarrow> outputs \<Rightarrow> nat \<times> IConnection \<Rightarrow> bool" where
  "has_data_for w outs t =
     (case arr_get outs (fst t) of
        Val its \<Rightarrow> its \<noteq> [] \<or> (conn_index (snd t) > 0 \<and> forceInputNodeExecution w)
      | _ \<Rightarrow> False)"

definition check_target :: "Workflow \<Rightarrow> nat \<times> IConnection \<Rightarrow> js_error + unit" where
  "check_target w t =
     (if obj_get (nodes w) (conn_node (snd t)) = None
      then Inl (ApplicationError ''Destination node not found'') else Inr ())"

definition target_position :: "Workflow \<Rightarrow> nat \<times> IConnection \<Rightarrow> number \<times> number" where
  "target_position w t =
     (case getNode w (conn_node (snd t)) of None \<Rightarrow> (0, 0) | Some node \<Rightarrow> position node)"

text \<open>
  The comparison puts \<open>a\<close> before \<open>b\<close> when \<open>a\<close> is lower, or level and further right; the sort is
  stable, so it sorts by the negated coordinates, vertical first.
\<close>

definition sort_targets :: "Workflow \<Rightarrow> (nat \<times> IConnection) list \<Rightarrow> (nat \<times> IConnection) list" where
  "sort_targets w = sort_key (\<lambda>t. (- snd (target_position w t), - fst (target_position w t)))"

definition add_target ::
    "Workflow \<Rightarrow> string \<Rightarrow> outputs \<Rightarrow> nat \<Rightarrow> IRunData \<Rightarrow> nat \<times> IConnection \<Rightarrow> ExecutionData \<Rightarrow>
     js_error + ExecutionData" where
  "add_target w n outs runIndex rd t ed =
     addNodeToBeExecuted w (snd t) (fst t) n (Some outs) runIndex rd ed"

definition add_checked ::
    "Workflow \<Rightarrow> string \<Rightarrow> outputs \<Rightarrow> nat \<Rightarrow> IRunData \<Rightarrow> nat \<times> IConnection \<Rightarrow> ExecutionData \<Rightarrow>
     js_error + ExecutionData" where
  "add_checked w n outs runIndex rd t ed =
     res_bind (check_target w t) (\<lambda>_. if has_data_for w outs t then add_target w n outs runIndex rd t ed else Inr ed)"

definition addNextNodes ::
    "Workflow \<Rightarrow> string \<Rightarrow> outputs \<Rightarrow> nat \<Rightarrow> IRunData \<Rightarrow> ExecutionData \<Rightarrow> js_error + ExecutionData" where
  "addNextNodes w n outs runIndex rd ed =
     (if executionOrder w = Some OrderV1
      then res_bind (res_fold (\<lambda>t _. check_target w t) (candidates w n) ()) (\<lambda>_.
             res_fold (add_target w n outs runIndex rd)
               (sort_targets w (filter (has_data_for w outs) (candidates w n))) ed)
      else res_fold (add_checked w n outs runIndex rd) (candidates w n) ed)"

section \<open>Nodes that wait when nothing else is left\<close>

fun digits_of :: "nat \<Rightarrow> string" where
  "digits_of n = (if n < 10 then [char_of (48 + n)] else digits_of (n div 10) @ [char_of (48 + n mod 10)])"

declare digits_of.simps [simp del]

text \<open>The order of \<open>Array.sort\<close> on the keys of an object: by their text.\<close>

fun text_less :: "string \<Rightarrow> string \<Rightarrow> bool" where
  "text_less [] [] = False"
| "text_less [] (_ # _) = True"
| "text_less (_ # _) [] = False"
| "text_less (a # as) (b # bs) =
     ((of_char a :: nat) < of_char b \<or> (a = b \<and> text_less as bs))"

definition firstRunIndex :: "nat list \<Rightarrow> nat option" where
  "firstRunIndex ks =
     (case ks of
        [] \<Rightarrow> None
      | k # ks \<Rightarrow> Some (fold (\<lambda>k m. if text_less (digits_of k) (digits_of m) then k else m) ks k))"

text \<open>\<open>description.inputs.length\<close>, which for an expression is the length of its text.\<close>

fun inputs_length :: "NodeOutputs \<Rightarrow> nat" where
  "inputs_length (OutputList l) = length l"
| "inputs_length (OutputExpression s) = length s"

definition all_required :: "RequiredInputs option \<Rightarrow> nat \<Rightarrow> bool" where
  "all_required required k =
     (case required of
        Some (RequiredList l) \<Rightarrow> length l = k
      | Some (RequiredCount n) \<Rightarrow> n = k
      | _ \<Rightarrow> False)"

definition required_missing :: "RequiredInputs option \<Rightarrow> nat list \<Rightarrow> bool" where
  "required_missing required withData =
     (case required of
        Some (RequiredList l) \<Rightarrow> \<not> set l \<subseteq> set withData
      | Some (RequiredCount n) \<Rightarrow> length withData < n
      | _ \<Rightarrow> False)"

definition inputs_with_data :: "items slot list \<Rightarrow> nat list" where
  "inputs_with_data m = map fst (filter (\<lambda>(i, s). s \<noteq> Null) (enumerate 0 m))"

fun task_data_main :: "items slot list \<Rightarrow> js_error + items list" where
  "task_data_main [] = Inr []"
| "task_data_main (s # m) =
     (case s of
        Undefined \<Rightarrow> Inl TypeError
      | Null \<Rightarrow> res_bind (task_data_main m) (\<lambda>r. Inr ([] # r))
      | Val its \<Rightarrow> res_bind (task_data_main m) (\<lambda>r. Inr (its # r)))"

definition resolved_inputs :: "engine_env \<Rightarrow> Workflow \<Rightarrow> INode \<Rightarrow> INodeType \<Rightarrow> RequiredInputs option" where
  "resolved_inputs env w node nodeType =
     (if executionOrder w = Some OrderV1
      then (case requiredInputs (description nodeType) of
              Some (RequiredExpression e) \<Rightarrow> env_required env node e
            | r \<Rightarrow> r)
      else None)"

datatype verdict = SkipNode | Released ExecutionData | Dropped ExecutionData

definition releaseRun ::
    "Workflow \<Rightarrow> string \<Rightarrow> INode \<Rightarrow> nat \<Rightarrow> nat \<Rightarrow> items slot list \<Rightarrow> ExecutionData \<Rightarrow> js_error + verdict" where
  "releaseRun w n node k idx m ed =
     res_bind (task_data_main m) (\<lambda>taskDataMain.
       if \<exists>d \<in> set taskDataMain. d \<noteq> []
       then (case obj_get (source_of ed) n of
               None \<Rightarrow> Inl TypeError
             | Some sources \<Rightarrow>
                 res_bind (removeWaiting n idx (ed\<lparr>nodeExecutionStack := nodeExecutionStack ed @
                   [\<lparr>exec_data = [(MainConn, map Val (taskDataMain @ replicate (k - length taskDataMain) []))],
                     exec_node = node, exec_source = obj_get sources idx\<rparr>]\<rparr>)) (\<lambda>ed'. Inr (Released ed')))
       else res_bind (removeWaiting n idx ed) (\<lambda>ed'. Inr (Dropped ed')))"

definition releaseNode :: "engine_env \<Rightarrow> Workflow \<Rightarrow> string list \<Rightarrow> string \<Rightarrow> ExecutionData \<Rightarrow> js_error + verdict" where
  "releaseNode env w waitingNodes n ed =
     (case getNode w n of
        None \<Rightarrow> Inr SkipNode
      | Some node \<Rightarrow>
          (case env_types env (node_type node) (typeVersion node) of
             None \<Rightarrow> Inl TypeError
           | Some nodeType \<Rightarrow>
               (let required = resolved_inputs env w node nodeType;
                    k = inputs_length (type_inputs (description nodeType))
                in if all_required required k then Inr SkipNode
                   else if list_ex (\<lambda>p. p \<in> set waitingNodes) (getParentNodes w n (SelType MainConn) (-1))
                   then Inr SkipNode
                   else case obj_get (waitingExecution ed) n of
                       None \<Rightarrow> Inl TypeError
                     | Some runs \<Rightarrow>
                         (case firstRunIndex (obj_keys runs) of
                            None \<Rightarrow> Inl TypeError
                          | Some idx \<Rightarrow>
                              (case waiting_main (waitingExecution ed) n idx of
                                 None \<Rightarrow> Inl TypeError
                               | Some m \<Rightarrow>
                                   (if required_missing required (inputs_with_data m) then Inr SkipNode
                                    else releaseRun w n node k idx m ed))))))"

fun releaseScan :: "engine_env \<Rightarrow> Workflow \<Rightarrow> string list \<Rightarrow> string list \<Rightarrow> ExecutionData \<Rightarrow> js_error + verdict" where
  "releaseScan env w waitingNodes [] ed = Inr SkipNode"
| "releaseScan env w waitingNodes (n # ns) ed =
     res_bind (releaseNode env w waitingNodes n ed) (\<lambda>v.
       if v = SkipNode then releaseScan env w waitingNodes ns ed else Inr v)"

text \<open>
  Each time an empty run is dropped the search starts again; the fuel is the number of
  waiting runs, and a drop removes one of them.
\<close>

definition waiting_count :: "ExecutionData \<Rightarrow> nat" where
  "waiting_count ed = sum_list (map (\<lambda>(n, runs). length runs) (waitingExecution ed))"

primrec release_fuel :: "nat \<Rightarrow> engine_env \<Rightarrow> Workflow \<Rightarrow> ExecutionData \<Rightarrow> (js_error + ExecutionData) option" where
  "release_fuel 0 env w ed = None"
| "release_fuel (Suc fuel) env w ed =
     (let waitingNodes = obj_keys (waitingExecution ed)
      in case releaseScan env w waitingNodes waitingNodes ed of
          Inl e \<Rightarrow> Some (Inl e)
        | Inr SkipNode \<Rightarrow> Some (Inr ed)
        | Inr (Released ed') \<Rightarrow> Some (Inr ed')
        | Inr (Dropped ed') \<Rightarrow> release_fuel fuel env w ed')"

definition releaseWaiting :: "engine_env \<Rightarrow> Workflow \<Rightarrow> ExecutionData \<Rightarrow> js_error + ExecutionData" where
  "releaseWaiting env w ed =
     (case release_fuel (Suc (waiting_count ed)) env w ed of
        Some r \<Rightarrow> r
      | None \<Rightarrow> Inl (ApplicationError ''out of fuel''))"

section \<open>Errors in the items of a result\<close>

text \<open>The property \<open>message\<close> of an error value; null and undefined have no properties.\<close>

definition message_of :: "jval \<Rightarrow> js_error + jval" where
  "message_of e =
     (case e of
        JUndef \<Rightarrow> Inl TypeError
      | JNull \<Rightarrow> Inl TypeError
      | JObj ob \<Rightarrow> Inr (get_prop ob ''message'')
      | _ \<Rightarrow> Inr JUndef)"

definition merge_item :: "INodeExecutionData \<Rightarrow> js_error + INodeExecutionData" where
  "merge_item it =
     (let e = get_prop (json it) ''$error'' in
      if e \<noteq> JUndef \<and> get_prop (json it) ''$json'' \<noteq> JUndef
      then res_bind (message_of e) (\<lambda>m. Inr (it\<lparr>item_error := e, json := [(''error'', m)]\<rparr>))
      else if item_error it \<noteq> JUndef
      then res_bind (message_of (item_error it)) (\<lambda>m. Inr (it\<lparr>json := [(''error'', m)]\<rparr>))
      else Inr it)"

fun merge_items :: "items \<Rightarrow> js_error + items" where
  "merge_items [] = Inr []"
| "merge_items (it # its) =
     res_bind (merge_item it) (\<lambda>r. res_bind (merge_items its) (\<lambda>rs. Inr (r # rs)))"

fun merge_outputs :: "outputs \<Rightarrow> js_error + outputs" where
  "merge_outputs [] = Inr []"
| "merge_outputs (s # outs) =
     (case s of
        Val its \<Rightarrow> res_bind (merge_items its) (\<lambda>r. res_bind (merge_outputs outs) (\<lambda>rs. Inr (Val r # rs)))
      | _ \<Rightarrow> Inl TypeError)"

section \<open>One round of the loop\<close>

definition run_count :: "Engine \<Rightarrow> string \<Rightarrow> nat" where
  "run_count st n = (case obj_get (e_runData st) n of None \<Rightarrow> 0 | Some runs \<Rightarrow> length runs)"

definition push_run :: "string \<Rightarrow> ITaskData \<Rightarrow> Engine \<Rightarrow> Engine" where
  "push_run n t st =
     set_runData (str_put n ((case obj_get (e_runData st) n of None \<Rightarrow> [] | Some runs \<Rightarrow> runs) @ [t])
       (e_runData st)) st"

definition open_runs :: "string \<Rightarrow> Engine \<Rightarrow> Engine" where
  "open_runs n st =
     (if obj_get (e_runData st) n = None then set_runData (str_put n [] (e_runData st)) st else st)"

definition continues_on_error :: "INode \<Rightarrow> bool" where
  "continues_on_error node \<longleftrightarrow>
     continueOnFail node = Some True \<or>
     onError node = Some ContinueRegularOutput \<or> onError node = Some ContinueErrorOutput"

definition abort_error :: "ExecutionError \<Rightarrow> bool" where
  "abort_error e = (err_message e = ''AbortError'')"

definition new_task :: "tick \<Rightarrow> IExecuteData \<Rightarrow> TryState \<Rightarrow> ITaskData" where
  "new_task tk item ts =
     \<lparr>startTime = t_start tk, executionTime = t_end tk - t_start tk,
      executionStatus = Some (if ts_error ts = None then Success else StatusError),
      task_data = None, task_error = ts_error ts, hints = ts_hints ts,
      task_source = (case exec_source item of
          None \<Rightarrow> [] | Some s \<Rightarrow> (case obj_get s MainConn of None \<Rightarrow> [] | Some m \<Rightarrow> m)),
      task_metadata = None\<rparr>"

definition input_as_output :: "IExecuteData \<Rightarrow> outputs slot \<Rightarrow> outputs slot" where
  "input_as_output item d =
     (case main_of (exec_data item) of
        Some (x # _) \<Rightarrow> (if x = Null then d else Val [x])
      | _ \<Rightarrow> d)"

definition is_destination :: "Engine \<Rightarrow> string \<Rightarrow> bool" where
  "is_destination st n =
     (case startData (e_run st) of None \<Rightarrow> False | Some sd \<Rightarrow> n \<noteq> [] \<and> destinationNode sd = Some n)"

text \<open>After the result is stored: the next nodes, the hook, and the nodes that wait.\<close>

definition continue_after ::
    "engine_env \<Rightarrow> Workflow \<Rightarrow> tick \<Rightarrow> string \<Rightarrow> outputs \<Rightarrow> nat \<Rightarrow> Engine \<Rightarrow> flow" where
  "continue_after env w tk n outs runIndex st =
     (case addNextNodes w n outs runIndex (e_runData st) (e_exec st) of
        Inl e \<Rightarrow> Throw (mk_error e) st
      | Inr ed \<Rightarrow>
          with_hook (NodeExecuteAfter n) (t_after tk) (set_exec ed st) (\<lambda>st1.
            if e_stack st1 = [] \<and> waitingExecution (e_exec st1) \<noteq> []
            then (case releaseWaiting env w (e_exec st1) of
                    Inl e \<Rightarrow> Throw (mk_error e) st1
                  | Inr ed1 \<Rightarrow> Loop (set_exec ed1 st1))
            else Loop st1))"

definition store_result ::
    "engine_env \<Rightarrow> Workflow \<Rightarrow> tick \<Rightarrow> IExecuteData \<Rightarrow> nat \<Rightarrow> ITaskData \<Rightarrow> outputs slot \<Rightarrow> Engine \<Rightarrow> flow" where
  "store_result env w tk item runIndex task d st =
     (case (case d of Val outs \<Rightarrow> merge_outputs outs | _ \<Rightarrow> Inl TypeError) of
        Inl e \<Rightarrow> Throw (mk_error e) st
      | Inr outs \<Rightarrow>
          (let n = node_name (exec_node item);
               st1 = push_run n (task\<lparr>task_data := Some [(MainConn, outs)]\<rparr>) st
           in if waitTill (e_run st1) \<noteq> None
              then with_hook (NodeExecuteAfter n) (t_after tk) st1 (\<lambda>st2. Leave (set_stack (item # e_stack st2) st2))
              else if is_destination st1 n then with_hook (NodeExecuteAfter n) (t_after tk) st1 Loop
              else continue_after env w tk n outs runIndex st1))"

definition record_result ::
    "engine_env \<Rightarrow> Workflow \<Rightarrow> tick \<Rightarrow> IExecuteData \<Rightarrow> nat \<Rightarrow> TryState \<Rightarrow> Engine \<Rightarrow> flow" where
  "record_result env w tk item runIndex ts st =
     (let n = node_name (exec_node item); st1 = open_runs n st; task = new_task tk item ts
      in case ts_error ts of
          None \<Rightarrow> store_result env w tk item runIndex task (ts_data ts) st1
        | Some e \<Rightarrow>
            (if continues_on_error (exec_node item)
             then store_result env w tk item runIndex task (input_as_output item (ts_data ts)) st1
             else (let st2 = push_run n task st1; st3 = set_stack (item # e_stack st2) st2
                   in if abort_error e then Leave st3
                      else with_hook (NodeExecuteAfter n) (t_after tk) st3 Leave)))"

definition execute_item ::
    "engine_env \<Rightarrow> Workflow \<Rightarrow> tick \<Rightarrow> IExecuteData \<Rightarrow> nat \<Rightarrow> Engine \<Rightarrow> flow" where
  "execute_item env w tk item runIndex st =
     (let (skip, ts) = run_tries env w item runIndex (e_run st) (e_clock st);
          st1 = st\<lparr>e_run := ts_exec ts, e_clock := ts_clock ts, e_error := ts_error ts\<rparr>
      in if skip then Loop st1 else record_result env w tk item runIndex ts st1)"

definition filtered_out :: "Engine \<Rightarrow> string \<Rightarrow> bool" where
  "filtered_out st n =
     (case startData (e_run st) of
        None \<Rightarrow> False
      | Some sd \<Rightarrow> (case runNodeFilter sd of None \<Rightarrow> False | Some f \<Rightarrow> n \<notin> set f))"

definition endless_loop :: js_error where
  "endless_loop = ApplicationError ''Stopped execution because it seems to be in an endless loop''"

definition process_item :: "engine_env \<Rightarrow> Workflow \<Rightarrow> tick \<Rightarrow> IExecuteData \<Rightarrow> Engine \<Rightarrow> flow" where
  "process_item env w tk item st =
     (let n = node_name (exec_node item) in
      with_hook (NodeExecuteBefore n) (t_before tk) st (\<lambda>st1.
        let runIndex = run_count st1 n in
        if e_lastTry st1 = Some (n, runIndex) then Throw (mk_error endless_loop) st1
        else if filtered_out st1 n then Loop st1
        else case dataAvailable w item of
            CheckThrows e \<Rightarrow> Throw (mk_error e) st1
          | Requeue \<Rightarrow> Loop ((set_stack (e_stack st1 @ [item]) st1)\<lparr>e_lastTry := Some (n, runIndex)\<rparr>)
          | Ready \<Rightarrow> execute_item env w tk item runIndex st1))"

definition engine_step :: "engine_env \<Rightarrow> Workflow \<Rightarrow> tick \<Rightarrow> Engine \<Rightarrow> flow" where
  "engine_step env w tk st =
     (case e_stack st of
        [] \<Rightarrow> Leave st
      | item # rest \<Rightarrow>
          (let st0 = (if t_timeout tk \<or> t_cancel tk then st\<lparr>e_status := Canceled\<rparr> else st)
           in if e_status st0 = Canceled then Leave st0
              else (let st1 = (set_stack rest st0)\<lparr>e_error := None\<rparr>
                    in case pair_items (exec_data item) of
                        Inl e \<Rightarrow> Throw (mk_error e) st1
                      | Inr d \<Rightarrow> process_item env w tk (item\<lparr>exec_data := d\<rparr>) st1)))"

section \<open>The loop\<close>

text \<open>
  The rounds may go on for ever (a loop in the workflow), so the loop has fuel and running
  out of it is None.
\<close>

datatype exit = Left Engine | Thrown ExecutionError Engine

primrec engine_loop :: "nat \<Rightarrow> engine_env \<Rightarrow> Workflow \<Rightarrow> (nat \<Rightarrow> tick) \<Rightarrow> nat \<Rightarrow> Engine \<Rightarrow> exit option" where
  "engine_loop 0 env w ticks i st = None"
| "engine_loop (Suc fuel) env w ticks i st =
     (case engine_step env w (ticks i) st of
        Loop st1 \<Rightarrow> engine_loop fuel env w ticks (Suc i) st1
      | Leave st1 \<Rightarrow> Some (Left st1)
      | Throw e st1 \<Rightarrow> Some (Thrown e st1))"

end
