(* ===== verification/ExecutionRuns.thy ===== *)
theory ExecutionRuns
  imports ExecutionEngine
begin

text \<open>
  What packages/core/src/WorkflowExecute.ts does around the main loop: the checks before it,
  the result after it, and the state with which a whole workflow (\<open>run\<close>) or a part of it
  (\<open>runPartialWorkflow\<close>) starts.
\<close>

section \<open>Before the loop\<close>

record host =
  h_restarted :: bool
  h_before :: "ExecutionError option"
  h_final :: "ExecutionError option"
  h_canceledLate :: bool
  h_startedAt :: int
  h_stoppedAt :: int

definition with_startData :: "IRunExecutionData \<Rightarrow> IRunExecutionData" where
  "with_startData re =
     (if startData re = None then re\<lparr>startData := Some \<lparr>destinationNode = None, runNodeFilter = None\<rparr>\<rparr> else re)"

text \<open>
  Resuming after a wait: the waiting node is disabled, so that it passes its data on, and
  its last run is removed, to be stored again.
\<close>

definition resume_wait :: "IRunExecutionData \<Rightarrow> js_error + IRunExecutionData" where
  "resume_wait re =
     (if waitTill re = None then Inr re
      else case nodeExecutionStack (executionData re) of
          [] \<Rightarrow> Inl TypeError
        | item # rest \<Rightarrow>
            (case lastNodeExecuted (resultData re) of
               None \<Rightarrow> Inl TypeError
             | Some n \<Rightarrow>
                 (case obj_get (runData (resultData re)) n of
                    None \<Rightarrow> Inl TypeError
                  | Some runs \<Rightarrow> Inr (re\<lparr>waitTill := None,
                      executionData := (executionData re)\<lparr>nodeExecutionStack :=
                        item\<lparr>exec_node := (exec_node item)\<lparr>disabled := Some True\<rparr>\<rparr> # rest\<rparr>,
                      resultData := (resultData re)\<lparr>runData :=
                        str_put n (butlast runs) (runData (resultData re))\<rparr>\<rparr>))))"

definition start_check ::
    "engine_env \<Rightarrow> issue_check \<Rightarrow> Workflow \<Rightarrow> IRunExecutionData \<Rightarrow> js_error + unit" where
  "start_check env issues w re =
     (case nodeExecutionStack (executionData re) of
        [] \<Rightarrow> Inl TypeError
      | item # _ \<Rightarrow>
          res_bind (checkReadyForExecution (env_types env) issues w (Some (node_name (exec_node item)))
            (case startData re of None \<Rightarrow> None | Some sd \<Rightarrow> destinationNode sd)
            (Some (case pinData (resultData re) of None \<Rightarrow> [] | Some p \<Rightarrow> obj_keys p))) (\<lambda>found.
          if found = None then Inr ()
          else Inl (WorkflowOperationError
            ''The workflow has issues and can for that reason not be executed. Please fix them first.'')))"

definition start_engine :: "IRunExecutionData \<Rightarrow> Engine" where
  "start_engine re =
     \<lparr>e_run = re, e_status = Running, e_lastTry = None, e_error = None, e_clock = 0, e_hooks = []\<rparr>"

text \<open>When the first hook throws, all that is kept is the input of the first node.\<close>

definition failed_start :: "ExecutionError \<Rightarrow> host \<Rightarrow> Engine \<Rightarrow> exit" where
  "failed_start e h st =
     (case e_stack st of
        [] \<Rightarrow> Thrown (mk_error TypeError) st
      | item # _ \<Rightarrow>
          Thrown e (st\<lparr>e_error := Some e, e_run := (e_run st)\<lparr>resultData :=
            \<lparr>result_error = Some e,
             runData = [(node_name (exec_node item),
               [\<lparr>startTime = 0, executionTime = 0, executionStatus = Some StatusError,
                 task_data = (case main_of (exec_data item) of None \<Rightarrow> None | Some m \<Rightarrow> Some [(MainConn, m)]),
                 task_error = None, hints = [], task_source = [], task_metadata = None\<rparr>])],
             pinData = None, lastNodeExecuted = Some (node_name (exec_node item))\<rparr>\<rparr>\<rparr>))"

section \<open>After the loop\<close>

definition getFullRunData :: "WorkflowExecuteMode \<Rightarrow> host \<Rightarrow> Engine \<Rightarrow> IRun" where
  "getFullRunData mode h st =
     \<lparr>run_data = e_run st, run_finished = False, run_mode = mode, run_waitTill = None,
      startedAt = h_startedAt h, stoppedAt = h_stoppedAt h, run_status = e_status st\<rparr>"

definition put_metadata :: "string \<Rightarrow> nat \<times> jval \<Rightarrow> IRunData \<Rightarrow> js_error + IRunData" where
  "put_metadata n e rd =
     (case obj_get rd n of
        None \<Rightarrow> Inl TypeError
      | Some runs \<Rightarrow>
          (if fst e < length runs
           then Inr (str_put n (runs[fst e := (runs ! fst e)\<lparr>task_metadata := Some (snd e)\<rparr>]) rd)
           else Inl TypeError))"

definition moveNodeMetadata :: "IRunExecutionData \<Rightarrow> js_error + IRunExecutionData" where
  "moveNodeMetadata re =
     res_bind (res_fold (\<lambda>(n, ms). res_fold (put_metadata n) (enumerate 0 ms))
        (exec_metadata (executionData re)) (runData (resultData re)))
       (\<lambda>rd. Inr (re\<lparr>resultData := (resultData re)\<lparr>runData := rd\<rparr>\<rparr>))"

definition set_result_error :: "ExecutionError \<Rightarrow> IRun \<Rightarrow> IRun" where
  "set_result_error e r =
     r\<lparr>run_data := (run_data r)\<lparr>resultData := (resultData (run_data r))\<lparr>result_error := Some e\<rparr>\<rparr>\<rparr>"

definition outcome :: "WorkflowExecuteMode \<Rightarrow> host \<Rightarrow> ExecutionError option \<Rightarrow> Engine \<Rightarrow> IRun" where
  "outcome mode h executionError st =
     (let r = getFullRunData mode h st in
      case executionError of
        Some e \<Rightarrow>
          (let r1 = set_result_error e r
           in if str_includes (err_message e) ''canceled'' then r1\<lparr>run_status := Canceled\<rparr> else r1)
      | None \<Rightarrow>
          (case waitTill (e_run st) of
             Some t \<Rightarrow> r\<lparr>run_waitTill := Some t, run_status := Waiting\<rparr>
           | None \<Rightarrow> r\<lparr>run_finished := True, run_status := Success\<rparr>))"

definition move_metadata_of :: "IRun \<Rightarrow> js_error + IRun" where
  "move_metadata_of r = res_bind (moveNodeMetadata (run_data r)) (\<lambda>re. Inr (r\<lparr>run_data := re\<rparr>))"

definition processSuccessExecution ::
    "WorkflowExecuteMode \<Rightarrow> host \<Rightarrow> ExecutionError option \<Rightarrow> Engine \<Rightarrow> ExecutionError + IRun" where
  "processSuccessExecution mode h executionError st =
     (case move_metadata_of (outcome mode h executionError st) of
        Inl e \<Rightarrow> Inl (mk_error e)
      | Inr r \<Rightarrow>
          (case executionError of
             Some e \<Rightarrow> (if abort_error e then Inr r
                else case h_final h of Some e' \<Rightarrow> Inl e' | None \<Rightarrow> Inr r)
           | None \<Rightarrow> (case h_final h of Some e' \<Rightarrow> Inl e' | None \<Rightarrow> Inr r)))"

definition cancel_error :: ExecutionError where
  "cancel_error = mk_error (WorkflowOperationError ''Workflow has been canceled or timed out'')"

text \<open>The handler of a throw; a failing hook is only logged there.\<close>

definition finishThrown :: "WorkflowExecuteMode \<Rightarrow> host \<Rightarrow> ExecutionError \<Rightarrow> Engine \<Rightarrow> ExecutionError + IRun" where
  "finishThrown mode h e st = lift_error (move_metadata_of (set_result_error e (getFullRunData mode h st)))"

definition finishLeft :: "WorkflowExecuteMode \<Rightarrow> host \<Rightarrow> Engine \<Rightarrow> ExecutionError + IRun" where
  "finishLeft mode h st =
     (let st1 = (if h_canceledLate h then st\<lparr>e_status := Canceled\<rparr> else st);
          executionError = (if e_status st1 = Canceled \<and> e_error st1 = None then Some cancel_error else e_error st1)
      in case processSuccessExecution mode h executionError st1 of
          Inr r \<Rightarrow> Inr r
        | Inl e \<Rightarrow> finishThrown mode h e st1)"

definition finish :: "WorkflowExecuteMode \<Rightarrow> host \<Rightarrow> exit \<Rightarrow> ExecutionError + IRun" where
  "finish mode h x = (case x of Left st \<Rightarrow> finishLeft mode h st | Thrown e st \<Rightarrow> finishThrown mode h e st)"

definition processRunExecutionData ::
    "nat \<Rightarrow> engine_env \<Rightarrow> issue_check \<Rightarrow> host \<Rightarrow> (nat \<Rightarrow> tick) \<Rightarrow> Workflow \<Rightarrow> IRunExecutionData \<Rightarrow>
     (ExecutionError + IRun) option" where
  "processRunExecutionData fuel env issues h ticks w re =
     (case res_bind (start_check env issues w re) (\<lambda>_. resume_wait (with_startData re)) of
        Inl e \<Rightarrow> Some (Inl (mk_error e))
      | Inr re1 \<Rightarrow>
          (let st = start_engine re1 in
           case (if h_restarted h then None else h_before h) of
             Some e \<Rightarrow> Some (finish (env_mode env) h (failed_start e h st))
           | None \<Rightarrow> map_option (finish (env_mode env) h) (engine_loop fuel env w ticks 0 st)))"

section \<open>Starting a whole workflow, or a part of it\<close>

definition initial_data ::
    "string option \<Rightarrow> string list option \<Rightarrow> IRunData \<Rightarrow> IPinData option \<Rightarrow> IExecuteData list \<Rightarrow>
     IWaitingForExecution \<Rightarrow> IWaitingForExecutionSource \<Rightarrow> IRunExecutionData" where
  "initial_data destination nodeFilter rd pins stack we ws =
     \<lparr>startData = Some \<lparr>destinationNode = destination, runNodeFilter = nodeFilter\<rparr>,
      resultData = \<lparr>result_error = None, runData = rd, pinData = pins, lastNodeExecuted = None\<rparr>,
      executionData = \<lparr>contextData = [], nodeExecutionStack = stack, exec_metadata = [],
        waitingExecution = we, waitingExecutionSource = Some ws\<rparr>,
      waitTill = None\<rparr>"

definition given :: "string option \<Rightarrow> bool" where
  "given d = (case d of None \<Rightarrow> False | Some n \<Rightarrow> n \<noteq> [])"

definition run_filter :: "Workflow \<Rightarrow> string option \<Rightarrow> string list option" where
  "run_filter w destination =
     (case destination of
        Some (d # ds) \<Rightarrow> Some (getParentNodes w (d # ds) (SelType MainConn) (-1) @ [d # ds])
      | _ \<Rightarrow> None)"

text \<open>\<open>run\<close>, up to the call of \<open>processRunExecutionData\<close>.\<close>

definition start_run ::
    "engine_env \<Rightarrow> Workflow \<Rightarrow> INode option \<Rightarrow> string option \<Rightarrow> IPinData option \<Rightarrow> js_error + IRunExecutionData" where
  "start_run env w startNode destination pins =
     res_bind (case startNode of
         Some node \<Rightarrow> Inr (Some node)
       | None \<Rightarrow> getStartNode (env_types env) w destination) (\<lambda>found.
       case found of
         None \<Rightarrow> Inl (ApplicationError ''No node to start the workflow from could be found'')
       | Some node \<Rightarrow> Inr (initial_data destination (run_filter w destination) [] pins
           [\<lparr>exec_data = empty_input, exec_node = node, exec_source = None\<rparr>] [] []))"

text \<open>
  A start node of a partial run: the data of all its incoming connections from the recorded
  or pinned data, in one list, and where they came from.
\<close>

definition recorded_output :: "IRunData \<Rightarrow> IConnection \<Rightarrow> items slot" where
  "recorded_output rd c =
     (case obj_get rd (conn_node c) of
        Some (t # _) \<Rightarrow> (case task_data t of
            None \<Rightarrow> Undefined
          | Some d \<Rightarrow> (case obj_get d (conn_type c) of None \<Rightarrow> Undefined | Some m \<Rightarrow> arr_get m (conn_index c)))
      | _ \<Rightarrow> Undefined)"

fun incoming_entries ::
    "Workflow \<Rightarrow> IRunData \<Rightarrow> IPinData option \<Rightarrow> ISourceData option \<Rightarrow> IConnection list \<Rightarrow>
     items slot list \<times> ISourceData slot list" where
  "incoming_entries w rd pins src [] = ([], [])"
| "incoming_entries w rd pins src (c # cs) =
     (let (ds, ss) = incoming_entries w rd pins src cs;
          s = Val (case src of Some s \<Rightarrow> s
                   | None \<Rightarrow> \<lparr>previousNode = conn_node c, previousNodeOutput = None, previousNodeRun = None\<rparr>);
          pinned = (case (getNode w (conn_node c), pins) of
              (Some node, Some p) \<Rightarrow> obj_get p (node_name node) | _ \<Rightarrow> None)
      in if (case getNode w (conn_node c) of None \<Rightarrow> False | Some node \<Rightarrow> is_disabled node) then (ds, ss)
         else case pinned of
             Some its \<Rightarrow> (Val its # ds, s # ss)
           | None \<Rightarrow>
               (if obj_get rd (conn_node c) = None then (ds, ss)
                else case recorded_output rd c of
                    Val its \<Rightarrow> (Val its # ds, s # ss)
                  | _ \<Rightarrow> (ds, s # ss)))"

definition partial_item ::
    "Workflow \<Rightarrow> IRunData \<Rightarrow> IPinData option \<Rightarrow> StartNodeData \<Rightarrow> js_error + IExecuteData" where
  "partial_item w rd pins start =
     (case obj_get (connectionsByDestinationNode w) (start_name start) of
        None \<Rightarrow> stack_item w (start_name start) empty_input None
      | Some byType \<Rightarrow>
          (case obj_get byType MainConn of
             None \<Rightarrow> Inl TypeError
           | Some inputs \<Rightarrow>
               (let (ds, ss) = incoming_entries w rd pins (start_sourceData start) (concat inputs)
                in stack_item w (start_name start) [(MainConn, ds)] (Some [(MainConn, ss)]))))"

text \<open>The destination waits for the inputs it has no recorded data for.\<close>

definition push_entry :: "string \<Rightarrow> NodeConnectionType \<Rightarrow> 'a slot \<Rightarrow> 'a waiting \<Rightarrow> 'a waiting" where
  "push_entry n t x ob =
     (let runs = (case obj_get ob n of None \<Rightarrow> [] | Some r \<Rightarrow> r);
          e = (case obj_get runs 0 of None \<Rightarrow> [] | Some e \<Rightarrow> e);
          m = (case obj_get e t of None \<Rightarrow> [] | Some m \<Rightarrow> m)
      in str_put n (nat_put 0 (enum_put t (m @ [x]) e) runs) ob)"

definition wait_for_connection ::
    "string \<Rightarrow> IRunData \<Rightarrow> IConnection \<Rightarrow> IWaitingForExecution \<times> IWaitingForExecutionSource \<Rightarrow>
     js_error + IWaitingForExecution \<times> IWaitingForExecutionSource" where
  "wait_for_connection destination rd c ws =
     (case obj_get rd (conn_node c) of
        None \<Rightarrow> Inr (push_entry destination (conn_type c) Null (fst ws), push_entry destination (conn_type c) Null (snd ws))
      | Some [] \<Rightarrow> Inl TypeError
      | Some (t # _) \<Rightarrow>
          (case task_data t of
             None \<Rightarrow> Inl TypeError
           | Some d \<Rightarrow>
               (case obj_get d (conn_type c) of
                  None \<Rightarrow> Inl TypeError
                | Some m \<Rightarrow> Inr
                    (push_entry destination (conn_type c) (arr_get m (conn_index c)) (fst ws),
                     push_entry destination (conn_type c) (Val (mk_source (conn_node c) (conn_index c) 0)) (snd ws)))))"

definition wait_for_destination ::
    "Workflow \<Rightarrow> string \<Rightarrow> IRunData \<Rightarrow> IWaitingForExecution \<times> IWaitingForExecutionSource \<Rightarrow>
     js_error + IWaitingForExecution \<times> IWaitingForExecutionSource" where
  "wait_for_destination w destination rd ws =
     (case obj_get (connectionsByDestinationNode w) destination of
        None \<Rightarrow> Inr ws
      | Some byType \<Rightarrow>
          (case obj_get byType MainConn of
             None \<Rightarrow> Inl TypeError
           | Some inputs \<Rightarrow> res_fold (wait_for_connection destination rd) (concat inputs) ws))"

definition partial_filter :: "Workflow \<Rightarrow> string \<Rightarrow> string list" where
  "partial_filter w destination =
     filter (\<lambda>n. case getNode w n of None \<Rightarrow> True | Some node \<Rightarrow> \<not> is_disabled node)
       (getParentNodes w destination (SelType MainConn) (-1)) @ [destination]"

definition partial_start ::
    "Workflow \<Rightarrow> IRunData \<Rightarrow> string option \<Rightarrow> IPinData option \<Rightarrow> StartNodeData \<Rightarrow>
     IExecuteData list \<times> IWaitingForExecution \<times> IWaitingForExecutionSource \<Rightarrow>
     js_error + IExecuteData list \<times> IWaitingForExecution \<times> IWaitingForExecutionSource" where
  "partial_start w rd destination pins start st =
     res_bind (partial_item w rd pins start) (\<lambda>item.
     res_bind (case destination of
         Some (d # ds) \<Rightarrow> wait_for_destination w (d # ds) rd (snd st)
       | _ \<Rightarrow> Inr (snd st)) (\<lambda>ws. Inr (fst st @ [item], ws)))"

text \<open>\<open>runPartialWorkflow\<close>, up to the call of \<open>processRunExecutionData\<close>.\<close>

definition start_partial ::
    "Workflow \<Rightarrow> IRunData \<Rightarrow> StartNodeData list \<Rightarrow> string option \<Rightarrow> IPinData option \<Rightarrow> js_error + IRunExecutionData" where
  "start_partial w rd starts destination pins =
     res_bind (res_fold (partial_start w rd destination pins) starts ([], [], [])) (\<lambda>(stack, we, ws).
       Inr (initial_data destination
         (if given destination \<and> starts \<noteq> []
          then map_option (partial_filter w) destination else None) rd pins stack we ws))"

end
