(* ===== verification/NodeProperties.thy ===== *)
theory NodeProperties
  imports NodeExecution Samples
begin

text \<open>
  What holds of the execution of one stack entry: how often the node runs, what pinned data,
  disabled nodes and missing inputs do, where failed items go, and where items come from.
\<close>

section \<open>How often a node runs\<close>

lemma max_tries_bounds: "1 \<le> max_tries n \<and> max_tries n \<le> 5"
  by (auto simp: max_tries_def min_def max_def)

lemma call_node_clock: "call_node env w item ri ts = (r, ts') \<Longrightarrow> ts_clock ts' = Suc (ts_clock ts)"
  by (auto simp: call_node_def Let_def)

lemma rerun_clock:
  "rerun env w item ri n ts = (thrown, n', ts') \<Longrightarrow>
     (thrown = None \<longrightarrow> n' = 0 \<and> ts_clock ts' = ts_clock ts + n) \<and>
     (thrown \<noteq> None \<longrightarrow> 0 < n' \<and> n' \<le> n \<and> ts_clock ts' = ts_clock ts + (n - n') + 1)"
proof (induction n arbitrary: ts)
  case 0
  then show ?case by auto
next
  case (Suc n)
  let ?ts = "ts\<lparr>ts_slept := ts_slept ts + wait_between_tries (exec_node item)\<rparr>"
  obtain r ts1 where c: "call_node env w item ri ?ts = (r, ts1)" by (cases "call_node env w item ri ?ts")
  have ck: "ts_clock ts1 = Suc (ts_clock ts)" using call_node_clock[OF c] by simp
  show ?case
  proof (cases "rr_data r")
    case (Inl e)
    with Suc.prems c have "thrown = Some e" "n' = Suc n" "ts' = ts1" by (simp_all add: Let_def)
    with ck show ?thesis by simp
  next
    case (Inr d)
    with Suc.prems c have "rerun env w item ri n ts1 = (thrown, n', ts')" by (simp add: Let_def)
    from Suc.IH[OF this] ck show ?thesis by (auto simp: Suc_diff_le)
  qed
qed

text \<open>The cases of getting the data, as far as the counters and the kept data go.\<close>

lemma fetch_data_clock:
  assumes "fetch_data env w item ri left ts = (thrown, left', ts')"
  shows "left' \<le> left \<and> ts_clock ts' \<le> ts_clock ts + (left - left') + (if 0 < left' \<and> thrown \<noteq> None then 2 else 1)"
proof (cases "pinned_data (ts_exec ts) (exec_node item)")
  case (Some p)
  then show ?thesis using assms by (auto simp: fetch_data_def)
next
  case None
  obtain r ts1 where c: "call_node env w item ri ts = (r, ts1)" by (cases "call_node env w item ri ts")
  have ck: "ts_clock ts1 = Suc (ts_clock ts)" using call_node_clock[OF c] .
  show ?thesis
  proof (cases "rr_data r")
    case (Inl e)
    then show ?thesis using assms None c ck by (simp add: fetch_data_def)
  next
    case (Inr d)
    obtain th l t3 where re: "(if continued_on_fail d then rerun env w item ri left (ts1\<lparr>ts_data := d\<rparr>)
        else (None, left, ts1\<lparr>ts_data := d\<rparr>)) = (th, l, t3)"
      by (cases "if continued_on_fail d then rerun env w item ri left (ts1\<lparr>ts_data := d\<rparr>)
        else (None, left, ts1\<lparr>ts_data := d\<rparr>)")
    have res: "left' = l" "ts_clock ts' = ts_clock t3" "th \<noteq> None \<Longrightarrow> thrown \<noteq> None"
      using assms None c Inr re by (auto simp: fetch_data_def Let_def split: option.splits if_splits sum.splits)
    show ?thesis
    proof (cases "continued_on_fail d")
      case True
      with re have "rerun env w item ri left (ts1\<lparr>ts_data := d\<rparr>) = (th, l, t3)" by simp
      from rerun_clock[OF this] res ck show ?thesis by (cases th) auto
    next
      case False
      with re res ck show ?thesis by auto
    qed
  qed
qed

lemma finish_try_clock: "finish_try item ts = (r, ts') \<Longrightarrow> ts_clock ts' = ts_clock ts"
  by (auto simp: finish_try_def Let_def split: sum.splits option.splits if_splits)

lemma try_once_clock:
  assumes "try_once env w item ri left ts = (signal, left', ts')"
  shows "left' \<le> left \<and> ts_clock ts' \<le> ts_clock ts + (left - left') + (if 0 < left' \<and> signal = None then 2 else 1)"
proof -
  obtain thrown l t1 where f: "fetch_data env w item ri left ts = (thrown, l, t1)"
    by (cases "fetch_data env w item ri left ts")
  note F = fetch_data_clock[OF f]
  show ?thesis
  proof (cases thrown)
    case (Some e)
    then have "signal = None" "left' = l" "ts_clock ts' = ts_clock t1"
      using assms f by (auto simp: try_once_def failed_try_def)
    with F Some show ?thesis by (cases "0 < l") auto
  next
    case None
    obtain r t2 where fin: "finish_try item t1 = (r, t2)" by (cases "finish_try item t1")
    have "left' = l" "ts_clock ts' = ts_clock t2"
      using assms f None fin by (auto simp: try_once_def failed_try_def split: sum.splits)
    with F None finish_try_clock[OF fin] show ?thesis by auto
  qed
qed

lemma try_loop_clock:
  "try_loop env w item ri left ts = (skip, ts') \<Longrightarrow> ts_clock ts' \<le> ts_clock ts + 2 * left + 1"
proof (induction left arbitrary: ts rule: less_induct)
  case (less left)
  obtain signal l t1 where t: "try_once env w item ri left ts = (signal, l, t1)"
    by (cases "try_once env w item ri left ts")
  note C = try_once_clock[OF t]
  show ?case
  proof (cases signal)
    case (Some sg)
    with less.prems t have "ts' = t1" by (simp add: try_loop.simps)
    with C Some show ?thesis by auto
  next
    case None
    show ?thesis
    proof (cases l)
      case 0
      with less.prems t None have "ts' = t1" by (simp add: try_loop.simps)
      with C 0 show ?thesis by auto
    next
      case (Suc k)
      let ?t = "t1\<lparr>ts_error := None, ts_slept := ts_slept t1 + wait_between_tries (exec_node item)\<rparr>"
      have run: "try_loop env w item ri k ?t = (skip, ts')"
        using less.prems t None Suc by (simp add: try_loop.simps)
      have "k < left" using C Suc by simp
      from less.IH[OF this run] have "ts_clock ts' \<le> ts_clock ?t + 2 * k + 1" .
      with C Suc None show ?thesis by auto
    qed
  qed
qed

text \<open>
  However it is configured a node runs at most nine times for one entry of the stack:
  at most twice the number of tries, less one, and there are at least one and at most five
  tries.
\<close>

theorem run_tries_bounded:
  "1 \<le> max_tries (exec_node item) \<and> max_tries (exec_node item) \<le> 5 \<and>
   ts_clock (snd (run_tries env w item ri re clock)) \<le> clock + 2 * max_tries (exec_node item) - 1"
proof -
  obtain skip ts' where r: "run_tries env w item ri re clock = (skip, ts')"
    by (cases "run_tries env w item ri re clock")
  from try_loop_clock[OF r[unfolded run_tries_def]]
  have "ts_clock ts' \<le> clock + 2 * (max_tries (exec_node item) - 1) + 1" by simp
  with r max_tries_bounds[of "exec_node item"] show ?thesis
    by (cases "max_tries (exec_node item)") simp_all
qed

section \<open>Tries beyond the limit, and retries whose result is dropped\<close>

definition body_answer :: "ExecutionError + outputs slot \<Rightarrow> body_result" where
  "body_answer d = \<lparr>br_data = d, br_hints = [], br_closing = [], br_waitTill = None, br_context = [], br_metadata = []\<rparr>"

definition sample_env :: "(nat \<Rightarrow> ExecutionError + outputs slot) \<Rightarrow> engine_env" where
  "sample_env f = \<lparr>env_types = sample_types, env_body = (\<lambda>n kind args. body_answer (f n)),
     env_outputs = (\<lambda>_ _. None), env_required = (\<lambda>_ _. None),
     env_paired = (\<lambda>_ _ _. Inr None), env_mode = ModeManual\<rparr>"

definition sample_exec :: IRunExecutionData where
  "sample_exec = \<lparr>startData = None,
     resultData = \<lparr>result_error = None, runData = [], pinData = None, lastNodeExecuted = None\<rparr>,
     executionData = no_execution, waitTill = None\<rparr>"

definition failed_item :: INodeExecutionData where
  "failed_item = empty_item\<lparr>json := [(''error'', JStr ''failed'')]\<rparr>"

definition retry_item :: "INode \<Rightarrow> IExecuteData" where
  "retry_item n = \<lparr>exec_data = [(MainConn, [Val [item_of ''in'']])], exec_node = n, exec_source = None\<rparr>"

definition retrying_node :: INode where
  "retrying_node = (mk_node ''A'' ''set'')\<lparr>retryOnFail := Some True, maxTries := Some 3\<rparr>"

text \<open>
  A node set to try three times can run five times: it answers with a failed item, and
  throws when it is run again for that, in the first and in the second try.
\<close>

theorem tries_exceed_maxTries:
  "max_tries retrying_node = 3 \<and>
   ts_clock (snd (run_tries
     (sample_env (\<lambda>n. if n = 1 \<or> n = 3 then Inl \<lparr>err_name = ''Error'', err_message = ''x''\<rparr>
                      else Inr (Val [Val [failed_item]])))
     sample_workflow (retry_item retrying_node) 0 sample_exec 0)) = 5"
  by code_simp

text \<open>
  A retry that succeeds is dropped: a node that fails once by an item with an error and
  then succeeds runs for every try that is left, and the failed item stays its result.
\<close>

theorem successful_retry_dropped:
  "(let ts = snd (run_tries
      (sample_env (\<lambda>n. Inr (Val [Val [if n = 0 then failed_item else item_of ''ok'']])))
      sample_workflow (retry_item retrying_node) 0 sample_exec 0)
    in ts_clock ts = 3 \<and> ts_error ts = None \<and>
       (case ts_data ts of Val [Val [it]] \<Rightarrow> json it = json failed_item | _ \<Rightarrow> False))"
  by code_simp

section \<open>Pinned data and disabled nodes\<close>

lemma fetch_pinned:
  "pinned_data (ts_exec ts) (exec_node item) = Some p \<Longrightarrow>
     fetch_data env w item ri left ts = (None, left, ts\<lparr>ts_data := Val [Val p]\<rparr>)"
  by (simp add: fetch_data_def)

lemma set_last_pinned [simp]: "pinned_data (set_last n re) node = pinned_data re node"
  by (simp add: pinned_data_def set_last_def)

lemma finish_try_pinned:
  "finish_try item ts = (r, ts') \<Longrightarrow> pinned_data (ts_exec ts') node = pinned_data (ts_exec ts) node"
  by (auto simp: finish_try_def Let_def split: sum.splits option.splits if_splits)

lemma try_loop_pinned:
  "pinned_data (ts_exec ts) (exec_node item) = Some p \<Longrightarrow> try_loop env w item ri left ts = (skip, ts') \<Longrightarrow>
     ts_clock ts' = ts_clock ts"
proof (induction left arbitrary: ts rule: less_induct)
  case (less left)
  obtain r t2 where f: "finish_try item (ts\<lparr>ts_data := Val [Val p]\<rparr>) = (r, t2)"
    by (cases "finish_try item (ts\<lparr>ts_data := Val [Val p]\<rparr>)")
  have ck: "ts_clock t2 = ts_clock ts" using finish_try_clock[OF f] by simp
  have pd: "pinned_data (ts_exec t2) (exec_node item) = Some p"
    using finish_try_pinned[OF f] less.prems(1) by simp
  show ?case
  proof (cases r)
    case (Inr signal)
    then have "try_once env w item ri left ts = (Some signal, left, t2)"
      using fetch_pinned[OF less.prems(1)] f by (simp add: try_once_def)
    with less.prems(2) ck show ?thesis by (simp add: try_loop.simps)
  next
    case (Inl e)
    then have t: "try_once env w item ri left ts = (None, left, failed_try item e t2)"
      using fetch_pinned[OF less.prems(1)] f by (simp add: try_once_def)
    show ?thesis
    proof (cases left)
      case 0
      with less.prems(2) t ck show ?thesis by (auto simp: try_loop.simps failed_try_def)
    next
      case (Suc k)
      let ?t = "(failed_try item e t2)\<lparr>ts_error := None,
         ts_slept := ts_slept (failed_try item e t2) + wait_between_tries (exec_node item)\<rparr>"
      have run: "try_loop env w item ri k ?t = (skip, ts')"
        using less.prems(2) t Suc by (simp add: try_loop.simps)
      have "pinned_data (ts_exec ?t) (exec_node item) = Some p"
        using pd by (simp add: failed_try_def)
      from less.IH[OF _ this run] Suc have "ts_clock ts' = ts_clock ?t" by simp
      with ck show ?thesis by (simp add: failed_try_def)
    qed
  qed
qed

text \<open>
  A node with pinned data is never run, whatever its tries and its type, unless it is
  disabled: then its pinned data is not looked at.
\<close>

theorem pinned_node_not_run:
  assumes "pinData (resultData re) = Some pins" and "obj_get pins (node_name (exec_node item)) = Some p"
    and "\<not> is_disabled (exec_node item)"
  shows "ts_clock (snd (run_tries env w item ri re clock)) = clock"
proof -
  let ?ts = "\<lparr>ts_exec = re, ts_clock = clock, ts_slept = 0, ts_data = Null, ts_hints = [], ts_error = None\<rparr>"
  obtain skip ts' where r: "run_tries env w item ri re clock = (skip, ts')"
    by (cases "run_tries env w item ri re clock")
  have "pinned_data (ts_exec ?ts) (exec_node item) = Some p" using assms by (simp add: pinned_data_def)
  from try_loop_pinned[OF this r[unfolded run_tries_def]] r show ?thesis by simp
qed

definition pinned_exec :: IRunExecutionData where
  "pinned_exec = sample_exec\<lparr>resultData := (resultData sample_exec)\<lparr>pinData := Some [(''A'', [item_of ''pin''])]\<rparr>\<rparr>"

theorem pinned_node_not_run_witness:
  "ts_clock (snd (run_tries (sample_env (\<lambda>_. Inr Null)) sample_workflow (retry_item (mk_node ''A'' ''set''))
      0 pinned_exec 7)) = 7"
  by (rule pinned_node_not_run[of _ "[(''A'', [item_of ''pin''])]" _ "[item_of ''pin'']"])
     (simp_all add: pinned_exec_def retry_item_def mk_node_def is_disabled_def)

text \<open>
  A disabled node passes the data of its first input on and leaves the execution
  data as it is; an enabled node of a type with an execute method whose input items are
  none is not run either, and its data is undefined.
\<close>

theorem runNode_not_executed:
  "(is_disabled (exec_node item) \<longrightarrow>
      runNode env w clock item ri re = no_effect re (Inr (case main_of (exec_data item) of
        Some (Val its # _) \<Rightarrow> Val [Val its] | Some (Undefined # _) \<Rightarrow> Val [Undefined] | _ \<Rightarrow> Undefined))) \<and>
   (\<not> is_disabled (exec_node item) \<and>
    env_types env (node_type (exec_node item)) (typeVersion (exec_node item)) = Some nt \<and> has_execute nt \<and>
    connectionInputData w (exec_data item) = Inr [] \<longrightarrow>
      runNode env w clock item ri re = no_effect re (Inr Undefined))"
  by (auto simp: runNode_def runDisabled_def Let_def split: option.splits list.splits slot.splits)

theorem runNode_not_executed_witness:
  "runNode (sample_env (\<lambda>_. Inr Null)) sample_workflow 0
     (retry_item ((mk_node ''A'' ''set'')\<lparr>disabled := Some True\<rparr>)) 0 sample_exec =
   no_effect sample_exec (Inr (Val [Val [item_of ''in'']]))"
proof -
  let ?i = "retry_item ((mk_node ''A'' ''set'')\<lparr>disabled := Some True\<rparr>)"
  have "is_disabled (exec_node ?i)" and "main_of (exec_data ?i) = Some [Val [item_of ''in'']]"
    by (simp_all add: retry_item_def is_disabled_def main_of_def)
  with runNode_not_executed[of ?i "sample_env (\<lambda>_. Inr Null)" sample_workflow 0 0 sample_exec undefined]
  show ?thesis by simp
qed

section \<open>Failed items\<close>

lemma split_items_spec:
  "split_items env source its ok errs = Inr (ok', errs') \<Longrightarrow>
     ok' = ok @ filter (\<lambda>it. error_data it = None) its \<and>
     length errs' = length errs + length (filter (\<lambda>it. error_data it \<noteq> None) its) \<and>
     (source = None \<longrightarrow> errs' = errs @ map (\<lambda>it. snd (the (error_data it))) (filter (\<lambda>it. error_data it \<noteq> None) its))"
proof (induction its arbitrary: ok errs)
  case Nil
  then show ?case by simp
next
  case (Cons it its)
  show ?case
  proof (cases "error_data it")
    case None
    with Cons.prems have "split_items env source its (ok @ [it]) errs = Inr (ok', errs')" by simp
    from Cons.IH[OF this] None show ?thesis by simp
  next
    case (Some d)
    obtain e it' where d: "d = (e, it')" by (cases d)
    with Some Cons.prems have "res_bind (error_item env source it')
        (\<lambda>x. split_items env source its ok (errs @ [x])) = Inr (ok', errs')" by simp
    then obtain x where x: "error_item env source it' = Inr x"
      and rest: "split_items env source its ok (errs @ [x]) = Inr (ok', errs')" by (rule res_bindE)
    have "x = it'" if "source = None" using x that by (simp add: error_item_def)
    with Cons.IH[OF rest] Some d show ?thesis by auto
  qed
qed

lemma split_outputs_length:
  "split_outputs env source i n outs errs = Inr (outs', errs') \<Longrightarrow> i + n \<le> length outs \<Longrightarrow>
     length outs' = length outs"
proof (induction n arbitrary: i outs errs)
  case 0
  then show ?case by simp
next
  case (Suc n)
  from Suc.prems(1) have "res_bind (split_items env source (rev (output_items outs i)) [] errs)
      (\<lambda>(ok, errs). split_outputs env source (Suc i) n (arr_set outs i (Val ok)) errs) = Inr (outs', errs')"
    by simp
  then obtain p where "split_items env source (rev (output_items outs i)) [] errs = Inr p"
    and "(case p of (ok, errs) \<Rightarrow> split_outputs env source (Suc i) n (arr_set outs i (Val ok)) errs) = Inr (outs', errs')"
    by (rule res_bindE)
  then obtain ok errs1 where "split_outputs env source (Suc i) n (arr_set outs i (Val ok)) errs1 = Inr (outs', errs')"
    by (cases p) auto
  from Suc.IH[OF this] Suc.prems(2) show ?case by (simp add: length_arr_set)
qed

text \<open>
  With one regular output and the error output, every item goes to exactly one of
  them: the items without error data to the first, in reverse of the order in which the node
  returned them, and one item for each of the others to the error output.
\<close>

theorem route_errors_partition:
  assumes "env_types env (node_type (exec_node item)) (typeVersion (exec_node item)) = Some nt"
    and "getConnectionTypes (getNodeOutputs (env_outputs env) (exec_node item) (description nt)) = [MainConn, MainConn]"
    and "route_errors env item [Val its] = Inr outs"
  shows "\<exists>errs. outs = [Val (rev (filter (\<lambda>it. error_data it = None) its)), Val errs] \<and>
    length errs + length (filter (\<lambda>it. error_data it = None) its) = length its \<and>
    (exec_source item = None \<longrightarrow>
       errs = rev (map (\<lambda>it. snd (the (error_data it))) (filter (\<lambda>it. error_data it \<noteq> None) its)))"
proof -
  have "res_bind (split_items env (exec_source item) (rev its) [] []) (\<lambda>(ok, errs).
      Inr (arr_set (arr_set [Val its] 0 (Val ok)) 1 (Val errs))) = Inr outs"
    using assms by (auto simp: route_errors_def output_items_def arr_get_def Let_def numeral_2_eq_2
        res_bind_def split: sum.splits prod.splits)
  then obtain p where p: "split_items env (exec_source item) (rev its) [] [] = Inr p"
    and o: "(case p of (ok, errs) \<Rightarrow> Inr (arr_set (arr_set [Val its] 0 (Val ok)) 1 (Val errs))) = (Inr outs :: ExecutionError + outputs)"
    by (rule res_bindE)
  obtain ok errs where pe: "p = (ok, errs)" by (cases p)
  note S = split_items_spec[OF p[unfolded pe]]
  have "outs = [Val ok, Val errs]" using o by (simp add: pe arr_set_def)
  moreover have "length errs + length (filter (\<lambda>it. error_data it = None) its) = length its"
    using S sum_length_filter_compl[of "\<lambda>it. error_data it = None" its]
    by (simp add: rev_filter[symmetric])
  ultimately show ?thesis using S by (simp add: rev_filter[symmetric] rev_map)
qed

definition error_output_node :: INode where
  "error_output_node = (mk_node ''A'' ''set'')\<lparr>onError := Some ContinueErrorOutput\<rparr>"

theorem route_errors_partition_witness:
  "route_errors (sample_env (\<lambda>_. Inr Null)) (retry_item error_output_node)
     [Val [item_of ''a'', failed_item, item_of ''b'']] =
   Inr [Val [item_of ''b'', item_of ''a''], Val [failed_item]]"
proof -
  let ?env = "sample_env (\<lambda>_. Inr Null)" and ?i = "retry_item error_output_node"
  let ?its = "[item_of ''a'', failed_item, item_of ''b'']"
  have e: "route_errors ?env ?i [Val ?its] = Inr [Val [item_of ''b'', item_of ''a''], Val [failed_item]]"
    by code_simp
  have t: "env_types ?env (node_type (exec_node ?i)) (typeVersion (exec_node ?i)) = Some (node_type_of ''set'' True False)"
    by (simp add: sample_env_def sample_types_def retry_item_def error_output_node_def mk_node_def)
  have c: "getConnectionTypes (getNodeOutputs (env_outputs ?env) (exec_node ?i)
      (description (node_type_of ''set'' True False))) = [MainConn, MainConn]" by code_simp
  from route_errors_partition[OF t c e] e show ?thesis by blast
qed

end
