(* ===== verification/WaitingInvariant.thy ===== *)
theory WaitingInvariant
  imports WaitingExecution Samples
begin

text \<open>
  The operations of WaitingExecution preserve the invariant of the waiting entries, and
  what one call of \<open>addNodeToBeExecuted\<close> does to the store of waiting inputs and to the
  execution stack, stated on the abstract store \<open>waiting_main\<close>.
\<close>

section \<open>Collecting and removing a waiting run\<close>

lemma waiting_inv_butD:
  assumes "waiting_inv_but w n0 idx0 ed" and "waiting_main (waitingExecution ed) n idx = Some m"
  obtains inputs where "mainInputs w n = Inr inputs" and "1 < length inputs"
    and "length m = length inputs" and "Null \<in> set m \<or> n = n0 \<and> idx = idx0"
  using assms unfolding waiting_inv_but_def by (elim conjE allE impE exE) blast+

lemma addWaitingData_eq:
  assumes "addWaitingData w c oi p out ri ed = Inr (idx, was, ed')"
  obtains ed1 we ws where "openWaitingEntry w c ed = Inr (idx, was, ed1)"
    and "waiting_update (conn_node c) idx (\<lambda>m. arr_set m (conn_index c) (success_slot out oi))
           (waitingExecution ed1) = Inr we"
    and "waiting_update (conn_node c) idx
           (\<lambda>m. arr_set m (conn_index c) (if out = None then Null else Val (mk_source p oi ri)))
           (source_of ed1) = Inr ws"
    and "ed' = ed1\<lparr>waitingExecution := we, waitingExecutionSource := Some ws\<rparr>"
proof -
  from assms obtain x where x: "openWaitingEntry w c ed = Inr x"
    and 1: "(case x of (idx', was', ed1) \<Rightarrow>
       res_bind (waiting_update (conn_node c) idx' (\<lambda>m. arr_set m (conn_index c) (success_slot out oi))
         (waitingExecution ed1)) (\<lambda>we.
       res_bind (waiting_update (conn_node c) idx'
         (\<lambda>m. arr_set m (conn_index c) (if out = None then Null else Val (mk_source p oi ri)))
         (source_of ed1)) (\<lambda>ws.
       Inr (idx', was', ed1\<lparr>waitingExecution := we, waitingExecutionSource := Some ws\<rparr>)))) = Inr (idx, was, ed')"
    unfolding addWaitingData_def by (rule res_bindE)
  obtain idx' was' ed1 where tx: "x = (idx', was', ed1)" by (cases x)
  from 1 obtain we where we: "waiting_update (conn_node c) idx'
        (\<lambda>m. arr_set m (conn_index c) (success_slot out oi)) (waitingExecution ed1) = Inr we"
    and 2: "res_bind (waiting_update (conn_node c) idx'
         (\<lambda>m. arr_set m (conn_index c) (if out = None then Null else Val (mk_source p oi ri)))
         (source_of ed1)) (\<lambda>ws.
       Inr (idx', was', ed1\<lparr>waitingExecution := we, waitingExecutionSource := Some ws\<rparr>)) = Inr (idx, was, ed')"
    unfolding tx prod.case by (rule res_bindE)
  from 2 obtain ws where ws: "waiting_update (conn_node c) idx'
         (\<lambda>m. arr_set m (conn_index c) (if out = None then Null else Val (mk_source p oi ri)))
         (source_of ed1) = Inr ws"
    and 3: "(Inr (idx', was', ed1\<lparr>waitingExecution := we, waitingExecutionSource := Some ws\<rparr>)
        :: js_error + _) = Inr (idx, was, ed')"
    by (rule res_bindE)
  from 3 have "idx' = idx" "was' = was" "ed' = ed1\<lparr>waitingExecution := we, waitingExecutionSource := Some ws\<rparr>"
    by (simp_all only: sum.inject prod.inject)
  with x tx we ws show ?thesis using that by simp
qed

lemma addWaitingData_inv:
  assumes "addWaitingData w c oi p out ri ed = Inr (idx, was, ed')" and "waiting_inv w ed"
    and "mainInputs w (conn_node c) = Inr inputs" and "conn_index c < length inputs" and "1 < length inputs"
  shows "waiting_inv_but w (conn_node c) idx ed'" (is ?A)
    and "nodeExecutionStack ed' = nodeExecutionStack ed" (is ?B)
    and "was = (obj_get (waitingExecution ed) (conn_node c) \<noteq> None)" (is ?C)
    and "\<exists>m. waiting_main (waitingExecution ed') (conn_node c) idx = Some m \<and>
           arr_get m (conn_index c) = success_slot out oi" (is ?D)
proof -
  from addWaitingData_eq[OF assms(1)] obtain ed1 we ws where
    op: "openWaitingEntry w c ed = Inr (idx, was, ed1)"
    and we: "waiting_update (conn_node c) idx (\<lambda>m. arr_set m (conn_index c) (success_slot out oi))
           (waitingExecution ed1) = Inr we"
    and ws: "waiting_update (conn_node c) idx
           (\<lambda>m. arr_set m (conn_index c) (if out = None then Null else Val (mk_source p oi ri)))
           (source_of ed1) = Inr ws"
    and ed': "ed' = ed1\<lparr>waitingExecution := we, waitingExecutionSource := Some ws\<rparr>" .
  note O = openWaitingEntry_inv[OF op assms(2,3,5)]
  have t: "tidy (waitingExecution ed1)" "tidy (source_of ed1)"
    using O(1) by (simp_all only: waiting_inv_def)
  from waiting_updateD[OF we t(1)] obtain m where m: "waiting_main (waitingExecution ed1) (conn_node c) idx = Some m"
    "tidy we" "waiting_main we = (\<lambda>n' idx'. if n' = conn_node c \<and> idx' = idx
       then Some (arr_set m (conn_index c) (success_slot out oi))
       else waiting_main (waitingExecution ed1) n' idx')" .
  from waiting_updateD[OF ws t(2)] obtain sm where sm: "waiting_main (source_of ed1) (conn_node c) idx = Some sm"
    "tidy ws" "waiting_main ws = (\<lambda>n' idx'. if n' = conn_node c \<and> idx' = idx
       then Some (arr_set sm (conn_index c) (if out = None then Null else Val (mk_source p oi ri)))
       else waiting_main (source_of ed1) n' idx')" .
  have len: "length m = length inputs"
    using O(1) m(1) assms(3) unfolding waiting_inv_def by (elim conjE allE impE exE) auto
  have F: "waitingExecution ed' = we" "source_of ed' = ws" by (simp_all add: ed' source_of_def)
  have dom: "(waiting_main (waitingExecution ed1) n i = None) = (waiting_main (source_of ed1) n i = None)" for n i
    using O(1) by (simp only: waiting_inv_def)
  have old: "\<exists>inputs. mainInputs w n = Inr inputs \<and> 1 < length inputs \<and> length m' = length inputs \<and> Null \<in> set m'"
    if "waiting_main (waitingExecution ed1) n i = Some m'" for n i m'
    using O(1) that by (simp only: waiting_inv_def)
  show ?A
    unfolding waiting_inv_but_def F
  proof (intro conjI allI impI)
    show "tidy we" by (rule m(2))
    show "tidy ws" by (rule sm(2))
    show "(waiting_main we n i = None) = (waiting_main ws n i = None)" for n i
      unfolding m(3) sm(3) using dom by simp
    show "\<exists>inputs. mainInputs w n = Inr inputs \<and> 1 < length inputs \<and> length m' = length inputs \<and>
        (Null \<in> set m' \<or> n = conn_node c \<and> i = idx)"
      if "waiting_main we n i = Some m'" for n i m'
    proof (cases "n = conn_node c \<and> i = idx")
      case True
      then show ?thesis using that assms(3-5) len
        by (auto simp: m(3) length_arr_set)
    next
      case False
      then show ?thesis using that old[of n i m'] unfolding m(3) by auto
    qed
  qed
  show ?B using O(2) by (simp add: ed')
  show ?C by (rule O(4))
  show ?D unfolding F m(3) by simp
qed

lemma removeWaiting_eq:
  assumes "removeWaiting n idx ed = Inr ed'"
  obtains runs sources where "obj_get (waitingExecution ed) n = Some runs"
    and "obj_get (source_of ed) n = Some sources"
    and "ed' = (if obj_del idx runs = []
       then ed\<lparr>waitingExecution := obj_del n (waitingExecution ed),
               waitingExecutionSource := Some (obj_del n (source_of ed))\<rparr>
       else ed\<lparr>waitingExecution := str_put n (obj_del idx runs) (waitingExecution ed),
               waitingExecutionSource := Some (str_put n (obj_del idx sources) (source_of ed))\<rparr>)"
proof (cases "obj_get (waitingExecution ed) n")
  case None
  then show thesis using assms by (simp add: removeWaiting_def)
next
  case r: (Some runs)
  show thesis
  proof (cases "obj_get (source_of ed) n")
    case None
    then show thesis using assms r by (simp add: removeWaiting_def)
  next
    case (Some sources)
    with r assms show thesis
      by (intro that[of runs sources]) (auto simp: removeWaiting_def split: if_splits)
  qed
qed

lemma obj_nonempty_get: "ob \<noteq> [] \<Longrightarrow> \<exists>k v. obj_get ob k = Some v"
  by (cases ob) auto

lemma tidy_del: "tidy ob \<Longrightarrow> tidy (obj_del n ob)"
  unfolding tidy_def by simp

lemma tidy_put:
  "tidy ob \<Longrightarrow> runs \<noteq> [] \<Longrightarrow> obj_wf nat_before runs \<Longrightarrow> (\<And>i e. obj_get runs i = Some e \<Longrightarrow> obj_get e MainConn \<noteq> None)
     \<Longrightarrow> tidy (str_put n runs ob)"
  unfolding tidy_def by simp

lemma waiting_main_None_run:
  "tidy ob \<Longrightarrow> obj_get ob n = Some runs \<Longrightarrow> (waiting_main ob n i = None) = (obj_get runs i = None)"
  using tidy_waiting_main tidy_imp_except by blast

lemma removeWaiting_inv:
  assumes "removeWaiting n idx ed = Inr ed'" and "waiting_inv_but w n idx ed"
  shows "waiting_inv w ed'" (is ?A)
    and "nodeExecutionStack ed' = nodeExecutionStack ed" (is ?B)
    and "waiting_main (waitingExecution ed') =
      (\<lambda>n' idx'. if n' = n \<and> idx' = idx then None else waiting_main (waitingExecution ed) n' idx')" (is ?C)
proof -
  from removeWaiting_eq[OF assms(1)] obtain runs sources where
    r: "obj_get (waitingExecution ed) n = Some runs" and s: "obj_get (source_of ed) n = Some sources"
    and e: "ed' = (if obj_del idx runs = []
       then ed\<lparr>waitingExecution := obj_del n (waitingExecution ed),
               waitingExecutionSource := Some (obj_del n (source_of ed))\<rparr>
       else ed\<lparr>waitingExecution := str_put n (obj_del idx runs) (waitingExecution ed),
               waitingExecutionSource := Some (str_put n (obj_del idx sources) (source_of ed))\<rparr>)" .
  have t: "tidy (waitingExecution ed)" "tidy (source_of ed)"
    using assms(2) by (simp_all only: waiting_inv_but_def)
  have dom: "(waiting_main (waitingExecution ed) n i = None) = (waiting_main (source_of ed) n i = None)" for n i
    using assms(2) by (simp only: waiting_inv_but_def)
  have rs: "(obj_get runs i = None) = (obj_get sources i = None)" for i
    using dom[of n i] waiting_main_None_run[OF t(1) r] waiting_main_None_run[OF t(2) s] by simp
  have ow: "obj_wf nat_before (obj_del idx runs)" "obj_wf nat_before (obj_del idx sources)"
    using t r s unfolding tidy_def by (blast intro: nobj.wf_del)+
  have main: "obj_get e MainConn \<noteq> None" if "obj_get runs i = Some e" for i e
    using t(1) r that unfolding tidy_def by blast
  have smain: "obj_get e MainConn \<noteq> None" if "obj_get sources i = Some e" for i e
    using t(2) s that unfolding tidy_def by blast
  have all: "tidy (waitingExecution ed') \<and> tidy (source_of ed') \<and>
     waiting_main (waitingExecution ed') =
      (\<lambda>n' idx'. if n' = n \<and> idx' = idx then None else waiting_main (waitingExecution ed) n' idx') \<and>
     waiting_main (source_of ed') =
      (\<lambda>n' idx'. if n' = n \<and> idx' = idx then None else waiting_main (source_of ed) n' idx')"
  proof (cases "obj_del idx runs = []")
    case True
    have noruns: "obj_get runs i = None" if "i \<noteq> idx" for i
    proof -
      have "obj_get (obj_del idx runs) i = None" unfolding True by simp
      then show ?thesis using that by simp
    qed
    have F: "waitingExecution ed' = obj_del n (waitingExecution ed)" "source_of ed' = obj_del n (source_of ed)"
      by (simp_all add: e True source_of_def[of "_\<lparr>waitingExecutionSource := _\<rparr>"])
    show ?thesis unfolding F
    proof (intro conjI ext)
      show "tidy (obj_del n (waitingExecution ed))" "tidy (obj_del n (source_of ed))"
        using t by (simp_all add: tidy_del)
      show "waiting_main (obj_del n (waitingExecution ed)) n' i =
          (if n' = n \<and> i = idx then None else waiting_main (waitingExecution ed) n' i)" for n' i
        using noruns[of i] r by (simp add: waiting_main_def)
      show "waiting_main (obj_del n (source_of ed)) n' i =
          (if n' = n \<and> i = idx then None else waiting_main (source_of ed) n' i)" for n' i
        using noruns[of i] rs[of i] s by (simp add: waiting_main_def)
    qed
  next
    case False
    then obtain k where k: "k \<noteq> idx" "obj_get runs k \<noteq> None"
      using obj_nonempty_get[of "obj_del idx runs"] by (auto split: if_splits)
    have "obj_del idx sources \<noteq> []"
    proof
      assume "obj_del idx sources = []"
      then have "obj_get (obj_del idx sources) k = None" by simp
      then show False using k rs by simp
    qed
    have F: "waitingExecution ed' = str_put n (obj_del idx runs) (waitingExecution ed)"
      "source_of ed' = str_put n (obj_del idx sources) (source_of ed)"
      by (simp_all add: e False source_of_def[of "_\<lparr>waitingExecutionSource := _\<rparr>"])
    show ?thesis unfolding F
    proof (intro conjI ext)
      show "tidy (str_put n (obj_del idx runs) (waitingExecution ed))"
        using t(1) False main ow by (intro tidy_put) (simp_all split: if_splits)
      show "tidy (str_put n (obj_del idx sources) (source_of ed))"
        using t(2) \<open>obj_del idx sources \<noteq> []\<close> smain ow by (intro tidy_put) (simp_all split: if_splits)
      show "waiting_main (str_put n (obj_del idx runs) (waitingExecution ed)) n' i =
          (if n' = n \<and> i = idx then None else waiting_main (waitingExecution ed) n' i)" for n' i
        using r by (simp add: waiting_main_def)
      show "waiting_main (str_put n (obj_del idx sources) (source_of ed)) n' i =
          (if n' = n \<and> i = idx then None else waiting_main (source_of ed) n' i)" for n' i
        using s by (simp add: waiting_main_def)
    qed
  qed
  then have W: "waiting_main (waitingExecution ed') =
      (\<lambda>n' idx'. if n' = n \<and> idx' = idx then None else waiting_main (waitingExecution ed) n' idx')"
    and S: "waiting_main (source_of ed') =
      (\<lambda>n' idx'. if n' = n \<and> idx' = idx then None else waiting_main (source_of ed) n' idx')" by blast+
  show ?A unfolding waiting_inv_def
  proof (intro conjI allI impI)
    show "tidy (waitingExecution ed')" "tidy (source_of ed')" using all by blast+
    show "(waiting_main (waitingExecution ed') n' i = None) = (waiting_main (source_of ed') n' i = None)" for n' i
      unfolding W S using dom by simp
    show "\<exists>inputs. mainInputs w n' = Inr inputs \<and> 1 < length inputs \<and> length m = length inputs \<and> Null \<in> set m"
      if "waiting_main (waitingExecution ed') n' i = Some m" for n' i m
    proof -
      from that have "waiting_main (waitingExecution ed) n' i = Some m" and "\<not> (n' = n \<and> i = idx)"
        unfolding W by (simp_all split: if_splits)
      with assms(2) show ?thesis by (auto elim: waiting_inv_butD)
    qed
  qed
  show ?B by (simp add: e)
  show ?C by (rule W)
qed

section \<open>Starting a complete run\<close>

text \<open>Where an item goes on the stack: v1 in front, the older order behind.\<close>

definition pushed :: "Workflow \<Rightarrow> IExecuteData \<Rightarrow> ExecutionData \<Rightarrow> ExecutionData \<Rightarrow> bool" where
  "pushed w item ed ed' \<longleftrightarrow> nodeExecutionStack ed' =
     (if executionOrder w = Some OrderV1 then item # nodeExecutionStack ed else nodeExecutionStack ed @ [item])"

lemma stack_item_Inr:
  assumes "stack_item w n data source = Inr item"
  shows "exec_data item = data" and "exec_source item = source" and "obj_get (nodes w) n = Some (exec_node item)"
  using assms by (auto simp: stack_item_def split: option.splits)

lemma enqueueWaiting_eq:
  assumes "enqueueWaiting w n idx ed = Inr ed'"
  obtains runs e item where "obj_get (waitingExecution ed) n = Some runs" and "obj_get runs idx = Some e"
    and "exec_data item = e" and "obj_get (nodes w) n = Some (exec_node item)"
    and "removeWaiting n idx (enqueue w item ed) = Inr ed'"
proof (cases "obj_get (waitingExecution ed) n")
  case None
  then show thesis using assms by (simp add: enqueueWaiting_def)
next
  case r: (Some runs)
  show thesis
  proof (cases "obj_get (source_of ed) n")
    case None
    then show thesis using assms r by (simp add: enqueueWaiting_def)
  next
    case s: (Some sources)
    show thesis
    proof (cases "obj_get runs idx")
      case None
      then show thesis using assms r s by (simp add: enqueueWaiting_def)
    next
      case e: (Some e)
      have "res_bind (stack_item w n e (obj_get sources idx)) (\<lambda>item.
          removeWaiting n idx (enqueue w item ed)) = Inr ed'"
        using assms r s e by (simp add: enqueueWaiting_def)
      then obtain item where "stack_item w n e (obj_get sources idx) = Inr item"
        "removeWaiting n idx (enqueue w item ed) = Inr ed'" by (rule res_bindE)
      then show thesis using that[OF r e] stack_item_Inr by blast
    qed
  qed
qed

lemma enqueueWaiting_inv:
  assumes "enqueueWaiting w n idx ed = Inr ed'" and "waiting_inv_but w n idx ed"
    and m: "waiting_main (waitingExecution ed) n idx = Some m"
  shows "waiting_inv w ed'" (is ?A)
    and "\<exists>item. pushed w item ed ed' \<and> obj_get (exec_data item) MainConn = Some m \<and>
           obj_get (nodes w) n = Some (exec_node item)" (is ?B)
    and "waiting_main (waitingExecution ed') =
      (\<lambda>n' idx'. if n' = n \<and> idx' = idx then None else waiting_main (waitingExecution ed) n' idx')" (is ?C)
proof -
  from enqueueWaiting_eq[OF assms(1)] obtain runs e item where
    r: "obj_get (waitingExecution ed) n = Some runs" "obj_get runs idx = Some e"
    and i: "exec_data item = e" "obj_get (nodes w) n = Some (exec_node item)"
    and rem: "removeWaiting n idx (enqueue w item ed) = Inr ed'" .
  have but: "waiting_inv_but w n idx (enqueue w item ed)" using assms(2) by simp
  note R = removeWaiting_inv[OF rem but]
  show ?A by (rule R(1))
  have "pushed w item ed ed'" unfolding pushed_def R(2) by (rule enqueue_stack)
  moreover have "obj_get (exec_data item) MainConn = Some m"
    using m r i by (simp add: waiting_main_def)
  ultimately show ?B using i(2) by blast
  show ?C using R(3) unfolding enqueue_frame .
qed

section \<open>Waiting on\<close>

text \<open>Forcing the other inputs only adds to the stack.\<close>

definition stack_grows :: "ExecutionData \<Rightarrow> ExecutionData \<Rightarrow> bool" where
  "stack_grows ed ed' \<longleftrightarrow>
     waitingExecution ed' = waitingExecution ed \<and> source_of ed' = source_of ed \<and>
     set (nodeExecutionStack ed) \<subseteq> set (nodeExecutionStack ed')"

lemma stack_grows_refl [intro]: "stack_grows ed ed"
  by (simp add: stack_grows_def)

lemma stack_grows_trans: "stack_grows a b \<Longrightarrow> stack_grows b c \<Longrightarrow> stack_grows a c"
  by (auto simp: stack_grows_def)

lemma stack_grows_enqueue [intro]: "stack_grows ed (enqueue w item ed)"
  by (auto simp: stack_grows_def enqueue_stack)

lemma addSiblingInput_grows:
  assumes "addSiblingInput w oi p out ri rd chk c ed = Inr ed'"
  shows "stack_grows ed ed'"
  using assms unfolding addSiblingInput_def Let_def
  by (auto simp: res_bind_Inr split: if_splits option.splits slot.splits)

lemma addSiblingInputs_grows:
  assumes "addSiblingInputs w c oi p out ri rd ed = Inr ed'"
  shows "stack_grows ed ed'"
proof -
  from assms obtain chk where "res_bind (mainInputs w (conn_node c)) (\<lambda>inputs.
       res_fold (addSiblingInput w oi p out ri rd chk) (concat inputs) ed) = Inr ed'"
    unfolding addSiblingInputs_def by (rule res_bindE)
  then obtain inputs where
    f: "res_fold (addSiblingInput w oi p out ri rd chk) (concat inputs) ed = Inr ed'"
    by (rule res_bindE)
  show ?thesis
  proof (rule res_fold_invariant[where I = "stack_grows ed", OF _ _ f])
    show "stack_grows ed ed" by blast
    show "stack_grows ed b" if "stack_grows ed a" "addSiblingInput w oi p out ri rd chk x a = Inr b" for x a b
      using stack_grows_trans[OF that(1) addSiblingInput_grows[OF that(2)]] .
  qed
qed

lemma waiting_inv_but_cong:
  "waitingExecution ed' = waitingExecution ed \<Longrightarrow> source_of ed' = source_of ed \<Longrightarrow>
     waiting_inv_but w n i ed' = waiting_inv_but w n i ed"
  by (simp add: waiting_inv_but_def)

lemma arr_set_again: "i < length m \<Longrightarrow> arr_get m i = v \<Longrightarrow> arr_set m i v = m"
  by (auto simp: arr_set_def arr_get_def)

text \<open>Writing the entry again leaves the collected inputs as they are.\<close>

lemma keepWaiting_eq:
  assumes "keepWaiting w c oi p out ri idx ed = Inr ed'"
  obtains inputs ed1 we ws arr where "mainInputs w (conn_node c) = Inr inputs"
    and "prepareWaitingToExecution (conn_node c) (length inputs) idx ed = Inr ed1"
    and "arr = arr_set (case waiting_main (waitingExecution ed) (conn_node c) idx of
             None \<Rightarrow> replicate (Suc (conn_index c)) Null | Some m \<Rightarrow> m) (conn_index c) (success_slot out oi)"
    and "waiting_update (conn_node c) idx (\<lambda>_. arr) (waitingExecution ed1) = Inr we"
    and "waiting_update (conn_node c) idx
           (\<lambda>m. arr_set m (conn_index c) (Val (mk_source p oi ri))) (source_of ed1) = Inr ws"
    and "ed' = ed1\<lparr>waitingExecution := we, waitingExecutionSource := Some ws\<rparr>"
proof -
  let ?arr = "arr_set (case waiting_main (waitingExecution ed) (conn_node c) idx of
             None \<Rightarrow> replicate (Suc (conn_index c)) Null | Some m \<Rightarrow> m) (conn_index c) (success_slot out oi)"
  from assms obtain inputs where 1: "mainInputs w (conn_node c) = Inr inputs"
    and "res_bind (prepareWaitingToExecution (conn_node c) (length inputs) idx ed) (\<lambda>ed1.
         res_bind (waiting_update (conn_node c) idx (\<lambda>_. ?arr) (waitingExecution ed1)) (\<lambda>we.
         res_bind (waiting_update (conn_node c) idx
           (\<lambda>m. arr_set m (conn_index c) (Val (mk_source p oi ri))) (source_of ed1)) (\<lambda>ws.
         Inr (ed1\<lparr>waitingExecution := we, waitingExecutionSource := Some ws\<rparr>)))) = Inr ed'"
    unfolding keepWaiting_def Let_def by (rule res_bindE)
  from this(2) obtain ed1 where 2: "prepareWaitingToExecution (conn_node c) (length inputs) idx ed = Inr ed1"
    and "res_bind (waiting_update (conn_node c) idx (\<lambda>_. ?arr) (waitingExecution ed1)) (\<lambda>we.
         res_bind (waiting_update (conn_node c) idx
           (\<lambda>m. arr_set m (conn_index c) (Val (mk_source p oi ri))) (source_of ed1)) (\<lambda>ws.
         Inr (ed1\<lparr>waitingExecution := we, waitingExecutionSource := Some ws\<rparr>))) = Inr ed'"
    by (rule res_bindE)
  from this(2) obtain we where 3: "waiting_update (conn_node c) idx (\<lambda>_. ?arr) (waitingExecution ed1) = Inr we"
    and "res_bind (waiting_update (conn_node c) idx
           (\<lambda>m. arr_set m (conn_index c) (Val (mk_source p oi ri))) (source_of ed1)) (\<lambda>ws.
         Inr (ed1\<lparr>waitingExecution := we, waitingExecutionSource := Some ws\<rparr>)) = Inr ed'"
    by (rule res_bindE)
  from this(2) obtain ws where 4: "waiting_update (conn_node c) idx
           (\<lambda>m. arr_set m (conn_index c) (Val (mk_source p oi ri))) (source_of ed1) = Inr ws"
    and 5: "(Inr (ed1\<lparr>waitingExecution := we, waitingExecutionSource := Some ws\<rparr>) :: js_error + _) = Inr ed'"
    by (rule res_bindE)
  from 5 have "ed' = ed1\<lparr>waitingExecution := we, waitingExecutionSource := Some ws\<rparr>" by simp
  with 1 2 3 4 show thesis using that[OF _ _ refl] by blast
qed

lemma keepWaiting_inv:
  assumes "keepWaiting w c oi p out ri idx ed = Inr ed'" and "waiting_inv_but w (conn_node c) idx ed"
    and m: "waiting_main (waitingExecution ed) (conn_node c) idx = Some m"
    and "arr_get m (conn_index c) = success_slot out oi" and "Null \<in> set m"
    and inputs: "mainInputs w (conn_node c) = Inr inputs" and i: "conn_index c < length inputs"
  shows "waiting_inv w ed'" (is ?A)
    and "waiting_main (waitingExecution ed') = waiting_main (waitingExecution ed)" (is ?B)
    and "nodeExecutionStack ed' = nodeExecutionStack ed" (is ?C)
    and "waiting_main (source_of ed') (conn_node c) idx =
           Some (arr_set (replicate (length inputs) Null) (conn_index c) (Val (mk_source p oi ri)))" (is ?D)
proof -
  from keepWaiting_eq[OF assms(1)] obtain inputs' ed1 we ws arr where
    inputs': "mainInputs w (conn_node c) = Inr inputs'"
    and prep': "prepareWaitingToExecution (conn_node c) (length inputs') idx ed = Inr ed1"
    and arr: "arr = arr_set (case waiting_main (waitingExecution ed) (conn_node c) idx of
             None \<Rightarrow> replicate (Suc (conn_index c)) Null | Some m \<Rightarrow> m) (conn_index c) (success_slot out oi)"
    and we: "waiting_update (conn_node c) idx (\<lambda>_. arr) (waitingExecution ed1) = Inr we"
    and ws: "waiting_update (conn_node c) idx
           (\<lambda>m. arr_set m (conn_index c) (Val (mk_source p oi ri))) (source_of ed1) = Inr ws"
    and ed': "ed' = ed1\<lparr>waitingExecution := we, waitingExecutionSource := Some ws\<rparr>" .
  have prep: "prepareWaitingToExecution (conn_node c) (length inputs) idx ed = Inr ed1"
    using prep' inputs' inputs by simp
  have t: "tidy (waitingExecution ed)" "tidy (source_of ed)"
    using assms(2) by (simp_all only: waiting_inv_but_def)
  note P = prepareD[OF prep tidy_imp_except[OF t(1)] tidy_imp_except[OF t(2)]]
  have len: "length m = length inputs"
    using waiting_inv_butD[OF assms(2) m] inputs by (metis sum.inject(2))
  have arr_m: "arr = m"
    unfolding arr m option.case using assms(4) i len by (intro arr_set_again) simp_all
  from waiting_updateD[OF we P(1)] have we': "tidy we" "waiting_main we =
      (\<lambda>n' idx'. if n' = conn_node c \<and> idx' = idx then Some m else waiting_main (waitingExecution ed1) n' idx')"
    unfolding arr_m by blast+
  from waiting_updateD[OF ws P(2)] obtain sm where
    sm: "waiting_main (source_of ed1) (conn_node c) idx = Some sm" and ws': "tidy ws" "waiting_main ws =
      (\<lambda>n' idx'. if n' = conn_node c \<and> idx' = idx then Some (arr_set sm (conn_index c) (Val (mk_source p oi ri)))
         else waiting_main (source_of ed1) n' idx')" by blast
  have F: "waitingExecution ed' = we" "source_of ed' = ws" by (simp_all add: ed' source_of_def)
  have W: "waiting_main we = waiting_main (waitingExecution ed)"
    using m by (auto simp: we'(2) P(3) fun_eq_iff)
  have S: "(waiting_main ws n i = None) = (waiting_main (source_of ed) n i = None)" for n i
  proof -
    have "(waiting_main (waitingExecution ed) (conn_node c) idx = None) =
        (waiting_main (source_of ed) (conn_node c) idx = None)"
      using assms(2) by (simp only: waiting_inv_but_def)
    then show ?thesis using m by (simp add: ws'(2) P(4))
  qed
  show ?A unfolding waiting_inv_def F W S
  proof (intro conjI allI impI)
    show "tidy we" "tidy ws" by fact+
    show "(waiting_main (waitingExecution ed) n i = None) = (waiting_main (source_of ed) n i = None)" for n i
      using assms(2) by (simp only: waiting_inv_but_def)
    show "\<exists>inputs. mainInputs w n = Inr inputs \<and> 1 < length inputs \<and> length m' = length inputs \<and> Null \<in> set m'"
      if m': "waiting_main (waitingExecution ed) n i = Some m'" for n i m'
    proof (rule waiting_inv_butD[OF assms(2) m'])
      fix inputs' assume "mainInputs w n = Inr inputs'" "1 < length inputs'" "length m' = length inputs'"
        "Null \<in> set m' \<or> n = conn_node c \<and> i = idx"
      with m m' assms(5) show ?thesis by auto
    qed
  qed
  show ?B unfolding F W ..
  show ?C using P(5) by (simp add: ed')
  show ?D using sm by (simp add: F ws'(2) P(4))
qed

section \<open>One call of addNodeToBeExecuted\<close>

lemma addWaitingData_store:
  assumes "addWaitingData w c oi p out ri ed = Inr (idx, was, ed')" and "waiting_inv w ed"
    and "mainInputs w (conn_node c) = Inr inputs" and "1 < length inputs"
  obtains m0 where "waiting_main (waitingExecution ed') = (\<lambda>n' idx'. if n' = conn_node c \<and> idx' = idx
       then Some (arr_set m0 (conn_index c) (success_slot out oi)) else waiting_main (waitingExecution ed) n' idx')"
    and "waiting_main (waitingExecution ed) (conn_node c) idx = Some m0 \<and> \<not> slot_truthy (arr_get m0 (conn_index c)) \<or>
      m0 = replicate (length inputs) Null \<and> idx = length (waitingRuns (conn_node c) ed) \<and>
      (\<forall>k m. waiting_main (waitingExecution ed) (conn_node c) k = Some m \<longrightarrow> slot_truthy (arr_get m (conn_index c)))"
proof -
  from addWaitingData_eq[OF assms(1)] obtain ed1 we ws where
    op: "openWaitingEntry w c ed = Inr (idx, was, ed1)"
    and we: "waiting_update (conn_node c) idx (\<lambda>m. arr_set m (conn_index c) (success_slot out oi))
           (waitingExecution ed1) = Inr we"
    and ed': "ed' = ed1\<lparr>waitingExecution := we, waitingExecutionSource := Some ws\<rparr>" .
  from openWaitingEntry_store[OF op assms(2-4)] obtain m0 where
    m0: "waiting_main (waitingExecution ed1) = (\<lambda>n' idx'. if n' = conn_node c \<and> idx' = idx then Some m0
          else waiting_main (waitingExecution ed) n' idx')"
    and d: "waiting_main (waitingExecution ed) (conn_node c) idx = Some m0 \<and> \<not> slot_truthy (arr_get m0 (conn_index c)) \<or>
      m0 = replicate (length inputs) Null \<and> idx = length (waitingRuns (conn_node c) ed) \<and>
      (\<forall>k m. waiting_main (waitingExecution ed) (conn_node c) k = Some m \<longrightarrow> slot_truthy (arr_get m (conn_index c)))" .
  have "tidy (waitingExecution ed1)"
    using openWaitingEntry_inv(1)[OF op assms(2-4)] by (simp only: waiting_inv_def)
  from waiting_updateD[OF we this] obtain m where
    "waiting_main (waitingExecution ed1) (conn_node c) idx = Some m"
    "waiting_main we = (\<lambda>n' idx'. if n' = conn_node c \<and> idx' = idx
       then Some (arr_set m (conn_index c) (success_slot out oi)) else waiting_main (waitingExecution ed1) n' idx')" .
  with m0 have "waiting_main we = (\<lambda>n' idx'. if n' = conn_node c \<and> idx' = idx
       then Some (arr_set m0 (conn_index c) (success_slot out oi)) else waiting_main (waitingExecution ed) n' idx')"
    by (auto simp: fun_eq_iff)
  with d show thesis by (intro that[of m0]) (simp_all add: ed')
qed

text \<open>The steps of a call for a node with several inputs.\<close>

lemma addNode_multi_cases:
  assumes "addNodeToBeExecuted w c oi p out ri rd ed = Inr ed'" and "waiting_inv w ed"
    and inputs: "mainInputs w (conn_node c) = Inr inputs" and i: "conn_index c < length inputs"
    and many: "1 < length inputs"
  obtains idx was ed1 m where "addWaitingData w c oi p out ri ed = Inr (idx, was, ed1)"
    and "waiting_main (waitingExecution ed1) (conn_node c) idx = Some m"
    and "arr_get m (conn_index c) = success_slot out oi"
    and "Null \<notin> set m \<Longrightarrow> enqueueWaiting w (conn_node c) idx ed1 = Inr ed'"
    and "Null \<in> set m \<Longrightarrow> \<exists>ed2. stack_grows ed1 ed2 \<and> keepWaiting w c oi p out ri idx ed2 = Inr ed'"
proof -
  have "res_bind (addWaitingData w c oi p out ri ed) (\<lambda>(idx, nodeWasWaiting, ed1).
         case waiting_main (waitingExecution ed1) (conn_node c) idx of
           None \<Rightarrow> Inl TypeError
         | Some m \<Rightarrow>
             if allDataFound m then enqueueWaiting w (conn_node c) idx ed1
             else res_bind (if nodeWasWaiting then Inr ed1 else addSiblingInputs w c oi p out ri rd ed1)
               (keepWaiting w c oi p out ri idx)) = Inr ed'"
    using assms(1) many unfolding addNodeToBeExecuted_def inputs res_bind_simps by simp
  then obtain x where x: "addWaitingData w c oi p out ri ed = Inr x"
    and 1: "(case x of (idx, nodeWasWaiting, ed1) \<Rightarrow> case waiting_main (waitingExecution ed1) (conn_node c) idx of
           None \<Rightarrow> Inl TypeError
         | Some m \<Rightarrow>
             if allDataFound m then enqueueWaiting w (conn_node c) idx ed1
             else res_bind (if nodeWasWaiting then Inr ed1 else addSiblingInputs w c oi p out ri rd ed1)
               (keepWaiting w c oi p out ri idx)) = Inr ed'"
    by (rule res_bindE)
  obtain idx was ed1 where tx: "x = (idx, was, ed1)" by (cases x)
  from addWaitingData_inv(4)[OF x[unfolded tx] assms(2) inputs i many] obtain m where
    m: "waiting_main (waitingExecution ed1) (conn_node c) idx = Some m"
      "arr_get m (conn_index c) = success_slot out oi" by blast
  from 1 m have 2: "(if allDataFound m then enqueueWaiting w (conn_node c) idx ed1
             else res_bind (if was then Inr ed1 else addSiblingInputs w c oi p out ri rd ed1)
               (keepWaiting w c oi p out ri idx)) = Inr ed'"
    by (simp add: tx)
  show thesis
  proof (rule that[OF x[unfolded tx] m])
    show "enqueueWaiting w (conn_node c) idx ed1 = Inr ed'" if "Null \<notin> set m"
      using 2 that by (simp add: allDataFound_def)
    show "\<exists>ed2. stack_grows ed1 ed2 \<and> keepWaiting w c oi p out ri idx ed2 = Inr ed'" if "Null \<in> set m"
    proof -
      have "res_bind (if was then Inr ed1 else addSiblingInputs w c oi p out ri rd ed1)
               (keepWaiting w c oi p out ri idx) = Inr ed'"
        using 2 that by (simp add: allDataFound_def)
      then obtain ed2 where "(if was then Inr ed1 else addSiblingInputs w c oi p out ri rd ed1) = Inr ed2"
        and k: "keepWaiting w c oi p out ri idx ed2 = Inr ed'" by (rule res_bindE)
      then have "stack_grows ed1 ed2" by (auto split: if_splits intro: addSiblingInputs_grows)
      with k show ?thesis by blast
    qed
  qed
qed

lemma addNode_multi:
  assumes "addNodeToBeExecuted w c oi p out ri rd ed = Inr ed'" and "waiting_inv w ed"
    and inputs: "mainInputs w (conn_node c) = Inr inputs" and i: "conn_index c < length inputs"
    and many: "1 < length inputs"
  obtains idx m0 m where "waiting_inv w ed'"
    and "m = arr_set m0 (conn_index c) (success_slot out oi)" and "length m = length inputs"
    and "waiting_main (waitingExecution ed) (conn_node c) idx = Some m0 \<and> \<not> slot_truthy (arr_get m0 (conn_index c)) \<or>
      m0 = replicate (length inputs) Null \<and> idx = length (waitingRuns (conn_node c) ed) \<and>
      (\<forall>k m. waiting_main (waitingExecution ed) (conn_node c) k = Some m \<longrightarrow> slot_truthy (arr_get m (conn_index c)))"
    and "waiting_main (waitingExecution ed') = (\<lambda>n' idx'. if n' = conn_node c \<and> idx' = idx
       then (if Null \<in> set m then Some m else None) else waiting_main (waitingExecution ed) n' idx')"
    and "if Null \<in> set m then set (nodeExecutionStack ed) \<subseteq> set (nodeExecutionStack ed')
       else \<exists>item. pushed w item ed ed' \<and> obj_get (exec_data item) MainConn = Some m \<and>
           obj_get (nodes w) (conn_node c) = Some (exec_node item)"
proof -
  from addNode_multi_cases[OF assms] obtain idx was ed1 m where
    add: "addWaitingData w c oi p out ri ed = Inr (idx, was, ed1)"
    and m: "waiting_main (waitingExecution ed1) (conn_node c) idx = Some m"
    and mi: "arr_get m (conn_index c) = success_slot out oi"
    and full: "Null \<notin> set m \<Longrightarrow> enqueueWaiting w (conn_node c) idx ed1 = Inr ed'"
    and part: "Null \<in> set m \<Longrightarrow> \<exists>ed2. stack_grows ed1 ed2 \<and> keepWaiting w c oi p out ri idx ed2 = Inr ed'"
    by blast
  note A = addWaitingData_inv[OF add assms(2) inputs i many]
  from addWaitingData_store[OF add assms(2) inputs many] obtain m0 where
    W: "waiting_main (waitingExecution ed1) = (\<lambda>n' idx'. if n' = conn_node c \<and> idx' = idx
       then Some (arr_set m0 (conn_index c) (success_slot out oi)) else waiting_main (waitingExecution ed) n' idx')"
    and d: "waiting_main (waitingExecution ed) (conn_node c) idx = Some m0 \<and> \<not> slot_truthy (arr_get m0 (conn_index c)) \<or>
      m0 = replicate (length inputs) Null \<and> idx = length (waitingRuns (conn_node c) ed) \<and>
      (\<forall>k m. waiting_main (waitingExecution ed) (conn_node c) k = Some m \<longrightarrow> slot_truthy (arr_get m (conn_index c)))" .
  have m': "m = arr_set m0 (conn_index c) (success_slot out oi)" using m W by simp
  have len: "length m = length inputs"
    using waiting_inv_butD[OF A(1) m] inputs by (metis sum.inject(2))
  show thesis
  proof (cases "Null \<in> set m")
    case False
    note E = enqueueWaiting_inv[OF full[OF False] A(1) m]
    have "waiting_main (waitingExecution ed') = (\<lambda>n' idx'. if n' = conn_node c \<and> idx' = idx
       then (if Null \<in> set m then Some m else None) else waiting_main (waitingExecution ed) n' idx')"
      using False by (auto simp: E(3) W fun_eq_iff)
    moreover have "\<exists>item. pushed w item ed ed' \<and> obj_get (exec_data item) MainConn = Some m \<and>
           obj_get (nodes w) (conn_node c) = Some (exec_node item)"
      using E(2) unfolding pushed_def A(2) .
    ultimately show thesis using False by (intro that[OF E(1) m' len d]) simp_all
  next
    case True
    from part[OF True] obtain ed2 where g: "stack_grows ed1 ed2"
      and k: "keepWaiting w c oi p out ri idx ed2 = Inr ed'" by blast
    have same: "waitingExecution ed2 = waitingExecution ed1" "source_of ed2 = source_of ed1"
      using g by (simp_all add: stack_grows_def)
    have but: "waiting_inv_but w (conn_node c) idx ed2" using A(1) waiting_inv_but_cong[OF same] by simp
    have m2: "waiting_main (waitingExecution ed2) (conn_node c) idx = Some m" using m same by simp
    note K = keepWaiting_inv[OF k but m2 mi True inputs i]
    have "waiting_main (waitingExecution ed') = (\<lambda>n' idx'. if n' = conn_node c \<and> idx' = idx
       then (if Null \<in> set m then Some m else None) else waiting_main (waitingExecution ed) n' idx')"
      using True m' by (auto simp: K(2) same W fun_eq_iff)
    moreover have "set (nodeExecutionStack ed) \<subseteq> set (nodeExecutionStack ed')"
      using g K(3) A(2) by (simp add: stack_grows_def)
    ultimately show thesis using True by (intro that[OF K(1) m' len d]) simp_all
  qed
qed

lemma addNode_single:
  assumes "addNodeToBeExecuted w c oi p out ri rd ed = Inr ed'"
    and inputs: "mainInputs w (conn_node c) = Inr inputs" and single: "length inputs \<le> 1"
  obtains item where "ed' = enqueue w item ed"
    and "exec_data item = [(MainConn, arr_set (replicate (Suc (conn_index c)) Null) (conn_index c) (success_slot out oi))]"
    and "exec_source item = Some [(MainConn, [Val (mk_source p oi ri)])]"
    and "obj_get (nodes w) (conn_node c) = Some (exec_node item)"
proof -
  have "res_bind (stack_item w (conn_node c)
           [(MainConn, arr_set (replicate (Suc (conn_index c)) Null) (conn_index c) (success_slot out oi))]
           (Some [(MainConn, [Val (mk_source p oi ri)])])) (\<lambda>item. Inr (enqueue w item ed)) = Inr ed'"
    using assms(1) single unfolding addNodeToBeExecuted_def inputs res_bind_simps addDirectly_def Let_def by simp
  then obtain item where "stack_item w (conn_node c)
           [(MainConn, arr_set (replicate (Suc (conn_index c)) Null) (conn_index c) (success_slot out oi))]
           (Some [(MainConn, [Val (mk_source p oi ri)])]) = Inr item" "Inr (enqueue w item ed) = (Inr ed' :: js_error + _)"
    by (rule res_bindE)
  then show thesis using that stack_item_Inr by auto
qed

text \<open>A connection of the workflow arrives at an input that the index by destination has.\<close>

definition indexed :: "Workflow \<Rightarrow> bool" where
  "indexed w \<longleftrightarrow> connectionsByDestinationNode w = getConnectionsByDestination (connectionsBySourceNode w)"

definition main_connection :: "Workflow \<Rightarrow> string \<Rightarrow> nat \<Rightarrow> IConnection \<Rightarrow> bool" where
  "main_connection w p oi c \<longleftrightarrow>
     (p, MainConn, oi, c) \<in> set (all_connections (connectionsBySourceNode w)) \<and> conn_type c = MainConn"

lemma input_in_range:
  assumes "indexed w" and "main_connection w p oi c"
  obtains inputs where "mainInputs w (conn_node c) = Inr inputs" and "conn_index c < length inputs"
proof -
  have "connections_at (connectionsByDestinationNode w) (conn_node c) MainConn (conn_index c) \<noteq> []"
    using assms unfolding indexed_def main_connection_def
    by (auto simp: connections_at_byDestination arriving_def filter_empty_conv)
  then have "\<exists>inputs. mainInputs w (conn_node c) = Inr inputs \<and> conn_index c < length inputs"
    by (auto simp: connections_at_def mainInputs_def split: option.splits if_splits)
  then show thesis using that by blast
qed

section \<open>Properties\<close>

lemma addNode_waiting_inv:
  assumes "indexed w" and "main_connection w p oi c" and "waiting_inv w ed"
    and "addNodeToBeExecuted w c oi p out ri rd ed = Inr ed'"
  shows "waiting_inv w ed'"
proof -
  obtain inputs where i: "mainInputs w (conn_node c) = Inr inputs" "conn_index c < length inputs"
    using input_in_range[OF assms(1,2)] .
  show ?thesis
  proof (cases "1 < length inputs")
    case True
    from addNode_multi[OF assms(4,3) i True] show ?thesis by blast
  next
    case False
    then have "length inputs \<le> 1" by simp
    from addNode_single[OF assms(4) i(1) this] obtain item where "ed' = enqueue w item ed" .
    with assms(3) show ?thesis by simp
  qed
qed

text \<open>
  Adding the data of any main connection of the workflow keeps the invariant of the
  waiting entries: every waiting run belongs to a node with several inputs, has one slot
  per input, still misses at least one of them, and has sources of the same shape.
\<close>

theorem addNodeToBeExecuted_waiting_inv:
  assumes "indexed w" and "main_connection w p oi c" and "waiting_inv w ed"
    and "addNodeToBeExecuted w c oi p out ri rd ed = Inr ed'"
  shows "waiting_inv w ed'"
  using assms by (rule addNode_waiting_inv)

lemma waiting_inv_no_execution: "waiting_inv w no_execution"
  by (simp add: waiting_inv_def no_execution_def source_of_def waiting_main_def tidy_def)

lemma sample_indexed: "indexed sample_workflow"
  by (simp add: indexed_def sample_byDestination)

lemma sample_main_connection:
  "main_connection sample_workflow ''A'' 0 (link ''M'' 0)"
  "main_connection sample_workflow ''B'' 0 (link ''M'' 1)"
  "main_connection sample_workflow ''T'' 0 (link ''A'' 0)"
  unfolding main_connection_def by code_simp+

lemma sample_first_input:
  "\<exists>ed'. addNodeToBeExecuted sample_workflow (link ''M'' 0) 0 ''A'' (Some [Val [empty_item]]) 0 [] no_execution
     = Inr ed'"
  by (rule not_isl_Inr) code_simp

lemma sample_inputs:
  "mainInputs sample_workflow ''M'' = Inr [[link ''A'' 0], [link ''B'' 0]]"
  "mainInputs sample_workflow ''A'' = Inr [[link ''T'' 0]]"
  by code_simp+

theorem addNodeToBeExecuted_waiting_inv_witness:
  "\<exists>ed'. addNodeToBeExecuted sample_workflow (link ''M'' 0) 0 ''A'' (Some [Val [empty_item]]) 0 [] no_execution
     = Inr ed' \<and> waiting_inv sample_workflow ed'"
  using sample_first_input
    addNodeToBeExecuted_waiting_inv[OF sample_indexed sample_main_connection(1) waiting_inv_no_execution]
  by blast

text \<open>
  C4: What a call does for a node with several inputs, on the abstract store that maps a
  node and a run index to the inputs collected so far.  The data goes into a waiting run
  that lacks it or into a new, all-null run when no waiting run lacks it; the run so
  completed leaves the store and is pushed on the stack with exactly the collected
  inputs, an incomplete one is stored, and every other waiting run is untouched.
\<close>

theorem addNodeToBeExecuted_collects:
  assumes "addNodeToBeExecuted w c oi p out ri rd ed = Inr ed'" and "waiting_inv w ed"
    and "mainInputs w (conn_node c) = Inr inputs" and "conn_index c < length inputs" and "1 < length inputs"
  shows "\<exists>idx m0 m.
    (waiting_main (waitingExecution ed) (conn_node c) idx = Some m0 \<and> \<not> slot_truthy (arr_get m0 (conn_index c)) \<or>
      m0 = replicate (length inputs) Null \<and> idx = length (waitingRuns (conn_node c) ed) \<and>
      (\<forall>k m. waiting_main (waitingExecution ed) (conn_node c) k = Some m \<longrightarrow> slot_truthy (arr_get m (conn_index c)))) \<and>
    m = arr_set m0 (conn_index c) (success_slot out oi) \<and> length m = length inputs \<and>
    waiting_main (waitingExecution ed') = (\<lambda>n' idx'. if n' = conn_node c \<and> idx' = idx
       then (if Null \<in> set m then Some m else None) else waiting_main (waitingExecution ed) n' idx') \<and>
    (if Null \<in> set m then set (nodeExecutionStack ed) \<subseteq> set (nodeExecutionStack ed')
     else \<exists>item. pushed w item ed ed' \<and> obj_get (exec_data item) MainConn = Some m \<and>
           obj_get (nodes w) (conn_node c) = Some (exec_node item))"
proof (rule addNode_multi[OF assms], goal_cases)
  case (1 idx m0 m)
  then show ?case by (intro exI[of _ idx] exI[of _ m0] exI[of _ m] conjI)
qed

theorem addNodeToBeExecuted_collects_witness:
  "\<exists>ed'. addNodeToBeExecuted sample_workflow (link ''M'' 0) 0 ''A'' (Some [Val [empty_item]]) 0 [] no_execution
     = Inr ed' \<and> (\<exists>idx m. waiting_main (waitingExecution ed') ''M'' idx = Some m \<and> length m = 2)"
proof -
  from sample_first_input obtain ed' where e: "addNodeToBeExecuted sample_workflow (link ''M'' 0) 0 ''A''
      (Some [Val [empty_item]]) 0 [] no_execution = Inr ed'" ..
  have n: "mainInputs sample_workflow (conn_node (link ''M'' 0)) = Inr [[link ''A'' 0], [link ''B'' 0]]"
    using sample_inputs(1) by (simp add: link_def)
  have none: "waiting_main (waitingExecution no_execution) n k = None" for n k
    by (simp add: no_execution_def waiting_main_def)
  have i: "conn_index (link ''M'' 0) < length [[link ''A'' 0], [link ''B'' 0]]" "1 < length [[link ''A'' 0], [link ''B'' 0]]"
    by (simp_all add: link_def)
  from addNodeToBeExecuted_collects[OF e waiting_inv_no_execution n i]
  obtain idx m0 m where
    d: "(waiting_main (waitingExecution no_execution) (conn_node (link ''M'' 0)) idx = Some m0 \<and>
          \<not> slot_truthy (arr_get m0 (conn_index (link ''M'' 0))) \<or>
        m0 = replicate (length [[link ''A'' 0], [link ''B'' 0]]) Null \<and>
          idx = length (waitingRuns (conn_node (link ''M'' 0)) no_execution) \<and>
          (\<forall>k m. waiting_main (waitingExecution no_execution) (conn_node (link ''M'' 0)) k = Some m \<longrightarrow>
             slot_truthy (arr_get m (conn_index (link ''M'' 0)))))"
    and m: "m = arr_set m0 (conn_index (link ''M'' 0)) (success_slot (Some [Val [empty_item]]) 0)"
    and w: "waiting_main (waitingExecution ed') = (\<lambda>n' idx'. if n' = conn_node (link ''M'' 0) \<and> idx' = idx
       then (if Null \<in> set m then Some m else None) else waiting_main (waitingExecution no_execution) n' idx')"
    by (elim exE conjE) (rule that)
  from d none have "m0 = [Null, Null]" by simp
  with m have "m = [Val [empty_item], Null]" by (simp add: link_def arr_set_def success_slot_def arr_get_def)
  then have "waiting_main (waitingExecution ed') ''M'' idx = Some [Val [empty_item], Null]"
    unfolding w by (simp add: link_def)
  with e show ?thesis by (intro exI[of _ ed'] conjI exI[of _ idx] exI[of _ "[Val [empty_item], Null]"]) simp_all
qed

text \<open>
  A node with a single input is pushed on the stack at once, in front under execution
  order v1 and behind otherwise, with the output of its parent at the input of the
  connection, null at the inputs before it, and the parent as its source.
\<close>

theorem addNodeToBeExecuted_single:
  assumes "addNodeToBeExecuted w c oi p out ri rd ed = Inr ed'"
    and "mainInputs w (conn_node c) = Inr inputs" and "length inputs \<le> 1"
  shows "\<exists>item. nodeExecutionStack ed' =
      (if executionOrder w = Some OrderV1 then item # nodeExecutionStack ed else nodeExecutionStack ed @ [item]) \<and>
    waitingExecution ed' = waitingExecution ed \<and> source_of ed' = source_of ed \<and>
    obj_get (nodes w) (conn_node c) = Some (exec_node item) \<and>
    exec_data item = [(MainConn, replicate (conn_index c) Null @ [success_slot out oi])] \<and>
    exec_source item = Some [(MainConn, [Val (mk_source p oi ri)])]"
proof -
  from addNode_single[OF assms] obtain item where i: "ed' = enqueue w item ed"
    "exec_data item = [(MainConn, arr_set (replicate (Suc (conn_index c)) Null) (conn_index c) (success_slot out oi))]"
    "exec_source item = Some [(MainConn, [Val (mk_source p oi ri)])]"
    "obj_get (nodes w) (conn_node c) = Some (exec_node item)" .
  have "arr_set (replicate (Suc k) Null) k v = replicate k Null @ [v]" for k and v :: "items slot"
    by (simp add: arr_set_def replicate_append_same[symmetric] list_update_append del: replicate_Suc)
       (simp add: replicate_append_same[symmetric] list_update_append)
  then show ?thesis using i by (intro exI[of _ item]) (simp add: enqueue_stack)
qed

theorem addNodeToBeExecuted_single_witness:
  "\<exists>ed' item. addNodeToBeExecuted sample_workflow (link ''A'' 0) 0 ''T'' (Some [Val [empty_item]]) 0 [] no_execution
     = Inr ed' \<and> nodeExecutionStack ed' = [item] \<and> node_name (exec_node item) = ''A''"
proof -
  have "\<exists>ed'. addNodeToBeExecuted sample_workflow (link ''A'' 0) 0 ''T'' (Some [Val [empty_item]]) 0 [] no_execution
     = Inr ed'" by (rule not_isl_Inr) code_simp
  then obtain ed' where e: "addNodeToBeExecuted sample_workflow (link ''A'' 0) 0 ''T''
      (Some [Val [empty_item]]) 0 [] no_execution = Inr ed'" ..
  have n: "mainInputs sample_workflow (conn_node (link ''A'' 0)) = Inr [[link ''T'' 0]]"
    using sample_inputs(2) by (simp add: link_def)
  have node: "obj_get (nodes sample_workflow) ''A'' = Some (mk_node ''A'' ''set'')" by code_simp
  from addNodeToBeExecuted_single[OF e n] obtain item where "nodeExecutionStack ed' = [item]"
    "obj_get (nodes sample_workflow) ''A'' = Some (exec_node item)"
    by (auto simp: link_def no_execution_def split: if_splits)
  with e node show ?thesis by (auto simp: mk_node_def)
qed

definition addSequence :: "Workflow \<Rightarrow> (IConnection \<times> string \<times> string \<times> nat) list \<Rightarrow>
    ExecutionData \<Rightarrow> js_error + ExecutionData" where
  "addSequence w = res_fold (\<lambda>(c, p, v, run).
     addNodeToBeExecuted w c 0 p (Some [Val [item_of v]]) run [])"

text \<open>
  With three inputs the provenance of the first is lost.  After the data of inputs 0
  and 1 arrived both are collected, but the sources of the run are reset to null when the
  second one is stored, so only the source of the last input stays known.
\<close>

theorem merge_sources_lost:
  "(case addSequence merge3_workflow [(link ''M'' 0, ''A'', ''a'', 0), (link ''M'' 1, ''B'', ''b'', 0)] no_execution of
      Inl _ \<Rightarrow> False
    | Inr ed \<Rightarrow>
        waiting_main (waitingExecution ed) ''M'' 0 = Some [Val [item_of ''a''], Val [item_of ''b''], Null] \<and>
        waiting_main (source_of ed) ''M'' 0 = Some [Null, Val (mk_source ''B'' 0 0), Null])"
  by code_simp

text \<open>
  A waiting run can be overwritten.  The index of a new run is the number of waiting
  runs, which an index that is still waiting may have: after two runs of A wait for B
  and the first is completed, the third run of A takes the place of the second, whose
  data \<open>a1\<close> is nowhere any more.
\<close>

theorem waiting_run_overwritten:
  "(case addSequence sample_workflow
      [(link ''M'' 0, ''A'', ''a0'', 0), (link ''M'' 0, ''A'', ''a1'', 1),
       (link ''M'' 1, ''B'', ''b0'', 0), (link ''M'' 0, ''A'', ''a2'', 2)] no_execution of
      Inl _ \<Rightarrow> False
    | Inr ed \<Rightarrow>
        map exec_data (nodeExecutionStack ed) = [[(MainConn, [Val [item_of ''a0''], Val [item_of ''b0'']])]] \<and>
        map fst (waitingRuns ''M'' ed) = [1] \<and>
        waiting_main (waitingExecution ed) ''M'' 1 = Some [Val [item_of ''a2''], Null])"
  by code_simp

end
