(* ===== verification/EngineProperties.thy ===== *)
theory EngineProperties
  imports ExecutionRuns NodeProperties WaitingInvariant
begin

text \<open>
  What one round of the main loop, and the loop, guarantee: recorded runs are never lost,
  the node filter and the destination are respected, a failed node can be started again,
  a cancellation stops the loop, the waiting entries stay well formed, the next nodes are
  started from the top left, and how the final result says all that.
\<close>

section \<open>What a node may change\<close>

definition frame :: "IRunExecutionData \<Rightarrow> IRunExecutionData \<Rightarrow> bool" where
  "frame re re' \<longleftrightarrow>
     startData re' = startData re \<and>
     runData (resultData re') = runData (resultData re) \<and>
     pinData (resultData re') = pinData (resultData re) \<and>
     result_error (resultData re') = result_error (resultData re) \<and>
     nodeExecutionStack (executionData re') = nodeExecutionStack (executionData re) \<and>
     waitingExecution (executionData re') = waitingExecution (executionData re) \<and>
     waitingExecutionSource (executionData re') = waitingExecutionSource (executionData re)"

lemma frame_refl [intro, simp]: "frame re re"
  by (simp add: frame_def)

lemma frame_trans [trans]: "frame a b \<Longrightarrow> frame b c \<Longrightarrow> frame a c"
  by (simp add: frame_def)

lemma frame_body: "frame re (body_effect b re)"
  by (simp add: frame_def body_effect_def)

lemma frame_set_last [simp]: "frame re (set_last n re') = frame re re'"
  by (simp add: frame_def set_last_def)

lemma frame_no_effect [simp]: "rr_exec (no_effect re r) = re"
  by (simp add: no_effect_def)

lemma frame_run_body: "ba_exec args = re \<Longrightarrow> frame re (rr_exec (run_body env clock kind args))"
  by (auto simp: run_body_def Let_def frame_body)

lemma frame_run_enabled: "frame re (rr_exec (run_enabled env clock nt node d its ri re))"
  by (simp add: run_enabled_def Let_def frame_run_body split: option.split)

lemma frame_runNode: "frame re (rr_exec (runNode env w clock item ri re))"
  by (simp add: runNode_def Let_def frame_run_enabled split: option.split sum.split)

lemma frame_call_node: "call_node env w item ri ts = (r, ts') \<Longrightarrow> frame (ts_exec ts) (ts_exec ts')"
  by (auto simp: call_node_def Let_def frame_runNode)

lemma frame_rerun: "rerun env w item ri n ts = (thrown, n', ts') \<Longrightarrow> frame (ts_exec ts) (ts_exec ts')"
proof (induction n arbitrary: ts)
  case 0
  then show ?case by auto
next
  case (Suc n)
  let ?ts = "ts\<lparr>ts_slept := ts_slept ts + wait_between_tries (exec_node item)\<rparr>"
  obtain r ts1 where c: "call_node env w item ri ?ts = (r, ts1)" by (cases "call_node env w item ri ?ts")
  have f: "frame (ts_exec ts) (ts_exec ts1)" using frame_call_node[OF c] by simp
  show ?case
  proof (cases "rr_data r")
    case (Inl e)
    with Suc.prems c f show ?thesis by (auto simp: Let_def)
  next
    case (Inr d)
    with Suc.prems c have "rerun env w item ri n ts1 = (thrown, n', ts')" by (simp add: Let_def)
    from frame_trans[OF f Suc.IH[OF this]] show ?thesis .
  qed
qed

lemma frame_fetch:
  assumes "fetch_data env w item ri left ts = (thrown, left', ts')"
  shows "frame (ts_exec ts) (ts_exec ts')"
proof (cases "pinned_data (ts_exec ts) (exec_node item)")
  case (Some p)
  then show ?thesis using assms by (auto simp: fetch_data_def)
next
  case None
  obtain r ts1 where c: "call_node env w item ri ts = (r, ts1)" by (cases "call_node env w item ri ts")
  note f = frame_call_node[OF c]
  show ?thesis
  proof (cases "rr_data r")
    case (Inl e)
    then show ?thesis using assms None c f by (auto simp: fetch_data_def)
  next
    case (Inr d)
    obtain th l t3 where re: "(if continued_on_fail d then rerun env w item ri left (ts1\<lparr>ts_data := d\<rparr>)
        else (None, left, ts1\<lparr>ts_data := d\<rparr>)) = (th, l, t3)"
      by (cases "if continued_on_fail d then rerun env w item ri left (ts1\<lparr>ts_data := d\<rparr>)
        else (None, left, ts1\<lparr>ts_data := d\<rparr>)")
    have "frame (ts_exec ts1) (ts_exec t3)"
      using re frame_rerun[of env w item ri left "ts1\<lparr>ts_data := d\<rparr>" th l t3] by (auto split: if_splits)
    moreover have "ts_exec ts' = ts_exec t3"
      using assms None c Inr re by (auto simp: fetch_data_def Let_def split: option.splits if_splits sum.splits)
    ultimately show ?thesis using frame_trans[OF f] by simp
  qed
qed

lemma frame_finish: "finish_try item ts = (r, ts') \<Longrightarrow> frame (ts_exec ts) (ts_exec ts')"
  by (auto simp: finish_try_def Let_def split: sum.splits option.splits if_splits)

lemma frame_try_once:
  assumes "try_once env w item ri left ts = (signal, left', ts')"
  shows "frame (ts_exec ts) (ts_exec ts')"
proof -
  obtain thrown l t1 where f: "fetch_data env w item ri left ts = (thrown, l, t1)"
    by (cases "fetch_data env w item ri left ts")
  note F = frame_fetch[OF f]
  show ?thesis
  proof (cases thrown)
    case (Some e)
    with assms f F show ?thesis by (auto simp: try_once_def failed_try_def)
  next
    case None
    obtain r t2 where fin: "finish_try item t1 = (r, t2)" by (cases "finish_try item t1")
    from frame_trans[OF F frame_finish[OF fin]] assms f None fin show ?thesis
      by (auto simp: try_once_def failed_try_def split: sum.splits)
  qed
qed

lemma frame_try_loop:
  "try_loop env w item ri left ts = (skip, ts') \<Longrightarrow> frame (ts_exec ts) (ts_exec ts')"
proof (induction left arbitrary: ts rule: less_induct)
  case (less left)
  obtain signal l t1 where t: "try_once env w item ri left ts = (signal, l, t1)"
    by (cases "try_once env w item ri left ts")
  note F = frame_try_once[OF t]
  show ?case
  proof (cases signal)
    case (Some sg)
    with less.prems t F show ?thesis by (auto simp: try_loop.simps)
  next
    case None
    show ?thesis
    proof (cases l)
      case 0
      with less.prems t None F show ?thesis by (auto simp: try_loop.simps)
    next
      case (Suc k)
      let ?t = "t1\<lparr>ts_error := None, ts_slept := ts_slept t1 + wait_between_tries (exec_node item)\<rparr>"
      have run: "try_loop env w item ri k ?t = (skip, ts')"
        using less.prems t None Suc by (simp add: try_loop.simps)
      have "k < left" using try_once_left[OF t] Suc by simp
      from frame_trans[OF F less.IH[OF this run, simplified]] show ?thesis by simp
    qed
  qed
qed

lemma frame_run_tries: "run_tries env w item ri re clock = (skip, ts) \<Longrightarrow> frame re (ts_exec ts)"
  using frame_try_loop unfolding run_tries_def by fastforce

section \<open>Recorded runs\<close>

fun flow_state :: "flow \<Rightarrow> Engine" where
  "flow_state (Loop st) = st"
| "flow_state (Leave st) = st"
| "flow_state (Throw e st) = st"

definition runs_of :: "Engine \<Rightarrow> string \<Rightarrow> ITaskData list" where
  "runs_of st n = (case obj_get (e_runData st) n of None \<Rightarrow> [] | Some runs \<Rightarrow> runs)"

text \<open>At most \<open>k\<close> runs were added to those of \<open>n\<close>, and nothing else was recorded.\<close>

definition adds :: "string \<Rightarrow> nat \<Rightarrow> Engine \<Rightarrow> Engine \<Rightarrow> bool" where
  "adds n k st st' \<longleftrightarrow>
     startData (e_run st') = startData (e_run st) \<and>
     result_error (resultData (e_run st')) = result_error (resultData (e_run st)) \<and>
     pinData (resultData (e_run st')) = pinData (resultData (e_run st)) \<and>
     (\<exists>ts. length ts \<le> k \<and> (\<forall>m. runs_of st' m = runs_of st m @ (if m = n then ts else [])))"

lemma adds_refl [intro, simp]: "adds n k st st"
  unfolding adds_def by (auto intro: exI[of _ "[]"])

lemma adds_trans:
  assumes "adds n i a b" and "adds n j b c"
  shows "adds n (i + j) a c"
proof -
  from assms obtain ts us where "length ts \<le> i" "\<And>m. runs_of b m = runs_of a m @ (if m = n then ts else [])"
    "length us \<le> j" "\<And>m. runs_of c m = runs_of b m @ (if m = n then us else [])"
    by (auto simp: adds_def)
  then have "length (ts @ us) \<le> i + j \<and> (\<forall>m. runs_of c m = runs_of a m @ (if m = n then ts @ us else []))"
    by simp
  then have "\<exists>ts. length ts \<le> i + j \<and> (\<forall>m. runs_of c m = runs_of a m @ (if m = n then ts else []))" ..
  with assms show ?thesis unfolding adds_def by simp
qed

lemma adds_mono: "adds n i a b \<Longrightarrow> i \<le> j \<Longrightarrow> adds n j a b"
  unfolding adds_def by (meson le_trans)

text \<open>Updates that record nothing.\<close>

definition same_record :: "Engine \<Rightarrow> Engine \<Rightarrow> bool" where
  "same_record st st' \<longleftrightarrow>
     startData (e_run st') = startData (e_run st) \<and> runs_of st' = runs_of st \<and>
     result_error (resultData (e_run st')) = result_error (resultData (e_run st)) \<and>
     pinData (resultData (e_run st')) = pinData (resultData (e_run st))"

lemma same_record_adds: "same_record st st' \<Longrightarrow> adds n k st st'"
  unfolding same_record_def adds_def by (auto intro: exI[of _ "[]"])

lemma same_record_refl [intro, simp]: "same_record st st" by (simp add: same_record_def)

lemma runs_of_simps [engine_simps]:
  "runs_of (set_exec ed st) = runs_of st" "runs_of (set_stack s st) = runs_of st"
  "runs_of (log_hook h st) = runs_of st"
  "runs_of (st\<lparr>e_status := x\<rparr>) = runs_of st" "runs_of (st\<lparr>e_lastTry := l\<rparr>) = runs_of st"
  "runs_of (st\<lparr>e_error := er\<rparr>) = runs_of st"
  by (simp_all add: runs_of_def e_runData_def set_exec_def set_stack_def log_hook_def fun_eq_iff)

lemma runs_of_open_runs [engine_simps]: "runs_of (open_runs n st) = runs_of st"
  by (simp add: runs_of_def e_runData_def open_runs_def set_runData_def fun_eq_iff)

lemma runs_of_push_run [engine_simps]: "runs_of (push_run n t st) = (runs_of st)(n := runs_of st n @ [t])"
  by (simp add: runs_of_def e_runData_def push_run_def set_runData_def fun_eq_iff)

definition kept :: "Engine \<Rightarrow> StartData option \<times> ExecutionError option \<times> IPinData option" where
  "kept st = (startData (e_run st), result_error (resultData (e_run st)), pinData (resultData (e_run st)))"

lemma kept_simps [engine_simps]:
  "kept (set_exec ed st) = kept st" "kept (set_stack s st) = kept st" "kept (log_hook h st) = kept st"
  "kept (st\<lparr>e_status := x\<rparr>) = kept st" "kept (st\<lparr>e_lastTry := l\<rparr>) = kept st"
  "kept (st\<lparr>e_error := er\<rparr>) = kept st" "kept (open_runs n st) = kept st" "kept (push_run n t st) = kept st"
  by (simp_all add: kept_def set_exec_def set_stack_def log_hook_def open_runs_def push_run_def set_runData_def)

lemma same_record_kept: "same_record st st' \<longleftrightarrow> kept st' = kept st \<and> runs_of st' = runs_of st"
  by (auto simp: same_record_def kept_def)

lemma same_record_simps [engine_simps]:
  "same_record st (set_exec ed st') = same_record st st'"
  "same_record st (set_stack s st') = same_record st st'"
  "same_record st (log_hook h st') = same_record st st'"
  "same_record st (st'\<lparr>e_status := x\<rparr>) = same_record st st'"
  "same_record st (st'\<lparr>e_lastTry := l\<rparr>) = same_record st st'"
  "same_record st (st'\<lparr>e_error := er\<rparr>) = same_record st st'"
  "same_record st (open_runs n st') = same_record st st'"
  by (simp_all add: same_record_kept kept_simps runs_of_simps runs_of_open_runs)

lemma push_run_fields [engine_simps]:
  "startData (e_run (push_run n t st)) = startData (e_run st)"
  "waitTill (e_run (push_run n t st)) = waitTill (e_run st)"
  "e_exec (push_run n t st) = e_exec st" "e_stack (push_run n t st) = e_stack st"
  "result_error (resultData (e_run (push_run n t st))) = result_error (resultData (e_run st))"
  "pinData (resultData (e_run (push_run n t st))) = pinData (resultData (e_run st))"
  "e_status (push_run n t st) = e_status st" "e_error (push_run n t st) = e_error st"
  "e_lastTry (push_run n t st) = e_lastTry st"
  by (simp_all add: push_run_def set_runData_def e_exec_def e_stack_def)

lemma open_runs_fields [engine_simps]:
  "startData (e_run (open_runs n st)) = startData (e_run st)"
  "waitTill (e_run (open_runs n st)) = waitTill (e_run st)"
  "e_exec (open_runs n st) = e_exec st" "e_stack (open_runs n st) = e_stack st"
  "e_status (open_runs n st) = e_status st" "e_error (open_runs n st) = e_error st"
  "e_lastTry (open_runs n st) = e_lastTry st"
  by (simp_all add: open_runs_def set_runData_def e_exec_def e_stack_def)

lemma adds_push_run: "adds n 1 st (push_run n t st)"
  unfolding adds_def by (intro conjI exI[of _ "[t]"]) (simp_all add: push_run_fields runs_of_push_run)

lemma with_hook_adds:
  assumes "adds n i a (log_hook h st)" and "adds n i a (flow_state (k (log_hook h st)))"
  shows "adds n i a (flow_state (with_hook h f st k))"
  using assms by (cases f) (simp_all add: with_hook_def)

lemma continue_after_adds: "adds n 0 st (flow_state (continue_after env w tk m outs ri st))"
proof (cases "addNextNodes w m outs ri (e_runData st) (e_exec st)")
  case (Inl e)
  then show ?thesis by (simp add: continue_after_def)
next
  case (Inr ed)
  let ?st1 = "log_hook (NodeExecuteAfter m) (set_exec ed st)"
  have s: "adds n 0 st ?st1" by (rule same_record_adds) (simp only: same_record_simps same_record_refl)
  moreover have "adds n 0 st (set_exec ed1 ?st1)" for ed1
    by (rule same_record_adds) (simp only: same_record_simps same_record_refl)
  ultimately have "adds n 0 st (flow_state (if e_stack ?st1 = [] \<and> waitingExecution (e_exec ?st1) \<noteq> []
            then (case releaseWaiting env w (e_exec ?st1) of
                    Inl e \<Rightarrow> Throw (mk_error e) ?st1
                  | Inr ed1 \<Rightarrow> Loop (set_exec ed1 ?st1))
            else Loop ?st1))"
    by (cases "releaseWaiting env w (e_exec ?st1)") simp_all
  note 1 = this
  show ?thesis unfolding continue_after_def Inr sum.case by (rule with_hook_adds, rule s, rule 1)
qed

lemma store_result_adds:
  "adds (node_name (exec_node item)) 1 st (flow_state (store_result env w tk item ri task d st))"
proof (cases "case d of Val outs \<Rightarrow> merge_outputs outs | _ \<Rightarrow> Inl TypeError")
  case (Inl e)
  then show ?thesis by (simp add: store_result_def)
next
  case (Inr outs)
  let ?n = "node_name (exec_node item)" and ?t = "task\<lparr>task_data := Some [(MainConn, outs)]\<rparr>"
  let ?st = "push_run (node_name (exec_node item)) ?t st"
  have p: "adds ?n 1 st ?st" by (rule adds_push_run)
  have same: "adds ?n 1 st st'" if "same_record ?st st'" for st'
    using adds_trans[OF p same_record_adds[OF that, of ?n 0]] by simp
  have "adds ?n 1 st (flow_state (if waitTill (e_run ?st) \<noteq> None
              then with_hook (NodeExecuteAfter ?n) (t_after tk) ?st (\<lambda>st2. Leave (set_stack (item # e_stack st2) st2))
              else if is_destination ?st ?n then with_hook (NodeExecuteAfter ?n) (t_after tk) ?st Loop
              else continue_after env w tk ?n outs ri ?st))"
  proof (cases "waitTill (e_run ?st) \<noteq> None")
    case True
    have "adds ?n 1 st (flow_state
        (with_hook (NodeExecuteAfter ?n) (t_after tk) ?st (\<lambda>st2. Leave (set_stack (item # e_stack st2) st2))))"
      by (rule with_hook_adds) (simp_all only: flow_state.simps same same_record_simps same_record_refl)
    with True show ?thesis by simp
  next
    case False
    show ?thesis
    proof (cases "is_destination ?st ?n")
      case True
      have "adds ?n 1 st (flow_state (with_hook (NodeExecuteAfter ?n) (t_after tk) ?st Loop))"
        by (rule with_hook_adds) (simp_all only: flow_state.simps same same_record_simps same_record_refl)
      with False True show ?thesis by simp
    next
      case nd: False
      from adds_trans[OF p continue_after_adds] have "adds ?n 1 st
          (flow_state (continue_after env w tk ?n outs ri ?st))" by simp
      with False nd show ?thesis by simp
    qed
  qed
  with Inr show ?thesis by (simp add: store_result_def Let_def)
qed

lemma record_result_adds:
  "adds (node_name (exec_node item)) 1 st (flow_state (record_result env w tk item ri ts st))"
proof -
  let ?n = "node_name (exec_node item)"
  let ?st = "open_runs ?n st"
  have o: "adds ?n 0 st ?st" by (intro same_record_adds) (simp add: engine_simps)
  have store: "adds ?n 1 st (flow_state (store_result env w tk item ri task d ?st))" for task d
    using adds_trans[OF o store_result_adds] by simp
  show ?thesis
  proof (cases "ts_error ts")
    case None
    with store show ?thesis by (simp add: record_result_def Let_def)
  next
    case (Some e)
    show ?thesis
    proof (cases "continues_on_error (exec_node item)")
      case True
      with Some store show ?thesis by (simp add: record_result_def Let_def)
    next
      case False
      let ?p = "push_run ?n (new_task tk item ts) ?st"
      let ?q = "set_stack (item # e_stack ?p) ?p"
      have "adds ?n 1 st ?p" using adds_trans[OF o adds_push_run] by simp
      then have same: "adds ?n 1 st st'" if "same_record ?p st'" for st'
        using adds_trans[OF _ same_record_adds[OF that, of ?n 0]] by simp
      have "adds ?n 1 st (flow_state (if abort_error e then Leave ?q
          else with_hook (NodeExecuteAfter ?n) (t_after tk) ?q Leave))"
      proof (cases "abort_error e")
        case True
        have "adds ?n 1 st ?q" by (rule same) (simp only: same_record_simps same_record_refl)
        with True show ?thesis by simp
      next
        case False
        have "adds ?n 1 st (flow_state (with_hook (NodeExecuteAfter ?n) (t_after tk) ?q Leave))"
          by (rule with_hook_adds) (simp_all only: flow_state.simps same same_record_simps same_record_refl)
        with False show ?thesis by simp
      qed
      with Some False show ?thesis by (simp add: record_result_def Let_def)
    qed
  qed
qed

lemma frame_same_record:
  "frame (e_run st) re \<Longrightarrow> same_record st (st\<lparr>e_run := re, e_clock := c, e_error := er\<rparr>)"
  by (simp add: same_record_def frame_def runs_of_def e_runData_def fun_eq_iff)

lemma execute_item_adds:
  "adds (node_name (exec_node item)) 1 st (flow_state (execute_item env w tk item ri st))"
proof -
  obtain skip ts where r: "run_tries env w item ri (e_run st) (e_clock st) = (skip, ts)"
    by (cases "run_tries env w item ri (e_run st) (e_clock st)")
  let ?st = "st\<lparr>e_run := ts_exec ts, e_clock := ts_clock ts, e_error := ts_error ts\<rparr>"
  have s: "adds (node_name (exec_node item)) 0 st ?st"
    by (intro same_record_adds frame_same_record frame_run_tries[OF r])
  show ?thesis
  proof (cases skip)
    case True
    with r adds_mono[OF s, of 1] show ?thesis by (simp add: execute_item_def)
  next
    case False
    with r adds_trans[OF s record_result_adds] show ?thesis by (simp add: execute_item_def)
  qed
qed

lemma process_item_adds:
  "adds (node_name (exec_node item)) (if filtered_out st (node_name (exec_node item)) then 0 else 1) st
     (flow_state (process_item env w tk item st))"
proof -
  let ?n = "node_name (exec_node item)" and ?st = "log_hook (NodeExecuteBefore (node_name (exec_node item))) st"
  have same: "adds ?n k st st'" if "same_record st st'" for st' k using that by (rule same_record_adds)
  have f: "filtered_out ?st ?n = filtered_out st ?n" by (simp add: filtered_out_def log_hook_def)
  have x: "adds ?n 1 st (flow_state (execute_item env w tk item (run_count ?st ?n) ?st))"
  proof -
    have "adds ?n 0 st ?st" by (rule same) (simp only: same_record_simps same_record_refl)
    from adds_trans[OF this execute_item_adds] show ?thesis by simp
  qed
  let ?body = "\<lambda>st1. let runIndex = run_count st1 ?n in
        if e_lastTry st1 = Some (?n, runIndex) then Throw (mk_error endless_loop) st1
        else if filtered_out st1 ?n then Loop st1
        else case dataAvailable w item of
            CheckThrows e \<Rightarrow> Throw (mk_error e) st1
          | Requeue \<Rightarrow> Loop ((set_stack (e_stack st1 @ [item]) st1)\<lparr>e_lastTry := Some (?n, runIndex)\<rparr>)
          | Ready \<Rightarrow> execute_item env w tk item runIndex st1"
  let ?k = "if filtered_out st ?n then 0 else 1 :: nat"
  have h: "adds ?n k st ?st" for k by (rule same) (simp only: same_record_simps same_record_refl)
  have r: "adds ?n k st ((set_stack (e_stack ?st @ [item]) ?st)\<lparr>e_lastTry := Some (?n, run_count ?st ?n)\<rparr>)" for k
    by (rule same) (simp only: same_record_simps same_record_refl)
  have "adds ?n ?k st (flow_state (?body ?st))"
  proof (cases "e_lastTry ?st = Some (?n, run_count ?st ?n)")
    case True
    then show ?thesis using h[of ?k] by simp
  next
    case nl: False
    show ?thesis
    proof (cases "filtered_out st ?n")
      case True
      then show ?thesis using h[of ?k] nl f by simp
    next
      case False
      then show ?thesis using h[of 1] r[of 1] x nl f by (cases "dataAvailable w item") simp_all
    qed
  qed
  note 1 = this[unfolded Let_def]
  show ?thesis unfolding process_item_def Let_def by (rule with_hook_adds, rule h, rule 1)
qed

lemma engine_step_adds:
  assumes "e_stack st = item # rest"
  shows "adds (node_name (exec_node item)) (if filtered_out st (node_name (exec_node item)) then 0 else 1) st
     (flow_state (engine_step env w tk st))"
proof -
  let ?n = "node_name (exec_node item)" and ?k = "if filtered_out st (node_name (exec_node item)) then 0 else 1"
  define st0 where "st0 = (if t_timeout tk \<or> t_cancel tk then st\<lparr>e_status := Canceled\<rparr> else st)"
  let ?st1 = "(set_stack rest st0)\<lparr>e_error := None\<rparr>"
  have s0: "same_record st st0" by (simp add: st0_def engine_simps)
  then have s1: "same_record st ?st1" by (simp add: engine_simps)
  have f: "filtered_out ?st1 ?n = filtered_out st ?n"
    by (simp add: filtered_out_def set_stack_def set_exec_def st0_def)
  show ?thesis
  proof (cases "e_status st0 = Canceled")
    case True
    with assms s0 same_record_adds show ?thesis by (simp add: engine_step_def st0_def[symmetric])
  next
    case False
    show ?thesis
    proof (cases "pair_items (exec_data item)")
      case (Inl e)
      with assms False s1 same_record_adds show ?thesis by (simp add: engine_step_def st0_def[symmetric])
    next
      case (Inr d)
      have "adds ?n ?k st (flow_state (process_item env w tk (item\<lparr>exec_data := d\<rparr>) ?st1))"
      proof -
        have "adds ?n (if filtered_out ?st1 ?n then 0 else 1) ?st1
            (flow_state (process_item env w tk (item\<lparr>exec_data := d\<rparr>) ?st1))"
          using process_item_adds[of "item\<lparr>exec_data := d\<rparr>" ?st1 env w tk] by simp
        from adds_trans[OF same_record_adds[OF s1, of ?n 0] this] f show ?thesis by simp
      qed
      with assms False Inr show ?thesis by (simp add: engine_step_def st0_def[symmetric])
    qed
  qed
qed

fun exit_state :: "exit \<Rightarrow> Engine" where
  "exit_state (Left st) = st"
| "exit_state (Thrown e st) = st"

lemma engine_step_empty: "e_stack st = [] \<Longrightarrow> engine_step env w tk st = Leave st"
  by (simp add: engine_step_def)

text \<open>
  One round records at most one run, of the node on top of the stack, at the end of
  that node's runs, and none if the node filter excludes it; no recorded run of any node is
  lost or changed, whether the round goes on, leaves the loop or throws.
\<close>

theorem engine_step_append_only:
  assumes "e_stack st = item # rest"
  shows "\<exists>ts. length ts \<le> 1 \<and> (filtered_out st (node_name (exec_node item)) \<longrightarrow> ts = []) \<and>
    (\<forall>m. runs_of (flow_state (engine_step env w tk st)) m =
           runs_of st m @ (if m = node_name (exec_node item) then ts else []))"
proof -
  from engine_step_adds[OF assms, of env w tk] obtain ts where
    "length ts \<le> (if filtered_out st (node_name (exec_node item)) then 0 else 1)"
    "\<forall>m. runs_of (flow_state (engine_step env w tk st)) m =
           runs_of st m @ (if m = node_name (exec_node item) then ts else [])"
    unfolding adds_def by (elim conjE exE)
  then show ?thesis by (intro exI[of _ ts]) (simp split: if_splits)
qed

lemma adds_loop:
  assumes "adds n (if filtered_out st n then 0 else 1) st st1"
  shows "filtered_out st1 m = filtered_out st m"
    and "\<exists>ts. runs_of st1 m = runs_of st m @ ts \<and> (filtered_out st m \<longrightarrow> ts = [])"
proof -
  from assms obtain ts where ts: "length ts \<le> (if filtered_out st n then 0 else 1)"
    "\<forall>m. runs_of st1 m = runs_of st m @ (if m = n then ts else [])"
    and sd: "startData (e_run st1) = startData (e_run st)"
    unfolding adds_def by (elim conjE exE)
  show "filtered_out st1 m = filtered_out st m" using sd by (simp add: filtered_out_def)
  show "\<exists>ts. runs_of st1 m = runs_of st m @ ts \<and> (filtered_out st m \<longrightarrow> ts = [])"
    using ts by (intro exI[of _ "if m = n then ts else []"]) auto
qed

lemma engine_step_records:
  "filtered_out (flow_state (engine_step env w tk st)) m = filtered_out st m \<and>
   (\<exists>ts. runs_of (flow_state (engine_step env w tk st)) m = runs_of st m @ ts \<and> (filtered_out st m \<longrightarrow> ts = []))"
proof (cases "e_stack st")
  case Nil
  then show ?thesis by (simp add: engine_step_empty)
next
  case (Cons item rest)
  from adds_loop[OF engine_step_adds[OF Cons, of env w tk], of m] show ?thesis by blast
qed

text \<open>
  C5: Over the whole loop, with any ticks and however it ends, the runs recorded before stay
  a prefix of those recorded at the end, and a node outside the node filter, when one is
  set, gets none.
\<close>

theorem engine_loop_append_only:
  assumes "engine_loop fuel env w ticks i st = Some x"
  shows "\<exists>ts. runs_of (exit_state x) m = runs_of st m @ ts \<and> (filtered_out st m \<longrightarrow> ts = [])"
  using assms
proof (induction fuel arbitrary: i st)
  case 0
  then show ?case by simp
next
  case (Suc fuel)
  note R = engine_step_records[of env w "ticks i" st m]
  show ?case
  proof (cases "engine_step env w (ticks i) st")
    case (Loop st1)
    with Suc.prems have l: "engine_loop fuel env w ticks (Suc i) st1 = Some x" by simp
    from R Loop obtain ts where ts: "runs_of st1 m = runs_of st m @ ts" "filtered_out st m \<longrightarrow> ts = []"
      "filtered_out st1 m = filtered_out st m" by auto
    from Suc.IH[OF l] obtain us where "runs_of (exit_state x) m = runs_of st1 m @ us" "filtered_out st1 m \<longrightarrow> us = []"
      by blast
    with ts show ?thesis by (intro exI[of _ "ts @ us"]) simp
  next
    case (Leave st1)
    with Suc.prems have "x = Left st1" by simp
    with Leave R show ?thesis by simp
  next
    case (Throw e st1)
    with Suc.prems have "x = Thrown e st1" by simp
    with Throw R show ?thesis by simp
  qed
qed

section \<open>A run of the sample workflow\<close>

definition sample_tick :: tick where
  "sample_tick = \<lparr>t_timeout = False, t_cancel = False, t_start = 0, t_end = 1, t_before = None, t_after = None\<rparr>"

definition sample_host :: host where
  "sample_host = \<lparr>h_restarted = False, h_before = None, h_final = None, h_canceledLate = False,
     h_startedAt = 0, h_stoppedAt = 9\<rparr>"

definition start_item :: "INode \<Rightarrow> IExecuteData" where
  "start_item n = \<lparr>exec_data = [(MainConn, [Val [empty_item]])], exec_node = n, exec_source = None\<rparr>"

definition start_at :: "INode \<Rightarrow> IRunExecutionData" where
  "start_at n = sample_exec\<lparr>startData := Some \<lparr>destinationNode = None, runNodeFilter = None\<rparr>,
     executionData := no_execution\<lparr>nodeExecutionStack := [start_item n]\<rparr>\<rparr>"

definition ok_env :: engine_env where
  "ok_env = sample_env (\<lambda>_. Inr (Val [Val [item_of ''x'']]))"

definition sample_engine :: Engine where
  "sample_engine = start_engine (start_at (mk_node ''T'' ''trigger''))"

lemma sample_run:
  "(case engine_loop 9 ok_env sample_workflow (\<lambda>_. sample_tick) 0 sample_engine of
      Some (Left st) \<Rightarrow> map (\<lambda>(n, runs). (n, length runs)) (e_runData st) =
         [(''T'', 1), (''B'', 1), (''A'', 1), (''M'', 1)] \<and> e_error st = None
    | _ \<Rightarrow> False)"
  by code_simp

lemma sample_stack: "e_stack sample_engine = [start_item (mk_node ''T'' ''trigger'')]"
  by (simp add: sample_engine_def start_engine_def start_at_def e_stack_def e_exec_def)

theorem engine_step_append_only_witness:
  "\<exists>ts. length ts \<le> 1 \<and>
     runs_of (flow_state (engine_step ok_env sample_workflow sample_tick sample_engine)) ''T'' = runs_of sample_engine ''T'' @ ts"
proof -
  from engine_step_append_only[OF sample_stack, of ok_env sample_workflow sample_tick]
  obtain ts where "length ts \<le> 1" and r: "\<forall>m. runs_of (flow_state (engine_step ok_env sample_workflow sample_tick sample_engine)) m =
      runs_of sample_engine m @ (if m = node_name (exec_node (start_item (mk_node ''T'' ''trigger''))) then ts else [])"
    by (elim exE conjE)
  moreover have "node_name (exec_node (start_item (mk_node ''T'' ''trigger''))) = ''T''"
    by (simp add: start_item_def mk_node_def)
  ultimately show ?thesis by (intro exI[of _ ts]) simp
qed

theorem engine_loop_append_only_witness:
  "\<exists>x. engine_loop 9 ok_env sample_workflow (\<lambda>_. sample_tick) 0 sample_engine = Some x \<and>
     (\<exists>ts. runs_of (exit_state x) ''T'' = runs_of sample_engine ''T'' @ ts)"
proof -
  obtain x where x: "engine_loop 9 ok_env sample_workflow (\<lambda>_. sample_tick) 0 sample_engine = Some x"
    using sample_run by (cases "engine_loop 9 ok_env sample_workflow (\<lambda>_. sample_tick) 0 sample_engine") auto
  from x engine_loop_append_only[OF x, of "''T''"] show ?thesis by blast
qed

section \<open>A node that fails\<close>

lemma frame_stack: "frame re re' \<Longrightarrow> nodeExecutionStack (executionData re') = nodeExecutionStack (executionData re)"
  by (simp add: frame_def)

text \<open>
  A node whose tries end with an error, and that is not set to continue, ends the loop:
  the failed run is recorded after the node's earlier runs with the error and no data, and
  the entry is back on top of the stack with everything that was below it, so that the
  execution can be started again from the failed node.
\<close>

theorem failed_node_restartable:
  assumes "run_tries env w item ri (e_run st) (e_clock st) = (False, ts)" and "ts_error ts = Some e"
    and "\<not> continues_on_error (exec_node item)" and "t_after tk = None"
  shows "\<exists>st' t. execute_item env w tk item ri st = Leave st' \<and> e_stack st' = item # e_stack st \<and>
    e_error st' = Some e \<and>
    runs_of st' (node_name (exec_node item)) = runs_of st (node_name (exec_node item)) @ [t] \<and>
    task_error t = Some e \<and> executionStatus t = Some StatusError \<and> task_data t = None"
proof -
  let ?n = "node_name (exec_node item)"
  let ?st1 = "st\<lparr>e_run := ts_exec ts, e_clock := ts_clock ts, e_error := ts_error ts\<rparr>"
  let ?t = "new_task tk item ts"
  let ?p = "push_run ?n ?t (open_runs ?n ?st1)"
  let ?q = "set_stack (item # e_stack ?p) ?p"
  note F = frame_run_tries[OF assms(1)]
  have stk: "e_stack ?p = e_stack st"
    unfolding push_run_fields open_runs_fields using frame_stack[OF F] by (simp add: e_stack_def e_exec_def)
  have runs: "runs_of ?p ?n = runs_of st ?n @ [?t]"
    using F by (simp add: runs_of_push_run runs_of_open_runs frame_def runs_of_def e_runData_def)
  have err: "e_error ?p = Some e"
    by (simp add: push_run_fields open_runs_fields assms(2))
  have ex: "execute_item env w tk item ri st =
      (if abort_error e then Leave ?q else Leave (log_hook (NodeExecuteAfter ?n) ?q))"
    using assms by (simp add: execute_item_def record_result_def Let_def with_hook_def)
  have q: "e_stack ?q = item # e_stack st" "e_error ?q = Some e" "runs_of ?q ?n = runs_of st ?n @ [?t]"
    using err runs by (simp_all add: stk runs_of_simps) (simp_all add: set_stack_def set_exec_def e_stack_def e_exec_def)
  have log: "e_stack (log_hook h s) = e_stack s" "e_error (log_hook h s) = e_error s"
      "runs_of (log_hook h s) = runs_of s" for h s
    by (simp_all add: runs_of_simps) (simp_all add: log_hook_def e_stack_def e_exec_def)
  have t: "task_error ?t = Some e" "executionStatus ?t = Some StatusError" "task_data ?t = None"
    by (simp_all add: new_task_def assms(2))
  show ?thesis
  proof (cases "abort_error e")
    case True
    with ex q t show ?thesis by (intro exI[of _ ?q] exI[of _ ?t]) simp
  next
    case False
    with ex q t show ?thesis by (intro exI[of _ "log_hook (NodeExecuteAfter ?n) ?q"] exI[of _ ?t]) (simp add: log)
  qed
qed

definition failing_env :: engine_env where
  "failing_env = sample_env (\<lambda>_. Inl \<lparr>err_name = ''NodeApiError'', err_message = ''x''\<rparr>)"

lemma failing_tries:
  "fst (run_tries failing_env sample_workflow (start_item (mk_node ''A'' ''set'')) 0 (e_run sample_engine) (e_clock sample_engine))
     = False \<and>
   ts_error (snd (run_tries failing_env sample_workflow (start_item (mk_node ''A'' ''set'')) 0 (e_run sample_engine)
     (e_clock sample_engine))) = Some \<lparr>err_name = ''NodeApiError'', err_message = ''x''\<rparr>"
  by code_simp

theorem failed_node_restartable_witness:
  "\<exists>st'. execute_item failing_env sample_workflow sample_tick (start_item (mk_node ''A'' ''set'')) 0 sample_engine = Leave st' \<and>
     e_stack st' = start_item (mk_node ''A'' ''set'') # e_stack sample_engine"
proof -
  let ?r = "run_tries failing_env sample_workflow (start_item (mk_node ''A'' ''set'')) 0 (e_run sample_engine) (e_clock sample_engine)"
  have r: "?r = (False, snd ?r)" using failing_tries by (metis prod.collapse)
  have "\<not> continues_on_error (exec_node (start_item (mk_node ''A'' ''set'')))" and "t_after sample_tick = None"
    by (simp_all add: continues_on_error_def start_item_def mk_node_def sample_tick_def)
  from failed_node_restartable[OF r _ this] failing_tries show ?thesis by blast
qed

end
