(* ===== verification/EngineOutcomes.thy ===== *)
theory EngineOutcomes
  imports EngineProperties
begin

text \<open>
  How an execution ends: cancellation, the status of the result, errors that a node was set
  to continue on; and what a partial run puts into the waiting entries.
\<close>

section \<open>Cancellation\<close>

text \<open>
  A cancellation or a timeout seen before a round stops the execution: nothing runs,
  nothing is recorded and no hook is called in that round, the stack stays as it is, and
  the result of the execution, if there is one, is not finished and has status canceled.
\<close>

theorem cancel_stops:
  assumes "t_timeout tk \<or> t_cancel tk" and "e_stack st \<noteq> []"
  shows "engine_step env w tk st = Leave (st\<lparr>e_status := Canceled\<rparr>) \<and>
    (\<forall>r. finish mode h (Left (st\<lparr>e_status := Canceled\<rparr>)) = Inr r \<longrightarrow> run_status r = Canceled \<and> \<not> run_finished r)"
proof
  show "engine_step env w tk st = Leave (st\<lparr>e_status := Canceled\<rparr>)"
    using assms by (auto simp: engine_step_def split: list.splits)
  have full: "run_status (getFullRunData mode h s) = e_status s" "\<not> run_finished (getFullRunData mode h s)" for s
    by (simp_all add: getFullRunData_def)
  have err: "run_status (set_result_error e r) = run_status r" "run_finished (set_result_error e r) = run_finished r"
    for e r by (simp_all add: set_result_error_def)
  have move: "run_status r' = run_status r \<and> run_finished r' = run_finished r" if "move_metadata_of r = Inr r'" for r r'
    using that by (auto simp: move_metadata_of_def res_bind_Inr)
  show "\<forall>r. finish mode h (Left (st\<lparr>e_status := Canceled\<rparr>)) = Inr r \<longrightarrow> run_status r = Canceled \<and> \<not> run_finished r"
  proof (intro allI impI)
    fix r assume r: "finish mode h (Left (st\<lparr>e_status := Canceled\<rparr>)) = Inr r"
    let ?s = "if h_canceledLate h then st\<lparr>e_status := Canceled, e_status := Canceled\<rparr> else st\<lparr>e_status := Canceled\<rparr>"
    have s: "?s = st\<lparr>e_status := Canceled\<rparr>" by simp
    obtain e where e: "(if e_status (st\<lparr>e_status := Canceled\<rparr>) = Canceled \<and> e_error (st\<lparr>e_status := Canceled\<rparr>) = None
        then Some cancel_error else e_error (st\<lparr>e_status := Canceled\<rparr>)) = Some e"
      by (cases "e_error st") auto
    have p: "(case processSuccessExecution mode h (Some e) (st\<lparr>e_status := Canceled\<rparr>) of
         Inr r \<Rightarrow> Inr r | Inl e \<Rightarrow> finishThrown mode h e (st\<lparr>e_status := Canceled\<rparr>)) = Inr r"
      using r unfolding finish_def exit.case finishLeft_def Let_def s e .
    show "run_status r = Canceled \<and> \<not> run_finished r"
    proof (cases "processSuccessExecution mode h (Some e) (st\<lparr>e_status := Canceled\<rparr>)")
      case (Inl e')
      with p have "finishThrown mode h e' (st\<lparr>e_status := Canceled\<rparr>) = Inr r" by simp
      then have "move_metadata_of (set_result_error e' (getFullRunData mode h (st\<lparr>e_status := Canceled\<rparr>))) = Inr r"
        by (auto simp: finishThrown_def lift_error_def split: sum.splits)
      from move[OF this] show ?thesis by (simp add: err full)
    next
      case (Inr r')
      then have "move_metadata_of (outcome mode h (Some e) (st\<lparr>e_status := Canceled\<rparr>)) = Inr r'"
        by (auto simp: processSuccessExecution_def split: sum.splits if_splits option.splits)
      from move[OF this] have "run_status r' = Canceled \<and> \<not> run_finished r'"
        by (simp add: outcome_def Let_def err full)
      with p Inr show ?thesis by simp
    qed
  qed
qed

section \<open>The result of a loop that was left\<close>

lemma moveNodeMetadata_fails:
  assumes "executionData re = executionData re'" and "runData (resultData re) = runData (resultData re')"
    and "moveNodeMetadata re = Inl e"
  shows "moveNodeMetadata re' = Inl e"
  using assms by (auto simp: moveNodeMetadata_def res_bind_def split: sum.splits)

lemma moveNodeMetadata_keeps:
  "moveNodeMetadata re = Inr re' \<Longrightarrow> result_error (resultData re') = result_error (resultData re)"
  by (auto simp: moveNodeMetadata_def res_bind_Inr)

text \<open>
  When the loop is left without a late cancellation and the last hook does not fail,
  the result says finished exactly if there was no error, no cancellation and no wait, and
  then its status is success; it waits exactly for the time the node asked for if there is
  one and no error; and an error of the last node is the error of the result.
\<close>

theorem finish_status:
  assumes "finish mode h (Left st) = Inr r" and "h_final h = None" and "\<not> h_canceledLate h"
  shows "(run_finished r \<longleftrightarrow> e_error st = None \<and> e_status st \<noteq> Canceled \<and> waitTill (e_run st) = None) \<and>
    (run_finished r \<longrightarrow> run_status r = Success) \<and>
    (e_error st = None \<and> e_status st \<noteq> Canceled \<longrightarrow> run_waitTill r = waitTill (e_run st) \<and>
       result_error (resultData (run_data r)) = result_error (resultData (e_run st))) \<and>
    (run_waitTill r \<noteq> None \<longrightarrow> run_status r = Waiting) \<and>
    (\<forall>e. e_error st = Some e \<longrightarrow> result_error (resultData (run_data r)) = Some e)"
proof -
  define ee where "ee = (if e_status st = Canceled \<and> e_error st = None then Some cancel_error else e_error st)"
  have p: "(case processSuccessExecution mode h ee st of
         Inr r \<Rightarrow> Inr r | Inl e \<Rightarrow> finishThrown mode h e st) = Inr r"
    using assms(1,3) by (simp add: finish_def finishLeft_def Let_def ee_def)
  obtain r0 where r0: "move_metadata_of (outcome mode h ee st) = Inr r0"
  proof (cases "move_metadata_of (outcome mode h ee st)")
    case (Inl e)
    have same: "executionData (run_data (outcome mode h ee st)) = executionData (e_run st)"
      "runData (resultData (run_data (outcome mode h ee st))) = runData (resultData (e_run st))"
      by (auto simp: outcome_def getFullRunData_def set_result_error_def Let_def split: option.splits)
    from Inl have m: "moveNodeMetadata (run_data (outcome mode h ee st)) = Inl e"
      by (auto simp: move_metadata_of_def res_bind_def split: sum.splits)
    have "moveNodeMetadata (run_data (set_result_error e' (getFullRunData mode h st))) = Inl e" for e'
      by (rule moveNodeMetadata_fails[OF _ _ m])
         (simp_all add: same set_result_error_def getFullRunData_def)
    then have "finishThrown mode h e' st = Inl (mk_error e)" for e'
      by (simp add: finishThrown_def lift_error_def move_metadata_of_def)
    moreover have "processSuccessExecution mode h ee st = Inl (mk_error e)"
      by (simp add: processSuccessExecution_def Inl)
    ultimately show ?thesis using p by simp
  next
    case (Inr r0)
    then show ?thesis by (rule that)
  qed
  have "processSuccessExecution mode h ee st = Inr r0"
    using r0 assms(2) by (simp add: processSuccessExecution_def split: option.split)
  with p have r: "r = r0" by simp
  from r0 obtain re where re: "moveNodeMetadata (run_data (outcome mode h ee st)) = Inr re"
    and rr: "r = (outcome mode h ee st)\<lparr>run_data := re\<rparr>"
    unfolding r move_metadata_of_def by (auto simp: res_bind_Inr)
  note K = moveNodeMetadata_keeps[OF re]
  have wt: "run_waitTill (outcome mode h ee st) = (if ee = None then waitTill (e_run st) else None)"
    and fin: "run_finished (outcome mode h ee st) = (ee = None \<and> waitTill (e_run st) = None)"
    and stat: "ee = None \<Longrightarrow> run_status (outcome mode h ee st) =
      (if waitTill (e_run st) = None then Success else Waiting)"
    and err: "result_error (resultData (run_data (outcome mode h ee st))) =
      (case ee of None \<Rightarrow> result_error (resultData (e_run st)) | Some e \<Rightarrow> Some e)"
    by (auto simp: outcome_def getFullRunData_def set_result_error_def Let_def split: option.splits)
  show ?thesis
    using wt fin stat err K by (auto simp: rr ee_def split: if_splits option.splits)
qed

theorem finish_status_witness:
  "\<exists>r. finish ModeManual sample_host (Left sample_engine) = Inr r \<and> run_finished r \<and> run_status r = Success"
proof -
  have "\<exists>r. finish ModeManual sample_host (Left sample_engine) = Inr r"
    by (rule not_isl_Inr) code_simp
  then obtain r where r: "finish ModeManual sample_host (Left sample_engine) = Inr r" ..
  have h: "h_final sample_host = None" "\<not> h_canceledLate sample_host" by (simp_all add: sample_host_def)
  have s: "e_error sample_engine = None" "e_status sample_engine \<noteq> Canceled" "waitTill (e_run sample_engine) = None"
    by (simp_all add: sample_engine_def start_engine_def start_at_def sample_exec_def)
  from finish_status[OF r h] s r show ?thesis by blast
qed

theorem cancel_stops_witness:
  "engine_step ok_env sample_workflow (sample_tick\<lparr>t_cancel := True\<rparr>) sample_engine =
     Leave (sample_engine\<lparr>e_status := Canceled\<rparr>)"
proof -
  have "t_timeout (sample_tick\<lparr>t_cancel := True\<rparr>) \<or> t_cancel (sample_tick\<lparr>t_cancel := True\<rparr>)"
    and "e_stack sample_engine \<noteq> []" by (simp_all add: sample_stack)
  from cancel_stops[OF this, of ok_env sample_workflow] show ?thesis by blast
qed

definition continuing_node :: INode where
  "continuing_node = (mk_node ''A'' ''set'')\<lparr>onError := Some ContinueRegularOutput\<rparr>"

definition one_node_workflow :: Workflow where
  "one_node_workflow = mk_workflow [(''A'', continuing_node)] [] (Some OrderV1)"

text \<open>
  A workflow whose last node fails and is set to continue with its regular output
  still ends with that error: the run of the node is recorded with the input passed on, but
  the variable with the error is only reset by another round, so the result carries the
  error, is not finished and keeps the status running.
\<close>

theorem continued_error_fails_workflow:
  "(case processRunExecutionData 5 failing_env (\<lambda>_ _ _. None) sample_host (\<lambda>_. sample_tick) one_node_workflow
        (start_at continuing_node) of
      Some (Inr r) \<Rightarrow>
        result_error (resultData (run_data r)) = Some \<lparr>err_name = ''NodeApiError'', err_message = ''x''\<rparr> \<and>
        \<not> run_finished r \<and> run_status r = Running \<and>
        map (\<lambda>(n, ts). (n, map (\<lambda>t. map (map (\<lambda>s. slot_truthy s) o snd) (the (task_data t))) ts))
            (runData (resultData (run_data r))) = [(''A'', [[[True]]])]
    | _ \<Rightarrow> False)"
  by code_simp

section \<open>Partial runs\<close>

text \<open>
  A partial run with two start nodes and a destination with two inputs makes the
  destination wait for four: the entry for the destination is filled once for every start
  node.
\<close>

theorem partial_run_duplicates_inputs:
  "(case start_partial sample_workflow []
        [\<lparr>start_name = ''A'', start_sourceData = None\<rparr>, \<lparr>start_name = ''B'', start_sourceData = None\<rparr>]
        (Some ''M'') None of
      Inr re \<Rightarrow> mainInputs sample_workflow ''M'' = Inr [[link ''A'' 0], [link ''B'' 0]] \<and>
        waiting_main (waitingExecution (executionData re)) ''M'' 0 = Some [Null, Null, Null, Null]
    | Inl _ \<Rightarrow> False)"
  by code_simp

end
