(* ===== verification/EngineInvariant.thy ===== *)
theory EngineInvariant
  imports EngineProperties
begin

text \<open>
  What it takes for a predicate on the state of the engine to be an invariant of the main
  loop, as the laws of a locale: it survives what a node may change, the recording of a run,
  the bookkeeping of a round, a push or pop of an item, the start of the next nodes and the
  release of a waiting one.  Inside the locale the rounds and the loop keep the predicate.
\<close>

locale engine_invariant =
  fixes env :: engine_env and w :: Workflow
    and I :: "Engine \<Rightarrow> bool" and J :: "IExecuteData \<Rightarrow> bool"
  assumes node_effect: "I st \<Longrightarrow> frame (e_run st) re \<Longrightarrow> I (st\<lparr>e_run := re, e_clock := c, e_error := er\<rparr>)"
    and logged: "I st \<Longrightarrow> I (log_hook h st)"
    and status: "I st \<Longrightarrow> I (st\<lparr>e_status := s\<rparr>)"
    and lastTry: "I st \<Longrightarrow> I (st\<lparr>e_lastTry := l\<rparr>)"
    and error: "I st \<Longrightarrow> I (st\<lparr>e_error := er\<rparr>)"
    and opened: "I st \<Longrightarrow> J item \<Longrightarrow> I (open_runs (node_name (exec_node item)) st)"
    and recorded: "I st \<Longrightarrow> J item \<Longrightarrow> I (push_run (node_name (exec_node item)) t st)"
    and popped: "I st \<Longrightarrow> e_stack st = item # rest \<Longrightarrow> I (set_stack rest st) \<and> J item"
    and pushed: "I st \<Longrightarrow> J item \<Longrightarrow> I (set_stack (item # e_stack st) st)"
    and requeued: "I st \<Longrightarrow> J item \<Longrightarrow> I (set_stack (e_stack st @ [item]) st)"
    and other_data: "J item \<Longrightarrow> J (item\<lparr>exec_data := d\<rparr>)"
    and continued: "I st \<Longrightarrow> J item \<Longrightarrow>
      addNextNodes w (node_name (exec_node item)) outs ri (e_runData st) (e_exec st) = Inr ed \<Longrightarrow>
      I (set_exec ed st)"
    and released: "I st \<Longrightarrow> releaseWaiting env w (e_exec st) = Inr ed \<Longrightarrow> I (set_exec ed st)"
begin

lemma hook:
  assumes "I st" and "I (log_hook h st) \<Longrightarrow> I (flow_state (k (log_hook h st)))"
  shows "I (flow_state (with_hook h f st k))"
  using assms logged by (cases f) (simp_all add: with_hook_def)

lemma continue_after_keeps:
  assumes "I st" and "J item"
  shows "I (flow_state (continue_after env w tk (node_name (exec_node item)) outs ri st))"
proof (cases "addNextNodes w (node_name (exec_node item)) outs ri (e_runData st) (e_exec st)")
  case (Inl e)
  with assms show ?thesis by (simp add: continue_after_def)
next
  case (Inr ed)
  let ?k = "\<lambda>st1. if e_stack st1 = [] \<and> waitingExecution (e_exec st1) \<noteq> []
            then (case releaseWaiting env w (e_exec st1) of
                    Inl e \<Rightarrow> Throw (mk_error e) st1
                  | Inr ed1 \<Rightarrow> Loop (set_exec ed1 st1))
            else Loop st1"
  have "I (flow_state (?k st1))" if "I st1" for st1
    using that released[OF that] by (cases "releaseWaiting env w (e_exec st1)") simp_all
  with continued[OF assms Inr] show ?thesis
    unfolding continue_after_def Inr sum.case by (intro hook)
qed

lemma store_result_keeps:
  assumes "I st" and "J item"
  shows "I (flow_state (store_result env w tk item ri task d st))"
proof (cases "case d of Val outs \<Rightarrow> merge_outputs outs | _ \<Rightarrow> Inl TypeError")
  case (Inl e)
  with assms show ?thesis by (simp add: store_result_def)
next
  case (Inr outs)
  let ?n = "node_name (exec_node item)"
  let ?st = "push_run ?n (task\<lparr>task_data := Some [(MainConn, outs)]\<rparr>) st"
  have st: "I ?st" using assms by (rule recorded)
  have 1: "I (flow_state (with_hook (NodeExecuteAfter ?n) (t_after tk) ?st
      (\<lambda>st2. Leave (set_stack (item # e_stack st2) st2))))"
    by (rule hook[OF st], unfold flow_state.simps) (rule pushed[OF _ assms(2)])
  have 2: "I (flow_state (with_hook (NodeExecuteAfter ?n) (t_after tk) ?st Loop))"
    by (rule hook[OF st]) simp
  have 3: "I (flow_state (continue_after env w tk ?n outs ri ?st))"
    by (rule continue_after_keeps[OF st assms(2)])
  show ?thesis unfolding store_result_def Inr sum.case Let_def
    using 1 2 3 by (simp split: if_split)
qed

lemma record_result_keeps:
  assumes "I st" and "J item"
  shows "I (flow_state (record_result env w tk item ri ts st))"
proof -
  let ?n = "node_name (exec_node item)"
  let ?st = "open_runs ?n st"
  have o: "I ?st" using assms by (rule opened)
  have store: "I (flow_state (store_result env w tk item ri task d ?st))" for task d
    by (rule store_result_keeps[OF o assms(2)])
  let ?p = "push_run ?n (new_task tk item ts) ?st"
  have q: "I (set_stack (item # e_stack ?p) ?p)"
    by (rule pushed[OF recorded[OF o assms(2)] assms(2)])
  have "I (flow_state (with_hook (NodeExecuteAfter ?n) (t_after tk) (set_stack (item # e_stack ?p) ?p) Leave))"
    by (rule hook[OF q]) simp
  with q store show ?thesis
    by (cases "ts_error ts") (simp_all add: record_result_def Let_def)
qed

lemma execute_item_keeps:
  assumes "I st" and "J item"
  shows "I (flow_state (execute_item env w tk item ri st))"
proof -
  obtain skip ts where r: "run_tries env w item ri (e_run st) (e_clock st) = (skip, ts)"
    by (cases "run_tries env w item ri (e_run st) (e_clock st)")
  have "I (st\<lparr>e_run := ts_exec ts, e_clock := ts_clock ts, e_error := ts_error ts\<rparr>)"
    by (rule node_effect[OF assms(1) frame_run_tries[OF r]])
  from this record_result_keeps[OF this assms(2)] r show ?thesis
    by (simp add: execute_item_def Let_def)
qed

lemma process_item_keeps:
  assumes "I st" and "J item"
  shows "I (flow_state (process_item env w tk item st))"
  unfolding process_item_def Let_def
proof (rule hook[OF assms(1)], goal_cases)
  case 1
  let ?st = "log_hook (NodeExecuteBefore (node_name (exec_node item))) st"
  have "I ((set_stack (e_stack ?st @ [item]) ?st)\<lparr>e_lastTry := l\<rparr>)" for l
    by (rule lastTry[OF requeued[OF 1 assms(2)]])
  with 1 execute_item_keeps[OF 1 assms(2)] show ?case
    by (cases "dataAvailable w item") simp_all
qed

lemma step:
  assumes "I st"
  shows "I (flow_state (engine_step env w tk st))"
proof (cases "e_stack st")
  case Nil
  with assms show ?thesis by (simp add: engine_step_def)
next
  case (Cons item rest)
  define st0 where "st0 = (if t_timeout tk \<or> t_cancel tk then st\<lparr>e_status := Canceled\<rparr> else st)"
  have s0: "I st0" using assms status by (simp add: st0_def)
  have "e_stack st0 = item # rest" using Cons by (simp add: st0_def e_stack_def e_exec_def)
  from popped[OF s0 this] have s1: "I ((set_stack rest st0)\<lparr>e_error := None\<rparr>)" and j: "J item"
    by (auto intro: error)
  note p = process_item_keeps[OF s1 other_data[OF j], of tk]
  show ?thesis
    using Cons s0 s1 p
    by (cases "pair_items (exec_data item)") (simp_all add: engine_step_def st0_def[symmetric] Let_def)
qed

lemma loop:
  "engine_loop fuel env w ticks i st = Some x \<Longrightarrow> I st \<Longrightarrow> I (exit_state x)"
proof (induction fuel arbitrary: i st)
  case 0
  then show ?case by simp
next
  case (Suc fuel)
  note S = step[OF Suc.prems(2), of "ticks i"]
  show ?case
  proof (cases "engine_step env w (ticks i) st")
    case (Loop st1)
    with Suc.prems have "engine_loop fuel env w ticks (Suc i) st1 = Some x" by simp
    from Suc.IH[OF this] S Loop show ?thesis by simp
  next
    case (Leave st1)
    with Suc.prems S show ?thesis by auto
  next
    case (Throw e st1)
    with Suc.prems S show ?thesis by auto
  qed
qed

end

end
