(* ===== verification/EngineWaiting.thy ===== *)
theory EngineWaiting
  imports EngineInvariant
begin

text \<open>
  The engine and the waiting entries: every round keeps their invariant, the search for a
  waiting node to release always ends, and what is released.
\<close>

section \<open>The next nodes\<close>

lemma candidates_mem:
  assumes "t \<in> set (candidates w n)"
  shows "\<exists>byType byIndex cs. obj_get (connectionsBySourceNode w) n = Some byType \<and>
    obj_get byType MainConn = Some byIndex \<and> (fst t, cs) \<in> set (enumerate 0 byIndex) \<and> snd t \<in> set cs"
proof (cases "obj_get (connectionsBySourceNode w) n")
  case None
  with assms show ?thesis by (simp add: candidates_def)
next
  case (Some byType)
  show ?thesis
  proof (cases "obj_get byType MainConn")
    case None
    with assms Some show ?thesis by (simp add: candidates_def)
  next
    case (Some byIndex)
    with assms \<open>obj_get (connectionsBySourceNode w) n = Some byType\<close> show ?thesis
      by (auto simp: candidates_def)
  qed
qed

lemma candidates_main_connection:
  assumes "well_typed (connectionsBySourceNode w)" and "t \<in> set (candidates w n)"
  shows "main_connection w n (fst t) (snd t)"
proof -
  from assms(2) obtain byType byIndex i cs where
    b: "obj_get (connectionsBySourceNode w) n = Some byType" "obj_get byType MainConn = Some byIndex"
      "(i, cs) \<in> set (enumerate 0 byIndex)" "snd t \<in> set cs" "fst t = i"
    using candidates_mem[OF assms(2)] by metis
  then have "(n, MainConn, fst t, snd t) \<in> set (all_connections (connectionsBySourceNode w))"
    unfolding all_connections_mem using obj_get_memD[OF b(1)] obj_get_memD[OF b(2)]
    by (auto simp: enumerate_mem)
  moreover from this assms(1) have "conn_type (snd t) = MainConn" unfolding well_typed_def by blast
  ultimately show ?thesis by (simp add: main_connection_def)
qed

lemma addNextNodes_waiting_inv:
  assumes "indexed w" and "well_typed (connectionsBySourceNode w)" and "waiting_inv w ed"
    and "addNextNodes w n outs ri rd ed = Inr ed'"
  shows "waiting_inv w ed'"
proof -
  have add: "waiting_inv w b" if "t \<in> set (candidates w n)" "waiting_inv w a" "add_target w n outs ri rd t a = Inr b" for t a b
    using addNode_waiting_inv[OF assms(1) candidates_main_connection[OF assms(2) that(1)] that(2)] that(3)
    by (simp add: add_target_def)
  show ?thesis
  proof (cases "executionOrder w = Some OrderV1")
    case True
    with assms(4) have "res_bind (res_fold (\<lambda>t _. check_target w t) (candidates w n) ()) (\<lambda>_.
        res_fold (add_target w n outs ri rd) (sort_targets w (filter (has_data_for w outs) (candidates w n))) ed) = Inr ed'"
      by (simp add: addNextNodes_def)
    then have f: "res_fold (add_target w n outs ri rd)
        (sort_targets w (filter (has_data_for w outs) (candidates w n))) ed = Inr ed'" by (rule res_bindE)
    show ?thesis
      by (rule res_fold_invariant[where I = "waiting_inv w", OF _ assms(3) f])
         (auto simp: sort_targets_def intro: add)
  next
    case False
    with assms(4) have f: "res_fold (add_checked w n outs ri rd) (candidates w n) ed = Inr ed'"
      by (simp add: addNextNodes_def)
    show ?thesis
    proof (rule res_fold_invariant[where I = "waiting_inv w", OF _ assms(3) f])
      fix t a b assume t: "t \<in> set (candidates w n)" "waiting_inv w a" "add_checked w n outs ri rd t a = Inr b"
      from t(3) have "(if has_data_for w outs t then add_target w n outs ri rd t a else Inr a) = Inr b"
        unfolding add_checked_def by (rule res_bindE)
      with t(1,2) show "waiting_inv w b" by (auto split: if_splits intro: add)
    qed
  qed
qed

section \<open>Releasing a waiting run\<close>

lemma removeWaiting_waiting_inv:
  assumes "removeWaiting n idx ed = Inr ed'" and "waiting_inv w ed"
  shows "waiting_inv w ed'"
  using removeWaiting_inv(1)[OF assms(1) waiting_inv_imp_but[OF assms(2)]] .

lemma releaseRun_waiting_inv:
  assumes "releaseRun w n node k idx m ed = Inr v" and "waiting_inv w ed" and "v = Released ed' \<or> v = Dropped ed'"
  shows "waiting_inv w ed'"
proof -
  from assms(1) obtain tdm where
    v: "(if \<exists>d \<in> set tdm. d \<noteq> []
       then (case obj_get (source_of ed) n of
               None \<Rightarrow> Inl TypeError
             | Some sources \<Rightarrow>
                 res_bind (removeWaiting n idx (ed\<lparr>nodeExecutionStack := nodeExecutionStack ed @
                   [\<lparr>exec_data = [(MainConn, map Val (tdm @ replicate (k - length tdm) []))],
                     exec_node = node, exec_source = obj_get sources idx\<rparr>]\<rparr>)) (\<lambda>ed'. Inr (Released ed')))
       else res_bind (removeWaiting n idx ed) (\<lambda>ed'. Inr (Dropped ed'))) = Inr v"
    unfolding releaseRun_def by (rule res_bindE)
  show ?thesis
  proof (cases "\<exists>d \<in> set tdm. d \<noteq> []")
    case True
    then obtain sources where "res_bind (removeWaiting n idx (ed\<lparr>nodeExecutionStack := nodeExecutionStack ed @
                   [\<lparr>exec_data = [(MainConn, map Val (tdm @ replicate (k - length tdm) []))],
                     exec_node = node, exec_source = obj_get sources idx\<rparr>]\<rparr>)) (\<lambda>ed'. Inr (Released ed')) = Inr v"
      using v by (auto split: option.splits)
    then obtain e where e: "removeWaiting n idx (ed\<lparr>nodeExecutionStack := nodeExecutionStack ed @
                   [\<lparr>exec_data = [(MainConn, map Val (tdm @ replicate (k - length tdm) []))],
                     exec_node = node, exec_source = obj_get sources idx\<rparr>]\<rparr>) = Inr e"
      and ve: "(Inr (Released e) :: js_error + verdict) = Inr v" by (rule res_bindE)
    have "ed' = e" using ve assms(3) by auto
    moreover have "waiting_inv w e" using removeWaiting_waiting_inv[OF e] assms(2) by simp
    ultimately show ?thesis by simp
  next
    case False
    then have "res_bind (removeWaiting n idx ed) (\<lambda>ed'. Inr (Dropped ed')) = Inr v" using v by simp
    then obtain e where e: "removeWaiting n idx ed = Inr e"
      and ve: "(Inr (Dropped e) :: js_error + verdict) = Inr v" by (rule res_bindE)
    have "ed' = e" using ve assms(3) by auto
    with removeWaiting_waiting_inv[OF e assms(2)] show ?thesis by simp
  qed
qed

text \<open>A node that is not skipped is released by \<open>releaseRun\<close>.\<close>

lemma releaseNode_run:
  assumes "releaseNode env w waitingNodes n ed = Inr v" and "v \<noteq> SkipNode"
  obtains node k idx m runs where "getNode w n = Some node" and "obj_get (waitingExecution ed) n = Some runs"
    and "firstRunIndex (obj_keys runs) = Some idx" and "waiting_main (waitingExecution ed) n idx = Some m"
    and "releaseRun w n node k idx m ed = Inr v"
    and "\<exists>nt. env_types env (node_type node) (typeVersion node) = Some nt \<and>
           k = inputs_length (type_inputs (description nt)) \<and>
           \<not> all_required (resolved_inputs env w node nt) k \<and>
           \<not> required_missing (resolved_inputs env w node nt) (inputs_with_data m)"
    and "\<forall>p \<in> set (getParentNodes w n (SelType MainConn) (-1)). p \<notin> set waitingNodes"
  using assms unfolding releaseNode_def Let_def
  by (auto simp: list_ex_iff split: option.splits if_splits)

lemma releaseNode_waiting_inv:
  assumes "releaseNode env w waitingNodes n ed = Inr v" and "waiting_inv w ed" and "v = Released ed' \<or> v = Dropped ed'"
  shows "waiting_inv w ed'"
proof -
  have "v \<noteq> SkipNode" using assms(3) by auto
  from releaseNode_run[OF assms(1) this] obtain node k idx m where "releaseRun w n node k idx m ed = Inr v" by metis
  from releaseRun_waiting_inv[OF this assms(2,3)] show ?thesis .
qed

lemma releaseScan_waiting_inv:
  assumes "releaseScan env w waitingNodes ns ed = Inr v" and "waiting_inv w ed" and "v = Released ed' \<or> v = Dropped ed'"
  shows "waiting_inv w ed'"
  using assms(1)
proof (induction ns)
  case Nil
  with assms(3) show ?case by auto
next
  case (Cons n ns)
  from Cons.prems have "res_bind (releaseNode env w waitingNodes n ed) (\<lambda>v.
       if v = SkipNode then releaseScan env w waitingNodes ns ed else Inr v) = Inr v" by simp
  then obtain v1 where v1: "releaseNode env w waitingNodes n ed = Inr v1"
    and rest: "(if v1 = SkipNode then releaseScan env w waitingNodes ns ed else Inr v1) = Inr v" by (rule res_bindE)
  show ?case
  proof (cases "v1 = SkipNode")
    case True
    with rest Cons.IH show ?thesis by simp
  next
    case False
    with rest have "v1 = v" by simp
    with releaseNode_waiting_inv[OF v1 assms(2)] assms(3) show ?thesis by simp
  qed
qed

lemma release_fuel_waiting_inv:
  "release_fuel fuel env w ed = Some (Inr ed') \<Longrightarrow> waiting_inv w ed \<Longrightarrow> waiting_inv w ed'"
proof (induction fuel arbitrary: ed)
  case 0
  then show ?case by simp
next
  case (Suc fuel)
  let ?ns = "obj_keys (waitingExecution ed)"
  show ?case
  proof (cases "releaseScan env w ?ns ?ns ed")
    case (Inl e)
    with Suc.prems show ?thesis by simp
  next
    case (Inr v)
    show ?thesis
    proof (cases v)
      case SkipNode
      with Inr Suc.prems show ?thesis by simp
    next
      case (Released e)
      with Inr Suc.prems have "ed' = e" by simp
      with releaseScan_waiting_inv[OF Inr Suc.prems(2), of e] Released show ?thesis by simp
    next
      case (Dropped e)
      with Inr Suc.prems have "release_fuel fuel env w e = Some (Inr ed')" by simp
      from Suc.IH[OF this] releaseScan_waiting_inv[OF Inr Suc.prems(2), of e] Dropped show ?thesis by simp
    qed
  qed
qed

lemma releaseWaiting_waiting_inv:
  assumes "releaseWaiting env w ed = Inr ed'" and "waiting_inv w ed"
  shows "waiting_inv w ed'"
proof (cases "release_fuel (Suc (waiting_count ed)) env w ed")
  case None
  with assms(1) show ?thesis by (simp add: releaseWaiting_def del: release_fuel.simps)
next
  case (Some r)
  with assms(1) have "r = Inr ed'" by (simp add: releaseWaiting_def del: release_fuel.simps)
  with Some release_fuel_waiting_inv assms(2) show ?thesis by blast
qed

section \<open>The loop keeps the waiting entries well formed\<close>

lemma frame_waiting_inv:
  "frame re re' \<Longrightarrow> waiting_inv w (executionData re) \<Longrightarrow> waiting_inv w (executionData re')"
  by (simp add: frame_def waiting_inv_def source_of_def)

lemma e_exec_simps [simp]:
  "e_exec (log_hook h st) = e_exec st" "e_exec (set_exec ed st) = ed"
  "e_exec (st\<lparr>e_status := x\<rparr>) = e_exec st" "e_exec (st\<lparr>e_lastTry := l\<rparr>) = e_exec st"
  "e_exec (st\<lparr>e_error := er\<rparr>) = e_exec st"
  "e_exec (set_stack s st) = (e_exec st)\<lparr>nodeExecutionStack := s\<rparr>"
  by (simp_all add: e_exec_def log_hook_def set_exec_def set_stack_def)

interpretation waiting_entries: engine_invariant env w
    "\<lambda>st. indexed w \<and> well_typed (connectionsBySourceNode w) \<and> waiting_inv w (e_exec st)" "\<lambda>_. True" for env w
proof unfold_locales
  fix st re c er assume "indexed w \<and> well_typed (connectionsBySourceNode w) \<and> waiting_inv w (e_exec st)"
    "frame (e_run st) re"
  then show "indexed w \<and> well_typed (connectionsBySourceNode w) \<and>
      waiting_inv w (e_exec (st\<lparr>e_run := re, e_clock := c, e_error := er\<rparr>))"
    using frame_waiting_inv by (simp add: e_exec_def)
next
  fix st item outs ri ed
  assume "indexed w \<and> well_typed (connectionsBySourceNode w) \<and> waiting_inv w (e_exec st)"
    "addNextNodes w (node_name (exec_node item)) outs ri (e_runData st) (e_exec st) = Inr ed"
  then show "indexed w \<and> well_typed (connectionsBySourceNode w) \<and> waiting_inv w (e_exec (set_exec ed st))"
    using addNextNodes_waiting_inv by simp blast
next
  fix st ed
  assume "indexed w \<and> well_typed (connectionsBySourceNode w) \<and> waiting_inv w (e_exec st)"
    "releaseWaiting env w (e_exec st) = Inr ed"
  then show "indexed w \<and> well_typed (connectionsBySourceNode w) \<and> waiting_inv w (e_exec (set_exec ed st))"
    using releaseWaiting_waiting_inv by simp
qed (simp_all add: engine_simps)

text \<open>
  C1: However the loop of the engine ends, the entries of the waiting nodes are well formed
  if they were at its start, whatever the nodes return and whatever the ticks are.
\<close>

theorem engine_loop_waiting_inv:
  assumes "indexed w" and "well_typed (connectionsBySourceNode w)" and "waiting_inv w (e_exec st)"
    and "engine_loop fuel env w ticks i st = Some x"
  shows "waiting_inv w (e_exec (exit_state x))"
  using waiting_entries.loop[OF assms(4)] assms(1-3) by blast

theorem engine_loop_waiting_inv_witness:
  "\<exists>x. engine_loop 9 ok_env sample_workflow (\<lambda>_. sample_tick) 0 sample_engine = Some x \<and>
     waiting_inv sample_workflow (e_exec (exit_state x))"
proof -
  have w: "waiting_inv sample_workflow (e_exec sample_engine)"
    using waiting_inv_no_execution by (simp add: sample_engine_def start_engine_def start_at_def e_exec_def)
  have typed: "well_typed (connectionsBySourceNode sample_workflow)" by code_simp
  obtain x where "engine_loop 9 ok_env sample_workflow (\<lambda>_. sample_tick) 0 sample_engine = Some x"
    using sample_run by (cases "engine_loop 9 ok_env sample_workflow (\<lambda>_. sample_tick) 0 sample_engine") auto
  with engine_loop_waiting_inv[OF sample_indexed _ w this] show ?thesis
    using typed by blast
qed

end
