(* ===== verification/WaitingRelease.thy ===== *)
theory WaitingRelease
  imports EngineWaiting
begin

text \<open>
  The release of a waiting node when nothing else is left to run: the search ends, because
  every empty run it drops makes the entries fewer, and what it puts on the stack.
\<close>

section \<open>The search ends\<close>

lemma removeWaiting_count:
  assumes "removeWaiting n idx ed = Inr ed'" and "obj_wf str_before (waitingExecution ed)"
    and "waiting_main (waitingExecution ed) n idx = Some m"
  shows "waiting_count ed' < waiting_count ed" and "obj_wf str_before (waitingExecution ed')"
proof -
  obtain runs where r: "obj_get (waitingExecution ed) n = Some runs"
    and e: "waitingExecution ed' = (if obj_del idx runs = [] then obj_del n (waitingExecution ed)
       else str_put n (obj_del idx runs) (waitingExecution ed))"
    by (rule removeWaiting_eq[OF assms(1)]) (rule that, assumption, simp)
  have "idx \<in> fst ` set runs"
    using assms(3) r by (auto simp: waiting_main_def obj_get_def split: option.splits dest: map_of_SomeD intro: rev_image_eqI)
  then have l: "length (obj_del idx runs) < length runs"
    unfolding obj_del_def by (auto intro!: length_filter_less)
  note P = sum_obj_put[OF assms(2) r, of length "obj_del idx runs"]
  note D = sum_obj_del[OF assms(2) r, of length]
  show "waiting_count ed' < waiting_count ed"
    using P D l by (auto simp: waiting_count_def e)
  show "obj_wf str_before (waitingExecution ed')"
    using assms(2) by (simp add: e sobj.wf_put sobj.wf_del)
qed

lemma releaseRun_dropped:
  assumes "releaseRun w n node k idx m ed = Inr (Dropped ed')"
  shows "removeWaiting n idx ed = Inr ed'"
proof -
  from assms obtain tdm where
    v: "(if \<exists>d \<in> set tdm. d \<noteq> []
       then (case obj_get (source_of ed) n of
               None \<Rightarrow> Inl TypeError
             | Some sources \<Rightarrow>
                 res_bind (removeWaiting n idx (ed\<lparr>nodeExecutionStack := nodeExecutionStack ed @
                   [\<lparr>exec_data = [(MainConn, map Val (tdm @ replicate (k - length tdm) []))],
                     exec_node = node, exec_source = obj_get sources idx\<rparr>]\<rparr>)) (\<lambda>ed'. Inr (Released ed')))
       else res_bind (removeWaiting n idx ed) (\<lambda>ed'. Inr (Dropped ed'))) = Inr (Dropped ed')"
    unfolding releaseRun_def by (rule res_bindE)
  then have "res_bind (removeWaiting n idx ed) (\<lambda>ed'. Inr (Dropped ed')) = (Inr (Dropped ed') :: js_error + verdict)"
    by (auto simp: res_bind_Inr split: if_splits option.splits)
  then show ?thesis by (rule res_bindE) simp
qed

text \<open>What the scan of the waiting nodes finds is found at one of them.\<close>

lemma releaseScan_node:
  assumes "releaseScan env w waitingNodes ns ed = Inr v" and "v \<noteq> SkipNode"
  shows "\<exists>n \<in> set ns. releaseNode env w waitingNodes n ed = Inr v"
  using assms(1)
proof (induction ns)
  case Nil
  with assms(2) show ?case by simp
next
  case (Cons n ns)
  from Cons.prems have "res_bind (releaseNode env w waitingNodes n ed) (\<lambda>v.
       if v = SkipNode then releaseScan env w waitingNodes ns ed else Inr v) = Inr v" by simp
  then obtain v1 where v1: "releaseNode env w waitingNodes n ed = Inr v1"
    and rest: "(if v1 = SkipNode then releaseScan env w waitingNodes ns ed else Inr v1) = Inr v" by (rule res_bindE)
  show ?case
  proof (cases "v1 = SkipNode")
    case True
    with rest Cons.IH show ?thesis by auto
  next
    case False
    with rest v1 show ?thesis by auto
  qed
qed

lemma releaseScan_dropped:
  assumes "releaseScan env w waitingNodes ns ed = Inr (Dropped ed')" and "obj_wf str_before (waitingExecution ed)"
  shows "waiting_count ed' < waiting_count ed" and "obj_wf str_before (waitingExecution ed')"
proof -
  from releaseScan_node[OF assms(1)] obtain n where "releaseNode env w waitingNodes n ed = Inr (Dropped ed')" by auto
  from releaseNode_run[OF this] obtain node k idx m where m: "waiting_main (waitingExecution ed) n idx = Some m"
    and r: "releaseRun w n node k idx m ed = Inr (Dropped ed')" by (metis verdict.distinct(3))
  note R = removeWaiting_count[OF releaseRun_dropped[OF r] assms(2) m]
  show "waiting_count ed' < waiting_count ed" and "obj_wf str_before (waitingExecution ed')" using R by auto
qed

lemma release_fuel_enough:
  "waiting_count ed < fuel \<Longrightarrow> obj_wf str_before (waitingExecution ed) \<Longrightarrow>
   \<exists>r. release_fuel fuel env w ed = Some r"
proof (induction fuel arbitrary: ed)
  case 0
  then show ?case by simp
next
  case (Suc fuel)
  let ?ns = "obj_keys (waitingExecution ed)"
  show ?case
  proof (cases "releaseScan env w ?ns ?ns ed")
    case (Inl e)
    then show ?thesis by simp
  next
    case (Inr v)
    show ?thesis
    proof (cases v)
      case (Dropped ed')
      note D = releaseScan_dropped[OF Inr[unfolded Dropped] Suc.prems(2)]
      with Suc.prems(1) have "waiting_count ed' < fuel" by simp
      from Suc.IH[OF this D(2)] Inr Dropped show ?thesis by simp
    qed (simp_all add: Inr)
  qed
qed

section \<open>What is released\<close>

definition fill_slot :: "items slot \<Rightarrow> items slot" where
  "fill_slot s = (case s of Val its \<Rightarrow> Val its | _ \<Rightarrow> Val [])"

lemma task_data_main_fill: "task_data_main m = Inr tdm \<Longrightarrow> map Val tdm = map fill_slot m"
proof (induction m arbitrary: tdm)
  case Nil
  then show ?case by simp
next
  case (Cons s m)
  then obtain r where "task_data_main m = Inr r" "map Val tdm = fill_slot s # map Val r"
    by (cases s) (auto simp: res_bind_Inr fill_slot_def)
  with Cons.IH show ?case by simp
qed

definition shrinks :: "ExecutionData \<Rightarrow> ExecutionData \<Rightarrow> bool" where
  "shrinks ed ed' \<longleftrightarrow>
     (\<forall>n idx m. waiting_main (waitingExecution ed') n idx = Some m \<longrightarrow> waiting_main (waitingExecution ed) n idx = Some m)"

definition released_run :: "engine_env \<Rightarrow> Workflow \<Rightarrow> ExecutionData \<Rightarrow> ExecutionData \<Rightarrow> IExecuteData \<Rightarrow> bool" where
  "released_run env w ed ed' item \<longleftrightarrow>
     (\<exists>n idx m nt. waiting_main (waitingExecution ed) n idx = Some m \<and>
        waiting_main (waitingExecution ed') n idx = None \<and>
        getNode w n = Some (exec_node item) \<and>
        env_types env (node_type (exec_node item)) (typeVersion (exec_node item)) = Some nt \<and>
        exec_data item = [(MainConn, map fill_slot m @
          replicate (inputs_length (type_inputs (description nt)) - length m) (Val []))] \<and>
        (\<exists>its. Val its \<in> set m \<and> its \<noteq> []) \<and>
        (\<forall>p \<in> set (getParentNodes w n (SelType MainConn) (-1)). \<forall>i. waiting_main (waitingExecution ed') p i = None))"

lemma removeWaiting_shrinks:
  assumes "removeWaiting n idx ed = Inr ed'" and "waiting_inv w ed"
  shows "shrinks ed ed'" and "waiting_main (waitingExecution ed') n idx = None"
    and "nodeExecutionStack ed' = nodeExecutionStack ed"
  using removeWaiting_inv(2,3)[OF assms(1) waiting_inv_imp_but[OF assms(2)]]
  by (auto simp: shrinks_def)

lemma releaseRun_released:
  assumes "releaseRun w n node k idx m ed = Inr (Released ed')" and "waiting_inv w ed"
  shows "\<exists>source. nodeExecutionStack ed' = nodeExecutionStack ed @
      [\<lparr>exec_data = [(MainConn, map fill_slot m @ replicate (k - length m) (Val []))],
        exec_node = node, exec_source = source\<rparr>] \<and>
    (\<exists>its. Val its \<in> set m \<and> its \<noteq> []) \<and>
    shrinks ed ed' \<and> waiting_main (waitingExecution ed') n idx = None"
proof -
  from assms(1) obtain tdm where t: "task_data_main m = Inr tdm" and
    v: "(if \<exists>d \<in> set tdm. d \<noteq> []
       then (case obj_get (source_of ed) n of
               None \<Rightarrow> Inl TypeError
             | Some sources \<Rightarrow>
                 res_bind (removeWaiting n idx (ed\<lparr>nodeExecutionStack := nodeExecutionStack ed @
                   [\<lparr>exec_data = [(MainConn, map Val (tdm @ replicate (k - length tdm) []))],
                     exec_node = node, exec_source = obj_get sources idx\<rparr>]\<rparr>)) (\<lambda>ed'. Inr (Released ed')))
       else res_bind (removeWaiting n idx ed) (\<lambda>ed'. Inr (Dropped ed'))) = Inr (Released ed')"
    unfolding releaseRun_def by (rule res_bindE)
  note fill = task_data_main_fill[OF t]
  have len: "length tdm = length m" using arg_cong[OF fill, of length] by simp
  from v obtain sources where d: "\<exists>d \<in> set tdm. d \<noteq> []" and b: "res_bind (removeWaiting n idx (ed\<lparr>nodeExecutionStack := nodeExecutionStack ed @
                   [\<lparr>exec_data = [(MainConn, map Val (tdm @ replicate (k - length tdm) []))],
                     exec_node = node, exec_source = obj_get sources idx\<rparr>]\<rparr>)) (\<lambda>ed'. Inr (Released ed')) = Inr (Released ed')"
    by (auto simp: res_bind_Inr split: if_splits option.splits)
  from b have rm: "removeWaiting n idx (ed\<lparr>nodeExecutionStack := nodeExecutionStack ed @
                   [\<lparr>exec_data = [(MainConn, map Val (tdm @ replicate (k - length tdm) []))],
                     exec_node = node, exec_source = obj_get sources idx\<rparr>]\<rparr>) = Inr ed'"
    by (rule res_bindE) simp
  from d obtain its where "its \<in> set tdm" "its \<noteq> []" by blast
  then have "Val its \<in> set (map fill_slot m)" unfolding fill[symmetric] by simp
  then obtain s where "s \<in> set m" "fill_slot s = Val its" by auto
  with \<open>its \<noteq> []\<close> have "Val its \<in> set m" by (auto simp: fill_slot_def split: slot.splits)
  with \<open>its \<noteq> []\<close> have some: "\<exists>its. Val its \<in> set m \<and> its \<noteq> []" by blast
  note R = removeWaiting_shrinks[OF rm, of w]
  show ?thesis
    using R some assms(2) by (auto simp: shrinks_def fill len)
qed

lemma releaseNode_released:
  assumes "releaseNode env w (obj_keys (waitingExecution ed)) n ed = Inr (Released ed')" and "waiting_inv w ed"
  shows "\<exists>item. nodeExecutionStack ed' = nodeExecutionStack ed @ [item] \<and> shrinks ed ed' \<and> released_run env w ed ed' item"
proof -
  from assms(1) obtain node k idx m nt where g: "getNode w n = Some node"
    and m: "waiting_main (waitingExecution ed) n idx = Some m"
    and r: "releaseRun w n node k idx m ed = Inr (Released ed')"
    and t: "env_types env (node_type node) (typeVersion node) = Some nt" "k = inputs_length (type_inputs (description nt))"
    and p: "\<forall>p \<in> set (getParentNodes w n (SelType MainConn) (-1)). p \<notin> set (obj_keys (waitingExecution ed))"
    by (rule releaseNode_run) auto
  from releaseRun_released[OF r assms(2)] obtain source where
    s: "nodeExecutionStack ed' = nodeExecutionStack ed @
      [\<lparr>exec_data = [(MainConn, map fill_slot m @ replicate (k - length m) (Val []))],
        exec_node = node, exec_source = source\<rparr>]"
    "\<exists>its. Val its \<in> set m \<and> its \<noteq> []" "shrinks ed ed'" "waiting_main (waitingExecution ed') n idx = None" by blast
  have "waiting_main (waitingExecution ed') q i = None" if "q \<in> set (getParentNodes w n (SelType MainConn) (-1))" for q i
  proof -
    from that p have "waiting_main (waitingExecution ed) q i = None"
      by (auto simp: waiting_main_def obj_keys_get split: option.splits)
    with s(3) show ?thesis unfolding shrinks_def by (metis not_None_eq)
  qed
  then have "released_run env w ed ed' \<lparr>exec_data = [(MainConn, map fill_slot m @ replicate (k - length m) (Val []))],
        exec_node = node, exec_source = source\<rparr>"
    unfolding released_run_def
    by (intro exI[of _ n] exI[of _ idx] exI[of _ m] exI[of _ nt]) (use s g m t in auto)
  with s(1,3) show ?thesis by blast
qed

lemma shrinks_refl: "shrinks ed ed" by (simp add: shrinks_def)

lemma shrinks_trans: "shrinks a b \<Longrightarrow> shrinks b c \<Longrightarrow> shrinks a c"
  unfolding shrinks_def by blast

lemma released_run_mono: "shrinks a b \<Longrightarrow> released_run env w b c item \<Longrightarrow> released_run env w a c item"
  unfolding released_run_def shrinks_def by blast

lemma release_fuel_spec:
  "release_fuel fuel env w ed = Some (Inr ed') \<Longrightarrow> waiting_inv w ed \<Longrightarrow>
   shrinks ed ed' \<and> (nodeExecutionStack ed' = nodeExecutionStack ed \<or>
     (\<exists>item. nodeExecutionStack ed' = nodeExecutionStack ed @ [item] \<and> released_run env w ed ed' item))"
proof (induction fuel arbitrary: ed)
  case 0
  then show ?case by simp
next
  case (Suc fuel)
  let ?ns = "obj_keys (waitingExecution ed)"
  show ?case
  proof (cases "releaseScan env w ?ns ?ns ed")
    case (Inl e)
    with Suc.prems show ?thesis by simp
  next
    case (Inr v)
    show ?thesis
    proof (cases v)
      case SkipNode
      with Inr Suc.prems show ?thesis by (simp add: shrinks_refl)
    next
      case (Released e)
      with Inr Suc.prems have "ed' = e" by simp
      from releaseScan_node[OF Inr] Released obtain n where "releaseNode env w ?ns n ed = Inr (Released e)" by auto
      from releaseNode_released[OF this Suc.prems(2)] \<open>ed' = e\<close> show ?thesis by blast
    next
      case (Dropped e)
      with Inr Suc.prems have f: "release_fuel fuel env w e = Some (Inr ed')" by simp
      from releaseScan_node[OF Inr] Dropped obtain n where "releaseNode env w ?ns n ed = Inr (Dropped e)" by auto
      from releaseNode_run[OF this] obtain node k idx m where "releaseRun w n node k idx m ed = Inr (Dropped e)"
        by (metis verdict.distinct(3))
      note D = removeWaiting_shrinks[OF releaseRun_dropped[OF this] Suc.prems(2)]
      have "waiting_inv w e" by (rule releaseScan_waiting_inv[OF Inr Suc.prems(2)]) (simp add: Dropped)
      from Suc.IH[OF f this] D shrinks_trans released_run_mono show ?thesis by metis
    qed
  qed
qed

text \<open>
  C2: When the stack is empty and nodes still wait, the search for one to release ends
  (its fuel, one more than the number of waiting runs, is enough).  It changes no waiting
  run other than by removing it, and releases at most one: a run with data for at least
  one input, of a node none of whose parents waits, with an empty list for every input
  that has no data.
\<close>

theorem releaseWaiting_correct:
  assumes "obj_wf str_before (waitingExecution ed)" and "waiting_inv w ed"
  shows "(\<exists>r. release_fuel (Suc (waiting_count ed)) env w ed = Some r) \<and>
    (releaseWaiting env w ed = Inr ed' \<longrightarrow>
       shrinks ed ed' \<and> (nodeExecutionStack ed' = nodeExecutionStack ed \<or>
         (\<exists>item. nodeExecutionStack ed' = nodeExecutionStack ed @ [item] \<and> released_run env w ed ed' item)))"
proof -
  from release_fuel_enough[OF _ assms(1), of "Suc (waiting_count ed)" env w]
  obtain r where r: "release_fuel (Suc (waiting_count ed)) env w ed = Some r" by blast
  then have "releaseWaiting env w ed = r" unfolding releaseWaiting_def by (simp del: release_fuel.simps)
  with r release_fuel_spec[OF _ assms(2), of "Suc (waiting_count ed)" env ed'] show ?thesis by auto
qed

text \<open>The merge node waits for its second input, which no node will bring.\<close>

definition half_merge :: ExecutionData where
  "half_merge = no_execution\<lparr>
     waitingExecution := [(''M'', [(0, [(MainConn, [Val [item_of ''x''], Null])])])],
     waitingExecutionSource := Some [(''M'', [(0, [(MainConn, [Val (mk_source ''A'' 0 0), Null])])])]\<rparr>"

lemma half_merge_ok: "obj_wf str_before (waitingExecution half_merge)" "waiting_inv sample_workflow half_merge"
proof -
  show "obj_wf str_before (waitingExecution half_merge)" by (simp add: half_merge_def obj_wf_def obj_keys_def)
  show "waiting_inv sample_workflow half_merge"
    using sample_inputs(1)
    by (auto simp: waiting_inv_def half_merge_def tidy_def source_of_def waiting_main_def obj_get_def obj_wf_def obj_keys_def
        split: if_splits option.splits)
qed

theorem releaseWaiting_correct_witness:
  "\<exists>ed' item. releaseWaiting ok_env sample_workflow half_merge = Inr ed' \<and>
     nodeExecutionStack ed' = [item] \<and> released_run ok_env sample_workflow half_merge ed' item"
proof -
  have "\<not> isl (releaseWaiting ok_env sample_workflow half_merge)" by code_simp
  then obtain ed' where r: "releaseWaiting ok_env sample_workflow half_merge = Inr ed'" using not_isl_Inr by blast
  have "case_sum (\<lambda>_. 0) (\<lambda>ed. length (nodeExecutionStack ed)) (releaseWaiting ok_env sample_workflow half_merge) = 1"
    by code_simp
  with r have "length (nodeExecutionStack ed') = 1" by simp
  moreover have "nodeExecutionStack half_merge = []" by (simp add: half_merge_def no_execution_def)
  ultimately show ?thesis
    using releaseWaiting_correct[OF half_merge_ok, of ok_env ed'] r by auto
qed

end
