(* ===== verification/EngineReach.thy ===== *)
theory EngineReach
  imports WaitingRelease
begin

text \<open>
  Which nodes an execution can reach: under execution order v1 only nodes that are
  connected, over main connections, behind the ones it starts with.
\<close>

section \<open>Confined to a set of nodes\<close>

definition confined :: "string set \<Rightarrow> ExecutionData \<Rightarrow> bool" where
  "confined R ed \<longleftrightarrow>
     (\<forall>item \<in> set (nodeExecutionStack ed). node_name (exec_node item) \<in> R) \<and>
     (\<forall>n. obj_get (waitingExecution ed) n \<noteq> None \<longrightarrow> n \<in> R)"

lemma confined_put [intro]:
  "confined R ed \<Longrightarrow> n \<in> R \<Longrightarrow> confined R (ed\<lparr>waitingExecution := str_put n v (waitingExecution ed)\<rparr>)"
  by (auto simp: confined_def)

lemma confined_fields [simp]:
  "confined R (ed\<lparr>waitingExecutionSource := s\<rparr>) = confined R ed"
  "confined R (ed\<lparr>waitingExecution := x, waitingExecutionSource := s\<rparr>) = confined R (ed\<lparr>waitingExecution := x\<rparr>)"
  by (simp_all add: confined_def)

lemma waiting_update_put:
  "waiting_update n idx f ob = Inr ob' \<Longrightarrow> \<exists>v. ob' = str_put n v ob"
  by (auto simp: waiting_update_def split: option.splits)

lemma waiting_open_put:
  "waiting_open n idx k ob = Inr ob' \<Longrightarrow> \<exists>v. ob' = str_put n v ob"
  by (auto simp: waiting_open_def split: option.splits)

lemma prepare_confined:
  assumes "prepareWaitingToExecution n k idx ed = Inr ed'" and "confined R ed" and "n \<in> R"
  shows "confined R ed'"
proof -
  from assms(1) obtain we ws where "waiting_open n idx k (waitingExecution ed) = Inr we"
    and "ed' = ed\<lparr>waitingExecution := we, waitingExecutionSource := Some ws\<rparr>"
    by (auto simp: prepareWaitingToExecution_def res_bind_Inr)
  with waiting_open_put assms(2,3) show ?thesis by (metis confined_fields(2) confined_put)
qed

lemma openNode_confined: "confined R ed \<Longrightarrow> n \<in> R \<Longrightarrow> confined R (openNode n ed)"
  by (simp add: openNode_def confined_put)

lemma openWaitingEntry_confined:
  assumes "openWaitingEntry w c ed = Inr (idx, was, ed')" and "confined R ed" and "conn_node c \<in> R"
  shows "confined R ed'"
proof -
  have o: "confined R (openNode (conn_node c) ed)" by (rule openNode_confined[OF assms(2,3)])
  from assms(1) obtain found where
    r: "(case found of
             Some idx \<Rightarrow> Inr (idx, obj_get (waitingExecution ed) (conn_node c) \<noteq> None, openNode (conn_node c) ed)
           | None \<Rightarrow>
               res_bind (mainInputs w (conn_node c)) (\<lambda>inputs.
               res_bind (prepareWaitingToExecution (conn_node c) (length inputs)
                  (length (waitingRuns (conn_node c) (openNode (conn_node c) ed))) (openNode (conn_node c) ed)) (\<lambda>ed2.
                 Inr (length (waitingRuns (conn_node c) (openNode (conn_node c) ed)),
                   obj_get (waitingExecution ed) (conn_node c) \<noteq> None, ed2)))) = Inr (idx, was, ed')"
    unfolding openWaitingEntry_def Let_def by (rule res_bindE)
  show ?thesis
  proof (cases found)
    case None
    with r obtain k i where "prepareWaitingToExecution (conn_node c) k i (openNode (conn_node c) ed) = Inr ed'"
      by (auto simp: res_bind_Inr)
    from prepare_confined[OF this o assms(3)] show ?thesis .
  next
    case (Some i)
    with r o show ?thesis by auto
  qed
qed

lemma addWaitingData_confined:
  assumes "addWaitingData w c oi p out ri ed = Inr (idx, was, ed')" and "confined R ed" and "conn_node c \<in> R"
  shows "confined R ed'"
proof -
  from assms(1) obtain ed1 we ws where o: "openWaitingEntry w c ed = Inr (idx, was, ed1)"
    and u: "waiting_update (conn_node c) idx
       (\<lambda>m. arr_set m (conn_index c) (success_slot out oi)) (waitingExecution ed1) = Inr we"
    and e: "ed' = ed1\<lparr>waitingExecution := we, waitingExecutionSource := Some ws\<rparr>"
    by (auto simp: addWaitingData_def res_bind_Inr)
  from openWaitingEntry_confined[OF o assms(2,3)] waiting_update_put[OF u] assms(3) show ?thesis
    by (auto simp: e)
qed

lemma removeWaiting_confined:
  assumes "removeWaiting n idx ed = Inr ed'" and "confined R ed"
  shows "confined R ed'"
  by (rule removeWaiting_eq[OF assms(1)]) (use assms(2) in \<open>auto simp: confined_def\<close>)

lemma enqueue_confined:
  "confined R ed \<Longrightarrow> node_name (exec_node item) \<in> R \<Longrightarrow> confined R (enqueue w item ed)"
  by (auto simp: confined_def enqueue_stack)

lemma stack_item_named:
  "stack_item w n d s = Inr item \<Longrightarrow> named w \<Longrightarrow> node_name (exec_node item) = n"
  by (auto simp: stack_item_def named_def split: option.splits)

lemma addSiblingInputs_v1:
  assumes "executionOrder w = Some OrderV1" and "addSiblingInputs w c oi p out ri rd ed = Inr ed'"
  shows "ed' = ed"
proof -
  have same: "addSiblingInput w oi p out ri rd chk c' e = Inr e' \<Longrightarrow> e' = e" for chk c' e e'
    using assms(1) by (auto simp: addSiblingInput_def forceInputNodeExecution_def Let_def res_bind_Inr split: if_splits)
  from assms(2) obtain chk inputs where
    f: "res_fold (addSiblingInput w oi p out ri rd chk) (concat inputs) ed = Inr ed'"
    unfolding addSiblingInputs_def by (auto simp: res_bind_Inr)
  show ?thesis
    by (rule res_fold_invariant[where I = "\<lambda>e. e = ed", OF _ refl f]) (auto dest: same)
qed

lemma addNode_confined:
  assumes "executionOrder w = Some OrderV1" and "named w"
    and "addNodeToBeExecuted w c oi p out ri rd ed = Inr ed'" and "confined R ed" and "conn_node c \<in> R"
  shows "confined R ed'"
proof -
  from assms(3) obtain inputs where i: "mainInputs w (conn_node c) = Inr inputs"
    and r: "(if length inputs > 1 then
       res_bind (addWaitingData w c oi p out ri ed)
         (\<lambda>(idx, nodeWasWaiting, ed1).
         case waiting_main (waitingExecution ed1) (conn_node c) idx of
           None \<Rightarrow> Inl TypeError
         | Some m \<Rightarrow>
             if allDataFound m then enqueueWaiting w (conn_node c) idx ed1
             else res_bind
               (if nodeWasWaiting then Inr ed1
                else addSiblingInputs w c oi p out ri rd ed1)
               (keepWaiting w c oi p out ri idx))
     else addDirectly w c oi p out ri ed) = Inr ed'"
    unfolding addNodeToBeExecuted_def by (rule res_bindE)
  show ?thesis
  proof (cases "length inputs > 1")
    case False
    with r obtain item where "stack_item w (conn_node c) [(MainConn, arr_set (replicate (Suc (conn_index c)) Null)
            (conn_index c) (success_slot out oi))] (Some [(MainConn, [Val (mk_source p oi ri)])]) = Inr item"
      and "ed' = enqueue w item ed"
      by (auto simp: addDirectly_def Let_def res_bind_Inr)
    with stack_item_named[OF _ assms(2)] assms(4,5) show ?thesis by (metis enqueue_confined)
  next
    case True
    with r have "res_bind (addWaitingData w c oi p out ri ed)
         (\<lambda>(idx, nodeWasWaiting, ed1).
         case waiting_main (waitingExecution ed1) (conn_node c) idx of
           None \<Rightarrow> Inl TypeError
         | Some m \<Rightarrow>
             if allDataFound m then enqueueWaiting w (conn_node c) idx ed1
             else res_bind
               (if nodeWasWaiting then Inr ed1
                else addSiblingInputs w c oi p out ri rd ed1)
               (keepWaiting w c oi p out ri idx)) = Inr ed'" by simp
    then obtain x where x: "addWaitingData w c oi p out ri ed = Inr x"
      and y: "(case x of (idx, nodeWasWaiting, ed1) \<Rightarrow>
         case waiting_main (waitingExecution ed1) (conn_node c) idx of
           None \<Rightarrow> Inl TypeError
         | Some m \<Rightarrow>
             if allDataFound m then enqueueWaiting w (conn_node c) idx ed1
             else res_bind
               (if nodeWasWaiting then Inr ed1
                else addSiblingInputs w c oi p out ri rd ed1)
               (keepWaiting w c oi p out ri idx)) = Inr ed'" by (rule res_bindE)
    obtain idx was ed1 where p: "x = (idx, was, ed1)" by (cases x)
    have c1: "confined R ed1" by (rule addWaitingData_confined[OF x[unfolded p] assms(4,5)])
    from y p obtain m where z: "(if allDataFound m then enqueueWaiting w (conn_node c) idx ed1
             else res_bind
               (if was then Inr ed1
                else addSiblingInputs w c oi p out ri rd ed1)
               (keepWaiting w c oi p out ri idx)) = Inr ed'"
      by (auto split: option.splits)
    show ?thesis
    proof (cases "allDataFound m")
      case True
      with z obtain item d s where "stack_item w (conn_node c) d s = Inr item"
        and "removeWaiting (conn_node c) idx (enqueue w item ed1) = Inr ed'"
        by (auto simp: enqueueWaiting_def res_bind_Inr split: option.splits)
      with stack_item_named[OF _ assms(2)] assms(5) c1 show ?thesis
        by (metis enqueue_confined removeWaiting_confined)
    next
      case False
      with z obtain ed2 where s: "(if was then Inr ed1 else addSiblingInputs w c oi p out ri rd ed1) = Inr ed2"
        and k: "keepWaiting w c oi p out ri idx ed2 = Inr ed'" by (auto simp: res_bind_Inr)
      from s addSiblingInputs_v1[OF assms(1)] have "ed2 = ed1" by (auto split: if_splits)
      with k obtain inp ed3 we ws f where pr: "prepareWaitingToExecution (conn_node c) inp idx ed1 = Inr ed3"
        and u: "waiting_update (conn_node c) idx f (waitingExecution ed3) = Inr we"
        and e: "ed' = ed3\<lparr>waitingExecution := we, waitingExecutionSource := Some ws\<rparr>"
        unfolding keepWaiting_def Let_def by (auto simp: res_bind_Inr)
      from prepare_confined[OF pr c1 assms(5)] waiting_update_put[OF u] assms(5) show ?thesis
        by (auto simp: e)
    qed
  qed
qed

section \<open>Confined to what is reachable\<close>

definition closed :: "Workflow \<Rightarrow> string set \<Rightarrow> bool" where
  "closed w R \<longleftrightarrow> edges (SelType MainConn) (connectionsBySourceNode w) `` R \<subseteq> R"

lemma candidate_in:
  assumes "closed w R" and "n \<in> R" and "t \<in> set (candidates w n)"
  shows "conn_node (snd t) \<in> R"
proof -
  from candidates_mem[OF assms(3)] obtain byType byIndex cs where
    h: "obj_get (connectionsBySourceNode w) n = Some byType" "obj_get byType MainConn = Some byIndex"
      "(fst t, cs) \<in> set (enumerate 0 byIndex)" "snd t \<in> set cs" by blast
  then have "cs \<in> set byIndex" by (auto simp: enumerate_mem)
  with h(4) have "conn_node (snd t) \<in> conn_node ` set (concat byIndex)" by auto
  with h have "(n, conn_node (snd t)) \<in> edges (SelType MainConn) (connectionsBySourceNode w)"
    by (simp add: edges_def target_names_def sel_types_def)
  with assms(1,2) show ?thesis unfolding closed_def by blast
qed

lemma addNextNodes_confined:
  assumes "executionOrder w = Some OrderV1" and "named w" and "closed w R" and "confined R ed" and "n \<in> R"
    and "addNextNodes w n outs ri rd ed = Inr ed'"
  shows "confined R ed'"
proof -
  from assms(1,6) have "res_bind (res_fold (\<lambda>t _. check_target w t) (candidates w n) ()) (\<lambda>_.
        res_fold (add_target w n outs ri rd) (sort_targets w (filter (has_data_for w outs) (candidates w n))) ed) = Inr ed'"
    by (simp add: addNextNodes_def)
  then have f: "res_fold (add_target w n outs ri rd)
        (sort_targets w (filter (has_data_for w outs) (candidates w n))) ed = Inr ed'" by (rule res_bindE)
  show ?thesis
  proof (rule res_fold_invariant[where I = "confined R", OF _ assms(4) f])
    fix t a b assume "t \<in> set (sort_targets w (filter (has_data_for w outs) (candidates w n)))"
      "confined R a" "add_target w n outs ri rd t a = Inr b"
    then show "confined R b"
      using addNode_confined[OF assms(1,2) _ _ candidate_in[OF assms(3,5)]]
      by (auto simp: sort_targets_def add_target_def)
  qed
qed

lemma releaseRun_confined:
  assumes "releaseRun w n node k idx m ed = Inr v" and "confined R ed" and "node_name node \<in> R"
    and "v = Released ed' \<or> v = Dropped ed'"
  shows "confined R ed'"
proof -
  from assms(1) obtain tdm where
    "(if \<exists>d \<in> set tdm. d \<noteq> []
       then (case obj_get (source_of ed) n of
               None \<Rightarrow> Inl TypeError
             | Some sources \<Rightarrow>
                 res_bind (removeWaiting n idx (ed\<lparr>nodeExecutionStack := nodeExecutionStack ed @
                   [\<lparr>exec_data = [(MainConn, map Val (tdm @ replicate (k - length tdm) []))],
                     exec_node = node, exec_source = obj_get sources idx\<rparr>]\<rparr>)) (\<lambda>ed'. Inr (Released ed')))
       else res_bind (removeWaiting n idx ed) (\<lambda>ed'. Inr (Dropped ed'))) = Inr v"
    unfolding releaseRun_def by (rule res_bindE)
  then obtain s where "removeWaiting n idx (ed\<lparr>nodeExecutionStack := s\<rparr>) = Inr ed'"
    and s: "set s \<subseteq> set (nodeExecutionStack ed) \<union> {item. exec_node item = node}"
    using assms(4)
    by (fastforce simp: res_bind_Inr split: if_splits option.splits intro: that[of "nodeExecutionStack ed"])
  moreover have "confined R (ed\<lparr>nodeExecutionStack := s\<rparr>)"
    using assms(2,3) s by (auto simp: confined_def)
  ultimately show ?thesis using removeWaiting_confined by blast
qed

lemma releaseScan_confined:
  assumes "releaseScan env w waitingNodes ns ed = Inr v" and "named w" and "confined R ed"
    and "v = Released ed' \<or> v = Dropped ed'"
  shows "confined R ed'"
proof -
  have v: "v \<noteq> SkipNode" using assms(4) by auto
  from releaseScan_node[OF assms(1) v] obtain n where "releaseNode env w waitingNodes n ed = Inr v" by blast
  from releaseNode_run[OF this v] obtain node k idx m runs where "getNode w n = Some node"
    and r: "releaseRun w n node k idx m ed = Inr v" and g: "obj_get (waitingExecution ed) n = Some runs" by metis
  then have "node_name node = n" using assms(2) by (simp add: named_def getNode_def)
  moreover have "n \<in> R" using assms(3) g unfolding confined_def by simp
  ultimately show ?thesis using releaseRun_confined[OF r assms(3) _ assms(4)] by simp
qed

lemma release_fuel_confined:
  "release_fuel fuel env w ed = Some (Inr ed') \<Longrightarrow> named w \<Longrightarrow> confined R ed \<Longrightarrow> confined R ed'"
proof (induction fuel arbitrary: ed)
  case 0
  then show ?case by simp
next
  case (Suc fuel)
  let ?ns = "obj_keys (waitingExecution ed)"
  show ?case
  proof (cases "releaseScan env w ?ns ?ns ed")
    case (Inl e)
    with Suc.prems show ?thesis by simp
  next
    case (Inr v)
    note C = releaseScan_confined[OF Inr Suc.prems(2,3)]
    from Inr Suc C show ?thesis by (cases v) auto
  qed
qed

lemma releaseWaiting_confined:
  assumes "releaseWaiting env w ed = Inr ed'" and "named w" and "confined R ed"
  shows "confined R ed'"
proof (cases "release_fuel (Suc (waiting_count ed)) env w ed")
  case None
  with assms(1) show ?thesis by (simp add: releaseWaiting_def del: release_fuel.simps)
next
  case (Some r)
  with assms(1) have "r = Inr ed'" by (simp add: releaseWaiting_def del: release_fuel.simps)
  with Some release_fuel_confined assms(2,3) show ?thesis by blast
qed

section \<open>The rounds of the engine\<close>

definition reach_state :: "Workflow \<Rightarrow> string set \<Rightarrow> string set \<Rightarrow> Engine \<Rightarrow> bool" where
  "reach_state w R D st \<longleftrightarrow>
     executionOrder w = Some OrderV1 \<and> named w \<and> closed w R \<and> confined R (e_exec st) \<and>
     (\<forall>n. obj_get (e_runData st) n \<noteq> None \<longrightarrow> n \<in> R \<union> D)"

lemma e_runData_simps [simp]:
  "e_runData (log_hook h st) = e_runData st" "e_runData (set_exec ed st) = e_runData st"
  "e_runData (st\<lparr>e_status := x\<rparr>) = e_runData st" "e_runData (st\<lparr>e_lastTry := l\<rparr>) = e_runData st"
  "e_runData (st\<lparr>e_error := er\<rparr>) = e_runData st" "e_runData (set_stack s st) = e_runData st"
  by (simp_all add: e_runData_def log_hook_def set_exec_def set_stack_def)

lemma runData_keys:
  "obj_get (e_runData (push_run m t st)) n \<noteq> None \<longleftrightarrow> n = m \<or> obj_get (e_runData st) n \<noteq> None"
  "obj_get (e_runData (open_runs m st)) n \<noteq> None \<longleftrightarrow> n = m \<or> obj_get (e_runData st) n \<noteq> None"
  by (auto simp: e_runData_def push_run_def open_runs_def set_runData_def)

lemma frame_confined: "frame re re' \<Longrightarrow> confined R (executionData re) \<Longrightarrow> confined R (executionData re')"
  by (simp add: frame_def confined_def)

lemma confined_stack:
  "confined R ed \<Longrightarrow> (\<And>item. item \<in> set s \<Longrightarrow> node_name (exec_node item) \<in> R) \<Longrightarrow>
   confined R (ed\<lparr>nodeExecutionStack := s\<rparr>)"
  by (simp add: confined_def)

interpretation reachable: engine_invariant env w "reach_state w R D" "\<lambda>item. node_name (exec_node item) \<in> R" for env w R D
proof unfold_locales
  fix st re c er assume "reach_state w R D st" "frame (e_run st) re"
  then show "reach_state w R D (st\<lparr>e_run := re, e_clock := c, e_error := er\<rparr>)"
    using frame_confined[of "e_run st" re R] by (simp add: reach_state_def e_exec_def e_runData_def frame_def)
next
  fix st item outs ri ed
  assume "reach_state w R D st" "node_name (exec_node item) \<in> R"
    "addNextNodes w (node_name (exec_node item)) outs ri (e_runData st) (e_exec st) = Inr ed"
  then show "reach_state w R D (set_exec ed st)"
    using addNextNodes_confined by (simp add: reach_state_def) blast
next
  fix st ed assume "reach_state w R D st" "releaseWaiting env w (e_exec st) = Inr ed"
  then show "reach_state w R D (set_exec ed st)"
    using releaseWaiting_confined by (auto simp: reach_state_def)
next
  fix st item rest assume s: "reach_state w R D st" "e_stack st = item # rest"
  then have "node_name (exec_node x) \<in> R" if "x \<in> set (item # rest)" for x
    using that by (auto simp: reach_state_def confined_def e_stack_def)
  with s(1) show "reach_state w R D (set_stack rest st) \<and> node_name (exec_node item) \<in> R"
    by (simp add: reach_state_def confined_stack)
qed (auto simp: reach_state_def engine_simps runData_keys e_stack_def simp del: not_None_eq
      intro!: confined_stack, auto simp: confined_def)

text \<open>
  C3: Under execution order v1 an execution only runs nodes that its main connections
  lead to: if everything on the stack and waiting at the start lies in a set of nodes that
  is closed under the connections, then every node with a recorded run at the end lies in it
  or had a run before.
\<close>

theorem engine_loop_reachable:
  assumes "executionOrder w = Some OrderV1" and "named w"
    and "edges (SelType MainConn) (connectionsBySourceNode w) `` R \<subseteq> R"
    and "\<forall>item \<in> set (e_stack st). node_name (exec_node item) \<in> R"
    and "\<forall>n. obj_get (waitingExecution (e_exec st)) n \<noteq> None \<longrightarrow> n \<in> R"
    and "engine_loop fuel env w ticks i st = Some x"
    and "obj_get (e_runData (exit_state x)) n \<noteq> None"
  shows "n \<in> R \<or> obj_get (e_runData st) n \<noteq> None"
proof -
  have "reach_state w R {n. obj_get (e_runData st) n \<noteq> None} st"
    using assms(1-5) by (simp add: reach_state_def closed_def confined_def e_stack_def del: not_None_eq)
  from reachable.loop[OF assms(6) this] assms(7) show ?thesis
    by (auto simp: reach_state_def simp del: not_None_eq)
qed

lemma sample_closed:
  "edges (SelType MainConn) (connectionsBySourceNode sample_workflow) `` {''A'', ''M''} \<subseteq> {''A'', ''M''}"
  by (auto simp: edges_def sample_workflow_def mk_workflow_def sample_connections_def obj_get_def target_names_def
      sel_types_def link_def split: if_splits)

definition branch_engine :: Engine where
  "branch_engine = start_engine (start_at (mk_node ''A'' ''set''))"

theorem engine_loop_reachable_witness:
  "\<exists>x. engine_loop 9 ok_env sample_workflow (\<lambda>_. sample_tick) 0 branch_engine = Some x \<and>
     obj_get (e_runData (exit_state x)) ''B'' = None"
proof -
  have "case engine_loop 9 ok_env sample_workflow (\<lambda>_. sample_tick) 0 branch_engine of Some x \<Rightarrow> True | None \<Rightarrow> False"
    by code_simp
  then obtain x where x: "engine_loop 9 ok_env sample_workflow (\<lambda>_. sample_tick) 0 branch_engine = Some x"
    by (auto split: option.splits)
  have v1: "executionOrder sample_workflow = Some OrderV1" by (simp add: sample_workflow_def mk_workflow_def)
  have st: "\<forall>item \<in> set (e_stack branch_engine). node_name (exec_node item) \<in> {''A'', ''M''}"
    "\<forall>n. obj_get (waitingExecution (e_exec branch_engine)) n \<noteq> None \<longrightarrow> n \<in> {''A'', ''M''}"
    "obj_get (e_runData branch_engine) ''B'' = None"
    by (simp_all add: branch_engine_def start_engine_def start_at_def e_stack_def e_exec_def e_runData_def
        start_item_def mk_node_def no_execution_def sample_exec_def)
  have "obj_get (e_runData (exit_state x)) ''B'' = None"
  proof (rule ccontr)
    assume "obj_get (e_runData (exit_state x)) ''B'' \<noteq> None"
    from engine_loop_reachable[OF v1 sample_named sample_closed st(1,2) x this] st(3) show False by simp
  qed
  with x show ?thesis by blast
qed

end
