(* ===== verification/ConcurrencyQueue.thy ===== *)
theory ConcurrencyQueue
  imports WorkflowTypes
begin

text \<open>
  packages/cli/src/concurrency: the queue that limits how many production executions run at
  once, and the service that decides which executions pass through it.  What the rest of
  the server relies on is stated as the interface of an admission gate, which the queue
  implements as long as only running executions give their place back.
\<close>

section \<open>The queue\<close>

record ConcurrencyQueue =
  capacity :: int
  cq_queue :: "string list"

datatype ConcurrencyEvent = ConcurrencyCheck int | ExecutionThrottled string | ExecutionReleased string

definition new_queue :: "int \<Rightarrow> ConcurrencyQueue" where
  "new_queue limit = \<lparr>capacity = limit, cq_queue = []\<rparr>"

text \<open>
  The operations return the events they emit.  The last result of \<open>cq_enqueue\<close> says whether
  the promise is resolved at once; that of the others is the execution whose promise they
  resolve.
\<close>

definition cq_enqueue :: "string \<Rightarrow> ConcurrencyQueue \<Rightarrow> ConcurrencyQueue \<times> ConcurrencyEvent list \<times> bool" where
  "cq_enqueue executionId q =
     (let q1 = q\<lparr>capacity := capacity q - 1\<rparr>
      in if capacity q1 < 0
         then (q1\<lparr>cq_queue := cq_queue q1 @ [executionId]\<rparr>,
               [ConcurrencyCheck (capacity q1), ExecutionThrottled executionId], False)
         else (q1, [ConcurrencyCheck (capacity q1)], True))"

definition resolveNext :: "ConcurrencyQueue \<Rightarrow> ConcurrencyQueue \<times> ConcurrencyEvent list \<times> string option" where
  "resolveNext q =
     (case cq_queue q of
        [] \<Rightarrow> (q, [], None)
      | e # es \<Rightarrow> (q\<lparr>cq_queue := es\<rparr>, [ExecutionReleased e], Some e))"

definition cq_dequeue :: "ConcurrencyQueue \<Rightarrow> ConcurrencyQueue \<times> ConcurrencyEvent list \<times> string option" where
  "cq_dequeue q = resolveNext (q\<lparr>capacity := capacity q + 1\<rparr>)"

definition cq_remove :: "string \<Rightarrow> ConcurrencyQueue \<Rightarrow> ConcurrencyQueue \<times> ConcurrencyEvent list \<times> string option" where
  "cq_remove executionId q =
     (if executionId \<in> set (cq_queue q)
      then resolveNext (q\<lparr>cq_queue := remove1 executionId (cq_queue q), capacity := capacity q + 1\<rparr>)
      else (q, [], None))"

definition cq_getAll :: "ConcurrencyQueue \<Rightarrow> string list" where
  "cq_getAll q = dedupe_list (cq_queue q)"

text \<open>How many places are taken: the limit less the capacity, not counting those that wait.\<close>

definition cq_held :: "int \<Rightarrow> ConcurrencyQueue \<Rightarrow> int" where
  "cq_held limit q = limit - capacity q - int (length (cq_queue q))"

definition cq_ok :: "int \<Rightarrow> ConcurrencyQueue \<Rightarrow> bool" where
  "cq_ok limit q \<longleftrightarrow> 0 \<le> cq_held limit q \<and> cq_held limit q \<le> limit \<and> (cq_queue q \<noteq> [] \<longrightarrow> cq_held limit q = limit)"

section \<open>The interface of an admission gate\<close>

text \<open>
  Entering is let through while fewer than the limit hold a place and waits otherwise; a
  place given back goes to the one that waits longest.
\<close>

inductive admissions ::
    "(string \<Rightarrow> 's \<Rightarrow> 's \<times> bool) \<Rightarrow> ('s \<Rightarrow> 's \<times> string option) \<Rightarrow> ('s \<Rightarrow> int) \<Rightarrow> 's \<Rightarrow>
     string list \<Rightarrow> string list \<Rightarrow> 's \<Rightarrow> bool"
  for enter :: "string \<Rightarrow> 's \<Rightarrow> 's \<times> bool" and leave :: "'s \<Rightarrow> 's \<times> string option"
    and held :: "'s \<Rightarrow> int" and start :: 's where
  adm_start: "admissions enter leave held start [] [] start"
| adm_enter: "admissions enter leave held start entered admitted s \<Longrightarrow> enter e s = (s', b) \<Longrightarrow>
    admissions enter leave held start (entered @ [e]) (if b then admitted @ [e] else admitted) s'"
| adm_leave: "admissions enter leave held start entered admitted s \<Longrightarrow> 0 < held s \<Longrightarrow> leave s = (s', r) \<Longrightarrow>
    admissions enter leave held start entered (case r of None \<Rightarrow> admitted | Some e \<Rightarrow> admitted @ [e]) s'"

locale admission =
  fixes limit :: int
    and enter :: "string \<Rightarrow> 's \<Rightarrow> 's \<times> bool"
    and leave :: "'s \<Rightarrow> 's \<times> string option"
    and held :: "'s \<Rightarrow> int"
    and waiters :: "'s \<Rightarrow> string list"
    and start :: 's
  assumes positive: "0 < limit"
    and start_empty: "held start = 0" "waiters start = []"
    and let_through: "waiters s = [] \<Longrightarrow> held s < limit \<Longrightarrow> enter e s = (s', b) \<Longrightarrow>
      b \<and> held s' = held s + 1 \<and> waiters s' = []"
    and made_to_wait: "held s = limit \<Longrightarrow> enter e s = (s', b) \<Longrightarrow>
      \<not> b \<and> held s' = limit \<and> waiters s' = waiters s @ [e]"
    and handed_over: "waiters s = e # es \<Longrightarrow> leave s = (s', r) \<Longrightarrow>
      r = Some e \<and> held s' = held s \<and> waiters s' = es"
    and set_free: "waiters s = [] \<Longrightarrow> leave s = (s', r) \<Longrightarrow> r = None \<and> held s' = held s - 1 \<and> waiters s' = []"
begin

lemma bounded_and_fair:
  "admissions enter leave held start entered admitted s \<Longrightarrow>
   0 \<le> held s \<and> held s \<le> limit \<and> (waiters s \<noteq> [] \<longrightarrow> held s = limit) \<and> entered = admitted @ waiters s"
proof (induction rule: admissions.induct)
  case adm_start
  with positive start_empty show ?case by simp
next
  case (adm_enter entered admitted s e s' b)
  show ?case
  proof (cases "held s = limit")
    case True
    from made_to_wait[OF this adm_enter.hyps(2)] adm_enter.IH positive show ?thesis by simp
  next
    case False
    with adm_enter.IH have "waiters s = []" "held s < limit" by auto
    from let_through[OF this adm_enter.hyps(2)] adm_enter.IH \<open>held s < limit\<close> \<open>waiters s = []\<close> show ?thesis by simp
  qed
next
  case (adm_leave entered admitted s s' r)
  show ?case
  proof (cases "waiters s")
    case Nil
    from set_free[OF this adm_leave.hyps(3)] adm_leave.IH adm_leave.hyps(2) Nil show ?thesis by simp
  next
    case (Cons e es)
    from handed_over[OF this adm_leave.hyps(3)] adm_leave.IH Cons show ?thesis by simp
  qed
qed

end

section \<open>The queue implements it\<close>

definition cq_enter :: "string \<Rightarrow> ConcurrencyQueue \<Rightarrow> ConcurrencyQueue \<times> bool" where
  "cq_enter e q = (let (q', _, b) = cq_enqueue e q in (q', b))"

definition cq_leave :: "ConcurrencyQueue \<Rightarrow> ConcurrencyQueue \<times> string option" where
  "cq_leave q = (let (q', _, r) = cq_dequeue q in (q', r))"

lemmas cq_defs = cq_enter_def cq_leave_def cq_enqueue_def cq_dequeue_def resolveNext_def cq_held_def

interpretation gate: admission "int (Suc n)" cq_enter cq_leave "cq_held (int (Suc n))" cq_queue "new_queue (int (Suc n))"
  for n
  by unfold_locales (auto simp: cq_defs new_queue_def Let_def split: list.splits if_splits)

text \<open>
  C34: With a limit of at least one and places given back only by executions that hold one,
  the queue never lets more executions run than its limit, makes one wait only while all
  places are taken, and admits the executions in the order in which they came.
\<close>

theorem concurrency_queue_correct:
  assumes "admissions cq_enter cq_leave (cq_held limit) (new_queue limit) entered admitted q" and "0 < limit"
  shows "0 \<le> cq_held limit q \<and> cq_held limit q \<le> limit \<and> (cq_queue q \<noteq> [] \<longrightarrow> cq_held limit q = limit) \<and>
    entered = admitted @ cq_queue q"
proof -
  from assms(2) obtain n where "limit = int (Suc n)" by (metis Suc_pred zero_less_imp_eq_int of_nat_0_less_iff)
  then show ?thesis using assms(1) by (metis gate.bounded_and_fair)
qed

lemma two_of_three:
  "\<exists>q. admissions cq_enter cq_leave (cq_held 1) (new_queue 1) [''a'', ''b'', ''c''] [''a'', ''b''] q"
proof -
  let ?S = "\<lambda>c ws. \<lparr>capacity = c, cq_queue = ws\<rparr>"
  have "admissions cq_enter cq_leave (cq_held 1) (new_queue 1) [] [] (?S 1 [])"
    using adm_start[of cq_enter cq_leave "cq_held 1" "new_queue 1"] by (simp add: new_queue_def)
  from adm_enter[OF this, of "''a''" "?S 0 []" True]
  have "admissions cq_enter cq_leave (cq_held 1) (new_queue 1) [''a''] [''a''] (?S 0 [])" by (simp add: cq_defs)
  from adm_enter[OF this, of "''b''" "?S (-1) [''b'']" False]
  have "admissions cq_enter cq_leave (cq_held 1) (new_queue 1) [''a'', ''b''] [''a''] (?S (-1) [''b''])" by (simp add: cq_defs)
  from adm_enter[OF this, of "''c''" "?S (-2) [''b'', ''c'']" False]
  have "admissions cq_enter cq_leave (cq_held 1) (new_queue 1) [''a'', ''b'', ''c''] [''a''] (?S (-2) [''b'', ''c''])"
    by (simp add: cq_defs)
  from adm_leave[OF this, of "?S (-1) [''c'']" "Some ''b''"] show ?thesis by (auto simp: cq_defs)
qed

theorem concurrency_queue_correct_witness:
  "\<exists>q. cq_held 1 q \<le> 1 \<and> cq_queue q = [''c'']"
proof -
  from two_of_three obtain q where
    q: "admissions cq_enter cq_leave (cq_held 1) (new_queue 1) [''a'', ''b'', ''c''] [''a'', ''b''] q" ..
  from concurrency_queue_correct[OF q] show ?thesis by auto
qed

text \<open>
  Removing an execution that waits lets the next one start although none has ended:
  with a limit of one, two run.
\<close>

theorem remove_exceeds_limit:
  "(let (q1, _, a) = cq_enqueue ''a'' (new_queue 1);
        (q2, _, b) = cq_enqueue ''b'' q1;
        (q3, _, c) = cq_enqueue ''c'' q2;
        (q4, _, released) = cq_remove ''b'' q3
    in a \<and> \<not> b \<and> \<not> c \<and> released = Some ''c'' \<and> cq_held 1 q4 = 2 \<and> cq_getAll q4 = [])"
  by code_simp

end
