(* ===== verification/ActiveExecutions.thy ===== *)
theory ActiveExecutions
  imports ConcurrencyQueue
begin

text \<open>
  packages/cli/src/concurrency/concurrency-control.service.ts and
  packages/cli/src/active-executions.ts: which executions are throttled, and the list of
  the executions of this process.  An \<open>add\<close> suspends twice, at the throttle and at the
  database, so it is split into the steps between the suspensions; an execution between
  them is pending.
\<close>

section \<open>The concurrency control service\<close>

record ControlService =
  cc_enabled :: bool
  productionLimit :: int
  productionQueue :: ConcurrencyQueue

definition new_control :: "int \<Rightarrow> bool \<Rightarrow> js_error + ControlService" where
  "new_control configured queueMode =
     (if configured = 0 then Inl (ApplicationError ''Concurrency limit set to invalid value'')
      else (let limit = (if configured < -1 then -1 else configured)
            in Inr \<lparr>cc_enabled = \<not> (limit = -1 \<or> queueMode), productionLimit = limit,
                    productionQueue = new_queue limit\<rparr>))"

definition isUnlimited :: "ControlService \<Rightarrow> WorkflowExecuteMode \<Rightarrow> bool" where
  "isUnlimited c mode =
     (if mode \<in> {ModeError, ModeIntegrated, ModeCli, ModeInternal, ModeManual, ModeRetry} then True
      else productionLimit c = -1)"

definition passes :: "ControlService \<Rightarrow> WorkflowExecuteMode \<Rightarrow> bool" where
  "passes c mode \<longleftrightarrow> \<not> cc_enabled c \<or> isUnlimited c mode"

definition cc_has :: "ControlService \<Rightarrow> string \<Rightarrow> bool" where
  "cc_has c executionId \<longleftrightarrow> cc_enabled c \<and> executionId \<in> set (cq_getAll (productionQueue c))"

text \<open>Whether the execution is let through at once.\<close>

definition throttle :: "WorkflowExecuteMode \<Rightarrow> string \<Rightarrow> ControlService \<Rightarrow> ControlService \<times> bool" where
  "throttle mode executionId c =
     (if passes c mode then (c, True)
      else let (q, b) = cq_enter executionId (productionQueue c) in (c\<lparr>productionQueue := q\<rparr>, b))"

text \<open>The execution that is resumed.\<close>

definition cc_release :: "WorkflowExecuteMode \<Rightarrow> ControlService \<Rightarrow> ControlService \<times> string option" where
  "cc_release mode c =
     (if passes c mode then (c, None)
      else let (q, r) = cq_leave (productionQueue c) in (c\<lparr>productionQueue := q\<rparr>, r))"

definition cc_remove :: "WorkflowExecuteMode \<Rightarrow> string \<Rightarrow> ControlService \<Rightarrow> ControlService \<times> string option" where
  "cc_remove mode executionId c =
     (if passes c mode then (c, None)
      else let (q, _, r) = cq_remove executionId (productionQueue c) in (c\<lparr>productionQueue := q\<rparr>, r))"

fun remove_each :: "string list \<Rightarrow> ConcurrencyQueue \<Rightarrow> ConcurrencyQueue \<times> string list" where
  "remove_each [] q = (q, [])"
| "remove_each (e # es) q =
     (let (q1, _, r) = cq_remove e q; (q2, rs) = remove_each es q1
      in (q2, (case r of None \<Rightarrow> rs | Some x \<Rightarrow> x # rs)))"

definition shouldReport :: "bool \<Rightarrow> int \<Rightarrow> bool" where
  "shouldReport cloud n \<longleftrightarrow> cloud \<and> n \<in> set (map (\<lambda>t. 999 - t) [5, 10, 20, 50, 100, 200])"

section \<open>The active executions\<close>

record ActiveExecution =
  ae_mode :: WorkflowExecuteMode
  ae_status :: ExecutionStatus
  ae_workflowExecution :: bool
  ae_responsePromise :: bool
  ae_postExecutePromises :: "nat list"

text \<open>A pending execution: at the throttle, or let through and not yet registered.\<close>

record PendingExecution =
  pe_id :: string
  pe_mode :: WorkflowExecuteMode
  pe_existing :: bool
  pe_admitted :: bool

datatype ActiveEvent =
    PromiseResolved nat | PromiseRejected nat | WorkflowCancelled string | ExecutionUpdated string
  | ResponseResolved string | ManyCancelled "string list"

record ActiveExecutions =
  active :: "ActiveExecution str_obj"
  pending :: "PendingExecution list"
  control :: ControlService
  ae_events :: "ActiveEvent list"

definition log_events :: "ActiveEvent list \<Rightarrow> ActiveExecutions \<Rightarrow> ActiveExecutions" where
  "log_events es s = s\<lparr>ae_events := ae_events s @ es\<rparr>"

definition ae_has :: "string \<Rightarrow> ActiveExecutions \<Rightarrow> bool" where
  "ae_has executionId s \<longleftrightarrow> obj_get (active s) executionId \<noteq> None"

text \<open>A released execution goes on behind its throttle.\<close>

fun admit :: "string \<Rightarrow> PendingExecution list \<Rightarrow> PendingExecution list" where
  "admit e [] = []"
| "admit e (p # ps) =
     (if pe_id p = e \<and> \<not> pe_admitted p then p\<lparr>pe_admitted := True\<rparr> # ps else p # admit e ps)"

definition resume :: "string option \<Rightarrow> ActiveExecutions \<Rightarrow> ActiveExecutions" where
  "resume r s = (case r of None \<Rightarrow> s | Some e \<Rightarrow> s\<lparr>pending := admit e (pending s)\<rparr>)"

text \<open>
  \<open>add\<close> up to the throttle; the id is the given one, or that of the row the database made.
\<close>

definition add_throttle :: "WorkflowExecuteMode \<Rightarrow> string \<Rightarrow> bool \<Rightarrow> ActiveExecutions \<Rightarrow> ActiveExecutions" where
  "add_throttle mode executionId existing s =
     (let (c, b) = throttle mode executionId (control s)
      in s\<lparr>control := c, pending := pending s @
           [\<lparr>pe_id = executionId, pe_mode = mode, pe_existing = existing, pe_admitted = b\<rparr>]\<rparr>)"

text \<open>
  The rest of \<open>add\<close>.  When the update of an existing execution throws, the execution is
  never registered.
\<close>

definition add_register :: "PendingExecution \<Rightarrow> bool \<Rightarrow> ActiveExecutions \<Rightarrow> ActiveExecutions" where
  "add_register p updateThrows s =
     (if p \<notin> set (pending s) \<or> \<not> pe_admitted p then s
      else let s1 = s\<lparr>pending := remove1 p (pending s)\<rparr>
           in if pe_existing p \<and> updateThrows then s1
              else (if pe_existing p then log_events [ExecutionUpdated (pe_id p)] s1 else s1)
                \<lparr>active := str_put (pe_id p)
                  \<lparr>ae_mode = pe_mode p,
                   ae_status = (if pe_existing p \<and> pe_id p = [] then New else Running),
                   ae_workflowExecution = False, ae_responsePromise = False,
                   ae_postExecutePromises = []\<rparr> (active s)\<rparr>)"

definition no_active :: "js_error" where
  "no_active = ApplicationError ''No active execution found''"

definition getExecution :: "string \<Rightarrow> ActiveExecutions \<Rightarrow> js_error + ActiveExecution" where
  "getExecution executionId s =
     (case obj_get (active s) executionId of None \<Rightarrow> Inl no_active | Some e \<Rightarrow> Inr e)"

definition update_execution ::
    "string \<Rightarrow> (ActiveExecution \<Rightarrow> ActiveExecution) \<Rightarrow> ActiveExecutions \<Rightarrow> js_error + ActiveExecutions" where
  "update_execution executionId f s =
     res_bind (getExecution executionId s) (\<lambda>e. Inr (s\<lparr>active := str_put executionId (f e) (active s)\<rparr>))"

definition attachWorkflowExecution :: "string \<Rightarrow> ActiveExecutions \<Rightarrow> js_error + ActiveExecutions" where
  "attachWorkflowExecution executionId = update_execution executionId (\<lambda>e. e\<lparr>ae_workflowExecution := True\<rparr>)"

definition attachResponsePromise :: "string \<Rightarrow> ActiveExecutions \<Rightarrow> js_error + ActiveExecutions" where
  "attachResponsePromise executionId = update_execution executionId (\<lambda>e. e\<lparr>ae_responsePromise := True\<rparr>)"

definition resolveResponsePromise :: "string \<Rightarrow> ActiveExecutions \<Rightarrow> ActiveExecutions" where
  "resolveResponsePromise executionId s =
     (case obj_get (active s) executionId of
        None \<Rightarrow> s
      | Some e \<Rightarrow> (if ae_responsePromise e then log_events [ResponseResolved executionId] s else s))"

definition getPostExecutePromiseCount :: "string \<Rightarrow> ActiveExecutions \<Rightarrow> nat" where
  "getPostExecutePromiseCount executionId s =
     (case obj_get (active s) executionId of None \<Rightarrow> 0 | Some e \<Rightarrow> length (ae_postExecutePromises e))"

definition getPostExecutePromise :: "string \<Rightarrow> nat \<Rightarrow> ActiveExecutions \<Rightarrow> js_error + ActiveExecutions" where
  "getPostExecutePromise executionId promise =
     update_execution executionId (\<lambda>e. e\<lparr>ae_postExecutePromises := ae_postExecutePromises e @ [promise]\<rparr>)"

definition setStatus :: "string \<Rightarrow> ExecutionStatus \<Rightarrow> ActiveExecutions \<Rightarrow> js_error + ActiveExecutions" where
  "setStatus executionId status = update_execution executionId (\<lambda>e. e\<lparr>ae_status := status\<rparr>)"

definition getStatus :: "string \<Rightarrow> ActiveExecutions \<Rightarrow> js_error + ExecutionStatus" where
  "getStatus executionId s = res_bind (getExecution executionId s) (\<lambda>e. Inr (ae_status e))"

definition getActiveExecutions :: "ActiveExecutions \<Rightarrow> (string \<times> WorkflowExecuteMode \<times> ExecutionStatus) list" where
  "getActiveExecutions s = map (\<lambda>(i, e). (i, ae_mode e, ae_status e)) (active s)"

definition postExecuteCleanup :: "string \<Rightarrow> ActiveExecutions \<Rightarrow> ActiveExecutions" where
  "postExecuteCleanup executionId s =
     (case obj_get (active s) executionId of
        None \<Rightarrow> s
      | Some e \<Rightarrow>
          (let (c, r) = cc_release (ae_mode e) (control s)
           in resume r (s\<lparr>active := obj_del executionId (active s), control := c\<rparr>)))"

definition ae_remove :: "string \<Rightarrow> ActiveExecutions \<Rightarrow> ActiveExecutions" where
  "ae_remove executionId s =
     (case obj_get (active s) executionId of
        None \<Rightarrow> s
      | Some e \<Rightarrow> postExecuteCleanup executionId
          (log_events (map PromiseResolved (ae_postExecutePromises e)) s))"

definition stopExecution :: "string \<Rightarrow> ActiveExecutions \<Rightarrow> js_error + ActiveExecutions" where
  "stopExecution executionId s =
     (case obj_get (active s) executionId of
        None \<Rightarrow> Inr s
      | Some e \<Rightarrow>
          (if \<not> ae_workflowExecution e then Inl TypeError
           else Inr (postExecuteCleanup executionId (log_events
             (WorkflowCancelled executionId # map PromiseRejected (ae_postExecutePromises e)) s))))"

text \<open>\<open>removeAll\<close> of the control service, with the active executions it is given.\<close>

definition removeAll :: "ActiveExecutions \<Rightarrow> ActiveExecutions" where
  "removeAll s =
     (if \<not> cc_enabled (control s) then s
      else let q = productionQueue (control s);
               (q', released) = remove_each (cq_getAll q) q;
               s1 = fold (\<lambda>e. resume (Some e)) released (s\<lparr>control := (control s)\<lparr>productionQueue := q'\<rparr>\<rparr>);
               ids = map fst (filter (\<lambda>(i, e). ae_status e = New \<and> ae_responsePromise e) (active s))
           in if ids = [] then s1 else log_events [ManyCancelled ids] s1)"

definition cc_disable :: "ControlService \<Rightarrow> ControlService" where
  "cc_disable c = c\<lparr>cc_enabled := False\<rparr>"

text \<open>\<open>shutdown\<close> up to its loop, which only waits until no execution is active.\<close>

definition shutdown :: "bool \<Rightarrow> bool \<Rightarrow> ActiveExecutions \<Rightarrow> js_error + ActiveExecutions" where
  "shutdown regular cancelAll s =
     (let ids = obj_keys (active s);
          s1 = (if regular then s\<lparr>control := cc_disable (control s)\<rparr> else s);
          s2 = (if cancelAll \<and> regular then removeAll s1 else s1)
      in if cancelAll then res_fold stopExecution ids s2 else Inr s2)"

end
