(* ===== verification/ActiveExecutionsProperties.thy ===== *)
theory ActiveExecutionsProperties
  imports ActiveExecutions
begin

text \<open>
  The active executions and the concurrency limit together: while executions are added under
  fresh ids, registered, finished and stopped, the places taken in the queue are exactly
  the production executions that run or are about to, so their number stays within the
  limit; and what shutting down and stopping a queued execution do instead.
\<close>

section \<open>The steps of normal operation\<close>

definition fresh_id :: "string \<Rightarrow> ActiveExecutions \<Rightarrow> bool" where
  "fresh_id e s \<longleftrightarrow> e \<noteq> [] \<and> obj_get (active s) e = None \<and> e \<notin> pe_id ` set (pending s)"

inductive exec_step :: "ActiveExecutions \<Rightarrow> ActiveExecutions \<Rightarrow> bool" where
  step_add: "fresh_id e s \<Longrightarrow> exec_step s (add_throttle m e existing s)"
| step_register: "exec_step s (add_register p False s)"
| step_attach: "attachWorkflowExecution e s = Inr s' \<Longrightarrow> exec_step s s'"
| step_response: "attachResponsePromise e s = Inr s' \<Longrightarrow> exec_step s s'"
| step_promise: "getPostExecutePromise e n s = Inr s' \<Longrightarrow> exec_step s s'"
| step_status: "setStatus e st s = Inr s' \<Longrightarrow> exec_step s s'"
| step_remove: "exec_step s (ae_remove e s)"
| step_stop: "stopExecution e s = Inr s' \<Longrightarrow> exec_step s s'"

inductive_cases exec_stepE: "exec_step s s'"

definition initial_executions :: "ControlService \<Rightarrow> ActiveExecutions" where
  "initial_executions c = \<lparr>active = [], pending = [], control = c, ae_events = []\<rparr>"

section \<open>The invariant\<close>

definition production :: "WorkflowExecuteMode \<Rightarrow> bool" where
  "production m \<longleftrightarrow> m = ModeTrigger \<or> m = ModeWebhook"

definition running :: "ActiveExecutions \<Rightarrow> nat" where
  "running s = sum_list (map (\<lambda>(i, e). if production (ae_mode e) then 1 else 0) (active s))"

definition arriving_count :: "PendingExecution list \<Rightarrow> nat" where
  "arriving_count ps = length (filter (\<lambda>p. pe_admitted p \<and> production (pe_mode p)) ps)"

definition throttled :: "PendingExecution list \<Rightarrow> PendingExecution list" where
  "throttled ps = filter (\<lambda>p. \<not> pe_admitted p) ps"

definition limit_inv :: "nat \<Rightarrow> ActiveExecutions \<Rightarrow> bool" where
  "limit_inv n s \<longleftrightarrow>
     cc_enabled (control s) \<and> productionLimit (control s) = int (Suc n) \<and>
     cq_ok (int (Suc n)) (productionQueue (control s)) \<and>
     cq_queue (productionQueue (control s)) = map pe_id (throttled (pending s)) \<and>
     (\<forall>p \<in> set (throttled (pending s)). production (pe_mode p)) \<and>
     cq_held (int (Suc n)) (productionQueue (control s)) = int (running s + arriving_count (pending s)) \<and>
     distinct (map pe_id (pending s)) \<and> (\<forall>p \<in> set (pending s). obj_get (active s) (pe_id p) = None) \<and>
     obj_wf str_before (active s)"

lemma isUnlimited_production:
  "productionLimit c = int (Suc n) \<Longrightarrow> isUnlimited c m = (\<not> production m)"
  by (cases m) (simp_all add: isUnlimited_def production_def)

lemma cq_enter_ok:
  assumes "cq_enter e q = (q', b)" and "cq_ok (int (Suc n)) q"
  shows "cq_ok (int (Suc n)) q'"
    and "b \<Longrightarrow> cq_queue q' = cq_queue q \<and> cq_held (int (Suc n)) q' = cq_held (int (Suc n)) q + 1"
    and "\<not> b \<Longrightarrow> cq_queue q' = cq_queue q @ [e] \<and> cq_held (int (Suc n)) q' = cq_held (int (Suc n)) q"
proof -
  have "cq_held (int (Suc n)) q = int (Suc n) \<or> cq_queue q = [] \<and> cq_held (int (Suc n)) q < int (Suc n)"
    using assms(2) by (auto simp: cq_ok_def)
  then have "cq_ok (int (Suc n)) q' \<and>
      (if b then cq_queue q' = cq_queue q \<and> cq_held (int (Suc n)) q' = cq_held (int (Suc n)) q + 1
       else cq_queue q' = cq_queue q @ [e] \<and> cq_held (int (Suc n)) q' = cq_held (int (Suc n)) q)"
  proof
    assume "cq_held (int (Suc n)) q = int (Suc n)"
    from gate.made_to_wait[OF this assms(1)] this show ?thesis by (simp add: cq_ok_def)
  next
    assume "cq_queue q = [] \<and> cq_held (int (Suc n)) q < int (Suc n)"
    then have w: "cq_queue q = []" "cq_held (int (Suc n)) q < int (Suc n)" by auto
    from gate.let_through[OF w assms(1)] w assms(2) show ?thesis by (simp add: cq_ok_def)
  qed
  then show "cq_ok (int (Suc n)) q'"
    "b \<Longrightarrow> cq_queue q' = cq_queue q \<and> cq_held (int (Suc n)) q' = cq_held (int (Suc n)) q + 1"
    "\<not> b \<Longrightarrow> cq_queue q' = cq_queue q @ [e] \<and> cq_held (int (Suc n)) q' = cq_held (int (Suc n)) q" by simp_all
qed

lemma cq_leave_ok:
  assumes "cq_leave q = (q', r)" and "cq_ok (int (Suc n)) q" and "0 < cq_held (int (Suc n)) q"
  shows "cq_ok (int (Suc n)) q'"
    and "r = None \<Longrightarrow> cq_queue q = [] \<and> cq_queue q' = [] \<and> cq_held (int (Suc n)) q' = cq_held (int (Suc n)) q - 1"
    and "r = Some e \<Longrightarrow> cq_queue q = e # cq_queue q' \<and> cq_held (int (Suc n)) q' = cq_held (int (Suc n)) q"
proof -
  have "cq_ok (int (Suc n)) q' \<and>
      (case r of None \<Rightarrow> cq_queue q = [] \<and> cq_queue q' = [] \<and> cq_held (int (Suc n)) q' = cq_held (int (Suc n)) q - 1
       | Some e \<Rightarrow> cq_queue q = e # cq_queue q' \<and> cq_held (int (Suc n)) q' = cq_held (int (Suc n)) q)"
  proof (cases "cq_queue q")
    case Nil
    from gate.set_free[OF this assms(1), of n] Nil assms(2,3) show ?thesis by (simp add: cq_ok_def)
  next
    case (Cons e es)
    from gate.handed_over[OF this assms(1), of n] Cons assms(2,3) show ?thesis by (simp add: cq_ok_def)
  qed
  then show "cq_ok (int (Suc n)) q'"
    "r = None \<Longrightarrow> cq_queue q = [] \<and> cq_queue q' = [] \<and> cq_held (int (Suc n)) q' = cq_held (int (Suc n)) q - 1"
    "r = Some e \<Longrightarrow> cq_queue q = e # cq_queue q' \<and> cq_held (int (Suc n)) q' = cq_held (int (Suc n)) q" by auto
qed

section \<open>Each step keeps it\<close>

lemma admit_first:
  "map pe_id (throttled ps) = e # es \<Longrightarrow> \<forall>p \<in> set (throttled ps). production (pe_mode p) \<Longrightarrow>
   map pe_id (throttled (admit e ps)) = es \<and> (\<forall>p \<in> set (throttled (admit e ps)). production (pe_mode p)) \<and>
   arriving_count (admit e ps) = Suc (arriving_count ps)"
  by (induction ps) (auto simp: throttled_def arriving_count_def split: if_splits)

lemma admit_ids: "map pe_id (admit e ps) = map pe_id ps"
  by (induction ps) auto

lemma admit_id_set: "pe_id ` set (admit e ps) = pe_id ` set ps"
  using admit_ids[of e ps] by (metis list.set_map)

lemma add_throttle_inv:
  assumes "limit_inv n s" and "fresh_id e s"
  shows "limit_inv n (add_throttle m e existing s)"
proof (cases "production m")
  case False
  with assms show ?thesis
    by (auto simp: limit_inv_def add_throttle_def throttle_def passes_def isUnlimited_production
        throttled_def arriving_count_def running_def fresh_id_def)
next
  case True
  obtain q b where q: "cq_enter e (productionQueue (control s)) = (q, b)"
    by (cases "cq_enter e (productionQueue (control s))")
  have ok: "cq_ok (int (Suc n)) (productionQueue (control s))" using assms(1) by (simp add: limit_inv_def)
  note Q = cq_enter_ok[OF q ok]
  have t: "throttle m e (control s) = ((control s)\<lparr>productionQueue := q\<rparr>, b)"
    using True assms(1) q by (simp add: throttle_def passes_def isUnlimited_production limit_inv_def)
  show ?thesis
    using assms True Q unfolding limit_inv_def add_throttle_def t
    by (cases b) (auto simp: throttled_def arriving_count_def running_def fresh_id_def)
qed

lemma throttled_remove:
  "pe_admitted p \<Longrightarrow> throttled (remove1 p ps) = throttled ps"
  by (induction ps) (auto simp: throttled_def)

lemma arriving_remove:
  "p \<in> set ps \<Longrightarrow> pe_admitted p \<Longrightarrow>
   arriving_count ps = arriving_count (remove1 p ps) + (if production (pe_mode p) then 1 else 0)"
  by (induction ps) (auto simp: arriving_count_def)

lemma running_put:
  assumes "obj_wf str_before (active s)" and "obj_get (active s) e = Some x" and "ae_mode y = ae_mode x"
  shows "sum_list (map (\<lambda>(i, e). if production (ae_mode e) then 1 else 0) (str_put e y (active s))) = running s"
  using sum_obj_put[OF assms(1,2), of "\<lambda>e. if production (ae_mode e) then 1 else 0" y] assms(3)
  by (simp add: running_def)

lemma update_execution_inv:
  assumes "limit_inv n s" and "update_execution e f s = Inr s'" and "\<And>x. ae_mode (f x) = ae_mode x"
  shows "limit_inv n s'"
proof -
  from assms(2) obtain x where g: "obj_get (active s) e = Some x"
    and s': "s' = s\<lparr>active := str_put e (f x) (active s)\<rparr>"
    by (auto simp: update_execution_def getExecution_def res_bind_Inr split: option.splits)
  have "running s' = running s"
    using running_put[OF _ g assms(3)] assms(1) by (simp add: s' running_def limit_inv_def)
  with assms(1) g show ?thesis by (auto simp: limit_inv_def s' sobj.wf_put)
qed

lemma add_register_inv:
  assumes "limit_inv n s"
  shows "limit_inv n (add_register p False s)"
proof (cases "p \<in> set (pending s) \<and> pe_admitted p")
  case False
  with assms show ?thesis by (auto simp: add_register_def)
next
  case True
  then have p: "p \<in> set (pending s)" "pe_admitted p" by auto
  define x where "x = \<lparr>ae_mode = pe_mode p, ae_status = (if pe_existing p \<and> pe_id p = [] then New else Running),
     ae_workflowExecution = False, ae_responsePromise = False, ae_postExecutePromises = []\<rparr>"
  let ?s = "add_register p False s"
  have f: "active ?s = str_put (pe_id p) x (active s)" "pending ?s = remove1 p (pending s)" "control ?s = control s"
    using p by (auto simp: add_register_def x_def log_events_def Let_def)
  have g: "obj_get (active s) (pe_id p) = None" using assms p(1) by (auto simp: limit_inv_def)
  have "running ?s = running s + (if production (pe_mode p) then 1 else 0)"
    using sum_obj_put_new[OF g, of "\<lambda>e. if production (ae_mode e) then 1 else 0" str_before x]
    by (simp add: running_def f x_def)
  then have places: "running ?s + arriving_count (pending ?s) = running s + arriving_count (pending s)"
    using arriving_remove[OF p] f by simp
  have d: "distinct (map pe_id (pending s))" using assms by (simp add: limit_inv_def)
  then have d': "distinct (map pe_id (remove1 p (pending s)))" and other: "\<forall>q \<in> set (remove1 p (pending s)). pe_id q \<noteq> pe_id p"
    using p(1) by (induction "pending s" arbitrary: s) (auto simp: distinct_map inj_on_def dest: notin_set_remove1)
  show ?thesis
    using assms places d' other f throttled_remove[OF p(2), of "pending s"]
    by (auto simp: limit_inv_def sobj.wf_put dest: notin_set_remove1 set_remove1_subset[THEN subsetD])
qed

lemma cleanup_inv:
  assumes "limit_inv n s"
  shows "limit_inv n (postExecuteCleanup e s)"
proof (cases "obj_get (active s) e")
  case None
  with assms show ?thesis by (simp add: postExecuteCleanup_def)
next
  case (Some x)
  let ?a = "obj_del e (active s)"
  have wf: "obj_wf str_before (active s)" using assms by (simp add: limit_inv_def)
  have run: "running s = sum_list (map (\<lambda>(i, e). if production (ae_mode e) then 1 else 0) ?a) +
      (if production (ae_mode x) then 1 else 0)"
    using sum_obj_del[OF wf Some, of "\<lambda>e. if production (ae_mode e) then 1 else 0"] by (simp add: running_def)
  show ?thesis
  proof (cases "production (ae_mode x)")
    case False
    then have "cc_release (ae_mode x) (control s) = (control s, None)"
      using assms by (simp add: cc_release_def passes_def isUnlimited_production limit_inv_def)
    then have "postExecuteCleanup e s = s\<lparr>active := ?a\<rparr>" by (simp add: postExecuteCleanup_def Some resume_def)
    with assms run False show ?thesis by (auto simp: limit_inv_def running_def sobj.wf_del)
  next
    case True
    obtain q r where q: "cq_leave (productionQueue (control s)) = (q, r)"
      by (cases "cq_leave (productionQueue (control s))")
    have rel: "cc_release (ae_mode x) (control s) = ((control s)\<lparr>productionQueue := q\<rparr>, r)"
      using assms True q by (simp add: cc_release_def passes_def isUnlimited_production limit_inv_def)
    have ok: "cq_ok (int (Suc n)) (productionQueue (control s))"
      and pos: "0 < cq_held (int (Suc n)) (productionQueue (control s))"
      using assms run True by (simp_all add: limit_inv_def)
    note L = cq_leave_ok[OF q ok pos]
    let ?s = "s\<lparr>active := ?a, control := (control s)\<lparr>productionQueue := q\<rparr>\<rparr>"
    have e: "postExecuteCleanup e s = resume r ?s" by (simp add: postExecuteCleanup_def Some rel)
    show ?thesis
    proof (cases r)
      case None
      with assms run True L show ?thesis by (auto simp: e resume_def limit_inv_def running_def sobj.wf_del)
    next
      case (Some y)
      from assms L(3)[OF Some] have "map pe_id (throttled (pending s)) = y # cq_queue q"
        "\<forall>p \<in> set (throttled (pending s)). production (pe_mode p)" by (auto simp: limit_inv_def)
      note A = admit_first[OF this]
      have "\<forall>p \<in> set (admit y (pending s)). obj_get (active s) (pe_id p) = None"
        using assms admit_id_set[of y "pending s"] unfolding limit_inv_def by (metis (no_types, lifting) image_iff)
      with assms run True L(1) L(3)[OF Some] A Some show ?thesis
        by (auto simp: e resume_def limit_inv_def running_def sobj.wf_del admit_ids)
    qed
  qed
qed

lemma log_events_inv [simp]: "limit_inv n (log_events es s) = limit_inv n s"
  by (simp add: limit_inv_def log_events_def running_def)

lemma exec_step_inv: "exec_step s s' \<Longrightarrow> limit_inv n s \<Longrightarrow> limit_inv n s'"
proof (erule exec_stepE, goal_cases)
  case 7
  then show ?thesis by (auto simp: ae_remove_def cleanup_inv split: option.splits)
next
  case 8
  then show ?thesis by (auto simp: stopExecution_def cleanup_inv split: option.splits if_splits)
qed (auto simp: add_throttle_inv add_register_inv attachWorkflowExecution_def attachResponsePromise_def
      getPostExecutePromise_def setStatus_def elim!: update_execution_inv)

interpretation limit: step_invariant exec_step "limit_inv n" for n
  by unfold_locales (rule exec_step_inv)

lemma initial_inv:
  assumes "new_control (int (Suc n)) False = Inr c"
  shows "limit_inv n (initial_executions c)"
proof -
  from assms have "c = \<lparr>cc_enabled = True, productionLimit = int (Suc n), productionQueue = new_queue (int (Suc n))\<rparr>"
    by (auto simp: new_control_def Let_def split: if_splits)
  then show ?thesis
    by (simp add: limit_inv_def initial_executions_def cq_ok_def cq_held_def new_queue_def throttled_def
        arriving_count_def running_def)
qed

text \<open>
  C33: From the start of the server, over any number of executions added under fresh ids,
  registered, finished or stopped in any order, the production executions that run or are
  about to are never more than the configured limit, and none is throttled unless they
  are exactly as many.
\<close>

theorem production_limit_respected:
  assumes "new_control (int (Suc n)) False = Inr c" and "exec_step\<^sup>*\<^sup>* (initial_executions c) s"
  shows "running s + arriving_count (pending s) \<le> Suc n \<and>
    (throttled (pending s) \<noteq> [] \<longrightarrow> running s + arriving_count (pending s) = Suc n)"
proof -
  from limit.inv_steps[OF assms(2) initial_inv[OF assms(1)]]
  have "cq_ok (int (Suc n)) (productionQueue (control s))"
    "cq_held (int (Suc n)) (productionQueue (control s)) = int (running s + arriving_count (pending s))"
    "cq_queue (productionQueue (control s)) = map pe_id (throttled (pending s))"
    unfolding limit_inv_def by blast+
  then show ?thesis unfolding cq_ok_def by simp linarith
qed

definition control1 :: ControlService where
  "control1 = \<lparr>cc_enabled = True, productionLimit = 1, productionQueue = new_queue 1\<rparr>"

definition two_added :: ActiveExecutions where
  "two_added = add_throttle ModeTrigger ''2'' False (add_throttle ModeWebhook ''1'' False (initial_executions control1))"

theorem production_limit_respected_witness:
  "running two_added + arriving_count (pending two_added) = 1 \<and> throttled (pending two_added) \<noteq> []"
proof -
  have c: "new_control (int (Suc 0)) False = Inr control1" by (simp add: new_control_def control1_def)
  have 1: "exec_step (initial_executions control1) (add_throttle ModeWebhook ''1'' False (initial_executions control1))"
    by (rule step_add) (simp add: fresh_id_def initial_executions_def obj_get_def)
  have 2: "exec_step (add_throttle ModeWebhook ''1'' False (initial_executions control1)) two_added"
    unfolding two_added_def
    by (rule step_add) (simp add: fresh_id_def initial_executions_def add_throttle_def obj_get_def split: prod.split)
  from 1 2 have "exec_step\<^sup>*\<^sup>* (initial_executions control1) two_added" by (meson rtranclp.simps)
  note P = production_limit_respected[OF c this]
  have "throttled (pending two_added) \<noteq> []" by code_simp
  with P show ?thesis by simp
qed

section \<open>Finishing and stopping\<close>

text \<open>
  Stopping an execution that is running cancels its workflow, rejects everyone that
  waits for its end and takes it off the list, once; before its workflow is attached the
  call fails and changes nothing, and an unknown id is ignored.
\<close>

theorem stopExecution_correct:
  "(case obj_get (active s) e of
      None \<Rightarrow> stopExecution e s = Inr s
    | Some x \<Rightarrow> (if ae_workflowExecution x
        then (\<exists>s'. stopExecution e s = Inr s' \<and> obj_get (active s') e = None \<and>
           (\<forall>k. k \<noteq> e \<longrightarrow> obj_get (active s') k = obj_get (active s) k) \<and>
           ae_events s' = ae_events s @ WorkflowCancelled e # map PromiseRejected (ae_postExecutePromises x))
        else stopExecution e s = Inl TypeError))"
proof (cases "obj_get (active s) e")
  case None
  then show ?thesis by (simp add: stopExecution_def)
next
  case (Some x)
  obtain c r where "cc_release (ae_mode x) (control s) = (c, r)" by (cases "cc_release (ae_mode x) (control s)")
  with Some show ?thesis
    by (cases r) (auto simp: stopExecution_def postExecuteCleanup_def log_events_def resume_def)
qed

theorem stopExecution_correct_witness:
  "stopExecution ''1'' (two_added\<lparr>active := [(''1'', \<lparr>ae_mode = ModeWebhook, ae_status = Running,
     ae_workflowExecution = False, ae_responsePromise = False, ae_postExecutePromises = []\<rparr>)]\<rparr>) = Inl TypeError"
  using stopExecution_correct[of "''1''" "two_added\<lparr>active := [(''1'', \<lparr>ae_mode = ModeWebhook, ae_status = Running,
     ae_workflowExecution = False, ae_responsePromise = False, ae_postExecutePromises = []\<rparr>)]\<rparr>"]
  by (simp add: obj_get_def)

lemma passes_disabled: "\<not> cc_enabled c \<Longrightarrow> cc_release m c = (c, None)"
  by (simp add: cc_release_def passes_def)

definition untouched :: "ActiveExecutions \<Rightarrow> ActiveExecutions \<Rightarrow> bool" where
  "untouched s s' \<longleftrightarrow> \<not> cc_enabled (control s') \<and> productionQueue (control s') = productionQueue (control s) \<and>
     pending s' = pending s \<and> (\<forall>ids. ManyCancelled ids \<in> set (ae_events s') \<longrightarrow> ManyCancelled ids \<in> set (ae_events s))"

lemma stop_disabled:
  assumes "stopExecution e s1 = Inr s2" and "untouched s s1"
  shows "untouched s s2"
  using assms by (auto simp: untouched_def stopExecution_def postExecuteCleanup_def passes_disabled resume_def log_events_def
      split: option.splits if_splits)

text \<open>
  In regular mode a shutdown that cancels everything never cancels the executions that
  still wait in the queue: the service is disabled before it is asked to empty the queue,
  so that call does nothing, and the queue and the pending executions stay as they are.
\<close>

theorem shutdown_keeps_queue:
  assumes "shutdown True cancelAll s = Inr s'"
  shows "cq_queue (productionQueue (control s')) = cq_queue (productionQueue (control s)) \<and>
    pending s' = pending s \<and>
    (\<forall>ids. ManyCancelled ids \<in> set (ae_events s') \<longrightarrow> ManyCancelled ids \<in> set (ae_events s))"
proof -
  let ?s = "s\<lparr>control := cc_disable (control s)\<rparr>"
  have u: "untouched s ?s" by (simp add: untouched_def cc_disable_def)
  have "untouched s s'"
  proof (cases cancelAll)
    case False
    with assms u show ?thesis by (auto simp: shutdown_def Let_def)
  next
    case True
    with assms have f: "res_fold stopExecution (obj_keys (active s)) ?s = Inr s'"
      by (simp add: shutdown_def removeAll_def cc_disable_def)
    show ?thesis by (rule res_fold_invariant[where I = "untouched s", OF _ u f]) (rule stop_disabled)
  qed
  then show ?thesis by (simp add: untouched_def)
qed

theorem shutdown_keeps_queue_witness:
  "\<exists>s'. shutdown True True two_added = Inr s' \<and> cq_queue (productionQueue (control s')) = [''2''] \<and>
     map pe_id (pending s') = [''1'', ''2'']"
proof -
  have "\<not> isl (shutdown True True two_added)" by code_simp
  then obtain s' where s': "shutdown True True two_added = Inr s'" using not_isl_Inr by blast
  have "cq_queue (productionQueue (control two_added)) = [''2'']" "map pe_id (pending two_added) = [''1'', ''2'']"
    by code_simp+
  with shutdown_keeps_queue[OF s'] s' show ?thesis by auto
qed

text \<open>
  Emptying the queue releases every second execution instead of removing it: removing
  one lets the next start, which is then no longer found in the queue.
\<close>

theorem removeAll_releases:
  "map (\<lambda>p. (pe_id p, pe_admitted p)) (pending (removeAll
     (add_throttle ModeTrigger ''3'' False two_added))) = [(''1'', True), (''2'', False), (''3'', True)]"
  by code_simp

text \<open>
  When the update of an existing execution fails its place is never given back: after
  it, with a limit of one, no execution runs and every other one is throttled.
\<close>

theorem failed_update_leaks_place:
  "(let s1 = add_throttle ModeWebhook ''1'' True (initial_executions control1);
        s2 = add_register (hd (pending s1)) True s1;
        s3 = add_throttle ModeWebhook ''2'' False s2
    in running s2 = 0 \<and> pending s2 = [] \<and> map pe_admitted (pending s3) = [False])"
  by code_simp

end
