(* ===== verification/WaitTracker.thy ===== *)
theory WaitTracker
  imports ActiveExecutionsProperties
begin

text \<open>
  packages/cli/src/wait-tracker.ts, the timers of executions that wait for a point in time,
  and how packages/cli/src/executions/execution.service.ts stops an execution, which may be
  queued, active or waiting.  Timers fire as steps of the environment.
\<close>

section \<open>The wait tracker\<close>

text \<open>A timer is armed for a point in time, or cleared.\<close>

datatype timer = Armed int | Cleared

record WaitTracker =
  waitingExecutions :: "timer str_obj"
  mainTimer :: bool

definition wt_has :: "string \<Rightarrow> WaitTracker \<Rightarrow> bool" where
  "wt_has executionId wt \<longleftrightarrow> obj_get (waitingExecutions wt) executionId \<noteq> None"

text \<open>The rows that the query of the database returns: id and \<open>waitTill\<close>.\<close>

definition track_row :: "string \<times> int \<Rightarrow> WaitTracker \<Rightarrow> WaitTracker" where
  "track_row row wt =
     (if obj_get (waitingExecutions wt) (fst row) = None
      then wt\<lparr>waitingExecutions := str_put (fst row) (Armed (snd row)) (waitingExecutions wt)\<rparr> else wt)"

definition getWaitingExecutions :: "(string \<times> int) list \<Rightarrow> WaitTracker \<Rightarrow> WaitTracker" where
  "getWaitingExecutions rows wt = fold track_row rows wt"

definition startTracking :: "(string \<times> int) list \<Rightarrow> WaitTracker \<Rightarrow> WaitTracker" where
  "startTracking rows wt = getWaitingExecutions rows (wt\<lparr>mainTimer := True\<rparr>)"

definition wt_stopExecution :: "string \<Rightarrow> WaitTracker \<Rightarrow> WaitTracker" where
  "wt_stopExecution executionId wt = wt\<lparr>waitingExecutions := obj_del executionId (waitingExecutions wt)\<rparr>"

definition stopTracking :: "WaitTracker \<Rightarrow> WaitTracker" where
  "stopTracking wt =
     wt\<lparr>mainTimer := False, waitingExecutions := map (\<lambda>(i, t). (i, Cleared)) (waitingExecutions wt)\<rparr>"

text \<open>The row of the execution, read when its timer fires.\<close>

record ExecutionRow =
  row_finished :: bool
  row_workflowId :: "string option"
  row_mode :: WorkflowExecuteMode

definition resume_check :: "ExecutionRow option \<Rightarrow> js_error + WorkflowExecuteMode" where
  "resume_check row =
     (case row of
        None \<Rightarrow> Inl (ApplicationError ''Execution does not exist.'')
      | Some r \<Rightarrow>
          (if row_finished r
           then Inl (ApplicationError ''The execution did succeed and can so not be started again.'')
           else case row_workflowId r of
               Some (c # cs) \<Rightarrow> Inr (row_mode r)
             | _ \<Rightarrow> Inl (ApplicationError ''Only saved workflows can be resumed.'')))"

section \<open>The server: active and waiting executions\<close>

datatype StopEvent = StoppedBeforeRun string | StoppedDuringRun string | ResumeFailed string

record Server =
  executions :: ActiveExecutions
  tracker :: WaitTracker
  sv_events :: "StopEvent list"

text \<open>\<open>startExecution\<close>: the entry goes, and the workflow is run again under its id.\<close>

definition wt_startExecution :: "string \<Rightarrow> ExecutionRow option \<Rightarrow> Server \<Rightarrow> Server" where
  "wt_startExecution executionId row sv =
     (let sv1 = sv\<lparr>tracker := wt_stopExecution executionId (tracker sv)\<rparr>
      in case resume_check row of
          Inl e \<Rightarrow> sv1\<lparr>sv_events := sv_events sv1 @ [ResumeFailed executionId]\<rparr>
        | Inr mode \<Rightarrow> sv1\<lparr>executions := add_throttle mode executionId True (executions sv1)\<rparr>)"

text \<open>A timer fires: only an armed one does, at its time or later.\<close>

definition timer_fires :: "int \<Rightarrow> string \<Rightarrow> ExecutionRow option \<Rightarrow> Server \<Rightarrow> Server" where
  "timer_fires now executionId row sv =
     (case obj_get (waitingExecutions (tracker sv)) executionId of
        Some (Armed t) \<Rightarrow> (if t \<le> now then wt_startExecution executionId row sv else sv)
      | _ \<Rightarrow> sv)"

definition assertStoppable :: "ExecutionStatus \<Rightarrow> js_error + unit" where
  "assertStoppable status =
     (if status \<in> {New, Unknown, Waiting, Running} then Inr ()
      else Inl (WorkflowOperationError ''Only running or waiting executions can be stopped''))"

definition stopInRegularMode :: "WorkflowExecuteMode \<Rightarrow> string \<Rightarrow> Server \<Rightarrow> js_error + Server" where
  "stopInRegularMode mode executionId sv =
     (if cc_has (control (executions sv)) executionId
      then (let (c, r) = cc_remove mode executionId (control (executions sv))
            in Inr (sv\<lparr>executions := resume r ((executions sv)\<lparr>control := c\<rparr>),
                      sv_events := sv_events sv @ [StoppedBeforeRun executionId]\<rparr>))
      else res_bind (if ae_has executionId (executions sv) then stopExecution executionId (executions sv)
                     else Inr (executions sv)) (\<lambda>ex.
           Inr (sv\<lparr>executions := ex,
             tracker := (if wt_has executionId (tracker sv) then wt_stopExecution executionId (tracker sv) else tracker sv),
             sv_events := sv_events sv @ [StoppedDuringRun executionId]\<rparr>)))"

text \<open>\<open>stop\<close> in regular mode; the row of the execution is None when the database has none.\<close>

definition stop :: "string \<Rightarrow> (WorkflowExecuteMode \<times> ExecutionStatus) option \<Rightarrow> Server \<Rightarrow> js_error + Server" where
  "stop executionId row sv =
     (case row of
        None \<Rightarrow> Inl (ApplicationError ''Failed to find execution to stop'')
      | Some (mode, status) \<Rightarrow>
          res_bind (assertStoppable status) (\<lambda>_. stopInRegularMode mode executionId sv))"

section \<open>Tracking\<close>

lemma getWaitingExecutions_get:
  "obj_get (waitingExecutions (getWaitingExecutions rows wt)) k =
     (case obj_get (waitingExecutions wt) k of
        Some t \<Rightarrow> Some t
      | None \<Rightarrow> map_option Armed (map_of rows k))"
proof (induction rows arbitrary: wt)
  case Nil
  then show ?case by (simp add: getWaitingExecutions_def split: option.split)
next
  case (Cons row rows)
  show ?case
    using Cons[of "track_row row wt"]
    by (cases row) (auto simp: getWaitingExecutions_def track_row_def split: option.splits)
qed

text \<open>
  Polling the database gives every returned execution exactly one timer, armed for its
  time, keeps the timers that are there, and polling again changes nothing.
\<close>

theorem getWaitingExecutions_correct:
  "(\<forall>k. obj_get (waitingExecutions (getWaitingExecutions rows wt)) k =
     (case obj_get (waitingExecutions wt) k of Some t \<Rightarrow> Some t | None \<Rightarrow> map_option Armed (map_of rows k))) \<and>
   getWaitingExecutions rows (getWaitingExecutions rows wt) = getWaitingExecutions rows wt"
proof
  show "\<forall>k. obj_get (waitingExecutions (getWaitingExecutions rows wt)) k =
     (case obj_get (waitingExecutions wt) k of Some t \<Rightarrow> Some t | None \<Rightarrow> map_option Armed (map_of rows k))"
    using getWaitingExecutions_get by blast
  have same: "fold track_row rs wt1 = wt1"
    if "\<forall>r \<in> set rs. obj_get (waitingExecutions wt1) (fst r) \<noteq> None" for rs wt1
    using that by (induction rs) (auto simp: track_row_def)
  have "\<forall>r \<in> set rows. obj_get (waitingExecutions (getWaitingExecutions rows wt)) (fst r) \<noteq> None"
    using weak_map_of_SomeI by (fastforce simp: getWaitingExecutions_get split: option.split)
  from same[OF this] show "getWaitingExecutions rows (getWaitingExecutions rows wt) = getWaitingExecutions rows wt"
    by (simp add: getWaitingExecutions_def)
qed

lemma cleared_stays:
  "obj_get (waitingExecutions wt) k = Some Cleared \<Longrightarrow>
   obj_get (waitingExecutions (fold getWaitingExecutions polls wt)) k = Some Cleared"
  by (induction polls arbitrary: wt) (simp_all add: getWaitingExecutions_get)

text \<open>
  An execution whose timer a leader cleared when it stepped down is never started by
  it again: after taking over it polls, but the old entry stays in the way, however often
  it polls and whatever time it is.
\<close>

theorem stepped_down_never_resumed:
  assumes "wt_has k (tracker sv)"
    and "wt = fold getWaitingExecutions polls (startTracking rows (stopTracking (tracker sv)))"
  shows "timer_fires now k row (sv\<lparr>tracker := wt\<rparr>) = sv\<lparr>tracker := wt\<rparr>"
proof -
  have "obj_get (map (\<lambda>(i, t). (i, Cleared)) ob) k = Some Cleared" if "obj_get ob k \<noteq> None" for ob :: "timer str_obj"
    using that by (induction ob) (auto simp: obj_get_def split: if_splits)
  then have "obj_get (waitingExecutions (stopTracking (tracker sv))) k = Some Cleared"
    using assms(1) by (simp add: stopTracking_def wt_has_def)
  then have "obj_get (waitingExecutions (startTracking rows (stopTracking (tracker sv)))) k = Some Cleared"
    by (simp add: startTracking_def getWaitingExecutions_get)
  from cleared_stays[OF this] show ?thesis
    by (simp add: timer_fires_def assms(2))
qed

theorem stepped_down_never_resumed_witness:
  "(let wt = startTracking [(''7'', 50)] (stopTracking (getWaitingExecutions [(''7'', 50)]
        \<lparr>waitingExecutions = [], mainTimer = True\<rparr>));
        sv = \<lparr>executions = initial_executions control1, tracker = wt, sv_events = []\<rparr>
    in timer_fires 60 ''7'' (Some \<lparr>row_finished = False, row_workflowId = Some ''w'', row_mode = ModeWebhook\<rparr>) sv = sv)"
proof -
  let ?wt = "getWaitingExecutions [(''7'', 50)] \<lparr>waitingExecutions = [], mainTimer = True\<rparr>"
  let ?sv = "\<lparr>executions = initial_executions control1, tracker = ?wt, sv_events = []\<rparr>"
  have "wt_has ''7'' (tracker ?sv)" by (simp add: wt_has_def getWaitingExecutions_def track_row_def obj_get_def)
  from stepped_down_never_resumed[OF this, of "startTracking [(''7'', 50)] (stopTracking ?wt)" "[]" "[(''7'', 50)]"]
  show ?thesis by (simp add: Let_def)
qed

text \<open>
  An execution resumed while all places are taken is started twice.  It waits in the
  queue, the database still has it as waiting, so the next poll arms a new timer, and when
  that fires the same execution is queued again.
\<close>

theorem throttled_resume_started_twice:
  "(let row = Some \<lparr>row_finished = False, row_workflowId = Some ''w'', row_mode = ModeWebhook\<rparr>;
        sv0 = \<lparr>executions = add_throttle ModeTrigger ''1'' False (initial_executions control1),
               tracker = startTracking [(''2'', 50)] \<lparr>waitingExecutions = [], mainTimer = False\<rparr>, sv_events = []\<rparr>;
        sv1 = timer_fires 50 ''2'' row sv0;
        sv2 = sv1\<lparr>tracker := getWaitingExecutions [(''2'', 50)] (tracker sv1)\<rparr>;
        sv3 = timer_fires 110 ''2'' row sv2
    in cq_queue (productionQueue (control (executions sv3))) = [''2'', ''2''] \<and>
       map pe_id (pending (executions sv3)) = [''1'', ''2'', ''2''])"
  by code_simp

section \<open>Stopping\<close>

lemma cleanup_facts:
  "obj_get (active (postExecuteCleanup e s)) e = None"
  "set (cq_queue (productionQueue (control (postExecuteCleanup e s)))) \<subseteq> set (cq_queue (productionQueue (control s)))"
  "cc_enabled (control (postExecuteCleanup e s)) = cc_enabled (control s)"
  by (auto simp: postExecuteCleanup_def cc_release_def resume_def cq_leave_def cq_dequeue_def resolveNext_def Let_def
      split: option.splits list.splits if_splits prod.splits)

lemma stopExecution_facts:
  assumes "stopExecution e s = Inr s'"
  shows "\<not> ae_has e s'" and "set (cq_queue (productionQueue (control s'))) \<subseteq> set (cq_queue (productionQueue (control s)))"
    and "cc_enabled (control s') = cc_enabled (control s)"
  using assms cleanup_facts[of e "log_events es s" for es]
  by (auto simp: stopExecution_def ae_has_def log_events_def split: option.splits if_splits)

lemma cc_has_iff: "cc_has c e \<longleftrightarrow> cc_enabled c \<and> e \<in> set (cq_queue (productionQueue c))"
  by (simp add: cc_has_def cq_getAll_def)

text \<open>
  A stop succeeds only for an execution that is new, unknown, waiting or running.  One
  that is queued leaves the queue and nothing else is touched but the one it lets through;
  any other is afterwards neither active nor waiting for a point in time.
\<close>

theorem stop_correct:
  assumes "stop e row sv = Inr sv'" and "distinct (cq_queue (productionQueue (control (executions sv))))"
    and "\<forall>mode status. row = Some (mode, status) \<longrightarrow> production mode" and "productionLimit (control (executions sv)) \<noteq> -1"
  shows "(\<exists>mode status. row = Some (mode, status) \<and> status \<in> {New, Unknown, Waiting, Running}) \<and>
    \<not> cc_has (control (executions sv')) e \<and>
    (if cc_has (control (executions sv)) e
     then active (executions sv') = active (executions sv) \<and> tracker sv' = tracker sv
     else \<not> ae_has e (executions sv') \<and> \<not> wt_has e (tracker sv'))"
proof -
  from assms(1) obtain mode status where r: "row = Some (mode, status)" "status \<in> {New, Unknown, Waiting, Running}"
    and st: "stopInRegularMode mode e sv = Inr sv'"
    by (auto simp: stop_def assertStoppable_def split: option.splits if_splits)
  let ?c = "control (executions sv)"
  have m: "production mode" using assms(3) r(1) by blast
  then have u: "\<not> isUnlimited ?c mode" using assms(4) by (auto simp: isUnlimited_def production_def)
  show ?thesis
  proof (cases "cc_has ?c e")
    case True
    obtain c1 x where c1: "cc_remove mode e ?c = (c1, x)" by (cases "cc_remove mode e ?c")
    from True u have np: "\<not> passes ?c mode" by (simp add: passes_def cc_has_def)
    have "e \<notin> set (remove1 e (cq_queue (productionQueue ?c)))" using assms(2) by simp
    then have "e \<notin> set (cq_queue (productionQueue c1))"
      using c1 np True by (auto simp: cc_remove_def cq_remove_def resolveNext_def cc_has_iff split: list.splits)
    moreover have "sv' = sv\<lparr>executions := resume x ((executions sv)\<lparr>control := c1\<rparr>),
        sv_events := sv_events sv @ [StoppedBeforeRun e]\<rparr>"
      using st True c1 by (simp add: stopInRegularMode_def)
    ultimately show ?thesis using r True
      by (cases x) (auto simp: resume_def cc_has_iff)
  next
    case False
    with st obtain ex where ex: "(if ae_has e (executions sv) then stopExecution e (executions sv) else Inr (executions sv)) = Inr ex"
      and sv': "sv' = sv\<lparr>executions := ex,
             tracker := (if wt_has e (tracker sv) then wt_stopExecution e (tracker sv) else tracker sv),
             sv_events := sv_events sv @ [StoppedDuringRun e]\<rparr>"
      by (auto simp: stopInRegularMode_def res_bind_Inr)
    have "\<not> ae_has e ex \<and> \<not> cc_has (control ex) e"
    proof (cases "ae_has e (executions sv)")
      case True
      with ex have "stopExecution e (executions sv) = Inr ex" by simp
      from stopExecution_facts[OF this] False show ?thesis by (auto simp: cc_has_iff)
    next
      case no: False
      with ex have "ex = executions sv" by simp
      with no False show ?thesis by simp
    qed
    with r False show ?thesis by (auto simp: sv' wt_has_def wt_stopExecution_def)
  qed
qed

theorem stop_correct_witness:
  "\<exists>sv'. stop ''2'' (Some (ModeTrigger, New)) \<lparr>executions = two_added, tracker = \<lparr>waitingExecutions = [], mainTimer = True\<rparr>,
      sv_events = []\<rparr> = Inr sv' \<and> \<not> cc_has (control (executions sv')) ''2'' \<and> active (executions sv') = []"
proof -
  let ?sv = "\<lparr>executions = two_added, tracker = \<lparr>waitingExecutions = [], mainTimer = True\<rparr>, sv_events = []\<rparr>"
  have "\<not> isl (stop ''2'' (Some (ModeTrigger, New)) ?sv)" by code_simp
  then obtain sv' where s: "stop ''2'' (Some (ModeTrigger, New)) ?sv = Inr sv'" using not_isl_Inr by blast
  have f: "cq_queue (productionQueue (control two_added)) = [''2'']" "active two_added = []"
    "productionLimit (control two_added) = 1" "cc_has (control two_added) ''2''" by code_simp+
  from stop_correct[OF s] f s show ?thesis by (auto simp: production_def)
qed

text \<open>
  A stop between the release of an execution from the queue and its registration has no
  effect: it is in neither place, so it only is marked in the database and starts all the
  same.
\<close>

theorem stop_before_registration_lost:
  assumes "cc_enabled (control (executions sv))" and "e \<notin> set (cq_queue (productionQueue (control (executions sv))))"
    and "\<not> ae_has e (executions sv)" and "status \<in> {New, Unknown, Waiting, Running}"
  shows "\<exists>sv'. stop e (Some (mode, status)) sv = Inr sv' \<and> executions sv' = executions sv"
  using assms by (auto simp: stop_def assertStoppable_def stopInRegularMode_def cc_has_iff)

theorem stop_before_registration_lost_witness:
  "\<exists>sv'. stop ''1'' (Some (ModeWebhook, New)) \<lparr>executions = two_added, tracker = \<lparr>waitingExecutions = [], mainTimer = True\<rparr>,
      sv_events = []\<rparr> = Inr sv' \<and> executions sv' = two_added"
proof -
  let ?sv = "\<lparr>executions = two_added, tracker = \<lparr>waitingExecutions = [], mainTimer = True\<rparr>, sv_events = []\<rparr>"
  have f: "cq_queue (productionQueue (control two_added)) = [''2'']" "active two_added = []"
    "cc_enabled (control two_added)" by code_simp+
  then have "cc_enabled (control (executions ?sv))" "''1'' \<notin> set (cq_queue (productionQueue (control (executions ?sv))))"
    "\<not> ae_has ''1'' (executions ?sv)" by (simp_all add: ae_has_def obj_get_def)
  from stop_before_registration_lost[OF this, of New ModeWebhook] show ?thesis by simp
qed

end
