(* ===== verification/JsValues.thy ===== *)
theory JsValues
  imports Prelude "HOL-Library.Char_ord" "HOL-Library.List_Lexorder"
begin

text \<open>
  The operations of JavaScript on values that are not known to have the right type:
  reading a property, the keys, iteration, conversion to numbers and strings, comparison,
  and the methods of strings.  A number is written as the shortest decimal that denotes its
  double, so conversion between numbers and texts is exact; a text with more digits than
  a double has is not rounded.
\<close>

section \<open>Strings\<close>

definition split_at_char :: "char \<Rightarrow> string \<Rightarrow> string list" where
  "split_at_char d s =
     fold (\<lambda>c parts. if c = d then parts @ [[]] else butlast parts @ [last parts @ [c]]) s [[]]"

definition is_space :: "char \<Rightarrow> bool" where
  "is_space c \<longleftrightarrow> of_char c \<in> {9, 10, 11, 12, 13, 32, 160 :: nat}"

definition str_trim :: "string \<Rightarrow> string" where
  "str_trim s = rev (dropWhile is_space (rev (dropWhile is_space s)))"

fun starts_with :: "string \<Rightarrow> string \<Rightarrow> bool" where
  "starts_with s [] = True"
| "starts_with [] (p # ps) = False"
| "starts_with (c # s) (p # ps) = (c = p \<and> starts_with s ps)"

definition ends_with :: "string \<Rightarrow> string \<Rightarrow> bool" where
  "ends_with s p = starts_with (rev s) (rev p)"

fun has_substring :: "string \<Rightarrow> string \<Rightarrow> bool" where
  "has_substring [] p = (p = [])"
| "has_substring (c # s) p = (starts_with (c # s) p \<or> has_substring s p)"

definition char_at :: "string \<Rightarrow> nat \<Rightarrow> string" where
  "char_at s i = (if i < length s then [s ! i] else [])"

fun join_with :: "string \<Rightarrow> string list \<Rightarrow> string" where
  "join_with d [] = []"
| "join_with d [s] = s"
| "join_with d (s # ss) = s @ d @ join_with d ss"

definition lower_char :: "char \<Rightarrow> char" where
  "lower_char c =
     (let n = of_char c :: nat
      in if (65 \<le> n \<and> n \<le> 90) \<or> (192 \<le> n \<and> n \<le> 222 \<and> n \<noteq> 215) then char_of (n + 32) else c)"

definition lower :: "string \<Rightarrow> string" where
  "lower s = map lower_char s"

lemma starts_with_iff: "starts_with s p \<longleftrightarrow> take (length p) s = p"
  by (induction s p rule: starts_with.induct) auto

lemma starts_with_append: "starts_with s p \<longleftrightarrow> (\<exists>r. s = p @ r)"
  by (induction s p rule: starts_with.induct) auto

lemma has_substring_iff: "has_substring s p \<longleftrightarrow> (\<exists>a b. s = a @ p @ b)"
proof (induction s)
  case Nil
  then show ?case by simp
next
  case (Cons c s)
  show ?case
  proof
    assume "has_substring (c # s) p"
    then consider "starts_with (c # s) p" | "has_substring s p" by auto
    then show "\<exists>a b. c # s = a @ p @ b"
    proof cases
      case 1
      then obtain r where "c # s = [] @ p @ r" by (auto simp: starts_with_append)
      then show ?thesis by blast
    next
      case 2
      with Cons obtain a b where "c # s = (c # a) @ p @ b" by auto
      then show ?thesis by blast
    qed
  next
    assume "\<exists>a b. c # s = a @ p @ b"
    then obtain a b where e: "c # s = a @ p @ b" by blast
    show "has_substring (c # s) p"
    proof (cases a)
      case Nil
      from e have "c # s = p @ b" by (simp add: Nil)
      then have "starts_with (c # s) p" unfolding starts_with_append by blast
      then show ?thesis by simp
    next
      case (Cons x xs)
      with e Cons.IH show ?thesis by auto
    qed
  qed
qed

lemma split_fold:
  "fold (\<lambda>c parts. if c = d then parts @ [[]] else butlast parts @ [last parts @ [c]]) s (ps @ [p]) =
     ps @ (case split_at_char d s of [] \<Rightarrow> [p] | q # qs \<Rightarrow> (p @ q) # qs)"
proof (induction s arbitrary: ps p)
  case Nil
  then show ?case by (simp add: split_at_char_def)
next
  case (Cons c s)
  show ?case
  proof (cases "c = d")
    case True
    have "split_at_char d (c # s) = [] # split_at_char d s"
      using Cons[of "[[]]" "[]"] True Cons[of "[]" "[]"] by (auto simp: split_at_char_def split: list.splits)
    moreover have "split_at_char d s \<noteq> []"
      using Cons[of "[]" "[]"] by (auto simp: split_at_char_def split: list.splits)
    ultimately show ?thesis using Cons[of "ps @ [p]" "[]"] True by (auto split: list.splits)
  next
    case False
    have "split_at_char d (c # s) = (case split_at_char d s of [] \<Rightarrow> [[c]] | q # qs \<Rightarrow> (c # q) # qs)"
      using Cons[of "[]" "[c]"] False by (auto simp: split_at_char_def split: list.splits)
    with Cons[of ps "p @ [c]"] False show ?thesis by (auto split: list.splits)
  qed
qed

lemma split_at_char_simps:
  "split_at_char d [] = [[]]"
  "split_at_char d (c # s) =
     (if c = d then [] # split_at_char d s else (c # hd (split_at_char d s)) # tl (split_at_char d s))"
  "split_at_char d s \<noteq> []"
proof -
  show n: "split_at_char d s \<noteq> []" for s
    using split_fold[of d s "[]" "[]"] by (auto simp: split_at_char_def split: list.splits)
  show "split_at_char d [] = [[]]" by (simp add: split_at_char_def)
  show "split_at_char d (c # s) =
     (if c = d then [] # split_at_char d s else (c # hd (split_at_char d s)) # tl (split_at_char d s))"
    using split_fold[of d s "[[]]" "[]"] split_fold[of d s "[]" "[c]"] n[of s]
    by (auto simp: split_at_char_def split: list.splits)
qed

lemma split_no_char: "p \<in> set (split_at_char d s) \<Longrightarrow> d \<notin> set p"
proof (induction s arbitrary: p)
  case (Cons c s)
  have "hd (split_at_char d s) \<in> set (split_at_char d s)" by (simp add: split_at_char_simps(3))
  with Cons show ?case by (auto simp: split_at_char_simps(2) split: if_splits dest: list.set_sel(2)[OF split_at_char_simps(3)])
qed (simp add: split_at_char_simps(1))

lemma split_append: "d \<notin> set p \<Longrightarrow> split_at_char d (p @ d # s) = p # split_at_char d s"
  by (induction p) (auto simp: split_at_char_simps(2))

lemma split_plain: "d \<notin> set p \<Longrightarrow> split_at_char d p = [p]"
  by (induction p) (auto simp: split_at_char_simps(1,2))

section \<open>Numbers and texts\<close>

function int_digits :: "int \<Rightarrow> string" where
  "int_digits n = (if n < 10 then [char_of (n + 48)] else int_digits (n div 10) @ [char_of (n mod 10 + 48)])"
  by pat_completeness auto
termination by (relation "measure nat") auto

declare int_digits.simps [simp del]

definition nat_string :: "nat \<Rightarrow> string" where
  "nat_string n = int_digits (int n)"

lemma int_digits_decimal: "0 \<le> n \<Longrightarrow> c \<in> set (int_digits n) \<Longrightarrow> \<exists>k < 10. c = char_of (k + 48 :: int) \<and> 0 \<le> k"
proof (induction n rule: int_digits.induct)
  case (1 n)
  show ?case
  proof (cases "n < 10")
    case True
    with 1 show ?thesis by (subst (asm) int_digits.simps) auto
  next
    case False
    with 1(3) have "c \<in> set (int_digits (n div 10)) \<or> c = char_of (n mod 10 + 48)"
      by (subst (asm) int_digits.simps) auto
    then show ?thesis
    proof
      assume "c \<in> set (int_digits (n div 10))"
      with 1 False show ?thesis by auto
    next
      assume "c = char_of (n mod 10 + 48)"
      then show ?thesis by (intro exI[of _ "n mod 10"]) simp
    qed
  qed
qed

lemma nat_string_digits: "c \<in> set (nat_string n) \<Longrightarrow> is_digit c"
proof -
  assume "c \<in> set (nat_string n)"
  then obtain k :: int where k: "0 \<le> k" "k < 10" "c = char_of (k + 48)"
    using int_digits_decimal[of "int n" c] by (auto simp: nat_string_def)
  from k(1,2) have "k = 0 \<or> k = 1 \<or> k = 2 \<or> k = 3 \<or> k = 4 \<or> k = 5 \<or> k = 6 \<or> k = 7 \<or> k = 8 \<or> k = 9" by arith
  then show ?thesis unfolding k(3) by (elim disjE; hypsubst; code_simp)
qed

text \<open>The least number of decimals, up to a bound, and the digits without trailing zeros.\<close>

fun decimals :: "nat \<Rightarrow> int \<Rightarrow> number \<Rightarrow> int \<times> int" where
  "decimals 0 k x = (k, fst (quotient_of x))"
| "decimals (Suc f) k x = (let (p, q) = quotient_of x in if q = 1 then (k, p) else decimals f (k + 1) (10 * x))"

fun strip_zeros :: "nat \<Rightarrow> int \<Rightarrow> int" where
  "strip_zeros 0 n = n"
| "strip_zeros (Suc f) n = (if n mod 10 = 0 \<and> n \<noteq> 0 then strip_zeros f (n div 10) else n)"

text \<open>
  \<open>Number.prototype.toString\<close>: with digits \<open>s\<close> whose point comes after the first \<open>n\<close>, plain
  notation for \<open>n\<close> from -5 to 21 and an exponent otherwise.
\<close>

definition place_point :: "string \<Rightarrow> int \<Rightarrow> string" where
  "place_point s n =
     (let k = int (length s)
      in if k \<le> n \<and> n \<le> 21 then s @ replicate (nat (n - k)) (CHR ''0'')
         else if 0 < n \<and> n \<le> 21 then take (nat n) s @ ''.'' @ drop (nat n) s
         else if -6 < n \<and> n \<le> 0 then ''0.'' @ replicate (nat (- n)) (CHR ''0'') @ s
         else take 1 s @ (if length s = 1 then [] else ''.'' @ drop 1 s) @ ''e'' @
              (if n - 1 < 0 then ''-'' else ''+'') @ nat_string (nat \<bar>n - 1\<bar>))"

definition positive_string :: "number \<Rightarrow> string" where
  "positive_string x =
     (let (k, m) = decimals 400 0 x
      in place_point (int_digits (strip_zeros 400 m)) (int (length (int_digits m)) - k))"

definition num_string :: "number \<Rightarrow> string" where
  "num_string x =
     (if x = 0 then ''0'' else if x < 0 then ''-'' @ positive_string (- x) else positive_string x)"

text \<open>What \<open>Number(...)\<close> gives.\<close>

datatype js_number = NotANumber | Infinite bool | Finite number

definition digit_value :: "nat \<Rightarrow> char \<Rightarrow> nat option" where
  "digit_value base c =
     (let n = of_char c :: nat;
          v = (if 48 \<le> n \<and> n \<le> 57 then n - 48
               else if 97 \<le> n \<and> n \<le> 102 then n - 87
               else if 65 \<le> n \<and> n \<le> 70 then n - 55 else 99)
      in if v < base then Some v else None)"

fun digits_value :: "nat \<Rightarrow> string \<Rightarrow> nat \<Rightarrow> nat option" where
  "digits_value base [] acc = Some acc"
| "digits_value base (c # cs) acc =
     (case digit_value base c of None \<Rightarrow> None | Some d \<Rightarrow> digits_value base cs (base * acc + d))"

definition prefixed_integer :: "nat \<Rightarrow> string \<Rightarrow> js_number" where
  "prefixed_integer base s =
     (if s = [] then NotANumber
      else case digits_value base s 0 of None \<Rightarrow> NotANumber | Some n \<Rightarrow> Finite (of_nat n))"

definition signed_exponent :: "string \<Rightarrow> int option" where
  "signed_exponent s =
     (let (sg, ds) = (case s of [] \<Rightarrow> (1, [])
                      | c # cs \<Rightarrow> (if c = CHR ''-'' then (-1, cs) else if c = CHR ''+'' then (1, cs) else (1, s)))
      in if ds = [] \<or> \<not> list_all is_digit ds then None else Some (sg * int (decimal ds)))"

definition scale10 :: "number \<Rightarrow> int \<Rightarrow> number" where
  "scale10 x e = (if 0 \<le> e then x * 10 ^ nat e else x / 10 ^ nat (- e))"

text \<open>Digits, at most one point with a digit on one of its sides, and at most one exponent.\<close>

definition unsigned_decimal :: "string \<Rightarrow> js_number" where
  "unsigned_decimal s =
     (let mant = takeWhile (\<lambda>c. c \<noteq> CHR ''e'' \<and> c \<noteq> CHR ''E'') s;
          rest = drop (length mant) s;
          ip = takeWhile is_digit mant; after = dropWhile is_digit mant;
          fp = (case after of [] \<Rightarrow> Some [] | c # cs \<Rightarrow> (if c = CHR ''.'' \<and> list_all is_digit cs then Some cs else None));
          ex = (case rest of [] \<Rightarrow> Some 0 | c # cs \<Rightarrow> signed_exponent cs)
      in case (fp, ex) of
          (Some f, Some e) \<Rightarrow>
            (if ip = [] \<and> f = [] then NotANumber
             else let x = scale10 (of_nat (decimal (ip @ f))) (e - int (length f))
                  in if 2 ^ 1024 \<le> x then Infinite True else Finite x)
        | _ \<Rightarrow> NotANumber)"

definition negate_number :: "js_number \<Rightarrow> js_number" where
  "negate_number n =
     (case n of NotANumber \<Rightarrow> NotANumber | Infinite b \<Rightarrow> Infinite (\<not> b) | Finite x \<Rightarrow> Finite (- x))"

definition decimal_literal :: "string \<Rightarrow> js_number" where
  "decimal_literal s = (if s = ''Infinity'' then Infinite True else unsigned_decimal s)"

definition string_number :: "string \<Rightarrow> js_number" where
  "string_number s =
     (let t = str_trim s
      in case t of
          [] \<Rightarrow> Finite 0
        | c # cs \<Rightarrow>
            (if c = CHR ''-'' then negate_number (decimal_literal cs)
             else if c = CHR ''+'' then decimal_literal cs
             else if starts_with t ''0x'' \<or> starts_with t ''0X'' then prefixed_integer 16 (drop 2 t)
             else if starts_with t ''0o'' \<or> starts_with t ''0O'' then prefixed_integer 8 (drop 2 t)
             else if starts_with t ''0b'' \<or> starts_with t ''0B'' then prefixed_integer 2 (drop 2 t)
             else decimal_literal t))"

section \<open>Values\<close>

definition is_primitive :: "jval \<Rightarrow> bool" where
  "is_primitive v = (case v of JArr _ \<Rightarrow> False | JObj _ \<Rightarrow> False | _ \<Rightarrow> True)"

text \<open>\<open>String(v)\<close>; in an array null and undefined are empty.\<close>

fun js_string :: "jval \<Rightarrow> string" where
  "js_string JUndef = ''undefined''"
| "js_string JNull = ''null''"
| "js_string (JBool b) = (if b then ''true'' else ''false'')"
| "js_string (JNum n) = num_string n"
| "js_string (JStr s) = s"
| "js_string (JArr vs) = join_with '','' (map (\<lambda>v. if v = JUndef \<or> v = JNull then [] else js_string v) vs)"
| "js_string (JObj _) = ''[object Object]''"

fun js_to_number :: "jval \<Rightarrow> js_number" where
  "js_to_number JUndef = NotANumber"
| "js_to_number JNull = Finite 0"
| "js_to_number (JBool b) = Finite (if b then 1 else 0)"
| "js_to_number (JNum n) = Finite n"
| "js_to_number (JStr s) = string_number s"
| "js_to_number v = string_number (js_string v)"

definition js_typeof :: "jval \<Rightarrow> string" where
  "js_typeof v = (case v of JUndef \<Rightarrow> ''undefined'' | JBool _ \<Rightarrow> ''boolean'' | JNum _ \<Rightarrow> ''number''
     | JStr _ \<Rightarrow> ''string'' | _ \<Rightarrow> ''object'')"

text \<open>The relational operators: None when one of the numbers is not a number.\<close>

datatype ordering = Less | Equal | Greater

definition compare_numbers :: "js_number \<Rightarrow> js_number \<Rightarrow> ordering option" where
  "compare_numbers a b =
     (case (a, b) of
        (NotANumber, _) \<Rightarrow> None
      | (_, NotANumber) \<Rightarrow> None
      | (Infinite p, Infinite q) \<Rightarrow> Some (if p = q then Equal else if p then Greater else Less)
      | (Infinite p, Finite _) \<Rightarrow> Some (if p then Greater else Less)
      | (Finite _, Infinite q) \<Rightarrow> Some (if q then Less else Greater)
      | (Finite x, Finite y) \<Rightarrow> Some (if x < y then Less else if x = y then Equal else Greater))"

definition js_compare :: "jval \<Rightarrow> jval \<Rightarrow> ordering option" where
  "js_compare a b =
     (let p = (\<lambda>v. if is_primitive v then v else JStr (js_string v))
      in case (p a, p b) of
          (JStr s, JStr t) \<Rightarrow> Some (if s < t then Less else if s = t then Equal else Greater)
        | _ \<Rightarrow> compare_numbers (js_to_number a) (js_to_number b))"

text \<open>
  Strict equality with a value that comes from somewhere else: objects and arrays are
  compared by identity, so they differ.
\<close>

definition js_same :: "jval \<Rightarrow> jval \<Rightarrow> bool" where
  "js_same a b \<longleftrightarrow> is_primitive a \<and> a = b"

definition js_includes :: "jval list \<Rightarrow> jval \<Rightarrow> bool" where
  "js_includes vs v = list_ex (\<lambda>x. js_same x v) vs"

text \<open>Reading a property of a value that is neither null nor undefined.\<close>

definition js_prop :: "jval \<Rightarrow> string \<Rightarrow> js_error + jval" where
  "js_prop v k =
     (case v of
        JUndef \<Rightarrow> Inl TypeError
      | JNull \<Rightarrow> Inl TypeError
      | JObj ob \<Rightarrow> Inr (get_prop ob k)
      | JArr vs \<Rightarrow> Inr (if k = ''length'' then JNum (of_nat (length vs))
          else case index_key k of Some i \<Rightarrow> (if i < length vs then vs ! i else JUndef) | None \<Rightarrow> JUndef)
      | JStr s \<Rightarrow> Inr (if k = ''length'' then JNum (of_nat (length s))
          else case index_key k of Some i \<Rightarrow> (if i < length s then JStr [s ! i] else JUndef) | None \<Rightarrow> JUndef)
      | _ \<Rightarrow> Inr JUndef)"

text \<open>\<open>Object.keys(v || {})\<close>, and the values a for-of loop visits.\<close>

definition js_keys :: "jval \<Rightarrow> string list" where
  "js_keys v =
     (case v of
        JObj ob \<Rightarrow> obj_keys ob
      | JArr vs \<Rightarrow> map nat_string [0..<length vs]
      | JStr s \<Rightarrow> map nat_string [0..<length s]
      | _ \<Rightarrow> [])"

definition js_iterate :: "jval \<Rightarrow> js_error + jval list" where
  "js_iterate v =
     (case v of JArr vs \<Rightarrow> Inr vs | JStr s \<Rightarrow> Inr (map (\<lambda>c. JStr [c]) s) | _ \<Rightarrow> Inl TypeError)"

text \<open>\<open>every\<close> and \<open>some\<close> with a test that may throw.\<close>

fun res_every :: "('a \<Rightarrow> 'e + bool) \<Rightarrow> 'a list \<Rightarrow> 'e + bool" where
  "res_every f [] = Inr True"
| "res_every f (x # xs) = res_bind (f x) (\<lambda>b. if b then res_every f xs else Inr False)"

fun res_some :: "('a \<Rightarrow> 'e + bool) \<Rightarrow> 'a list \<Rightarrow> 'e + bool" where
  "res_some f [] = Inr False"
| "res_some f (x # xs) = res_bind (f x) (\<lambda>b. if b then Inr True else res_some f xs)"

lemma res_every_total: "(\<And>x. x \<in> set xs \<Longrightarrow> f x = Inr (p x)) \<Longrightarrow> res_every f xs = Inr (list_all p xs)"
  by (induction xs) auto

lemma res_some_total: "(\<And>x. x \<in> set xs \<Longrightarrow> f x = Inr (p x)) \<Longrightarrow> res_some f xs = Inr (list_ex p xs)"
  by (induction xs) auto

lemma js_includes_iff: "js_includes vs v \<longleftrightarrow> is_primitive v \<and> v \<in> set vs"
  by (auto simp: js_includes_def js_same_def list_ex_iff)

end
