(* ===== verification/Permissions.thy ===== *)
theory Permissions
  imports JsValues
begin

text \<open>
  Who may do what: the scopes of the roles (packages/cli/src/permissions), how scopes of
  several levels are combined and masked (packages/@n8n/permissions), the role service, the
  check of a user's access to a credential, a workflow or a project, and the policy that
  decides whether a workflow may call another one.  The rows of the database are lists.
\<close>

section \<open>The scopes of the roles\<close>

definition GLOBAL_OWNER_SCOPES :: "string list" where
  "GLOBAL_OWNER_SCOPES =
     [''annotationTag:create'', ''annotationTag:read'', ''annotationTag:update'',
      ''annotationTag:delete'', ''annotationTag:list'', ''auditLogs:manage'',
      ''banner:dismiss'', ''credential:create'', ''credential:read'', ''credential:update'',
      ''credential:delete'', ''credential:list'', ''credential:share'', ''credential:move'',
      ''communityPackage:install'', ''communityPackage:uninstall'',
      ''communityPackage:update'', ''communityPackage:list'', ''eventBusDestination:create'',
      ''eventBusDestination:read'', ''eventBusDestination:update'',
      ''eventBusDestination:delete'', ''eventBusDestination:list'',
      ''eventBusDestination:test'', ''externalSecretsProvider:create'',
      ''externalSecretsProvider:read'', ''externalSecretsProvider:update'',
      ''externalSecretsProvider:delete'', ''externalSecretsProvider:list'',
      ''externalSecretsProvider:sync'', ''externalSecret:list'', ''externalSecret:use'',
      ''ldap:manage'', ''ldap:sync'', ''license:manage'', ''logStreaming:manage'',
      ''orchestration:read'', ''orchestration:list'', ''saml:manage'',
      ''securityAudit:generate'', ''sourceControl:pull'', ''sourceControl:push'',
      ''sourceControl:manage'', ''tag:create'', ''tag:read'', ''tag:update'', ''tag:delete'',
      ''tag:list'', ''user:create'', ''user:read'', ''user:update'', ''user:delete'',
      ''user:list'', ''user:resetPassword'', ''user:changeRole'', ''variable:create'',
      ''variable:read'', ''variable:update'', ''variable:delete'', ''variable:list'',
      ''workflow:create'', ''workflow:read'', ''workflow:update'', ''workflow:delete'',
      ''workflow:list'', ''workflow:share'', ''workflow:execute'', ''workflow:move'',
      ''workersView:manage'', ''project:list'', ''project:create'', ''project:read'',
      ''project:update'', ''project:delete'']"

definition GLOBAL_ADMIN_SCOPES :: "string list" where
  "GLOBAL_ADMIN_SCOPES = GLOBAL_OWNER_SCOPES @ []"

definition GLOBAL_MEMBER_SCOPES :: "string list" where
  "GLOBAL_MEMBER_SCOPES =
     [''annotationTag:create'', ''annotationTag:read'', ''annotationTag:update'',
      ''annotationTag:delete'', ''annotationTag:list'', ''eventBusDestination:list'',
      ''eventBusDestination:test'', ''tag:create'', ''tag:read'', ''tag:update'', ''tag:list'',
      ''user:list'', ''variable:list'', ''variable:read'']"

definition REGULAR_PROJECT_ADMIN_SCOPES :: "string list" where
  "REGULAR_PROJECT_ADMIN_SCOPES =
     [''workflow:create'', ''workflow:read'', ''workflow:update'', ''workflow:delete'',
      ''workflow:list'', ''workflow:execute'', ''workflow:move'', ''credential:create'',
      ''credential:read'', ''credential:update'', ''credential:delete'', ''credential:list'',
      ''credential:move'', ''credential:share'', ''project:list'', ''project:read'',
      ''project:update'', ''project:delete'']"

definition PERSONAL_PROJECT_OWNER_SCOPES :: "string list" where
  "PERSONAL_PROJECT_OWNER_SCOPES =
     [''workflow:create'', ''workflow:read'', ''workflow:update'', ''workflow:delete'',
      ''workflow:list'', ''workflow:execute'', ''workflow:share'', ''workflow:move'',
      ''credential:create'', ''credential:read'', ''credential:update'', ''credential:delete'',
      ''credential:list'', ''credential:share'', ''credential:move'', ''project:list'',
      ''project:read'']"

definition PROJECT_EDITOR_SCOPES :: "string list" where
  "PROJECT_EDITOR_SCOPES =
     [''workflow:create'', ''workflow:read'', ''workflow:update'', ''workflow:delete'',
      ''workflow:list'', ''workflow:execute'', ''credential:create'', ''credential:read'',
      ''credential:update'', ''credential:delete'', ''credential:list'', ''project:list'',
      ''project:read'']"

definition PROJECT_VIEWER_SCOPES :: "string list" where
  "PROJECT_VIEWER_SCOPES =
     [''credential:list'', ''credential:read'', ''project:list'', ''project:read'',
      ''workflow:list'', ''workflow:read'']"

definition CREDENTIALS_SHARING_OWNER_SCOPES :: "string list" where
  "CREDENTIALS_SHARING_OWNER_SCOPES =
     [''credential:read'', ''credential:update'', ''credential:delete'', ''credential:share'',
      ''credential:move'']"

definition CREDENTIALS_SHARING_USER_SCOPES :: "string list" where
  "CREDENTIALS_SHARING_USER_SCOPES =
     [''credential:read'']"

definition WORKFLOW_SHARING_OWNER_SCOPES :: "string list" where
  "WORKFLOW_SHARING_OWNER_SCOPES =
     [''workflow:read'', ''workflow:update'', ''workflow:delete'', ''workflow:execute'',
      ''workflow:share'', ''workflow:move'']"

definition WORKFLOW_SHARING_EDITOR_SCOPES :: "string list" where
  "WORKFLOW_SHARING_EDITOR_SCOPES =
     [''workflow:read'', ''workflow:update'', ''workflow:execute'']"

section \<open>Combining scopes\<close>

text \<open>Scopes by level, in the order of the levels of the object.\<close>

type_synonym ScopeLevels = "(string \<times> string list) list"

datatype ScopeMode = OneOf | AllOf

definition combineScopes :: "ScopeLevels \<Rightarrow> string list option \<Rightarrow> string list" where
  "combineScopes userScopes sharing =
     dedupe_list (concat (map (\<lambda>(level, scopes).
       case sharing of
         None \<Rightarrow> scopes
       | Some shMask \<Rightarrow>
           (if level = ''project'' \<or> level = ''resource'' then filter (\<lambda>v. v \<in> set shMask) scopes else scopes))
       userScopes))"

definition hasScope :: "string list \<Rightarrow> ScopeLevels \<Rightarrow> string list option \<Rightarrow> ScopeMode \<Rightarrow> bool" where
  "hasScope scopes userScopes masks mode =
     (let userScopeSet = set (combineScopes userScopes masks)
      in case mode of
          AllOf \<Rightarrow> scopes \<noteq> [] \<and> list_all (\<lambda>s. s \<in> userScopeSet) scopes
        | OneOf \<Rightarrow> list_ex (\<lambda>s. s \<in> userScopeSet) scopes)"

section \<open>Roles\<close>

definition GLOBAL_SCOPE_MAP :: "string list str_obj" where
  "GLOBAL_SCOPE_MAP =
     [(''global:owner'', GLOBAL_OWNER_SCOPES), (''global:admin'', GLOBAL_ADMIN_SCOPES),
      (''global:member'', GLOBAL_MEMBER_SCOPES)]"

definition PROJECT_SCOPE_MAP :: "string list str_obj" where
  "PROJECT_SCOPE_MAP =
     [(''project:admin'', REGULAR_PROJECT_ADMIN_SCOPES), (''project:personalOwner'', PERSONAL_PROJECT_OWNER_SCOPES),
      (''project:editor'', PROJECT_EDITOR_SCOPES), (''project:viewer'', PROJECT_VIEWER_SCOPES)]"

definition CREDENTIALS_SHARING_SCOPE_MAP :: "string list str_obj" where
  "CREDENTIALS_SHARING_SCOPE_MAP =
     [(''credential:owner'', CREDENTIALS_SHARING_OWNER_SCOPES), (''credential:user'', CREDENTIALS_SHARING_USER_SCOPES)]"

definition WORKFLOW_SHARING_SCOPE_MAP :: "string list str_obj" where
  "WORKFLOW_SHARING_SCOPE_MAP =
     [(''workflow:owner'', WORKFLOW_SHARING_OWNER_SCOPES), (''workflow:editor'', WORKFLOW_SHARING_EDITOR_SCOPES)]"

datatype RoleNamespace = GlobalRoles | ProjectRoles | CredentialRoles | WorkflowRoles

fun ALL_MAPS :: "RoleNamespace \<Rightarrow> string list str_obj" where
  "ALL_MAPS GlobalRoles = GLOBAL_SCOPE_MAP"
| "ALL_MAPS ProjectRoles = PROJECT_SCOPE_MAP"
| "ALL_MAPS CredentialRoles = CREDENTIALS_SHARING_SCOPE_MAP"
| "ALL_MAPS WorkflowRoles = WORKFLOW_SHARING_SCOPE_MAP"

definition COMBINED_MAP :: "string list str_obj" where
  "COMBINED_MAP = concat (map ALL_MAPS [GlobalRoles, ProjectRoles, CredentialRoles, WorkflowRoles])"

definition rolesWithScope :: "RoleNamespace \<Rightarrow> string list \<Rightarrow> string list" where
  "rolesWithScope ns scopes =
     map fst (filter (\<lambda>(role, granted). list_all (\<lambda>s. s \<in> set granted) scopes) (ALL_MAPS ns))"

definition scope_resource :: "string \<Rightarrow> string" where
  "scope_resource s = takeWhile (\<lambda>c. c \<noteq> CHR '':'') s"

text \<open>A role the map does not have gives undefined, which throws only when it is filtered.\<close>

definition getRoleScopes :: "string \<Rightarrow> string list option \<Rightarrow> js_error + string list" where
  "getRoleScopes role filters =
     (case obj_get COMBINED_MAP role of
        None \<Rightarrow> Inl TypeError
      | Some scopes \<Rightarrow> Inr (case filters of
          None \<Rightarrow> scopes
        | Some rs \<Rightarrow> filter (\<lambda>s. scope_resource s \<in> set rs) scopes))"

definition getScopesBy :: "string list \<Rightarrow> string list" where
  "getScopesBy projectRoles =
     dedupe_list (concat (map (\<lambda>r. case obj_get PROJECT_SCOPE_MAP r of None \<Rightarrow> [] | Some s \<Rightarrow> s) projectRoles))"

section \<open>Users, projects and what is shared with them\<close>

record User =
  user_id :: string
  user_role :: string

record ProjectRelation =
  pr_userId :: string
  pr_projectId :: string
  pr_role :: string

text \<open>A credential or a workflow shared with a project.\<close>

record SharedEntity =
  sh_entityId :: string
  sh_projectId :: string
  sh_role :: string

definition globalScopes :: "User \<Rightarrow> string list" where
  "globalScopes user = (case obj_get GLOBAL_SCOPE_MAP (user_role user) of None \<Rightarrow> [] | Some s \<Rightarrow> s)"

definition hasGlobalScope :: "User \<Rightarrow> string list \<Rightarrow> ScopeMode \<Rightarrow> bool" where
  "hasGlobalScope user scopes mode = hasScope scopes [(''global'', globalScopes user)] None mode"

text \<open>One entity shared with a project: what the user's role there and the sharing role allow.\<close>

definition sharedScopes :: "string list \<Rightarrow> ProjectRelation list \<Rightarrow> SharedEntity \<Rightarrow> js_error + string list" where
  "sharedScopes allGlobal relations sh =
     (let pr = find (\<lambda>p. pr_projectId p = sh_projectId sh) relations
      in res_bind (case pr of None \<Rightarrow> Inr [] | Some p \<Rightarrow> getRoleScopes (pr_role p) None) (\<lambda>projectScopes.
         res_bind (getRoleScopes (sh_role sh) None) (\<lambda>resourceMask.
           Inr (combineScopes [(''global'', allGlobal), (''project'', projectScopes)] (Some resourceMask)))))"

definition combineResourceScopes ::
    "string \<Rightarrow> User \<Rightarrow> SharedEntity list \<Rightarrow> ProjectRelation list \<Rightarrow> js_error + string list" where
  "combineResourceScopes type user shared relations =
     res_bind (getRoleScopes (user_role user) (Some [type])) (\<lambda>allGlobal.
     res_bind (res_fold (\<lambda>sh acc. res_bind (sharedScopes allGlobal relations sh) (\<lambda>s. Inr (acc @ s))) shared allGlobal)
       (\<lambda>scopes. Inr (sort (dedupe_list scopes))))"

text \<open>The check of a request; the ids that it has in its parameters are the targets.\<close>

datatype AccessTarget = OnCredential string | OnWorkflow string | OnProject string | NoTarget

definition userProjectIds :: "ProjectRelation list \<Rightarrow> User \<Rightarrow> string list \<Rightarrow> string list" where
  "userProjectIds relations user roles =
     map pr_projectId (filter (\<lambda>r. pr_userId r = user_id user \<and> pr_role r \<in> set roles) relations)"

definition shared_with ::
    "SharedEntity list \<Rightarrow> string list \<Rightarrow> string \<Rightarrow> string list \<Rightarrow> bool" where
  "shared_with rows projectIds entityId roles =
     list_ex (\<lambda>sh. sh_projectId sh \<in> set projectIds \<and> sh_entityId sh = entityId \<and> sh_role sh \<in> set roles) rows"

definition userHasScope ::
    "ProjectRelation list \<Rightarrow> SharedEntity list \<Rightarrow> SharedEntity list \<Rightarrow> User \<Rightarrow> string list \<Rightarrow> bool \<Rightarrow>
     AccessTarget \<Rightarrow> js_error + bool" where
  "userHasScope relations sharedCredentials sharedWorkflows user scopes globalOnly target =
     (if hasGlobalScope user scopes AllOf then Inr True
      else if globalOnly then Inr False
      else (let ids = userProjectIds relations user (rolesWithScope ProjectRoles scopes)
            in case target of
                OnCredential c \<Rightarrow> Inr (shared_with sharedCredentials ids c (rolesWithScope CredentialRoles scopes))
              | OnWorkflow w \<Rightarrow> Inr (shared_with sharedWorkflows ids w (rolesWithScope WorkflowRoles scopes))
              | OnProject p \<Rightarrow> Inr (p \<in> set ids)
              | NoTarget \<Rightarrow> Inl (ApplicationError ''@ProjectScope decorator was used without an id'')))"

section \<open>Calling another workflow\<close>

datatype CallerPolicy = PolicyAny | PolicyNone | PolicyFromAList | PolicySameOwner

record SubworkflowSettings =
  callerPolicy :: "CallerPolicy option"
  callerIds :: "string option"

definition findPolicy :: "bool \<Rightarrow> CallerPolicy \<Rightarrow> SubworkflowSettings \<Rightarrow> CallerPolicy" where
  "findPolicy sharingEnabled defaultPolicy settings =
     (if \<not> sharingEnabled then PolicySameOwner
      else case callerPolicy settings of None \<Rightarrow> defaultPolicy | Some p \<Rightarrow> p)"

definition hasParentListed :: "SubworkflowSettings \<Rightarrow> string \<Rightarrow> bool" where
  "hasParentListed settings parentWorkflowId =
     (case callerIds settings of
        None \<Rightarrow> False
      | Some ids \<Rightarrow> parentWorkflowId \<in> set (filter (\<lambda>i. i \<noteq> []) (map str_trim (split_at_char (CHR '','') ids))))"

text \<open>\<open>projectOf\<close> is the project that owns a workflow; the lookup throws when there is none.\<close>

definition check_subworkflow ::
    "bool \<Rightarrow> CallerPolicy \<Rightarrow> (string \<Rightarrow> string option) \<Rightarrow> string \<Rightarrow> SubworkflowSettings \<Rightarrow> string \<Rightarrow> js_error + unit" where
  "check_subworkflow sharingEnabled defaultPolicy projectOf subworkflowId settings parentWorkflowId =
     (if subworkflowId = [] then Inr ()
      else (let policy = findPolicy sharingEnabled defaultPolicy settings
            in if policy = PolicyAny then Inr ()
               else case (projectOf parentWorkflowId, projectOf subworkflowId) of
                   (Some p, Some q) \<Rightarrow>
                     (if policy = PolicyNone \<or>
                         (policy = PolicyFromAList \<and> \<not> hasParentListed settings parentWorkflowId) \<or>
                         (policy = PolicySameOwner \<and> p \<noteq> q)
                      then Inl (WorkflowOperationError ''Target workflow may not be called'') else Inr ())
                 | _ \<Rightarrow> Inl (ApplicationError ''EntityNotFound'')))"

section \<open>What the roles may do\<close>

lemma combineScopes_mem:
  "x \<in> set (combineScopes userScopes sharing) \<longleftrightarrow>
     (\<exists>e \<in> set userScopes. x \<in> set (snd e) \<and>
        (sharing = None \<or> (fst e \<noteq> ''project'' \<and> fst e \<noteq> ''resource'') \<or> x \<in> set (the sharing)))"
  unfolding combineScopes_def
  by (simp add: case_prod_beta) (rule bex_cong, simp_all split: option.split)

text \<open>
  Masking by the sharing role never adds a scope and never takes one of the global
  level away.
\<close>

theorem combineScopes_mask:
  "set (combineScopes userScopes (Some shMask)) \<subseteq> set (combineScopes userScopes None) \<and>
   (\<forall>g. (''global'', g) \<in> set userScopes \<longrightarrow> set g \<subseteq> set (combineScopes userScopes (Some shMask)))"
proof (intro conjI allI impI subsetI)
  fix x assume "x \<in> set (combineScopes userScopes (Some shMask))"
  then show "x \<in> set (combineScopes userScopes None)" unfolding combineScopes_mem by blast
next
  fix g x assume "(''global'', g) \<in> set userScopes" "x \<in> set g"
  then show "x \<in> set (combineScopes userScopes (Some shMask))" unfolding combineScopes_mem by force
qed

theorem combineScopes_mask_witness:
  "set GLOBAL_MEMBER_SCOPES \<subseteq> set (combineScopes [(''global'', GLOBAL_MEMBER_SCOPES), (''project'', PROJECT_EDITOR_SCOPES)]
     (Some WORKFLOW_SHARING_EDITOR_SCOPES))"
  using combineScopes_mask[of "[(''global'', GLOBAL_MEMBER_SCOPES), (''project'', PROJECT_EDITOR_SCOPES)]"
      WORKFLOW_SHARING_EDITOR_SCOPES] by simp

text \<open>The roles of a project form a chain, apart from what only a personal project allows.\<close>

lemma role_chain:
  "set PROJECT_VIEWER_SCOPES \<subseteq> set PROJECT_EDITOR_SCOPES"
  "set PROJECT_EDITOR_SCOPES \<subseteq> set REGULAR_PROJECT_ADMIN_SCOPES"
  "set PROJECT_EDITOR_SCOPES \<subseteq> set PERSONAL_PROJECT_OWNER_SCOPES"
  "set REGULAR_PROJECT_ADMIN_SCOPES \<subseteq> set GLOBAL_OWNER_SCOPES"
  "set PERSONAL_PROJECT_OWNER_SCOPES \<subseteq> set GLOBAL_OWNER_SCOPES"
  "set GLOBAL_MEMBER_SCOPES \<subseteq> set GLOBAL_ADMIN_SCOPES"
  by code_simp+

lemma res_fold_append:
  "res_fold (\<lambda>x acc. res_bind (f x) (\<lambda>s. Inr (acc @ s))) xs acc = Inr r \<Longrightarrow>
   (y \<in> set r \<longleftrightarrow> y \<in> set acc \<or> (\<exists>x \<in> set xs. \<exists>s. f x = Inr s \<and> y \<in> set s)) \<and> (\<forall>x \<in> set xs. \<exists>s. f x = Inr s)"
proof (induction xs arbitrary: acc)
  case Nil
  then show ?case by simp
next
  case (Cons x xs)
  then obtain s where s: "f x = Inr s" by (cases "f x") auto
  with Cons.prems have "res_fold (\<lambda>x acc. res_bind (f x) (\<lambda>s. Inr (acc @ s))) xs (acc @ s) = Inr r" by simp
  note IH = Cons.IH[OF this]
  have "(\<exists>z \<in> set (x # xs). \<exists>s. f z = Inr s \<and> y \<in> set s) \<longleftrightarrow> y \<in> set s \<or> (\<exists>z \<in> set xs. \<exists>s. f z = Inr s \<and> y \<in> set s)"
    using s by simp
  with IH s show ?case by (simp add: disj_assoc)
qed

lemma rolesWithScope_single:
  "role \<in> set (rolesWithScope ns [s]) \<longleftrightarrow> (\<exists>granted. (role, granted) \<in> set (ALL_MAPS ns) \<and> s \<in> set granted)"
  by (force simp: rolesWithScope_def)

definition project_role :: "string \<Rightarrow> bool" where
  "project_role r \<longleftrightarrow> r \<in> fst ` set PROJECT_SCOPE_MAP"

definition workflow_role :: "string \<Rightarrow> bool" where
  "workflow_role r \<longleftrightarrow> r \<in> fst ` set WORKFLOW_SHARING_SCOPE_MAP"

lemma combined_map_get:
  assumes "(r, g) \<in> set (ALL_MAPS ns)"
  shows "obj_get COMBINED_MAP r = Some g"
proof -
  have "distinct (map fst COMBINED_MAP)" by code_simp
  moreover have "(r, g) \<in> set COMBINED_MAP"
    using assms by (cases ns) (simp_all add: COMBINED_MAP_def del: ALL_MAPS.simps)
  ultimately show ?thesis by (simp add: obj_get_def)
qed

lemma role_scopes:
  assumes "r \<in> fst ` set (ALL_MAPS ns)"
  obtains s where "getRoleScopes r None = Inr s" and "\<And>x. x \<in> set s \<longleftrightarrow> r \<in> set (rolesWithScope ns [x])"
proof -
  from assms obtain g where g: "(r, g) \<in> set (ALL_MAPS ns)" by auto
  note get = combined_map_get[OF this]
  have "x \<in> set g \<longleftrightarrow> r \<in> set (rolesWithScope ns [x])" for x
    using g get combined_map_get unfolding rolesWithScope_single by (metis option.inject)
  with get that show thesis by (simp add: getRoleScopes_def)
qed

lemma global_scopes:
  assumes "getRoleScopes (user_role user) (Some [t]) = Inr allGlobal" and "user_role user \<in> fst ` set GLOBAL_SCOPE_MAP"
    and "scope_resource s = t"
  shows "s \<in> set allGlobal \<longleftrightarrow> hasGlobalScope user [s] AllOf"
proof -
  from assms(2) obtain g where g: "(user_role user, g) \<in> set GLOBAL_SCOPE_MAP" by auto
  then have "obj_get COMBINED_MAP (user_role user) = Some g" by (intro combined_map_get[of _ _ GlobalRoles]) simp
  moreover have "distinct (map fst GLOBAL_SCOPE_MAP)" by code_simp
  then have "obj_get GLOBAL_SCOPE_MAP (user_role user) = Some g" using g by (simp add: obj_get_def)
  ultimately show ?thesis
    using assms(1,3) by (auto simp: getRoleScopes_def hasGlobalScope_def hasScope_def globalScopes_def combineScopes_mem Let_def)
qed

lemma find_relation:
  assumes "distinct (map (\<lambda>r. (pr_userId r, pr_projectId r)) relations)" and "r \<in> set relations"
    and "pr_userId r = u" and "pr_projectId r = p"
  shows "find (\<lambda>q. pr_projectId q = p) (filter (\<lambda>r. pr_userId r = u) relations) = Some r"
  using assms by (induction relations) (auto simp: image_iff)

lemma find_relationD:
  assumes "find (\<lambda>q. pr_projectId q = p) (filter (\<lambda>r. pr_userId r = u) relations) = Some r"
  shows "r \<in> set relations \<and> pr_userId r = u \<and> pr_projectId r = p"
  using assms by (auto simp: find_Some_iff dest!: nth_mem)

lemma sharedScopes_mem:
  assumes "sharedScopes allGlobal (filter (\<lambda>r. pr_userId r = user_id user) relations) sh = Inr x"
    and "distinct (map (\<lambda>r. (pr_userId r, pr_projectId r)) relations)"
    and "\<forall>r \<in> set relations. pr_role r \<in> fst ` set PROJECT_SCOPE_MAP"
    and "sh_role sh \<in> fst ` set WORKFLOW_SHARING_SCOPE_MAP"
  shows "s \<in> set x \<longleftrightarrow> s \<in> set allGlobal \<or>
     sh_projectId sh \<in> set (userProjectIds relations user (rolesWithScope ProjectRoles [s])) \<and>
     sh_role sh \<in> set (rolesWithScope WorkflowRoles [s])"
proof -
  let ?pr = "find (\<lambda>p. pr_projectId p = sh_projectId sh) (filter (\<lambda>r. pr_userId r = user_id user) relations)"
  obtain m where m: "getRoleScopes (sh_role sh) None = Inr m"
    and mask: "\<And>x. x \<in> set m \<longleftrightarrow> sh_role sh \<in> set (rolesWithScope WorkflowRoles [x])"
    by (rule role_scopes[of "sh_role sh" WorkflowRoles]) (use assms(4) in auto)
  show ?thesis
  proof (cases ?pr)
    case None
    then have "sh_projectId sh \<notin> set (userProjectIds relations user roles)" for roles
      by (auto simp: userProjectIds_def find_None_iff)
    with None m assms(1) show ?thesis by (auto simp: sharedScopes_def combineScopes_mem)
  next
    case (Some r)
    from find_relationD[OF Some] have r: "r \<in> set relations" "pr_userId r = user_id user" "pr_projectId r = sh_projectId sh"
      by blast+
    obtain ps where ps: "getRoleScopes (pr_role r) None = Inr ps"
      and proj: "\<And>x. x \<in> set ps \<longleftrightarrow> pr_role r \<in> set (rolesWithScope ProjectRoles [x])"
      by (rule role_scopes[of "pr_role r" ProjectRoles]) (use assms(3) r(1) in auto)
    have "sh_projectId sh \<in> set (userProjectIds relations user roles) \<longleftrightarrow> pr_role r \<in> set roles" for roles
    proof
      assume "sh_projectId sh \<in> set (userProjectIds relations user roles)"
      then obtain q where q: "q \<in> set relations" "pr_userId q = user_id user" "pr_projectId q = sh_projectId sh" "pr_role q \<in> set roles"
        by (auto simp: userProjectIds_def)
      from find_relation[OF assms(2) q(1-3)] Some q(4) show "pr_role r \<in> set roles" by simp
    next
      assume "pr_role r \<in> set roles"
      with r show "sh_projectId sh \<in> set (userProjectIds relations user roles)"
        by (force simp: userProjectIds_def)
    qed
    with Some ps m proj mask assms(1) show ?thesis by (auto simp: sharedScopes_def combineScopes_mem)
  qed
qed

text \<open>
  C35: What is shown and what is allowed agree for a single scope: the scopes listed with a
  workflow for a user contain a workflow scope exactly if the check of a request for that
  scope on that workflow lets the user pass.
\<close>

theorem listed_scopes_are_allowed:
  assumes "combineResourceScopes ''workflow'' user (filter (\<lambda>sh. sh_entityId sh = w) rows)
      (filter (\<lambda>r. pr_userId r = user_id user) relations) = Inr listed"
    and "scope_resource s = ''workflow''" and "user_role user \<in> fst ` set GLOBAL_SCOPE_MAP"
    and "distinct (map (\<lambda>r. (pr_userId r, pr_projectId r)) relations)"
    and "\<forall>r \<in> set relations. pr_role r \<in> fst ` set PROJECT_SCOPE_MAP"
    and "\<forall>sh \<in> set rows. sh_role sh \<in> fst ` set WORKFLOW_SHARING_SCOPE_MAP"
  shows "(s \<in> set listed) = (userHasScope relations creds rows user [s] False (OnWorkflow w) = Inr True)"
proof -
  let ?shared = "filter (\<lambda>sh. sh_entityId sh = w) rows" and ?mine = "filter (\<lambda>r. pr_userId r = user_id user) relations"
  let ?ids = "userProjectIds relations user (rolesWithScope ProjectRoles [s])"
  from assms(1) obtain allGlobal scopes where g: "getRoleScopes (user_role user) (Some [''workflow'']) = Inr allGlobal"
    and f: "res_fold (\<lambda>sh acc. res_bind (sharedScopes allGlobal ?mine sh) (\<lambda>s. Inr (acc @ s))) ?shared allGlobal = Inr scopes"
    and l: "listed = sort (dedupe_list scopes)"
    by (auto simp: combineResourceScopes_def res_bind_Inr)
  note F = res_fold_append[OF f, of s]
  have sh: "(\<exists>x. sharedScopes allGlobal ?mine sh = Inr x \<and> s \<in> set x) \<longleftrightarrow>
      s \<in> set allGlobal \<or> sh_projectId sh \<in> set ?ids \<and> sh_role sh \<in> set (rolesWithScope WorkflowRoles [s])"
    if "sh \<in> set ?shared" for sh
  proof -
    from F that obtain x where x: "sharedScopes allGlobal ?mine sh = Inr x" by blast
    have "sh_role sh \<in> fst ` set WORKFLOW_SHARING_SCOPE_MAP" using that assms(6) by simp
    from sharedScopes_mem[OF x assms(4,5) this, of s] x show ?thesis by simp
  qed
  have "s \<in> set listed \<longleftrightarrow> s \<in> set allGlobal \<or> shared_with rows ?ids w (rolesWithScope WorkflowRoles [s])"
    using F sh unfolding l shared_with_def list_ex_iff set_sort dedupe_list_set set_filter by blast
  with global_scopes[OF g assms(3,2)] show ?thesis
    by (auto simp: userHasScope_def Let_def)
qed

theorem listed_scopes_are_allowed_witness:
  "userHasScope [\<lparr>pr_userId = ''u'', pr_projectId = ''p'', pr_role = ''project:editor''\<rparr>] []
     [\<lparr>sh_entityId = ''w'', sh_projectId = ''p'', sh_role = ''workflow:owner''\<rparr>]
     \<lparr>user_id = ''u'', user_role = ''global:member''\<rparr> [''workflow:update''] False (OnWorkflow ''w'') = Inr True"
proof -
  let ?u = "\<lparr>user_id = ''u'', user_role = ''global:member''\<rparr>"
  let ?rel = "[\<lparr>pr_userId = ''u'', pr_projectId = ''p'', pr_role = ''project:editor''\<rparr>]"
  let ?rows = "[\<lparr>sh_entityId = ''w'', sh_projectId = ''p'', sh_role = ''workflow:owner''\<rparr>]"
  have l: "combineResourceScopes ''workflow'' ?u (filter (\<lambda>sh. sh_entityId sh = ''w'') ?rows)
      (filter (\<lambda>r. pr_userId r = user_id ?u) ?rel) =
      Inr [''workflow:delete'', ''workflow:execute'', ''workflow:read'', ''workflow:update'']" by code_simp
  have "scope_resource ''workflow:update'' = ''workflow''" by code_simp
  moreover have "user_role ?u \<in> fst ` set GLOBAL_SCOPE_MAP" by (simp add: GLOBAL_SCOPE_MAP_def)
  moreover have "distinct (map (\<lambda>r. (pr_userId r, pr_projectId r)) ?rel)" by simp
  moreover have "\<forall>r \<in> set ?rel. pr_role r \<in> fst ` set PROJECT_SCOPE_MAP" by (simp add: PROJECT_SCOPE_MAP_def)
  moreover have "\<forall>sh \<in> set ?rows. sh_role sh \<in> fst ` set WORKFLOW_SHARING_SCOPE_MAP"
    by (simp add: WORKFLOW_SHARING_SCOPE_MAP_def)
  ultimately show ?thesis using listed_scopes_are_allowed[OF l] by simp
qed

section \<open>Who may call\<close>

text \<open>
  A call between workflows is let through exactly if the policy in force allows it; with
  sharing not licensed that is always the policy that both belong to the same project,
  whatever the settings of the called workflow say.
\<close>

theorem check_subworkflow_correct:
  assumes "subworkflowId \<noteq> []" and "projectOf parent = Some p" and "projectOf subworkflowId = Some q"
  shows "check_subworkflow sharing dflt projectOf subworkflowId settings parent = Inr () \<longleftrightarrow>
    (case (if sharing then (case callerPolicy settings of None \<Rightarrow> dflt | Some x \<Rightarrow> x) else PolicySameOwner) of
       PolicyAny \<Rightarrow> True
     | PolicyNone \<Rightarrow> False
     | PolicyFromAList \<Rightarrow> hasParentListed settings parent
     | PolicySameOwner \<Rightarrow> p = q)"
  using assms by (auto simp: check_subworkflow_def findPolicy_def Let_def split: CallerPolicy.splits option.splits)

theorem check_subworkflow_correct_witness:
  "check_subworkflow True PolicySameOwner (\<lambda>_. Some ''p'') ''sub''
     \<lparr>callerPolicy = Some PolicyFromAList, callerIds = Some ''7, 12 ,9''\<rparr> ''12'' = Inr ()"
proof -
  have "hasParentListed \<lparr>callerPolicy = Some PolicyFromAList, callerIds = Some ''7, 12 ,9''\<rparr> ''12''" by code_simp
  with check_subworkflow_correct[of "''sub''" "\<lambda>_. Some ''p''" "''12''" "''p''" "''p''" True PolicySameOwner
      "\<lparr>callerPolicy = Some PolicyFromAList, callerIds = Some ''7, 12 ,9''\<rparr>"]
  show ?thesis by simp
qed

end
