(* ===== verification/ParameterDisplay.thy ===== *)
theory ParameterDisplay
  imports JsValues
begin

text \<open>
  The description of a node's parameters (Interfaces.ts, \<open>INodeProperties\<close>) and, from
  packages/workflow/src/NodeHelpers.ts, when a parameter is displayed.  The functions
  \<open>get\<close> and \<open>isEqual\<close> of lodash and the engine for regular expressions are arguments.
\<close>

section \<open>Properties\<close>

datatype NodePropertyTypes =
    TyBoolean | TyButton | TyCollection | TyColor | TyDateTime | TyFixedCollection | TyHidden | TyJson
  | TyNotice | TyMultiOptions | TyNumber | TyOptions | TyString | TyCredentialsSelect | TyResourceLocator
  | TyCurlImport | TyResourceMapper | TyFilter | TyAssignmentCollection | TyCredentials | TyWorkflowSelector

text \<open>
  The rules by kind, \<open>show\<close> or \<open>hide\<close>, and parameter name; a condition is a value or an object
  with the property \<open>_cnd\<close>.
\<close>

type_synonym display_rules = "jval list option str_obj"
type_synonym IDisplayOptions = "display_rules str_obj"

text \<open>
  What only some properties have: the value of an option, the modes of a resource locator with
  their validations (pattern and message, or none that is one), the type to validate with,
  and of a resource mapper the word for a field and its mode.
\<close>

record property_extra =
  x_value :: jval
  x_modes :: "(string \<times> (string \<times> string) option list option) list option"
  x_validateType :: "string option"
  x_fieldWord :: "string option"
  x_mapperMode :: "string option"

definition no_extra :: property_extra where
  "no_extra = \<lparr>x_value = JUndef, x_modes = None, x_validateType = None, x_fieldWord = None, x_mapperMode = None\<rparr>"

text \<open>
  A property, an option or a collection: the three interfaces share the array \<open>options\<close>, where
  the code tells them apart only by the fields it finds.
\<close>

datatype INodeProperties = INodeProperties
  (prop_name: string)
  (prop_displayName: string)
  (prop_type: "NodePropertyTypes option")
  (prop_multiple: "bool option")
  (prop_default: jval)
  (prop_display: "IDisplayOptions option")
  (prop_required: bool)
  (prop_options: "INodeProperties list option")
  (prop_values: "INodeProperties list option")
  (prop_extra: property_extra)

record library =
  lib_get :: "jval \<Rightarrow> string \<Rightarrow> jval"
  lib_isEqual :: "jval \<Rightarrow> jval \<Rightarrow> bool"
  lib_regex :: "string \<Rightarrow> string \<Rightarrow> js_error + bool"

section \<open>The values a rule looks at\<close>

definition locator_value :: "jval \<Rightarrow> jval" where
  "locator_value v =
     (case v of JObj ob \<Rightarrow> (if truthy (get_prop ob ''__rl'') then get_prop ob ''value'' else v) | _ \<Rightarrow> v)"

definition getPropertyValues :: "library \<Rightarrow> jval \<Rightarrow> string \<Rightarrow> number option \<Rightarrow> jval \<Rightarrow> jval list" where
  "getPropertyValues lib nodeValues propertyName version nodeValuesRoot =
     (let value = (if char_at propertyName 0 = ''/'' then lib_get lib nodeValuesRoot (drop 1 propertyName)
                   else if propertyName = ''@version'' then JNum (case version of None \<Rightarrow> 0 | Some n \<Rightarrow> n)
                   else lib_get lib nodeValues propertyName)
      in case locator_value value of JArr vs \<Rightarrow> vs | v \<Rightarrow> [v])"

section \<open>Conditions\<close>

definition str_method :: "(string \<Rightarrow> string \<Rightarrow> bool) \<Rightarrow> jval \<Rightarrow> jval \<Rightarrow> js_error + bool" where
  "str_method f v t = (case v of JStr s \<Rightarrow> Inr (f s (js_string t)) | _ \<Rightarrow> Inl TypeError)"

definition at_least :: "jval \<Rightarrow> jval \<Rightarrow> bool" where
  "at_least a b \<longleftrightarrow> js_compare a b = Some Greater \<or> js_compare a b = Some Equal"

definition at_most :: "jval \<Rightarrow> jval \<Rightarrow> bool" where
  "at_most a b \<longleftrightarrow> js_compare a b = Some Less \<or> js_compare a b = Some Equal"

definition check_operator :: "library \<Rightarrow> string \<Rightarrow> jval \<Rightarrow> jval \<Rightarrow> js_error + bool" where
  "check_operator lib key target v =
     (if key = ''eq'' then Inr (lib_isEqual lib v target)
      else if key = ''not'' then Inr (\<not> lib_isEqual lib v target)
      else if key = ''gte'' then Inr (at_least v target)
      else if key = ''lte'' then Inr (at_most v target)
      else if key = ''gt'' then Inr (js_compare v target = Some Greater)
      else if key = ''lt'' then Inr (js_compare v target = Some Less)
      else if key = ''between''
      then res_bind (js_prop target ''from'') (\<lambda>from. res_bind (js_prop target ''to'') (\<lambda>to.
             Inr (at_least v from \<and> at_most v to)))
      else if key = ''includes''
      then (case v of JArr vs \<Rightarrow> Inr (js_includes vs target) | _ \<Rightarrow> str_method has_substring v target)
      else if key = ''startsWith'' then str_method starts_with v target
      else if key = ''endsWith'' then str_method ends_with v target
      else if key = ''regex'' then lib_regex lib (js_string target) (js_string v)
      else if key = ''exists'' then Inr (v \<noteq> JNull \<and> v \<noteq> JUndef \<and> v \<noteq> JStr [])
      else Inr False)"

definition check_condition :: "library \<Rightarrow> jval list \<Rightarrow> jval \<Rightarrow> js_error + bool" where
  "check_condition lib actualValues condition =
     (case condition of
        JObj ob \<Rightarrow>
          (if truthy (get_prop ob ''_cnd'') \<and> length ob = 1
           then (case get_prop ob ''_cnd'' of
               JObj ((key, targetValue) # _) \<Rightarrow> res_every (check_operator lib key targetValue) actualValues
             | _ \<Rightarrow> Inl TypeError)
           else Inr (js_includes actualValues condition))
      | _ \<Rightarrow> Inr (js_includes actualValues condition))"

definition checkConditions :: "library \<Rightarrow> jval list option \<Rightarrow> jval list \<Rightarrow> js_error + bool" where
  "checkConditions lib conditions actualValues =
     (case conditions of None \<Rightarrow> Inl TypeError | Some cs \<Rightarrow> res_some (check_condition lib actualValues) cs)"

section \<open>Is it displayed?\<close>

definition is_expression :: "jval \<Rightarrow> bool" where
  "is_expression v = (case v of JStr s \<Rightarrow> char_at s 0 = ''='' | _ \<Rightarrow> False)"

text \<open>The show rules decide by themselves (Some) or leave it to the hide rules (None).\<close>

fun show_rules :: "library \<Rightarrow> jval \<Rightarrow> number option \<Rightarrow> jval \<Rightarrow> display_rules \<Rightarrow> js_error + bool option" where
  "show_rules lib nv ver base [] = Inr None"
| "show_rules lib nv ver base ((propertyName, conditions) # rules) =
     (let values = getPropertyValues lib nv propertyName ver base
      in if list_ex is_expression values then Inr (Some True)
         else if values = [] then Inr (Some False)
         else res_bind (checkConditions lib conditions values) (\<lambda>ok.
           if ok then show_rules lib nv ver base rules else Inr (Some False)))"

fun hide_rules :: "library \<Rightarrow> jval \<Rightarrow> number option \<Rightarrow> jval \<Rightarrow> display_rules \<Rightarrow> js_error + bool" where
  "hide_rules lib nv ver base [] = Inr True"
| "hide_rules lib nv ver base ((propertyName, conditions) # rules) =
     (let values = getPropertyValues lib nv propertyName ver base
      in if values = [] then hide_rules lib nv ver base rules
         else res_bind (checkConditions lib conditions values) (\<lambda>ok.
           if ok then Inr False else hide_rules lib nv ver base rules))"

definition rules_of :: "IDisplayOptions \<Rightarrow> string \<Rightarrow> display_rules" where
  "rules_of d k = (case obj_get d k of None \<Rightarrow> [] | Some r \<Rightarrow> r)"

definition displayParameter ::
    "library \<Rightarrow> jval \<Rightarrow> INodeProperties \<Rightarrow> number option \<Rightarrow> jval option \<Rightarrow> js_error + bool" where
  "displayParameter lib nodeValues parameter version nodeValuesRoot =
     (case prop_display parameter of
        None \<Rightarrow> Inr True
      | Some d \<Rightarrow>
          (let base = (case nodeValuesRoot of None \<Rightarrow> nodeValues | Some r \<Rightarrow> (if truthy r then r else nodeValues))
           in res_bind (show_rules lib nodeValues version base (rules_of d ''show'')) (\<lambda>r.
                case r of Some b \<Rightarrow> Inr b | None \<Rightarrow> hide_rules lib nodeValues version base (rules_of d ''hide''))))"

definition displayParameterPath ::
    "library \<Rightarrow> jval \<Rightarrow> INodeProperties \<Rightarrow> string \<Rightarrow> number option \<Rightarrow> js_error + bool" where
  "displayParameterPath lib nodeValues parameter path version =
     (let resolved = (if path \<noteq> [] then lib_get lib nodeValues path else nodeValues);
          base = (if path \<noteq> [] \<and> hd (split_at_char (CHR ''.'') path) = ''parameters''
                  then lib_get lib nodeValues ''parameters'' else nodeValues)
      in displayParameter lib resolved parameter version (Some base))"

section \<open>What displaying means\<close>

text \<open>
  A rule that cannot throw holds if one of its conditions does for the values it looks at;
  the rules are read in order.
\<close>

definition rule_safe :: "library \<Rightarrow> jval \<Rightarrow> number option \<Rightarrow> jval \<Rightarrow> string \<times> jval list option \<Rightarrow> bool" where
  "rule_safe lib nv ver base r \<longleftrightarrow>
     \<not> isl (checkConditions lib (snd r) (getPropertyValues lib nv (fst r) ver base))"

definition rule_holds :: "library \<Rightarrow> jval \<Rightarrow> number option \<Rightarrow> jval \<Rightarrow> string \<times> jval list option \<Rightarrow> bool" where
  "rule_holds lib nv ver base r \<longleftrightarrow>
     (let values = getPropertyValues lib nv (fst r) ver base
      in values \<noteq> [] \<and> checkConditions lib (snd r) values = Inr True)"

definition rule_open :: "library \<Rightarrow> jval \<Rightarrow> number option \<Rightarrow> jval \<Rightarrow> string \<times> jval list option \<Rightarrow> bool" where
  "rule_open lib nv ver base r \<longleftrightarrow> list_ex is_expression (getPropertyValues lib nv (fst r) ver base)"

lemma show_rules_eq:
  assumes "\<forall>r \<in> set rules. rule_safe lib nv ver base r"
  shows "show_rules lib nv ver base rules =
    Inr (case dropWhile (\<lambda>r. \<not> rule_open lib nv ver base r \<and> rule_holds lib nv ver base r) rules of
           [] \<Rightarrow> None | r # _ \<Rightarrow> Some (rule_open lib nv ver base r))"
  using assms
proof (induction rules)
  case Nil
  then show ?case by simp
next
  case (Cons r rules)
  obtain k cs where r: "r = (k, cs)" by (cases r)
  from Cons.prems obtain b where "checkConditions lib cs (getPropertyValues lib nv k ver base) = Inr b"
    by (auto simp: rule_safe_def r dest: not_isl_Inr)
  with Cons r show ?case by (simp add: rule_open_def rule_holds_def Let_def)
qed

lemma hide_rules_eq:
  assumes "\<forall>r \<in> set rules. rule_safe lib nv ver base r"
  shows "hide_rules lib nv ver base rules = Inr (\<not> list_ex (rule_holds lib nv ver base) rules)"
  using assms
proof (induction rules)
  case Nil
  then show ?case by simp
next
  case (Cons r rules)
  obtain k cs where r: "r = (k, cs)" by (cases r)
  from Cons.prems obtain b where "checkConditions lib cs (getPropertyValues lib nv k ver base) = Inr b"
    by (auto simp: rule_safe_def r dest: not_isl_Inr)
  with Cons r show ?case by (simp add: rule_holds_def Let_def)
qed

end
