(* ===== verification/ParameterOrder.thy ===== *)
theory ParameterOrder
  imports ParameterDisplay
begin

text \<open>
  The order in which packages/workflow/src/NodeHelpers.ts resolves parameters that depend on
  each other through their display rules.  The loop always ends; it gives up exactly when a
  rule names a parameter that does not exist, unless a rule names the parameter itself.
\<close>

section \<open>Dependencies\<close>

type_synonym IParameterDependencies = "string list str_obj"

definition add_dependency :: "string \<Rightarrow> string \<Rightarrow> IParameterDependencies \<Rightarrow> IParameterDependencies" where
  "add_dependency name parameterName deps =
     (let ds = (case obj_get deps name of None \<Rightarrow> [] | Some ds \<Rightarrow> ds)
      in if parameterName \<in> set ds \<or> char_at parameterName 0 = ''@'' then deps
         else str_put name (ds @ [parameterName]) deps)"

definition property_dependencies :: "INodeProperties \<Rightarrow> IParameterDependencies \<Rightarrow> IParameterDependencies" where
  "property_dependencies p deps =
     (let name = prop_name p;
          deps1 = (if obj_get deps name = None then str_put name [] deps else deps)
      in case prop_display p of
          None \<Rightarrow> deps1
        | Some d \<Rightarrow> fold (\<lambda>rules. fold (add_dependency name) (obj_keys rules)) (map snd d) deps1)"

definition getParameterDependencies :: "INodeProperties list \<Rightarrow> IParameterDependencies" where
  "getParameterDependencies props = fold property_dependencies props []"

section \<open>The order\<close>

text \<open>
  The test of the inner loop: a dependency that is not resolved yet and not a root one.  The
  \<open>continue\<close> behind it goes on with the next dependency, not with the next property.
\<close>

definition missing :: "string list \<Rightarrow> string \<Rightarrow> bool" where
  "missing resolved dependency \<longleftrightarrow> dependency \<notin> set resolved \<and> char_at dependency 0 \<noteq> ''/''"

definition max_iterations :: string where
  "max_iterations = ''Could not resolve parameter dependencies. Max iterations reached! Hint: If `displayOptions` '' @
     ''are specified in any child parameter of a parent `collection` or `fixedCollection`, remove the '' @
     ''`displayOptions` from the child parameter.''"

definition unresolved :: "string list \<Rightarrow> nat list \<Rightarrow> string list \<Rightarrow> nat" where
  "unresolved names queue resolved = card ((\<lambda>i. names ! i) ` set queue - set resolved)"

definition ready_entries :: "IParameterDependencies \<Rightarrow> string list \<Rightarrow> nat list \<Rightarrow> string list \<Rightarrow> nat" where
  "ready_entries deps names queue resolved =
     length (filter (\<lambda>i. \<forall>d \<in> set (case obj_get deps (names ! i) of None \<Rightarrow> [] | Some ds \<Rightarrow> ds). \<not> missing resolved d) queue)"

lemma unresolved_step:
  assumes "set queue1 \<subseteq> insert index (set queue)"
  shows "unresolved names queue1 (resolved @ [names ! index]) \<le> unresolved names (index # queue) resolved"
    and "names ! index \<notin> set resolved \<Longrightarrow>
      unresolved names queue1 (resolved @ [names ! index]) < unresolved names (index # queue) resolved"
proof -
  let ?A = "(\<lambda>i. names ! i) ` set queue1 - set (resolved @ [names ! index])"
  let ?B = "(\<lambda>i. names ! i) ` set (index # queue) - set resolved"
  have sub: "?A \<subseteq> ?B" using assms by auto
  then show "unresolved names queue1 (resolved @ [names ! index]) \<le> unresolved names (index # queue) resolved"
    unfolding unresolved_def by (intro card_mono) auto
  assume "names ! index \<notin> set resolved"
  then have "names ! index \<in> ?B - ?A" by auto
  with sub have "?A \<subset> ?B" by blast
  then show "unresolved names queue1 (resolved @ [names ! index]) < unresolved names (index # queue) resolved"
    unfolding unresolved_def by (intro psubset_card_mono) auto
qed

lemma missing_resolved:
  "n \<in> set resolved \<Longrightarrow> missing (resolved @ [n]) d = missing resolved d"
  by (auto simp: missing_def)

text \<open>
  \<open>since\<close> is the number of iterations after the last one that made the list of indices shorter;
  before the first one that counts from -1.  The loop ends: a property of a name that is not
  resolved yet lowers the number of those; otherwise a property with nothing missing leaves
  the queue, and one with something missing comes nearer to the limit.
\<close>

function resolve_loop ::
    "IParameterDependencies \<Rightarrow> string list \<Rightarrow> nat list \<Rightarrow> nat list \<Rightarrow> string list \<Rightarrow> nat \<Rightarrow> nat \<Rightarrow> js_error + nat list" where
  "resolve_loop deps names [] executionOrder resolved lastLength since = Inr executionOrder"
| "resolve_loop deps names (index # queue) executionOrder resolved lastLength since =
     (case obj_get deps (names ! index) of
        None \<Rightarrow> Inl TypeError
      | Some ds \<Rightarrow>
          (if ds = []
           then resolve_loop deps names queue (executionOrder @ [index]) (resolved @ [names ! index])
                  lastLength (Suc since)
           else let queue1 = queue @ map (\<lambda>_. index) (filter (missing resolved) ds);
                    since1 = (if length queue1 < lastLength then 0 else Suc since)
                in if length names < since1
                   then Inl (ApplicationError max_iterations)
                   else resolve_loop deps names queue1 (executionOrder @ [index]) (resolved @ [names ! index])
                          (length queue1) since1))"
  by pat_completeness auto
termination
proof (relation "measures
    [\<lambda>(deps, names, queue, ord, resolved, lastLength, since). unresolved names queue resolved,
     \<lambda>(deps, names, queue, ord, resolved, lastLength, since). ready_entries deps names queue resolved,
     \<lambda>(deps, names, queue, ord, resolved, lastLength, since).
        if length queue < lastLength then length names + 2 else length names + 1 - since]", goal_cases)
  case 1
  show ?case by simp
next
  case (2 deps names index queue ord resolved lastLength since ds)
  have s: "set queue \<subseteq> insert index (set queue)" by auto
  note U = unresolved_step[OF s, of names resolved]
  show ?case
  proof (cases "names ! index \<in> set resolved")
    case False
    with U(2) show ?thesis by simp
  next
    case True
    have "ready_entries deps names queue (resolved @ [names ! index]) < ready_entries deps names (index # queue) resolved"
      using 2 by (simp add: ready_entries_def missing_resolved[OF True])
    with U(1) show ?thesis by auto
  qed
next
  case (3 deps names index queue ord resolved lastLength since ds queue1 since1)
  have s: "set queue1 \<subseteq> insert index (set queue)" using 3 by auto
  note U = unresolved_step[OF s, of names resolved]
  show ?case
  proof (cases "names ! index \<in> set resolved")
    case False
    with U(2) show ?thesis by simp
  next
    case True
    let ?m = "filter (missing resolved) ds"
    have r: "ready_entries deps names queue1 (resolved @ [names ! index]) =
        ready_entries deps names queue resolved + (if ?m = [] then 0 else 0)"
      using 3(1,3) by (auto simp: ready_entries_def missing_resolved[OF True] filter_empty_conv)
    show ?thesis
    proof (cases "?m = []")
      case True
      then have "ready_entries deps names (index # queue) resolved = Suc (ready_entries deps names queue resolved)"
        using 3(1) by (simp add: ready_entries_def filter_empty_conv)
      with r U(1) show ?thesis by auto
    next
      case False
      then have same: "ready_entries deps names (index # queue) resolved = ready_entries deps names queue resolved"
        using 3(1) by (auto simp: ready_entries_def filter_empty_conv)
      have "length queue1 \<ge> length (index # queue)" using False 3(3) by (cases ?m) auto
      with 3(4,5) have "(if length queue1 < length queue1 then length names + 2 else length names + 1 - since1) <
          (if length (index # queue) < lastLength then length names + 2 else length names + 1 - since)"
        by (auto split: if_splits)
      with r same U(1) show ?thesis by auto
    qed
  qed
qed

definition getParameterResolveOrder :: "INodeProperties list \<Rightarrow> IParameterDependencies \<Rightarrow> js_error + nat list" where
  "getParameterResolveOrder props deps =
     resolve_loop deps (map prop_name props) [0..<length props] [] [] (length props) 1"

section \<open>What the dependencies are\<close>

definition rule_names :: "INodeProperties \<Rightarrow> string set" where
  "rule_names p = (case prop_display p of None \<Rightarrow> {} | Some d \<Rightarrow> {n. \<exists>rules \<in> snd ` set d. n \<in> set (obj_keys rules)})"

definition depends_on :: "INodeProperties list \<Rightarrow> string \<Rightarrow> string set" where
  "depends_on props name =
     {d. char_at d 0 \<noteq> ''@'' \<and> (\<exists>p \<in> set props. prop_name p = name \<and> d \<in> rule_names p)}"

text \<open>The dependencies collected so far for a name; None when it has no entry.\<close>

lemma add_dependency_get:
  "obj_get (add_dependency n d deps) k =
     (if k = n \<and> d \<notin> set (case obj_get deps n of None \<Rightarrow> [] | Some ds \<Rightarrow> ds) \<and> char_at d 0 \<noteq> ''@''
      then Some ((case obj_get deps n of None \<Rightarrow> [] | Some ds \<Rightarrow> ds) @ [d]) else obj_get deps k)"
  by (cases "obj_get deps n") (auto simp: add_dependency_def Let_def)

definition deps_set :: "IParameterDependencies \<Rightarrow> string \<Rightarrow> string set" where
  "deps_set deps n = set (case obj_get deps n of None \<Rightarrow> [] | Some ds \<Rightarrow> ds)"

lemma add_dependency_set:
  "deps_set (add_dependency n d deps) k = deps_set deps k \<union> (if k = n \<and> char_at d 0 \<noteq> ''@'' then {d} else {})"
  by (auto simp: deps_set_def add_dependency_get)

lemma add_dependencies_set:
  "deps_set (fold (add_dependency n) ds deps) k =
     deps_set deps k \<union> (if k = n then {d \<in> set ds. char_at d 0 \<noteq> ''@''} else {})"
  by (induction ds arbitrary: deps) (auto simp: add_dependency_set)

lemma add_rules_set:
  "deps_set (fold (\<lambda>rules. fold (add_dependency n) (obj_keys rules)) rs deps) k =
     deps_set deps k \<union> (if k = n then {d. char_at d 0 \<noteq> ''@'' \<and> (\<exists>rules \<in> set rs. d \<in> set (obj_keys rules))} else {})"
  by (induction rs arbitrary: deps) (auto simp: add_dependencies_set)

lemma add_dependencies_known:
  "obj_get deps k \<noteq> None \<Longrightarrow> obj_get (fold (add_dependency n) ds deps) k \<noteq> None"
  by (induction ds arbitrary: deps) (simp_all add: add_dependency_get del: not_None_eq)

lemma add_rules_known:
  "obj_get deps k \<noteq> None \<Longrightarrow>
   obj_get (fold (\<lambda>rules. fold (add_dependency n) (obj_keys rules)) rs deps) k \<noteq> None"
  by (induction rs arbitrary: deps) (simp_all add: add_dependencies_known del: not_None_eq)

lemma property_dependencies_set:
  "deps_set (property_dependencies p deps) k =
     deps_set deps k \<union> (if k = prop_name p then {d \<in> rule_names p. char_at d 0 \<noteq> ''@''} else {})"
proof -
  let ?d = "if obj_get deps (prop_name p) = None then str_put (prop_name p) [] deps else deps"
  have d: "deps_set ?d k = deps_set deps k" by (auto simp: deps_set_def)
  show ?thesis
    by (cases "prop_display p") (auto simp: property_dependencies_def Let_def rule_names_def add_rules_set d)
qed

lemma property_dependencies_known:
  "obj_get deps k \<noteq> None \<or> k = prop_name p \<Longrightarrow> obj_get (property_dependencies p deps) k \<noteq> None"
  by (cases "prop_display p") (auto simp: property_dependencies_def Let_def intro!: add_rules_known[simplified])

lemma getParameterDependencies_fold:
  "deps_set (fold property_dependencies props deps) k = deps_set deps k \<union> depends_on props k"
  by (induction props arbitrary: deps) (auto simp: property_dependencies_set depends_on_def)

lemma getParameterDependencies_set: "deps_set (getParameterDependencies props) k = depends_on props k"
  using getParameterDependencies_fold[of props "[]"] by (simp add: getParameterDependencies_def deps_set_def)

lemma dependencies_known_fold:
  "obj_get deps k \<noteq> None \<or> k \<in> prop_name ` set props \<Longrightarrow> obj_get (fold property_dependencies props deps) k \<noteq> None"
proof (induction props arbitrary: deps)
  case Nil
  then show ?case by simp
next
  case (Cons p props)
  then show ?case using property_dependencies_known[of deps k p] by auto
qed

lemma dependencies_known:
  "p \<in> set props \<Longrightarrow> obj_get (getParameterDependencies props) (prop_name p) \<noteq> None"
  unfolding getParameterDependencies_def by (rule dependencies_known_fold) simp

section \<open>What the loop computes\<close>

text \<open>At some place in the order everything the parameter depends on has been before it.\<close>

definition settled :: "IParameterDependencies \<Rightarrow> string list \<Rightarrow> nat list \<Rightarrow> nat \<Rightarrow> bool" where
  "settled deps names order i \<longleftrightarrow>
     (\<exists>p < length order. order ! p = i \<and>
        (\<forall>d \<in> deps_set deps (names ! i). \<not> missing (map ((!) names) (take p order)) d))"

lemma resolve_loop_order:
  assumes "resolve_loop deps names q ord resolved l s = Inr res" and "resolved = map ((!) names) ord"
  shows "\<exists>suf. res = ord @ suf \<and> set suf = set q \<and> (\<forall>i \<in> set q. settled deps names res i)"
  using assms
proof (induction deps names q ord resolved l s rule: resolve_loop.induct)
  case 1
  then show ?case by simp
next
  case (2 deps names index queue ord resolved lastLength since)
  obtain ds where ds: "obj_get deps (names ! index) = Some ds"
    using 2(3) by (cases "obj_get deps (names ! index)") auto
  have now: "settled deps names (ord @ index # suf) index" if "filter (missing resolved) ds = []" for suf
    unfolding settled_def using that ds 2(4)
    by (intro exI[of _ "length ord"]) (auto simp: deps_set_def filter_empty_conv)
  show ?case
  proof (cases "ds = []")
    case True
    then have "resolve_loop deps names queue (ord @ [index]) (resolved @ [names ! index]) lastLength (Suc since) = Inr res"
      using 2(3) ds by simp
    from 2(1)[OF ds True this] 2(4) obtain suf where "res = ord @ index # suf" "set suf = set queue"
      "\<forall>i \<in> set queue. settled deps names res i" by auto
    with now[of suf] True show ?thesis by auto
  next
    case False
    let ?q = "queue @ map (\<lambda>_. index) (filter (missing resolved) ds)"
    let ?s = "if length ?q < lastLength then 0 else Suc since"
    have nt: "\<not> length names < ?s" using 2(3) ds False by (auto simp: Let_def split: if_splits)
    then have "resolve_loop deps names ?q (ord @ [index]) (resolved @ [names ! index]) (length ?q) ?s = Inr res"
      using 2(3) ds False by (simp add: Let_def)
    from 2(2)[OF ds False refl refl nt this] 2(4) obtain suf where suf: "res = ord @ index # suf" "set suf = set ?q"
      "\<forall>i \<in> set ?q. settled deps names res i" by auto
    show ?thesis
    proof (cases "filter (missing resolved) ds = []")
      case True
      with now[OF True, of suf] suf show ?thesis by auto
    next
      case False
      then have "set ?q = insert index (set queue)" by (auto simp: filter_empty_conv)
      with suf show ?thesis by auto
    qed
  qed
qed

section \<open>When it gives up\<close>

text \<open>How many iterations remain until every name in the queue is resolved.\<close>

definition still_open :: "string list \<Rightarrow> nat list \<Rightarrow> string list \<Rightarrow> nat" where
  "still_open names queue resolved = length (dropWhile (\<lambda>i. names ! i \<in> set resolved) (rev queue))"

lemma still_open_0: "still_open names q resolved = 0 \<longleftrightarrow> (\<forall>i \<in> set q. names ! i \<in> set resolved)"
  by (auto simp: still_open_def)

lemma still_open_Cons:
  "still_open names (i # q) resolved =
     (if still_open names q resolved \<noteq> 0 then Suc (still_open names q resolved)
      else if names ! i \<in> set resolved then 0 else 1)"
proof (cases "\<forall>j \<in> set q. names ! j \<in> set resolved")
  case True
  then have "dropWhile (\<lambda>i. names ! i \<in> set resolved) (rev q @ [i]) = dropWhile (\<lambda>i. names ! i \<in> set resolved) [i]"
    by (intro dropWhile_append2) simp
  with True show ?thesis by (simp add: still_open_def still_open_0[unfolded still_open_def])
next
  case False
  then have "still_open names (i # q) resolved = Suc (still_open names q resolved)"
    by (auto simp: still_open_def dropWhile_append1)
  moreover from False have "still_open names q resolved \<noteq> 0" by (simp add: still_open_0)
  ultimately show ?thesis by simp
qed

lemma still_open_mono:
  "set r \<subseteq> set r' \<Longrightarrow> still_open names q r' \<le> still_open names q r"
proof (induction q)
  case Nil
  then show ?case by (simp add: still_open_def)
next
  case (Cons i q)
  then show ?case by (auto simp: still_open_Cons)
qed

lemma still_open_again:
  "still_open names (q @ map (\<lambda>_. i) ds) (r @ [names ! i]) = still_open names q (r @ [names ! i])"
proof -
  let ?P = "\<lambda>j. names ! j \<in> set (r @ [names ! i])"
  have "dropWhile ?P (rev (map (\<lambda>_. i) ds) @ rev q) = dropWhile ?P (rev q)"
    by (intro dropWhile_append2) auto
  then show ?thesis by (simp add: still_open_def)
qed

text \<open>Every rule names the root, or another parameter that exists.\<close>

definition resolvable :: "IParameterDependencies \<Rightarrow> string list \<Rightarrow> bool" where
  "resolvable deps names \<longleftrightarrow>
     (\<forall>n \<in> set names. \<forall>d \<in> deps_set deps n. char_at d 0 = ''/'' \<or> (d \<in> set names \<and> d \<noteq> n))"

definition queue_ok :: "string list \<Rightarrow> nat list \<Rightarrow> string list \<Rightarrow> nat \<Rightarrow> nat \<Rightarrow> bool" where
  "queue_ok names q resolved l s \<longleftrightarrow>
     length q \<le> l \<and> (\<forall>i \<in> set q. i < length names) \<and>
     (\<forall>n \<in> set names. n \<in> set resolved \<or> (\<exists>i \<in> set q. names ! i = n)) \<and>
     (still_open names q resolved = 0 \<or> s + still_open names q resolved \<le> length names + 1)"

lemma queue_ok_next:
  assumes "queue_ok names (index # queue) resolved l s" and "length queue1 \<le> l1"
    and "queue1 = queue @ map (\<lambda>_. index) ds"
    and "still_open names queue resolved = 0 \<or> s1 \<le> Suc s"
  shows "queue_ok names queue1 (resolved @ [names ! index]) l1 s1"
proof -
  let ?r = "resolved @ [names ! index]"
  have sub: "set resolved \<subseteq> set ?r" by auto
  have le: "still_open names queue1 ?r \<le> still_open names queue resolved"
    using still_open_again[of names queue index ds resolved] still_open_mono[OF sub, of names queue] assms(3) by simp
  moreover have "still_open names queue resolved = 0 \<or> s1 + still_open names queue resolved \<le> length names + 1"
    using assms(1,4) by (auto simp: queue_ok_def still_open_Cons split: if_splits)
  ultimately show ?thesis using assms by (fastforce simp: queue_ok_def)
qed

lemma resolve_loop_returns:
  assumes "resolvable deps names" and "\<forall>n \<in> set names. obj_get deps n \<noteq> None"
    and "queue_ok names q resolved l s"
  shows "\<exists>res. resolve_loop deps names q ord resolved l s = Inr res"
  using assms
proof (induction deps names q ord resolved l s rule: resolve_loop.induct)
  case 1
  then show ?case by simp
next
  case (2 deps names index queue ord resolved lastLength since)
  let ?n = "names ! index"
  have mem: "?n \<in> set names" using 2(5) by (simp add: queue_ok_def)
  then obtain ds where ds: "obj_get deps ?n = Some ds" using 2(4) by blast
  show ?case
  proof (cases "ds = []")
    case True
    have "queue_ok names queue (resolved @ [?n]) lastLength (Suc since)"
      by (rule queue_ok_next[OF 2(5), of _ _ "[]"]) (use 2(5) in \<open>auto simp: queue_ok_def\<close>)
    from 2(1)[OF ds True 2(3,4) this] ds True show ?thesis by simp
  next
    case False
    let ?m = "filter (missing resolved) ds"
    let ?q = "queue @ map (\<lambda>_. index) ?m"
    let ?s = "if length ?q < lastLength then 0 else Suc since"
    have s1: "?s = 0" if "still_open names queue resolved = 0"
    proof -
      have "d \<in> set resolved \<or> d = ?n" if "d \<in> set names" for d
        using that 2(5) \<open>still_open names queue resolved = 0\<close> unfolding queue_ok_def still_open_0 by auto
      then have "?m = []"
        using 2(3) mem ds by (fastforce simp: resolvable_def deps_set_def missing_def filter_empty_conv)
      then show ?thesis using 2(5) by (simp add: queue_ok_def)
    qed
    have nt: "\<not> length names < ?s"
    proof (cases "still_open names queue resolved = 0")
      case True
      then show ?thesis using s1 by simp
    next
      case False
      with 2(5) have "Suc since \<le> length names" by (auto simp: queue_ok_def still_open_Cons)
      then show ?thesis by simp
    qed
    have "queue_ok names ?q (resolved @ [?n]) (length ?q) ?s"
      by (rule queue_ok_next[OF 2(5) order_refl refl]) simp
    from 2(2)[OF ds False refl refl nt 2(3,4) this] ds False nt show ?thesis by (simp add: Let_def)
  qed
qed

lemma resolve_loop_gives_up:
  assumes "i \<in> set q" and "d \<in> deps_set deps (names ! i)" and "char_at d 0 \<noteq> ''/''" and "d \<notin> set names"
    and "set resolved \<subseteq> set names" and "\<forall>j \<in> set q. j < length names" and "\<forall>n \<in> set names. obj_get deps n \<noteq> None"
  shows "\<exists>m. resolve_loop deps names q ord resolved l s = Inl (ApplicationError m)"
  using assms
proof (induction deps names q ord resolved l s rule: resolve_loop.induct)
  case 1
  then show ?case by simp
next
  case (2 deps names index queue ord resolved lastLength since)
  have "names ! index \<in> set names" using 2(8) by simp
  then obtain ds where ds: "obj_get deps (names ! index) = Some ds" using 2(9) by blast
  have r: "set (resolved @ [names ! index]) \<subseteq> set names" using 2(7) \<open>names ! index \<in> set names\<close> by simp
  show ?case
  proof (cases "ds = []")
    case True
    with ds 2(3,4) have "i \<in> set queue" by (auto simp: deps_set_def)
    from 2(1)[OF ds True this 2(4-6) r _ 2(9)] 2(8) ds True show ?thesis by simp
  next
    case False
    let ?q = "queue @ map (\<lambda>_. index) (filter (missing resolved) ds)"
    let ?s = "if length ?q < lastLength then 0 else Suc since"
    show ?thesis
    proof (cases "length names < ?s")
      case True
      with ds False show ?thesis by (simp add: Let_def)
    next
      case nt: False
      have "i \<in> set ?q"
      proof (cases "i = index")
        case True
        with 2(4-7) ds have "d \<in> set (filter (missing resolved) ds)" by (auto simp: deps_set_def missing_def)
        then show ?thesis using True by auto
      next
        case False
        with 2(3) show ?thesis by simp
      qed
      have "\<forall>j \<in> set ?q. j < length names" using 2(8) by auto
      from 2(2)[OF ds False refl refl nt \<open>i \<in> set ?q\<close> 2(4-6) r this 2(9)] ds False nt show ?thesis
        by (simp add: Let_def)
    qed
  qed
qed

section \<open>The order of the parameters\<close>

text \<open>
  C26: Resolving the order of the parameters always ends.  It succeeds when every display rule
  names the root or another parameter that exists, and gives up when one names a parameter
  that does not exist.  The order it returns has every parameter, and each of them at some
  place after everything it depends on, although it may also stand before that.
\<close>

theorem getParameterResolveOrder_correct:
  "((\<forall>p \<in> set props. \<forall>d \<in> depends_on props (prop_name p).
       char_at d 0 = ''/'' \<or> (d \<in> prop_name ` set props \<and> d \<noteq> prop_name p)) \<longrightarrow>
     (\<exists>order. getParameterResolveOrder props (getParameterDependencies props) = Inr order)) \<and>
   ((\<exists>p \<in> set props. \<exists>d \<in> depends_on props (prop_name p). char_at d 0 \<noteq> ''/'' \<and> d \<notin> prop_name ` set props) \<longrightarrow>
     (\<exists>m. getParameterResolveOrder props (getParameterDependencies props) = Inl (ApplicationError m))) \<and>
   (\<forall>order. getParameterResolveOrder props (getParameterDependencies props) = Inr order \<longrightarrow>
     set order = {..<length props} \<and>
     (\<forall>i < length props. \<exists>k < length order. order ! k = i \<and>
       (\<forall>d \<in> depends_on props (prop_name (props ! i)). char_at d 0 \<noteq> ''/'' \<longrightarrow>
          d \<in> (\<lambda>j. prop_name (props ! j)) ` set (take k order))))"
proof (intro conjI impI allI)
  let ?names = "map prop_name props" and ?deps = "getParameterDependencies props"
  have known: "\<forall>n \<in> set ?names. obj_get ?deps n \<noteq> None" using dependencies_known by auto
  {
    assume "\<forall>p \<in> set props. \<forall>d \<in> depends_on props (prop_name p).
       char_at d 0 = ''/'' \<or> (d \<in> prop_name ` set props \<and> d \<noteq> prop_name p)"
    then have ok: "resolvable ?deps ?names" by (auto simp: resolvable_def getParameterDependencies_set)
    have "length (dropWhile P (rev [0..<length props])) \<le> length props" for P
      by (metis length_dropWhile_le length_rev length_upt diff_zero)
    moreover have "\<forall>n \<in> set ?names. \<exists>i \<in> set [0..<length props]. ?names ! i = n" by (fastforce simp: in_set_conv_nth)
    ultimately have "queue_ok ?names [0..<length props] [] (length props) 1"
      by (auto simp: queue_ok_def still_open_def)
    then show "\<exists>order. getParameterResolveOrder props ?deps = Inr order"
      unfolding getParameterResolveOrder_def by (rule resolve_loop_returns[OF ok known])
  next
    assume "\<exists>p \<in> set props. \<exists>d \<in> depends_on props (prop_name p). char_at d 0 \<noteq> ''/'' \<and> d \<notin> prop_name ` set props"
    then obtain i d where i: "i < length props" and d: "d \<in> depends_on props (prop_name (props ! i))"
      "char_at d 0 \<noteq> ''/''" "d \<notin> prop_name ` set props" by (auto simp: in_set_conv_nth)
    from i have "i \<in> set [0..<length props]" by simp
    moreover have "d \<in> deps_set ?deps (?names ! i)" using d(1) i by (simp add: getParameterDependencies_set)
    ultimately show "\<exists>m. getParameterResolveOrder props ?deps = Inl (ApplicationError m)"
      unfolding getParameterResolveOrder_def using d(2,3) known by (intro resolve_loop_gives_up) auto
  next
    fix order i
    assume "getParameterResolveOrder props ?deps = Inr order"
    from resolve_loop_order[OF this[unfolded getParameterResolveOrder_def]]
    have o: "set order = {..<length props}" and st: "\<forall>i < length props. settled ?deps ?names order i" by auto
    from o show "set order = {..<length props}" .
    assume "i < length props"
    with st obtain k where k: "k < length order" "order ! k = i"
      "\<forall>d \<in> deps_set ?deps (?names ! i). \<not> missing (map ((!) ?names) (take k order)) d" by (auto simp: settled_def)
    have "\<forall>j \<in> set (take k order). j < length props" using o set_take_subset by fastforce
    then have "set (map ((!) ?names) (take k order)) = (\<lambda>j. prop_name (props ! j)) ` set (take k order)" by auto
    with k \<open>i < length props\<close> show "\<exists>k < length order. order ! k = i \<and>
       (\<forall>d \<in> depends_on props (prop_name (props ! i)). char_at d 0 \<noteq> ''/'' \<longrightarrow>
          d \<in> (\<lambda>j. prop_name (props ! j)) ` set (take k order))"
      by (auto simp: getParameterDependencies_set missing_def)
  }
qed

text \<open>A plain property of a name, displayed by the rules that are given.\<close>

definition mk_property :: "string \<Rightarrow> NodePropertyTypes \<Rightarrow> jval \<Rightarrow> IDisplayOptions option \<Rightarrow> INodeProperties" where
  "mk_property name type dflt display = INodeProperties name name (Some type) None dflt display False None None no_extra"

definition shown_by :: "string \<Rightarrow> jval \<Rightarrow> IDisplayOptions" where
  "shown_by name v = [(''show'', [(name, Some [v])])]"

definition dependent_pair :: "INodeProperties list" where
  "dependent_pair =
     [mk_property ''a'' TyString (JStr []) (Some (shown_by ''b'' (JBool True))),
      mk_property ''b'' TyBoolean (JBool False) None]"

theorem getParameterResolveOrder_correct_witness:
  "getParameterResolveOrder dependent_pair (getParameterDependencies dependent_pair) = Inr [0, 1, 0] \<and>
   (\<exists>order. getParameterResolveOrder dependent_pair (getParameterDependencies dependent_pair) = Inr order)"
proof
  show "getParameterResolveOrder dependent_pair (getParameterDependencies dependent_pair) = Inr [0, 1, 0]" by code_simp
  have "depends_on dependent_pair ''a'' = {''b''}" "depends_on dependent_pair ''b'' = {}"
    by (auto simp: depends_on_def dependent_pair_def mk_property_def rule_names_def shown_by_def obj_keys_def char_at_def)
  then have "\<forall>p \<in> set dependent_pair. \<forall>d \<in> depends_on dependent_pair (prop_name p).
      char_at d 0 = ''/'' \<or> (d \<in> prop_name ` set dependent_pair \<and> d \<noteq> prop_name p)"
    by (simp add: dependent_pair_def mk_property_def)
  with getParameterResolveOrder_correct[of dependent_pair]
  show "\<exists>order. getParameterResolveOrder dependent_pair (getParameterDependencies dependent_pair) = Inr order" by blast
qed

text \<open>A parameter is put in the order although what it depends on is missing, and then again.\<close>

lemma resolved_too_early:
  "getParameterResolveOrder dependent_pair (getParameterDependencies dependent_pair) = Inr [0, 1, 0]"
  by code_simp

text \<open>A single parameter whose rule names itself is given up.\<close>

lemma own_rule_gives_up:
  "(let props = [mk_property ''a'' TyString (JStr []) (Some (shown_by ''a'' (JBool True)))]
    in isl (getParameterResolveOrder props (getParameterDependencies props)))"
  by code_simp

end
