(* ===== verification/ParameterValues.thy ===== *)
theory ParameterValues
  imports ParameterOrder
begin

text \<open>
  The values of a node's parameters (packages/workflow/src/NodeHelpers.ts,
  \<open>getNodeParameters\<close>): either with the defaults added or without the values that are the
  default, and with or without the values of parameters that are not displayed.
\<close>

section \<open>Simple parameters\<close>

text \<open>What the loop over the parameters does next: go on with the values so far, or return.\<close>

datatype param_flow = Next IDataObject IDataObject | Done jval

fun flow_fold ::
    "('p \<Rightarrow> IDataObject \<Rightarrow> IDataObject \<Rightarrow> js_error + param_flow) \<Rightarrow> 'p list \<Rightarrow> IDataObject \<Rightarrow> IDataObject \<Rightarrow>
     js_error + param_flow" where
  "flow_fold f [] params full = Inr (Next params full)"
| "flow_fold f (p # ps) params full =
     res_bind (f p params full) (\<lambda>r. case r of Done v \<Rightarrow> Inr (Done v) | Next params' full' \<Rightarrow> flow_fold f ps params' full')"

definition is_complex :: "INodeProperties \<Rightarrow> bool" where
  "is_complex p \<longleftrightarrow> prop_type p = Some TyCollection \<or> prop_type p = Some TyFixedCollection"

definition duplicate_name :: "INodeProperties list \<Rightarrow> string \<Rightarrow> bool" where
  "duplicate_name props n \<longleftrightarrow> 1 < length (filter (\<lambda>p. prop_name p = n) props)"

definition spread :: "jval \<Rightarrow> IDataObject \<Rightarrow> IDataObject" where
  "spread v ob =
     (case v of
        JObj entries \<Rightarrow> fold (\<lambda>(k, x). str_put k x) entries ob
      | JArr vs \<Rightarrow> fold (\<lambda>(i, x). str_put (nat_string i) x) (enumerate 0 vs) ob
      | _ \<Rightarrow> ob)"

definition value_or_default :: "INodeProperties \<Rightarrow> jval \<Rightarrow> jval" where
  "value_or_default p v =
     (if prop_type p \<in> {Some TyBoolean, Some TyNumber, Some TyOptions}
      then (if v \<noteq> JUndef then v else prop_default p)
      else if prop_type p = Some TyResourceLocator \<and> js_typeof (prop_default p) = ''object''
      then (if v \<noteq> JUndef then v else JObj (spread (prop_default p) [(''__rl'', JBool True)]))
      else if v = JUndef \<or> v = JNull then prop_default p else v)"

definition differs_from_default :: "library \<Rightarrow> INodeProperties \<Rightarrow> jval \<Rightarrow> NodePropertyTypes option \<Rightarrow> bool" where
  "differs_from_default lib p v parentType \<longleftrightarrow>
     (js_typeof v \<noteq> ''object'' \<and> \<not> js_same v (prop_default p)) \<or>
     (js_typeof v = ''object'' \<and> \<not> lib_isEqual lib v (prop_default p)) \<or>
     (v \<noteq> JUndef \<and> parentType = Some TyCollection)"

text \<open>
  Where the display rules look: at the values resolved before, or at the values resolved so
  far, which are the same object.
\<close>

definition check_values :: "jval option \<Rightarrow> IDataObject \<Rightarrow> jval" where
  "check_values pre full = (case pre of None \<Rightarrow> JObj full | Some d \<Rightarrow> d)"

definition root_values :: "jval option \<Rightarrow> jval option \<Rightarrow> IDataObject \<Rightarrow> jval" where
  "root_values given pre full =
     (case given of None \<Rightarrow> check_values pre full | Some r \<Rightarrow> (if truthy r then r else check_values pre full))"

text \<open>The value of a parameter among the values of the node, which may be no object.\<close>

definition value_of :: "jval \<Rightarrow> INodeProperties \<Rightarrow> jval" where
  "value_of nodeValues p = (case js_prop nodeValues (prop_name p) of Inl e \<Rightarrow> JUndef | Inr v \<Rightarrow> v)"

text \<open>The checks at the head of the body of the loop: does the parameter count at all?\<close>

definition passed_over ::
    "library \<Rightarrow> jval \<Rightarrow> bool \<Rightarrow> bool \<Rightarrow> number option \<Rightarrow> NodePropertyTypes option \<Rightarrow> jval \<Rightarrow> jval \<Rightarrow> INodeProperties \<Rightarrow>
     js_error + bool" where
  "passed_over lib nodeValues returnDefaults returnNoneDisplayed version parentType check rootv p =
     (if \<not> truthy nodeValues \<or>
         (value_of nodeValues p = JUndef \<and> (\<not> returnDefaults \<or> parentType = Some TyCollection)) then Inr True
      else if returnNoneDisplayed then Inr False
      else res_bind (displayParameter lib check p version (Some rootv)) (\<lambda>shown. Inr (\<not> shown)))"

definition simple_parameter ::
    "library \<Rightarrow> INodeProperties list \<Rightarrow> jval \<Rightarrow> bool \<Rightarrow> number option \<Rightarrow> NodePropertyTypes option \<Rightarrow> jval \<Rightarrow> jval \<Rightarrow>
     INodeProperties \<Rightarrow> IDataObject \<Rightarrow> IDataObject \<Rightarrow> js_error + param_flow" where
  "simple_parameter lib props nodeValues returnDefaults version parentType check rootv p params full =
     (let v = value_of nodeValues p;
          put = (\<lambda>x. Inr (Next (str_put (prop_name p) x params) (str_put (prop_name p) x full)))
      in res_bind (if duplicate_name props (prop_name p) then displayParameter lib check p version (Some rootv) else Inr True)
           (\<lambda>shown.
              if \<not> shown then Inr (Next params full)
              else if returnDefaults then put (value_or_default p v)
              else if differs_from_default lib p v parentType then put v
              else Inr (Next params full)))"

section \<open>Collections\<close>

text \<open>The recursive call is the argument \<open>rc\<close>; an array that is missing makes it throw.\<close>

type_synonym rec_call = "INodeProperties list \<Rightarrow> jval \<Rightarrow> js_error + jval"

definition call_with :: "rec_call \<Rightarrow> INodeProperties list option \<Rightarrow> jval \<Rightarrow> js_error + jval" where
  "call_with rc props v = (case props of None \<Rightarrow> Inl TypeError | Some ps \<Rightarrow> rc ps v)"

definition set_both :: "string \<Rightarrow> jval \<Rightarrow> IDataObject \<Rightarrow> IDataObject \<Rightarrow> js_error + param_flow" where
  "set_both n v params full = Inr (Next (str_put n v params) (str_put n v full))"

definition collection_parameter ::
    "rec_call \<Rightarrow> jval \<Rightarrow> bool \<Rightarrow> INodeProperties \<Rightarrow> IDataObject \<Rightarrow> IDataObject \<Rightarrow> js_error + param_flow" where
  "collection_parameter rc nodeValues returnDefaults p params full =
     (let v = value_of nodeValues p; n = prop_name p
      in if prop_multiple p = Some True
         then (if v \<noteq> JUndef then set_both n v params full
               else if returnDefaults
               then set_both n (case prop_default p of JArr vs \<Rightarrow> JArr vs | _ \<Rightarrow> JArr []) params full
               else Inr (Next params full))
         else if v \<noteq> JUndef
         then res_bind (call_with rc (prop_options p) v) (\<lambda>t.
                if t \<noteq> JNull then set_both n t params full else Inr (Next params full))
         else if returnDefaults then set_both n (prop_default p) params full
         else Inr (Next params full))"

definition find_option :: "INodeProperties \<Rightarrow> string \<Rightarrow> js_error + INodeProperties option" where
  "find_option p itemName =
     (case prop_options p of None \<Rightarrow> Inl TypeError | Some os \<Rightarrow> Inr (find (\<lambda>d. prop_name d = itemName) os))"

text \<open>An item of a collection with multiple values: an array, each of whose entries is resolved.\<close>

definition multiple_item :: "rec_call \<Rightarrow> INodeProperties \<Rightarrow> string \<Rightarrow> jval \<Rightarrow> jval list \<Rightarrow> js_error + jval list" where
  "multiple_item rc p itemName nodeValue acc =
     res_bind (find_option p itemName) (\<lambda>opt.
       case opt of
         None \<Rightarrow> Inl (ApplicationError ''Could not find property option'')
       | Some d \<Rightarrow> res_bind (call_with rc (prop_values d) nodeValue) (\<lambda>t.
           Inr (if t \<noteq> JNull then acc @ [t] else acc)))"

definition multiple_items ::
    "rec_call \<Rightarrow> INodeProperties \<Rightarrow> jval \<Rightarrow> string \<Rightarrow> IDataObject \<Rightarrow> js_error + IDataObject" where
  "multiple_items rc p propertyValues itemName values =
     res_bind (js_prop propertyValues itemName) (\<lambda>items.
     res_bind (js_iterate items) (\<lambda>xs.
     res_bind (res_fold (multiple_item rc p itemName) xs []) (\<lambda>ts.
       Inr (str_put itemName (JArr ts) values))))"

text \<open>
  An item of a collection with a single value.  It is read from the values of the node, also
  when the items come from the default.
\<close>

definition single_item ::
    "rec_call \<Rightarrow> INodeProperties \<Rightarrow> jval \<Rightarrow> string \<Rightarrow> IDataObject \<Rightarrow> js_error + IDataObject" where
  "single_item rc p v itemName values =
     res_bind (find_option p itemName) (\<lambda>opt.
       case opt of
         None \<Rightarrow> Inr values
       | Some d \<Rightarrow>
           res_bind (js_prop v itemName) (\<lambda>x.
           res_bind (call_with rc (prop_values d) x) (\<lambda>t.
             let temp = (if t \<noteq> JNull then spread t [] else [])
             in Inr (if temp \<noteq> [] then str_put itemName (JObj temp) values else values))))"

definition fixed_items ::
    "rec_call \<Rightarrow> INodeProperties \<Rightarrow> jval \<Rightarrow> jval \<Rightarrow> js_error + IDataObject" where
  "fixed_items rc p v propertyValues =
     res_fold (\<lambda>itemName values.
         if prop_multiple p = Some True then multiple_items rc p propertyValues itemName values
         else single_item rc p v itemName values)
       (js_keys propertyValues) []"

definition fixed_collection_parameter ::
    "rec_call \<Rightarrow> jval \<Rightarrow> bool \<Rightarrow> INodeProperties \<Rightarrow> IDataObject \<Rightarrow> IDataObject \<Rightarrow> js_error + param_flow" where
  "fixed_collection_parameter rc nodeValues returnDefaults p params full =
     (let v = value_of nodeValues p; n = prop_name p;
          propertyValues = (if returnDefaults \<and> v = JUndef then prop_default p else v)
      in if \<not> returnDefaults \<and> prop_multiple p = Some False \<and> truthy propertyValues \<and> js_keys propertyValues = []
         then Inr (Done nodeValues)
         else res_bind (fixed_items rc p v propertyValues) (\<lambda>values.
           let kept = (\<not> returnDefaults \<and> prop_multiple p = Some False \<and> values = [] \<and>
                  (case propertyValues of JObj ob \<Rightarrow> ob \<noteq> [] | _ \<Rightarrow> False));
               params1 = (if kept then str_put n (JObj (fold (\<lambda>k. str_put k (JObj [])) (js_keys propertyValues) [])) params
                          else params)
           in if values \<noteq> [] \<or> returnDefaults then set_both n (JObj values) params1 full
              else Inr (Next params1 full)))"

definition complex_parameter ::
    "rec_call \<Rightarrow> jval \<Rightarrow> bool \<Rightarrow> INodeProperties \<Rightarrow> IDataObject \<Rightarrow> IDataObject \<Rightarrow> js_error + param_flow" where
  "complex_parameter rc nodeValues returnDefaults p params full =
     (if prop_type p = Some TyCollection then collection_parameter rc nodeValues returnDefaults p params full
      else if prop_type p = Some TyFixedCollection then fixed_collection_parameter rc nodeValues returnDefaults p params full
      else Inr (Next params full))"

section \<open>The recursion\<close>

text \<open>
  A call is made only for an array of properties below the property at hand; this is what
  the definition of the recursion and its termination rest on.
\<close>

definition child_arrays :: "INodeProperties \<Rightarrow> INodeProperties list set" where
  "child_arrays p = set_option (prop_options p) \<union>
     (\<Union>os \<in> set_option (prop_options p). \<Union>d \<in> set os. set_option (prop_values d))"

lemma res_bind_cong [fundef_cong]:
  "r = r' \<Longrightarrow> (\<And>x. r' = Inr x \<Longrightarrow> f x = g x) \<Longrightarrow> res_bind r f = res_bind r' g"
  by (cases r) auto

lemma res_fold_cong [fundef_cong]:
  "xs = ys \<Longrightarrow> s = t \<Longrightarrow> (\<And>x s. x \<in> set ys \<Longrightarrow> f x s = g x s) \<Longrightarrow> res_fold f xs s = res_fold g ys t"
  by (induction xs arbitrary: s t ys) (auto intro!: res_bind_cong)

lemma flow_fold_cong [fundef_cong]:
  assumes "ps = qs" and "params = params'" and "full = full'"
    and "\<And>p a b. p \<in> set qs \<Longrightarrow> f p a b = g p a b"
  shows "flow_fold f ps params full = flow_fold g qs params' full'"
  using assms
  by (induction ps arbitrary: params full params' full' qs) (auto intro!: res_bind_cong split: param_flow.split)

lemma find_option_child:
  assumes "find_option p k = Inr (Some d)" and "prop_values d = Some ps"
  shows "ps \<in> child_arrays p"
  using assms by (auto simp: find_option_def child_arrays_def find_Some_iff split: option.splits dest!: nth_mem)

lemma complex_parameter_cong [fundef_cong]:
  assumes "p = q" and "v = w" and "b = c" and "params = params'" and "full = full'"
    and "\<And>ps x. ps \<in> child_arrays q \<Longrightarrow> f ps x = g ps x"
  shows "complex_parameter f v b p params full = complex_parameter g w c q params' full'"
proof -
  have o: "call_with f (prop_options q) = call_with g (prop_options q)"
    using assms(6) by (intro ext) (auto simp: call_with_def child_arrays_def split: option.split)
  have val: "call_with f (prop_values d) x = call_with g (prop_values d) x" if "find_option q k = Inr (Some d)" for k d x
    using assms(6) find_option_child[OF that] by (auto simp: call_with_def split: option.split)
  have "multiple_item f q = multiple_item g q"
    by (intro ext) (auto simp: multiple_item_def val intro!: res_bind_cong split: option.split)
  then have m: "multiple_items f q = multiple_items g q"
    by (intro ext) (simp add: multiple_items_def)
  have s: "single_item f q = single_item g q"
    by (intro ext) (auto simp: single_item_def val intro!: res_bind_cong split: option.split)
  have fi: "fixed_items f q = fixed_items g q"
    by (intro ext) (simp only: fixed_items_def m s)
  show ?thesis
    unfolding complex_parameter_def collection_parameter_def fixed_collection_parameter_def assms(1-5) o fi by (rule refl)
qed

lemma child_size:
  assumes "ps \<in> child_arrays p"
  shows "size_list size ps < size p"
proof -
  have v: "size_list size vs \<le> size d" if "prop_values d = Some vs" for d vs
    using that by (cases d) auto
  have o: "size_list size os < size p" if "prop_options p = Some os" for os
    using that by (cases p) auto
  from assms consider "prop_options p = Some ps"
    | os d where "prop_options p = Some os" "d \<in> set os" "prop_values d = Some ps"
    by (auto simp: child_arrays_def)
  then show ?thesis
  proof cases
    case 1
    then show ?thesis by (rule o)
  next
    case 2
    then have "size d \<le> size_list size os" by (simp add: size_list_estimation')
    with v[OF 2(3)] o[OF 2(1)] show ?thesis by linarith
  qed
qed

lemma resolve_order_set: "getParameterResolveOrder props deps = Inr order \<Longrightarrow> set order = {..<length props}"
  using resolve_loop_order[of deps "map prop_name props" "[0..<length props]" "[]" "[]" "length props" 1 order]
  by (auto simp: getParameterResolveOrder_def)

lemma resolve_order_bounded:
  "getParameterResolveOrder props deps = Inr order \<Longrightarrow> i \<in> set order \<Longrightarrow> i < length props"
  using resolve_order_set by blast

text \<open>
  The arguments are those of the code; the node is its version, and the dependencies are
  always computed from the same properties.  The call on the same properties, with the
  defaults and only for simple types, gives the values that the display rules look at.
\<close>

function getNodeParameters ::
    "library \<Rightarrow> INodeProperties list \<Rightarrow> jval \<Rightarrow> bool \<Rightarrow> bool \<Rightarrow> number option \<Rightarrow> bool \<Rightarrow> bool \<Rightarrow> jval option \<Rightarrow>
     NodePropertyTypes option \<Rightarrow> js_error + jval" where
  "getNodeParameters lib props nodeValues returnDefaults returnNoneDisplayed version onlySimpleTypes dataIsResolved
       nodeValuesRoot parentType =
     res_bind (if \<not> dataIsResolved \<and> \<not> returnNoneDisplayed
               then res_bind (getNodeParameters lib props nodeValues True True version True True nodeValuesRoot parentType)
                      (\<lambda>d. Inr (Some d))
               else Inr None) (\<lambda>pre.
     res_bind (getParameterResolveOrder props (getParameterDependencies props)) (\<lambda>order.
     res_bind (flow_fold (\<lambda>p params full.
         let check = check_values pre full; rootv = root_values nodeValuesRoot pre full
         in res_bind (passed_over lib nodeValues returnDefaults returnNoneDisplayed version parentType check rootv p) (\<lambda>skip.
              if skip then Inr (Next params full)
              else if \<not> is_complex p
              then simple_parameter lib props nodeValues returnDefaults version parentType check rootv p params full
              else if onlySimpleTypes then Inr (Next params full)
              else complex_parameter (\<lambda>ps x. getNodeParameters lib ps x returnDefaults returnNoneDisplayed version
                     False False (Some rootv) (prop_type p))
                   nodeValues returnDefaults p params full))
       (map ((!) props) order) [] []) (\<lambda>r.
     case r of Next params full \<Rightarrow> Inr (JObj params) | Done v \<Rightarrow> Inr v)))"
  by pat_completeness auto

termination
proof (relation "measures
    [\<lambda>(lib, props, nv, rd, rnd, ver, simple, res, rt, pt). size_list size props,
     \<lambda>(lib, props, nv, rd, rnd, ver, simple, res, rt, pt). if res \<or> rnd then 0 else 1]", goal_cases)
  case 1
  show ?case by simp
next
  case (2 lib props nodeValues returnDefaults returnNoneDisplayed version onlySimpleTypes dataIsResolved nodeValuesRoot parentType)
  then show ?case by simp
next
  case (3 lib props nodeValues returnDefaults returnNoneDisplayed version onlySimpleTypes dataIsResolved nodeValuesRoot
      parentType pre order p)
  then obtain i where "i < length props" "p = props ! i"
    using resolve_order_bounded by fastforce
  then have "size p \<le> size_list size props" using size_list_estimation'[of p props "size p" size] by simp
  with child_size 3 show ?case by fastforce
qed

declare getNodeParameters.simps [simp del]

definition param_step ::
    "library \<Rightarrow> INodeProperties list \<Rightarrow> jval \<Rightarrow> bool \<Rightarrow> bool \<Rightarrow> number option \<Rightarrow> bool \<Rightarrow> jval option \<Rightarrow>
     NodePropertyTypes option \<Rightarrow> jval option \<Rightarrow> INodeProperties \<Rightarrow> IDataObject \<Rightarrow> IDataObject \<Rightarrow> js_error + param_flow" where
  "param_step lib props nv rd rnd ver simple given parent pre p params full =
     (let check = check_values pre full; rootv = root_values given pre full
      in res_bind (passed_over lib nv rd rnd ver parent check rootv p) (\<lambda>skip.
           if skip then Inr (Next params full)
           else if \<not> is_complex p then simple_parameter lib props nv rd ver parent check rootv p params full
           else if simple then Inr (Next params full)
           else complex_parameter (\<lambda>ps x. getNodeParameters lib ps x rd rnd ver False False (Some rootv) (prop_type p))
                nv rd p params full))"

definition flow_result :: "param_flow \<Rightarrow> jval" where
  "flow_result r = (case r of Next params full \<Rightarrow> JObj params | Done v \<Rightarrow> v)"

lemma getNodeParameters_eq:
  "getNodeParameters lib props nv rd rnd ver simple resolved given parent =
     res_bind (if \<not> resolved \<and> \<not> rnd
               then res_bind (getNodeParameters lib props nv True True ver True True given parent) (\<lambda>d. Inr (Some d))
               else Inr None) (\<lambda>pre.
     res_bind (getParameterResolveOrder props (getParameterDependencies props)) (\<lambda>order.
     res_bind (flow_fold (param_step lib props nv rd rnd ver simple given parent pre) (map ((!) props) order) [] []) (\<lambda>r.
     Inr (flow_result r))))"
  unfolding param_step_def flow_result_def
  by (subst getNodeParameters.simps) (auto intro!: res_bind_cong split: param_flow.split)

end
