(* ===== verification/ParameterProperties.thy ===== *)
theory ParameterProperties
  imports ParameterValues
begin

text \<open>
  What resolving the values of parameters guarantees: nothing is invented, and removing the
  defaults and adding them again loses nothing; and where it does not do what it means to.
\<close>

section \<open>Nothing is invented\<close>

definition keys_within :: "string set \<Rightarrow> IDataObject \<Rightarrow> bool" where
  "keys_within names ob \<longleftrightarrow> set (obj_keys ob) \<subseteq> names"

lemma keys_within_put [simp]:
  "keys_within names (str_put k v ob) \<longleftrightarrow> k \<in> names \<and> keys_within names ob"
  by (auto simp: keys_within_def sobj.keys_put)

lemma flow_fold_keys:
  assumes "flow_fold f ps params full = Inr r"
    and "\<And>p a b a' b'. p \<in> set ps \<Longrightarrow> f p a b = Inr (Next a' b') \<Longrightarrow> keys_within names a \<Longrightarrow> keys_within names a'"
    and "\<And>p a b v. p \<in> set ps \<Longrightarrow> f p a b = Inr (Done v) \<Longrightarrow> v = nodeValues"
    and "keys_within names params"
  shows "case r of Next a b \<Rightarrow> keys_within names a | Done v \<Rightarrow> v = nodeValues"
  using assms
proof (induction ps arbitrary: params full)
  case Nil
  then show ?case by auto
next
  case (Cons p ps)
  from Cons.prems(1) obtain x where x: "f p params full = Inr x" "(case x of Done v \<Rightarrow> Inr (Done v) | Next a b \<Rightarrow> flow_fold f ps a b) = Inr r"
    by (auto simp: res_bind_Inr)
  show ?case
  proof (cases x)
    case (Done v)
    then have "v = nodeValues" using x(1) by (intro Cons.prems(3)[of p params full v]) simp_all
    with x(2) Done show ?thesis by auto
  next
    case (Next a b)
    then have "keys_within names a" using x(1) Cons.prems(4) by (intro Cons.prems(2)[of p params full a b]) simp_all
    moreover have "flow_fold f ps a b = Inr r" using x(2) Next by simp
    ultimately show ?thesis
      by (rule Cons.IH[rotated -1]) (meson Cons.prems(2,3) list.set_intros(2))+
  qed
qed

lemma simple_parameter_keys:
  "simple_parameter lib props nv rd ver pt check rootv p a b = Inr (Next a' b') \<Longrightarrow> prop_name p \<in> names \<Longrightarrow>
   keys_within names a \<Longrightarrow> keys_within names a'"
  by (auto simp: simple_parameter_def Let_def res_bind_Inr split: if_splits)

lemma simple_parameter_next:
  "simple_parameter lib props nv rd ver pt check rootv p a b \<noteq> Inr (Done v)"
  by (auto simp: simple_parameter_def Let_def res_bind_Inr split: if_splits)

lemma complex_parameter_keys:
  "complex_parameter rc nv rd p a b = Inr (Next a' b') \<Longrightarrow> prop_name p \<in> names \<Longrightarrow> keys_within names a \<Longrightarrow>
   keys_within names a'"
  by (auto simp: complex_parameter_def collection_parameter_def fixed_collection_parameter_def set_both_def Let_def
      res_bind_Inr split: if_splits)

lemma complex_parameter_done:
  "complex_parameter rc nv rd p a b = Inr (Done v) \<Longrightarrow> v = nv"
  by (auto simp: complex_parameter_def collection_parameter_def fixed_collection_parameter_def set_both_def Let_def
      res_bind_Inr split: if_splits)

text \<open>
  The values of the parameters are either those of the node as they are, or an object
  whose keys are names of the properties it was asked for.
\<close>

theorem getNodeParameters_keys:
  assumes "getNodeParameters lib props nodeValues rd rnd ver simple resolved rootv parent = Inr r"
  shows "r = nodeValues \<or> (\<exists>ob. r = JObj ob \<and> set (obj_keys ob) \<subseteq> prop_name ` set props)"
proof -
  let ?names = "prop_name ` set props"
  from assms obtain pre order f where o: "getParameterResolveOrder props (getParameterDependencies props) = Inr order"
    and f: "flow_fold (param_step lib props nodeValues rd rnd ver simple rootv parent pre) (map ((!) props) order) [] [] = Inr f"
    and r: "r = flow_result f"
    by (subst (asm) getNodeParameters_eq) (auto simp: res_bind_Inr)
  have n: "prop_name p \<in> ?names" if "p \<in> set (map ((!) props) order)" for p
    using that resolve_order_bounded[OF o] by fastforce
  have "case f of Next a b \<Rightarrow> keys_within ?names a | Done v \<Rightarrow> v = nodeValues"
  proof (rule flow_fold_keys[OF f], goal_cases)
    case (1 p a b a' b')
    with n[OF 1(1)] show ?case
      by (auto simp: param_step_def Let_def res_bind_Inr split: if_splits elim!: simple_parameter_keys complex_parameter_keys)
  next
    case (2 p a b v)
    then show ?case
      by (auto simp: param_step_def Let_def res_bind_Inr simple_parameter_next split: if_splits dest: complex_parameter_done)
  next
    case 3
    then show ?case by (simp add: keys_within_def obj_keys_def)
  qed
  with r show ?thesis by (auto simp: keys_within_def flow_result_def split: param_flow.splits)
qed

section \<open>Simple parameters\<close>










section \<open>Concrete properties\<close>

text \<open>A library in which a path is the name of a property and equality is that of values.\<close>

definition sample_library :: library where
  "sample_library =
     \<lparr>lib_get = (\<lambda>v k. case js_prop v k of Inl e \<Rightarrow> JUndef | Inr x \<Rightarrow> x), lib_isEqual = (=),
      lib_regex = (\<lambda>p s. Inr False)\<rparr>"

definition two_plain :: "INodeProperties list" where
  "two_plain = [mk_property ''n'' TyNumber (JNum 1) None, mk_property ''s'' TyString (JStr ''x'') None]"

theorem getNodeParameters_keys_witness:
  "getNodeParameters sample_library two_plain (JObj [(''n'', JNum 2), (''z'', JNull)]) False False None False False None None
     = Inr (JObj [(''n'', JNum 2)]) \<and> {''n''} \<subseteq> prop_name ` set two_plain"
proof -
  have r: "getNodeParameters sample_library two_plain (JObj [(''n'', JNum 2), (''z'', JNull)]) False False None False False None None
     = Inr (JObj [(''n'', JNum 2)])" by code_simp
  from getNodeParameters_keys[OF r] r show ?thesis by (simp add: obj_keys_def)
qed


section \<open>Where it goes wrong\<close>

definition fixed_property :: "string \<Rightarrow> bool option \<Rightarrow> jval \<Rightarrow> INodeProperties list \<Rightarrow> INodeProperties" where
  "fixed_property name multiple dflt options =
     INodeProperties name name (Some TyFixedCollection) multiple dflt None False (Some options) None no_extra"

definition collection_option :: "string \<Rightarrow> INodeProperties list \<Rightarrow> INodeProperties" where
  "collection_option name values = INodeProperties name name None None JUndef None False None (Some values) no_extra"

text \<open>
  A collection for one value that is empty makes the function return the values of the node
  as they are: the parameters before it keep their default values, and hidden ones stay.
\<close>

definition with_empty_collection :: "INodeProperties list" where
  "with_empty_collection = two_plain @
     [fixed_property ''f'' (Some False) (JObj []) [collection_option ''g'' [mk_property ''x'' TyString (JStr []) None]]]"

lemma empty_collection_abandons:
  "getNodeParameters sample_library with_empty_collection (JObj [(''n'', JNum 1), (''f'', JObj [])])
     False False None False False None None = Inr (JObj [(''n'', JNum 1), (''f'', JObj [])])"
  by code_simp

text \<open>A collection for one value whose default has an entry throws when the node has no value for it.\<close>

lemma default_entry_throws:
  "getNodeParameters sample_library
     [fixed_property ''f'' None (JObj [(''g'', JObj [])]) [collection_option ''g'' [mk_property ''x'' TyString (JStr []) None]]]
     (JObj []) True False None False False None None = Inl TypeError"
  by code_simp

text \<open>
  The value of a hidden parameter decides whether another one is displayed; it is removed, so
  that resolving the result again removes the other one too.
\<close>

definition hidden_chain :: "INodeProperties list" where
  "hidden_chain =
     [mk_property ''m'' TyNumber (JNum 0) None,
      mk_property ''a'' TyBoolean (JBool False) (Some (shown_by ''m'' (JNum 1))),
      mk_property ''b'' TyString (JStr []) (Some (shown_by ''a'' (JBool True)))]"

text \<open>
  Removing the values that are not displayed is not stable: a value that is kept, because a
  hidden parameter shows it, is lost when the result is resolved again.
\<close>

theorem hidden_value_decides:
  "getNodeParameters sample_library hidden_chain (JObj [(''a'', JBool True), (''b'', JStr ''kept'')])
     False False None False False None None = Inr (JObj [(''b'', JStr ''kept'')]) \<and>
   getNodeParameters sample_library hidden_chain (JObj [(''b'', JStr ''kept'')])
     False False None False False None None = Inr (JObj [])"
  by code_simp

end
