(* ===== verification/TypeValidation.thy ===== *)
theory TypeValidation
  imports JsValues
begin

text \<open>
  packages/workflow/src/TypeValidation.ts: whether a value has, or can be converted to, the
  type of a field.  The values are those of JSON and undefined; a date that the library
  luxon accepts is the number of its milliseconds.  The parsers of JSON, of JavaScript
  object literals and of dates are arguments.
\<close>

section \<open>Values after parsing\<close>

datatype parsed = PVal jval | PNumber js_number | PDate int

record parsers =
  json_parse :: "string \<Rightarrow> jval option"
  object_literal :: "string \<Rightarrow> jval option"
  date_formats :: "(string \<Rightarrow> int option) list"

definition apostrophe :: string where
  "apostrophe = [CHR 0x27]"

definition quoted :: "string \<Rightarrow> string" where
  "quoted s = apostrophe @ s @ apostrophe"

section \<open>Parsing\<close>

definition tryToParseNumber :: "jval \<Rightarrow> js_error + js_number" where
  "tryToParseNumber v =
     (case js_to_number v of NotANumber \<Rightarrow> Inl (ApplicationError ''Failed to parse value to number'') | n \<Rightarrow> Inr n)"

text \<open>\<open>JSON.stringify\<close>: None for undefined, which an object leaves out and an array shows as null.\<close>

definition hex_digit :: "nat \<Rightarrow> char" where
  "hex_digit n = char_of (if n < 10 then n + 48 else n + 87)"

definition json_char :: "char \<Rightarrow> string" where
  "json_char c =
     (let n = of_char c :: nat
      in if n = 34 then [CHR 0x5C, c] else if n = 92 then [CHR 0x5C, c]
         else if n = 8 then CHR 0x5C # ''b'' else if n = 9 then CHR 0x5C # ''t'' else if n = 10 then CHR 0x5C # ''n''
         else if n = 12 then CHR 0x5C # ''f'' else if n = 13 then CHR 0x5C # ''r''
         else if n < 32 then CHR 0x5C # ''u00'' @ [hex_digit (n div 16), hex_digit (n mod 16)]
         else [c])"

definition json_quote :: "string \<Rightarrow> string" where
  "json_quote s = [CHR 0x22] @ concat (map json_char s) @ [CHR 0x22]"

fun json_text :: "jval \<Rightarrow> string option" where
  "json_text JUndef = None"
| "json_text JNull = Some ''null''"
| "json_text (JBool b) = Some (if b then ''true'' else ''false'')"
| "json_text (JNum n) = Some (num_string n)"
| "json_text (JStr s) = Some (json_quote s)"
| "json_text (JArr vs) =
     Some (''['' @ join_with '','' (map (\<lambda>v. case json_text v of None \<Rightarrow> ''null'' | Some t \<Rightarrow> t) vs) @ '']'')"
| "json_text (JObj ob) =
     Some (''{'' @ join_with '','' (concat (map (\<lambda>(k, v). case json_text v of None \<Rightarrow> [] | Some t \<Rightarrow> [json_quote k @ '':'' @ t]) ob))
        @ ''}'')"

definition tryToParseString :: "jval \<Rightarrow> string" where
  "tryToParseString v =
     (if js_typeof v = ''object'' then (case json_text v of None \<Rightarrow> [] | Some t \<Rightarrow> t)
      else if v = JUndef then [] else js_string v)"

definition is_letter :: "char \<Rightarrow> bool" where
  "is_letter c = (let n = of_char c :: nat in (65 \<le> n \<and> n \<le> 90) \<or> (97 \<le> n \<and> n \<le> 122))"

definition tryToParseAlphanumericString :: "jval \<Rightarrow> js_error + string" where
  "tryToParseAlphanumericString v =
     (let p = tryToParseString v
      in if p \<noteq> [] \<and> (is_letter (hd p) \<or> hd p = CHR ''_'') \<and> list_all (\<lambda>c. is_letter c \<or> is_digit c \<or> c = CHR ''_'') p
         then Inr p else Inl (ApplicationError ''Value is not a valid alphanumeric string''))"

definition tryToParseBoolean :: "jval \<Rightarrow> js_error + bool" where
  "tryToParseBoolean v =
     (let as_number = (case js_to_number v of
            Finite x \<Rightarrow> (if x = 0 then Inr False else if x = 1 then Inr True
                         else Inl (ApplicationError ''Failed to parse value as boolean''))
          | _ \<Rightarrow> Inl (ApplicationError ''Failed to parse value as boolean''))
      in case v of
          JBool b \<Rightarrow> Inr b
        | JStr s \<Rightarrow>
            (if lower s \<in> {''true'', ''false''} then Inr (lower s = ''true'')
             else if str_trim s = [] then Inl (ApplicationError ''Failed to parse value as boolean'')
             else as_number)
        | _ \<Rightarrow> as_number)"

fun first_date :: "(string \<Rightarrow> int option) list \<Rightarrow> string \<Rightarrow> int option" where
  "first_date [] s = None"
| "first_date (f # fs) s = (case f s of Some d \<Rightarrow> Some d | None \<Rightarrow> first_date fs s)"

definition tryToParseDateTime :: "parsers \<Rightarrow> jval \<Rightarrow> js_error + int" where
  "tryToParseDateTime env v =
     (case first_date (date_formats env) (str_trim (js_string v)) of
        Some d \<Rightarrow> Inr d | None \<Rightarrow> Inl (ApplicationError ''Value is not a valid date''))"

text \<open>
  The regular expression for a time, as a matcher that gives every rest behind a match.
\<close>

definition m_char :: "(char \<Rightarrow> bool) \<Rightarrow> string \<Rightarrow> string list" where
  "m_char f s = (case s of [] \<Rightarrow> [] | c # cs \<Rightarrow> (if f c then [cs] else []))"

definition m_seq :: "(string \<Rightarrow> string list) \<Rightarrow> (string \<Rightarrow> string list) \<Rightarrow> string \<Rightarrow> string list" where
  "m_seq f g s = concat (map g (f s))"

definition m_opt :: "(string \<Rightarrow> string list) \<Rightarrow> string \<Rightarrow> string list" where
  "m_opt f s = f s @ [s]"

definition m_two_digits :: "string \<Rightarrow> string list" where
  "m_two_digits = m_seq (m_char is_digit) (m_char is_digit)"

definition m_colon_two :: "string \<Rightarrow> string list" where
  "m_colon_two = m_seq (m_char (\<lambda>c. c = CHR '':'')) m_two_digits"

definition m_sign :: "string \<Rightarrow> string list" where
  "m_sign = m_char (\<lambda>c. c = CHR ''-'' \<or> c = CHR ''+'')"

definition time_rests :: "string \<Rightarrow> string list" where
  "time_rests =
     m_seq m_two_digits (m_seq m_colon_two (m_seq (m_opt m_colon_two)
       (m_seq (m_opt (m_seq m_sign (m_seq m_two_digits m_two_digits)))
         (m_opt (m_seq m_sign (m_seq (m_char is_digit) (m_seq (m_opt (m_char is_digit)) (m_opt m_colon_two))))))))"

definition tryToParseTime :: "jval \<Rightarrow> js_error + string" where
  "tryToParseTime v =
     (if [] \<in> set (time_rests (js_string v)) then Inr (js_string v)
      else Inl (ApplicationError ''Value is not a valid time''))"

definition tryToParseArray :: "parsers \<Rightarrow> jval \<Rightarrow> js_error + jval" where
  "tryToParseArray env v =
     (case v of
        JArr vs \<Rightarrow> Inr v
      | _ \<Rightarrow>
          (let s = js_string v;
               p = (case json_parse env s of
                      Some x \<Rightarrow> Some x
                    | None \<Rightarrow> json_parse env (map (\<lambda>c. if c = CHR 0x27 then CHR 0x22 else c) s))
           in case p of Some (JArr vs) \<Rightarrow> Inr (JArr vs)
              | _ \<Rightarrow> Inl (ApplicationError ''Value is not a valid array'')))"

definition tryToParseObject :: "parsers \<Rightarrow> jval \<Rightarrow> js_error + jval" where
  "tryToParseObject env v =
     (case v of
        JObj ob \<Rightarrow> Inr v
      | _ \<Rightarrow>
          (let s = js_string v;
               p = (case json_parse env s of Some x \<Rightarrow> Some x | None \<Rightarrow> object_literal env s)
           in case p of
               Some JNull \<Rightarrow> Inr JNull
             | Some (JObj ob) \<Rightarrow> Inr (JObj ob)
             | _ \<Rightarrow> Inl (ApplicationError ''Value is not a valid object'')))"

definition getValueDescription :: "jval \<Rightarrow> string" where
  "getValueDescription v =
     (case v of JNull \<Rightarrow> quoted ''null'' | JArr _ \<Rightarrow> ''array'' | JObj _ \<Rightarrow> ''object'' | _ \<Rightarrow> quoted (js_string v))"

fun url_somewhere :: "string \<Rightarrow> bool" where
  "url_somewhere [] = False"
| "url_somewhere (c # s) =
     ((starts_with (c # s) ''www.'' \<and> (case drop 4 (c # s) of [] \<Rightarrow> False | d # _ \<Rightarrow> \<not> is_space d)) \<or> url_somewhere s)"

definition url_scheme :: "string \<Rightarrow> string \<Rightarrow> bool" where
  "url_scheme s scheme \<longleftrightarrow>
     starts_with s scheme \<and> (case drop (length scheme) s of [] \<Rightarrow> False | d # _ \<Rightarrow> \<not> is_space d)"

definition tryToParseUrl :: "jval \<Rightarrow> js_error + string" where
  "tryToParseUrl v =
     (let s = (case v of JStr t \<Rightarrow> (if has_substring t ''://'' then t else ''http://'' @ t) | _ \<Rightarrow> js_string v)
      in if list_ex (url_scheme s) [''http://'', ''https://'', ''ftp://'', ''file://''] \<or> url_somewhere s
         then Inr s else Inl (ApplicationError (''The value '' @ [CHR 0x22] @ s @ [CHR 0x22] @ '' is not a valid url.'')))"

definition is_b64 :: "char \<Rightarrow> bool" where
  "is_b64 c \<longleftrightarrow> is_letter c \<or> is_digit c \<or> c = CHR ''-'' \<or> c = CHR ''_''"

definition jwt_shape :: "string \<Rightarrow> bool" where
  "jwt_shape s =
     (let a = takeWhile is_b64 s; r = dropWhile is_b64 s;
          b = takeWhile is_b64 (tl r); t = dropWhile is_b64 (tl r)
      in a \<noteq> [] \<and> r \<noteq> [] \<and> hd r = CHR ''.'' \<and> b \<noteq> [] \<and> t \<noteq> [] \<and> hd t = CHR ''.'' \<and>
         list_all (\<lambda>c. is_b64 c \<or> c = CHR ''.'' \<or> c = CHR ''+'' \<or> c = CHR ''/'' \<or> c = CHR ''='') (tl t))"

definition tryToParseJwt :: "jval \<Rightarrow> js_error + string" where
  "tryToParseJwt v =
     (if truthy v \<and> jwt_shape (js_string v) then Inr (js_string v)
      else Inl (ApplicationError (''The value '' @ [CHR 0x22] @ js_string v @ [CHR 0x22] @ '' is not a valid JWT token.'')))"

section \<open>Validation\<close>

datatype validation = Valid "parsed option" | Invalid string

record validate_options =
  vo_values :: "jval list"
  vo_strict :: bool
  vo_parseStrings :: bool

definition no_options :: validate_options where
  "no_options = \<lparr>vo_values = [], vo_strict = False, vo_parseStrings = False\<rparr>"

text \<open>The try block: the value that was parsed, or the message when parsing throws.\<close>

definition attempt :: "js_error + 'a \<Rightarrow> ('a \<Rightarrow> parsed) \<Rightarrow> string \<Rightarrow> validation" where
  "attempt r f message = (case r of Inl e \<Rightarrow> Invalid message | Inr x \<Rightarrow> Valid (Some (f x)))"

definition luxon_hint :: string where
  "luxon_hint = '' <br/><br/> Consider using <a href='' @ [CHR 0x22] @
     ''https://moment.github.io/luxon/api-docs/index.html#datetimefromformat'' @ [CHR 0x22] @
     '' target='' @ [CHR 0x22] @ ''_blank'' @ [CHR 0x22] @
     ''><code>DateTime.fromFormat</code></a> to work with custom date formats.''"

definition validateFieldType :: "parsers \<Rightarrow> string \<Rightarrow> jval \<Rightarrow> string \<Rightarrow> validate_options \<Rightarrow> validation" where
  "validateFieldType env fieldName v type options =
     (if v = JNull \<or> v = JUndef then Valid None
      else let message = quoted fieldName @ '' expects a '' @ type @ '' but we got '' @ getValueDescription v;
               kind = lower type
           in if kind = ''string''
              then (if \<not> vo_parseStrings options then Valid (Some (PVal v))
                    else if vo_strict options \<and> js_typeof v \<noteq> ''string'' then Invalid message
                    else Valid (Some (PVal (JStr (tryToParseString v)))))
              else if kind = ''string-alphanumeric''
              then attempt (tryToParseAlphanumericString v) (\<lambda>s. PVal (JStr s))
                     ''Value is not a valid alphanumeric string, only letters, numbers and underscore allowed''
              else if kind = ''number''
              then (if vo_strict options \<and> js_typeof v \<noteq> ''number'' then Invalid message
                    else attempt (tryToParseNumber v) PNumber message)
              else if kind = ''boolean''
              then (if vo_strict options \<and> js_typeof v \<noteq> ''boolean'' then Invalid message
                    else attempt (tryToParseBoolean v) (\<lambda>b. PVal (JBool b)) message)
              else if kind = ''datetime'' then attempt (tryToParseDateTime env v) PDate (message @ luxon_hint)
              else if kind = ''time''
              then attempt (tryToParseTime v) (\<lambda>s. PVal (JStr s))
                     (quoted fieldName @ '' expects time (hh:mm:(:ss)) but we got '' @ getValueDescription v @ ''.'')
              else if kind = ''object''
              then (if vo_strict options \<and> js_typeof v \<noteq> ''object'' then Invalid message
                    else attempt (tryToParseObject env v) PVal message)
              else if kind = ''array''
              then (if vo_strict options \<and> \<not> (case v of JArr _ \<Rightarrow> True | _ \<Rightarrow> False) then Invalid message
                    else attempt (tryToParseArray env v) PVal message)
              else if kind = ''options''
              then (if list_ex (\<lambda>x. js_same x v) (vo_values options) then Valid (Some (PVal v))
                    else Invalid (quoted fieldName @ '' expects one of the following values: ['' @
                           join_with '', '' (map (\<lambda>x. if x = JUndef \<or> x = JNull then [] else js_string x) (vo_values options)) @
                           ''] but we got '' @ getValueDescription v))
              else if kind = ''url'' then attempt (tryToParseUrl v) (\<lambda>s. PVal (JStr s)) message
              else if kind = ''jwt''
              then attempt (tryToParseJwt v) (\<lambda>s. PVal (JStr s)) ''Value is not a valid JWT token''
              else Valid (Some (PVal v)))"

section \<open>What a valid value is\<close>

text \<open>The values of a type, and of what validation makes of a value.\<close>

definition has_type :: "string \<Rightarrow> parsed \<Rightarrow> bool" where
  "has_type kind p =
     (if kind = ''number'' then (case p of PNumber n \<Rightarrow> n \<noteq> NotANumber | _ \<Rightarrow> False)
      else if kind = ''datetime'' then (case p of PDate _ \<Rightarrow> True | _ \<Rightarrow> False)
      else case p of
          PVal v \<Rightarrow>
            (if kind \<in> {''string'', ''string-alphanumeric'', ''time'', ''url'', ''jwt''} then js_typeof v = ''string''
             else if kind = ''boolean'' then js_typeof v = ''boolean''
             else if kind = ''array'' then (case v of JArr _ \<Rightarrow> True | _ \<Rightarrow> False)
             else if kind = ''object'' then (case v of JObj _ \<Rightarrow> True | _ \<Rightarrow> v = JNull)
             else True)
        | _ \<Rightarrow> False)"

definition as_parsed :: "jval \<Rightarrow> parsed" where
  "as_parsed v = (case v of JNum n \<Rightarrow> PNumber (Finite n) | _ \<Rightarrow> PVal v)"


lemma typeof_simps [simp]:
  "js_typeof (JStr s) = ''string''" "js_typeof (JBool b) = ''boolean''" "js_typeof (JNum n) = ''number''"
  "js_typeof (JArr vs) = ''object''" "js_typeof (JObj ob) = ''object''" "js_typeof JNull = ''object''"
  "js_typeof JUndef = ''undefined''"
  by (simp_all add: js_typeof_def)





text \<open>Parsers that know just the texts of a few values.\<close>

definition sample_parsers :: parsers where
  "sample_parsers =
     \<lparr>json_parse = (\<lambda>s. if s = ''[]'' then Some (JArr []) else if s = ''null'' then Some JNull else None),
      object_literal = (\<lambda>s. if s = ''{}'' then Some (JObj []) else None),
      date_formats = [\<lambda>s. if s = ''1970-01-01'' then Some 0 else None]\<rparr>"


text \<open>
  In strict mode a text, a number, a boolean or an array is valid exactly if the value has
  that type already, and then it is taken as it is.
\<close>

theorem validateFieldType_strict:
  assumes "lower type \<in> {''string'', ''number'', ''boolean'', ''array''}"
    and "vo_strict options" and "vo_parseStrings options" and "v \<noteq> JNull" and "v \<noteq> JUndef"
  shows "validateFieldType env fieldName v type options =
    (if has_type (lower type) (as_parsed v) then Valid (Some (as_parsed v))
     else Invalid (quoted fieldName @ '' expects a '' @ type @ '' but we got '' @ getValueDescription v))"
proof -
  have "lower type = ''string'' \<or> lower type = ''number'' \<or> lower type = ''boolean'' \<or> lower type = ''array''"
    using assms(1) by simp
  then show ?thesis
    using assms(2-5)
    by (cases v)
      (auto simp: validateFieldType_def has_type_def as_parsed_def attempt_def tryToParseString_def tryToParseNumber_def
        tryToParseBoolean_def tryToParseArray_def Let_def)
qed

theorem validateFieldType_strict_witness:
  "validateFieldType sample_parsers ''f'' (JNum 5) ''number'' (no_options\<lparr>vo_strict := True, vo_parseStrings := True\<rparr>) =
     Valid (Some (PNumber (Finite 5)))"
proof -
  have l: "lower ''number'' = ''number''" by code_simp
  show ?thesis
    using validateFieldType_strict[of "''number''" "no_options\<lparr>vo_strict := True, vo_parseStrings := True\<rparr>" "JNum 5"
        sample_parsers "''f''"] l
    by (simp add: has_type_def as_parsed_def)
qed

lemma object_accepts_null:
  "validateFieldType sample_parsers ''f'' (JStr ''null'') ''object'' no_options = Valid (Some (PVal JNull))"
  by code_simp

end
