(* ===== verification/FilterParameter.thy ===== *)
theory FilterParameter
  imports TypeValidation
begin

text \<open>
  packages/workflow/src/NodeParameters/FilterParameter.ts: the conditions by which nodes route
  items.  Both sides of a condition are converted to the types of the operator, and the
  operator is looked up in a switch whose branches fall through to the next.  Numbers that
  are not a number and dates do not occur among the values before they are parsed.
\<close>

section \<open>Conditions\<close>

datatype FilterOperatorType = FoString | FoNumber | FoBoolean | FoArray | FoObject | FoDateTime | FoAny

fun type_text :: "FilterOperatorType \<Rightarrow> string" where
  "type_text FoString = ''string''"
| "type_text FoNumber = ''number''"
| "type_text FoBoolean = ''boolean''"
| "type_text FoArray = ''array''"
| "type_text FoObject = ''object''"
| "type_text FoDateTime = ''dateTime''"
| "type_text FoAny = ''any''"

record FilterConditionValue =
  cond_left :: jval
  cond_type :: FilterOperatorType
  cond_operation :: string
  cond_rightType :: "FilterOperatorType option"
  cond_singleValue :: bool
  cond_right :: jval

record FilterOptionsValue =
  caseSensitive :: bool
  strictValidation :: bool
  filter_version :: "nat option"

record FilterValue =
  filter_options :: FilterOptionsValue
  conditions :: "FilterConditionValue list"
  combinator :: string

record FilterConditionMetadata =
  meta_index :: "nat option"
  meta_unresolved :: bool
  meta_itemIndex :: "nat option"
  meta_inline :: bool

record FilterError =
  fe_message :: string
  fe_description :: string

text \<open>The engine for regular expressions: pattern, flags and text.\<close>

record filter_env =
  fenv_parsers :: parsers
  fenv_regex :: "string \<Rightarrow> string \<Rightarrow> string \<Rightarrow> js_error + bool"
  fenv_dateText :: "int \<Rightarrow> string"

section \<open>Parsing the two sides\<close>

definition normal :: "parsed option \<Rightarrow> parsed" where
  "normal p = (case p of None \<Rightarrow> PVal JUndef | Some (PVal v) \<Rightarrow> as_parsed v | Some q \<Rightarrow> q)"

definition parseSingleFilterValue :: "filter_env \<Rightarrow> jval \<Rightarrow> FilterOperatorType \<Rightarrow> bool \<Rightarrow> nat \<Rightarrow> validation" where
  "parseSingleFilterValue env v type strict version =
     (if type = FoAny \<or> v = JNull \<or> v = JUndef then Valid (Some (PVal v))
      else if type = FoBoolean \<and> \<not> strict
      then (case (if 2 \<le> version then validateFieldType (fenv_parsers env) ''filter'' v (type_text type) no_options
                  else Invalid []) of
              Valid p \<Rightarrow> Valid p
            | Invalid _ \<Rightarrow> Valid (Some (PVal (JBool (truthy v)))))
      else validateFieldType (fenv_parsers env) ''filter'' v (type_text type)
             \<lparr>vo_values = [], vo_strict = strict, vo_parseStrings = True\<rparr>)"

definition withIndefiniteArticle :: "string \<Rightarrow> string" where
  "withIndefiniteArticle noun =
     (if has_substring ''aeiou'' (char_at noun 0) then ''an'' else ''a'') @ '' '' @ noun"

definition condition_suffix :: "FilterConditionMetadata \<Rightarrow> string" where
  "condition_suffix m =
     (let index = nat_string (case meta_index m of None \<Rightarrow> 0 | Some i \<Rightarrow> i);
          itemIndex = nat_string (case meta_itemIndex m of None \<Rightarrow> 0 | Some i \<Rightarrow> i)
      in if meta_inline m then ''[item '' @ itemIndex @ '']''
         else ''[condition '' @ index @ '', item '' @ itemIndex @ '']'')"

definition composeInvalidTypeMessage :: "bool \<Rightarrow> string \<Rightarrow> string \<Rightarrow> string \<Rightarrow> string \<Rightarrow> string" where
  "composeInvalidTypeMessage strict suffix type fromType value =
     (let from = lower fromType
      in if strict
         then ''Wrong type: '' @ quoted value @ '' is '' @ withIndefiniteArticle from @
              '' but was expecting '' @ withIndefiniteArticle type @ '' '' @ suffix
         else ''Conversion error: the '' @ from @ '' '' @ quoted value @ '' can'' @ apostrophe @ ''t be converted to '' @
              withIndefiniteArticle type @ '' '' @ suffix)"

definition getTypeDescription :: "bool \<Rightarrow> string" where
  "getTypeDescription strict =
     (if strict
      then ''Try changing the type of comparison. Alternatively you can enable '' @ quoted ''Convert types where required'' @ ''.''
      else ''Try changing the type of the comparison.'')"

definition composeInvalidTypeDescription :: "bool \<Rightarrow> string \<Rightarrow> string \<Rightarrow> string" where
  "composeInvalidTypeDescription strict type valuePosition =
     (let convertionFunction = (if type = ''string'' then ''.toString()'' else if type = ''number'' then ''.toNumber()''
                                else if type = ''boolean'' then ''.toBoolean()'' else []);
          nl = [CHR 0x0A]
      in if strict \<and> convertionFunction \<noteq> []
         then nl @ ''<p>Try either:</p>'' @ nl @ ''<ol>'' @ nl @ ''  <li>Enabling '' @ quoted ''Convert types where required'' @
              ''</li>'' @ nl @ ''  <li>Converting the '' @ valuePosition @ '' field to '' @ withIndefiniteArticle type @
              '' by adding <code>'' @ convertionFunction @ ''</code></li>'' @ nl @ ''</ol>'' @ nl @ replicate 3 (CHR 0x09)
         else getTypeDescription strict)"

definition unresolved_expression :: "FilterConditionMetadata \<Rightarrow> jval \<Rightarrow> bool" where
  "unresolved_expression m v \<longleftrightarrow> meta_unresolved m \<and> (case v of JStr s \<Rightarrow> starts_with s ''='' | _ \<Rightarrow> False)"

definition valid_value :: "validation \<Rightarrow> parsed" where
  "valid_value r = (case r of Valid p \<Rightarrow> normal p | Invalid _ \<Rightarrow> PVal JUndef)"

definition is_valid :: "validation \<Rightarrow> bool" where
  "is_valid r = (case r of Valid _ \<Rightarrow> True | Invalid _ \<Rightarrow> False)"

text \<open>The result is an error or the two values; it is returned either way and never thrown.\<close>

definition parseFilterConditionValues ::
    "filter_env \<Rightarrow> FilterConditionValue \<Rightarrow> FilterOptionsValue \<Rightarrow> FilterConditionMetadata \<Rightarrow> FilterError + parsed \<times> parsed" where
  "parseFilterConditionValues env c opts m =
     (let strict = strictValidation opts;
          version = (case filter_version opts of None \<Rightarrow> 1 | Some n \<Rightarrow> n);
          type = cond_type c;
          rightType = (case cond_rightType c of None \<Rightarrow> type | Some t \<Rightarrow> t);
          l = parseSingleFilterValue env (cond_left c) type strict version;
          r = parseSingleFilterValue env (cond_right c) rightType strict version;
          leftValid = (is_valid l \<or> unresolved_expression m (cond_left c));
          rightValid = (is_valid r \<or> cond_singleValue c \<or> unresolved_expression m (cond_right c));
          suffix = condition_suffix m
      in if \<not> leftValid \<and> \<not> rightValid \<and> js_typeof (cond_left c) = js_typeof (cond_right c)
         then Inl \<lparr>fe_message = ''Comparison type expects '' @ withIndefiniteArticle (type_text type) @
                    '' but both fields are '' @ withIndefiniteArticle (js_typeof (cond_left c)),
                   fe_description = getTypeDescription strict\<rparr>
         else if \<not> leftValid
         then Inl \<lparr>fe_message = composeInvalidTypeMessage strict suffix (type_text type) (js_typeof (cond_left c))
                    (js_string (cond_left c)),
                   fe_description = composeInvalidTypeDescription strict (type_text type) ''first''\<rparr>
         else if \<not> rightValid
         then Inl \<lparr>fe_message = composeInvalidTypeMessage strict suffix (type_text rightType) (js_typeof (cond_right c))
                    (js_string (cond_right c)),
                   fe_description = composeInvalidTypeDescription strict (type_text rightType) ''second''\<rparr>
         else Inr (valid_value l, valid_value r))"

section \<open>Values at run time\<close>

text \<open>Strict equality, conversion, comparison and truth of parsed values.\<close>

definition p_same :: "parsed \<Rightarrow> parsed \<Rightarrow> bool" where
  "p_same a b \<longleftrightarrow>
     (case a of PVal v \<Rightarrow> is_primitive v \<and> a = b | PNumber n \<Rightarrow> n \<noteq> NotANumber \<and> a = b | PDate _ \<Rightarrow> False)"

definition number_text :: "js_number \<Rightarrow> string" where
  "number_text n = (case n of NotANumber \<Rightarrow> ''NaN'' | Infinite b \<Rightarrow> (if b then ''Infinity'' else ''-Infinity'') | Finite x \<Rightarrow> num_string x)"

definition p_string :: "filter_env \<Rightarrow> parsed \<Rightarrow> string" where
  "p_string env p = (case p of PVal v \<Rightarrow> js_string v | PNumber n \<Rightarrow> number_text n | PDate d \<Rightarrow> fenv_dateText env d)"

definition p_number :: "parsed \<Rightarrow> js_number" where
  "p_number p = (case p of PVal v \<Rightarrow> js_to_number v | PNumber n \<Rightarrow> n | PDate d \<Rightarrow> Finite (of_int d))"

definition p_compare :: "parsed \<Rightarrow> parsed \<Rightarrow> ordering option" where
  "p_compare a b =
     (case (a, b) of
        (PVal (JStr s), PVal (JStr t)) \<Rightarrow> Some (if s < t then Less else if s = t then Equal else Greater)
      | _ \<Rightarrow> compare_numbers (p_number a) (p_number b))"

definition p_truthy :: "parsed \<Rightarrow> bool" where
  "p_truthy p = (case p of PVal v \<Rightarrow> truthy v | PNumber n \<Rightarrow> n \<noteq> NotANumber \<and> n \<noteq> Finite 0 | PDate _ \<Rightarrow> True)"

definition p_missing :: "parsed \<Rightarrow> bool" where
  "p_missing p \<longleftrightarrow> p = PVal JUndef \<or> p = PVal JNull"

text \<open>\<open>value ?? other\<close>\<close>

definition or_else :: "parsed \<Rightarrow> jval \<Rightarrow> parsed" where
  "or_else p v = (if p_missing p then PVal v else p)"

section \<open>The branches of the switch\<close>

text \<open>A branch returns, throws, or falls through (None).\<close>

type_synonym branch = "js_error + bool option"

definition returns :: "bool \<Rightarrow> branch" where
  "returns b = Inr (Some b)"

definition str_call :: "(string \<Rightarrow> string \<Rightarrow> bool) \<Rightarrow> parsed \<Rightarrow> string \<Rightarrow> js_error + bool" where
  "str_call f left right = (case left of PVal (JStr s) \<Rightarrow> Inr (f s right) | _ \<Rightarrow> Inl TypeError)"

definition negated :: "js_error + bool \<Rightarrow> js_error + bool" where
  "negated r = res_bind r (\<lambda>b. Inr (\<not> b))"

definition answer :: "js_error + bool \<Rightarrow> branch" where
  "answer r = res_bind r (\<lambda>b. Inr (Some b))"

text \<open>
  A pattern between slashes is split at the last one when flags follow it; line breaks do not
  match its dot.
\<close>

definition split_pattern :: "string \<Rightarrow> string \<times> string" where
  "split_pattern p =
     (let flags = rev (takeWhile (\<lambda>c. c \<noteq> CHR ''/'') (rev p));
          front = take (length p - length flags) p;
          body = drop 1 (butlast front)
      in if 2 \<le> length front \<and> hd p = CHR ''/'' \<and> list_all (\<lambda>c. c \<in> set ''gimusy'') flags \<and>
            list_all (\<lambda>c. c \<noteq> CHR 0x0A \<and> c \<noteq> CHR 0x0D) body
         then (body, flags) else (p, []))"

definition regex_test :: "filter_env \<Rightarrow> parsed \<Rightarrow> parsed \<Rightarrow> js_error + bool" where
  "regex_test env left right =
     (if \<not> p_truthy right then fenv_regex env [] [] (p_string env left)
      else case right of
          PVal (JStr p) \<Rightarrow> (let (body, flags) = split_pattern p in fenv_regex env body flags (p_string env left))
        | _ \<Rightarrow> Inl TypeError)"

definition p_length :: "parsed \<Rightarrow> parsed" where
  "p_length p =
     (case p of PVal (JArr vs) \<Rightarrow> PNumber (Finite (of_nat (length vs)))
      | PVal (JStr s) \<Rightarrow> PNumber (Finite (of_nat (length s)))
      | PVal (JObj ob) \<Rightarrow> as_parsed (get_prop ob ''length'')
      | _ \<Rightarrow> PVal JUndef)"

definition zero :: parsed where
  "zero = PNumber (Finite 0)"

definition string_branch :: "filter_env \<Rightarrow> bool \<Rightarrow> string \<Rightarrow> parsed \<Rightarrow> parsed \<Rightarrow> branch" where
  "string_branch env ignoreCase operation leftValue rightValue =
     (let low = (\<lambda>p. case p of PVal (JStr s) \<Rightarrow> PVal (JStr (lower s)) | _ \<Rightarrow> p);
          left = or_else (if ignoreCase then low leftValue else leftValue) (JStr []);
          right = or_else (if ignoreCase \<and> operation \<noteq> ''regex'' \<and> operation \<noteq> ''notRegex'' then low rightValue
                           else rightValue) (JStr []);
          text = p_string env right
      in if operation = ''empty'' then returns (p_same (p_length left) zero)
         else if operation = ''notEmpty'' then returns (\<not> p_same (p_length left) zero)
         else if operation = ''equals'' then returns (p_same left right)
         else if operation = ''notEquals'' then returns (\<not> p_same left right)
         else if operation = ''contains'' then answer (str_call has_substring left text)
         else if operation = ''notContains'' then answer (negated (str_call has_substring left text))
         else if operation = ''startsWith'' then answer (str_call starts_with left text)
         else if operation = ''notStartsWith'' then answer (negated (str_call starts_with left text))
         else if operation = ''endsWith'' then answer (str_call ends_with left text)
         else if operation = ''notEndsWith'' then answer (negated (str_call ends_with left text))
         else if operation = ''regex'' then answer (regex_test env left right)
         else if operation = ''notRegex'' then answer (negated (regex_test env left right))
         else Inr None)"

definition is_order :: "ordering list \<Rightarrow> ordering option \<Rightarrow> bool" where
  "is_order os o1 \<longleftrightarrow> (case o1 of None \<Rightarrow> False | Some x \<Rightarrow> x \<in> set os)"

definition number_branch :: "string \<Rightarrow> parsed \<Rightarrow> parsed \<Rightarrow> branch" where
  "number_branch operation left right =
     (if operation = ''empty'' then returns (p_missing left)
      else if operation = ''notEmpty'' then returns (\<not> p_missing left)
      else if operation = ''equals'' then returns (p_same left right)
      else if operation = ''notEquals'' then returns (\<not> p_same left right)
      else if operation = ''gt'' then returns (is_order [Greater] (p_compare left right))
      else if operation = ''lt'' then returns (is_order [Less] (p_compare left right))
      else if operation = ''gte'' then returns (is_order [Greater, Equal] (p_compare left right))
      else if operation = ''lte'' then returns (is_order [Less, Equal] (p_compare left right))
      else Inr None)"

definition to_millis :: "parsed \<Rightarrow> js_error + int" where
  "to_millis p = (case p of PDate d \<Rightarrow> Inr d | _ \<Rightarrow> Inl TypeError)"

definition compare_dates :: "(int \<Rightarrow> int \<Rightarrow> bool) \<Rightarrow> parsed \<Rightarrow> parsed \<Rightarrow> branch" where
  "compare_dates f left right =
     res_bind (to_millis left) (\<lambda>a. res_bind (to_millis right) (\<lambda>b. returns (f a b)))"

definition date_branch :: "string \<Rightarrow> parsed \<Rightarrow> parsed \<Rightarrow> branch" where
  "date_branch operation left right =
     (if operation = ''empty'' then returns (p_missing left)
      else if operation = ''notEmpty'' then returns (\<not> p_missing left)
      else if \<not> p_truthy left \<or> \<not> p_truthy right then returns False
      else if operation = ''equals'' then compare_dates (=) left right
      else if operation = ''notEquals'' then compare_dates (\<noteq>) left right
      else if operation = ''after'' then compare_dates (>) left right
      else if operation = ''before'' then compare_dates (<) left right
      else if operation = ''afterOrEquals'' then compare_dates (\<ge>) left right
      else if operation = ''beforeOrEquals'' then compare_dates (\<le>) left right
      else Inr None)"

text \<open>The value that \<open>true\<close> returns is used for its truth.\<close>

definition boolean_branch :: "string \<Rightarrow> parsed \<Rightarrow> parsed \<Rightarrow> branch" where
  "boolean_branch operation left right =
     (if operation = ''empty'' then returns (p_missing left)
      else if operation = ''notEmpty'' then returns (\<not> p_missing left)
      else if operation = ''true'' then returns (p_truthy left)
      else if operation = ''false'' then returns (\<not> p_truthy left)
      else if operation = ''equals'' then returns (p_same left right)
      else if operation = ''notEquals'' then returns (\<not> p_same left right)
      else Inr None)"

definition arrayContainsValue :: "filter_env \<Rightarrow> parsed \<Rightarrow> parsed \<Rightarrow> bool \<Rightarrow> js_error + bool" where
  "arrayContainsValue env left value ignoreCase =
     (case (ignoreCase, value) of
        (True, PVal (JStr s)) \<Rightarrow>
          (case left of
             PVal (JArr vs) \<Rightarrow> Inr (list_ex (\<lambda>v. case v of JStr t \<Rightarrow> lower t = lower s | _ \<Rightarrow> False) vs)
           | _ \<Rightarrow> Inl TypeError)
      | _ \<Rightarrow>
          (case left of
             PVal (JArr vs) \<Rightarrow> Inr (list_ex (\<lambda>v. p_same (as_parsed v) value) vs)
           | PVal (JStr t) \<Rightarrow> Inr (has_substring t (p_string env value))
           | _ \<Rightarrow> Inl TypeError))"

definition array_branch :: "filter_env \<Rightarrow> bool \<Rightarrow> string \<Rightarrow> parsed \<Rightarrow> parsed \<Rightarrow> branch" where
  "array_branch env ignoreCase operation leftValue right =
     (let left = or_else leftValue (JArr []); len = p_length left
      in if operation = ''contains'' then answer (arrayContainsValue env left right ignoreCase)
         else if operation = ''notContains'' then answer (negated (arrayContainsValue env left right ignoreCase))
         else if operation = ''lengthEquals'' then returns (p_same len right)
         else if operation = ''lengthNotEquals'' then returns (\<not> p_same len right)
         else if operation = ''lengthGt'' then returns (is_order [Greater] (p_compare len right))
         else if operation = ''lengthLt'' then returns (is_order [Less] (p_compare len right))
         else if operation = ''lengthGte'' then returns (is_order [Greater, Equal] (p_compare len right))
         else if operation = ''lengthLte'' then returns (is_order [Less, Equal] (p_compare len right))
         else if operation = ''empty'' then returns (p_same len zero)
         else if operation = ''notEmpty'' then returns (\<not> p_same len zero)
         else Inr None)"

definition no_keys :: "parsed \<Rightarrow> bool" where
  "no_keys p = (case p of PVal v \<Rightarrow> js_keys v = [] | _ \<Rightarrow> True)"

definition object_branch :: "string \<Rightarrow> parsed \<Rightarrow> branch" where
  "object_branch operation left =
     (if operation = ''empty'' then returns (\<not> p_truthy left \<or> no_keys left)
      else if operation = ''notEmpty'' then returns (p_truthy left \<and> \<not> no_keys left)
      else Inr None)"

fun fall_through :: "branch list \<Rightarrow> js_error + bool" where
  "fall_through [] = Inr False"
| "fall_through (b # bs) = res_bind b (\<lambda>r. case r of Some x \<Rightarrow> Inr x | None \<Rightarrow> fall_through bs)"

definition filter_switch :: "filter_env \<Rightarrow> bool \<Rightarrow> FilterOperatorType \<Rightarrow> string \<Rightarrow> parsed \<Rightarrow> parsed \<Rightarrow> js_error + bool" where
  "filter_switch env ignoreCase type operation left right =
     (let n = number_branch operation left right; d = date_branch operation left right;
          b = boolean_branch operation left right; a = array_branch env ignoreCase operation left right;
          ob = object_branch operation left
      in case type of
          FoString \<Rightarrow> fall_through [string_branch env ignoreCase operation left right]
        | FoNumber \<Rightarrow> fall_through [n, d, b, a, ob]
        | FoDateTime \<Rightarrow> fall_through [d, b, a, ob]
        | FoBoolean \<Rightarrow> fall_through [b, a, ob]
        | FoArray \<Rightarrow> fall_through [a, ob]
        | FoObject \<Rightarrow> fall_through [ob]
        | FoAny \<Rightarrow> Inr False)"

definition executeFilterCondition ::
    "filter_env \<Rightarrow> FilterConditionValue \<Rightarrow> FilterOptionsValue \<Rightarrow> FilterConditionMetadata \<Rightarrow> js_error + bool" where
  "executeFilterCondition env c opts m =
     (case parseFilterConditionValues env c opts m of
        Inl e \<Rightarrow> Inl (ApplicationError (fe_message e))
      | Inr (left, right) \<Rightarrow>
          (if cond_operation c = ''exists'' then Inr (\<not> p_missing left)
           else if cond_operation c = ''notExists'' then Inr (p_missing left)
           else filter_switch env (\<not> caseSensitive opts) (cond_type c) (cond_operation c) left right))"

definition executeFilter :: "filter_env \<Rightarrow> FilterValue \<Rightarrow> nat option \<Rightarrow> js_error + bool" where
  "executeFilter env f itemIndex =
     (let conditionPass = (\<lambda>(index, c). executeFilterCondition env c (filter_options f)
            \<lparr>meta_index = Some index, meta_unresolved = False, meta_itemIndex = itemIndex, meta_inline = False\<rparr>)
      in if combinator f = ''and'' then res_every conditionPass (enumerate 0 (conditions f))
         else if combinator f = ''or'' then res_some conditionPass (enumerate 0 (conditions f))
         else Inr False)"

text \<open>
  The result of parsing is thrown away: only an error that is thrown would be an issue, and
  then the list it is pushed to would not be there.
\<close>

definition validateFilterParameter :: "filter_env \<Rightarrow> string \<Rightarrow> FilterValue \<Rightarrow> string list str_obj" where
  "validateFilterParameter env name f =
     fold (\<lambda>(index, c) issues.
         case parseFilterConditionValues env c (filter_options f)
            \<lparr>meta_index = Some index, meta_unresolved = True, meta_itemIndex = None, meta_inline = True\<rparr> of
           Inl e \<Rightarrow> issues
         | Inr r \<Rightarrow> issues)
       (enumerate 0 (conditions f)) []"

section \<open>Operators and their negations\<close>

fun negations :: "FilterOperatorType \<Rightarrow> (string \<times> string) list" where
  "negations FoString =
     [(''exists'', ''notExists''), (''empty'', ''notEmpty''), (''equals'', ''notEquals''), (''contains'', ''notContains''),
      (''startsWith'', ''notStartsWith''), (''endsWith'', ''notEndsWith''), (''regex'', ''notRegex'')]"
| "negations FoNumber = [(''exists'', ''notExists''), (''empty'', ''notEmpty''), (''equals'', ''notEquals'')]"
| "negations FoBoolean =
     [(''exists'', ''notExists''), (''empty'', ''notEmpty''), (''equals'', ''notEquals''), (''true'', ''false'')]"
| "negations FoArray =
     [(''exists'', ''notExists''), (''empty'', ''notEmpty''), (''contains'', ''notContains''),
      (''lengthEquals'', ''lengthNotEquals'')]"
| "negations FoObject = [(''exists'', ''notExists''), (''empty'', ''notEmpty'')]"
| "negations FoDateTime = [(''exists'', ''notExists''), (''empty'', ''notEmpty'')]"
| "negations FoAny = [(''exists'', ''notExists'')]"

lemma parse_operation [simp]:
  "parseFilterConditionValues env (c\<lparr>cond_operation := op\<rparr>) opts m = parseFilterConditionValues env c opts m"
  by (simp add: parseFilterConditionValues_def Let_def)

lemma answer_simps [simp]:
  "fall_through (returns b # bs) = Inr b" "fall_through (Inr None # bs) = fall_through bs"
  "fall_through (answer r # bs) = r"
  by (simp_all add: returns_def answer_def) (cases r, simp_all)

declare fall_through.simps(2) [simp del]

lemma negated_simps [simp]: "negated (Inr b) = Inr (\<not> b)" "negated (Inl e) = Inl e"
  by (simp_all add: negated_def)

lemma filter_switch_simps:
  "filter_switch env ic FoString op l r = fall_through [string_branch env ic op l r]"
  "filter_switch env ic FoNumber op l r = fall_through
     [number_branch op l r, date_branch op l r, boolean_branch op l r, array_branch env ic op l r, object_branch op l]"
  "filter_switch env ic FoDateTime op l r = fall_through
     [date_branch op l r, boolean_branch op l r, array_branch env ic op l r, object_branch op l]"
  "filter_switch env ic FoBoolean op l r = fall_through
     [boolean_branch op l r, array_branch env ic op l r, object_branch op l]"
  "filter_switch env ic FoArray op l r = fall_through [array_branch env ic op l r, object_branch op l]"
  "filter_switch env ic FoObject op l r = fall_through [object_branch op l]"
  "filter_switch env ic FoAny op l r = Inr False"
  by (simp_all add: filter_switch_def)

lemma string_branch_negation:
  "(op, nop) \<in> set (negations FoString) \<Longrightarrow> op \<noteq> ''exists'' \<Longrightarrow>
   fall_through [string_branch env ic nop l r] = negated (fall_through [string_branch env ic op l r])"
  by (simp, elim disjE) (simp_all add: string_branch_def Let_def)

lemma array_branch_negation:
  "(op, nop) \<in> set (negations FoArray) \<Longrightarrow> op \<noteq> ''exists'' \<Longrightarrow>
   fall_through (array_branch env ic nop l r # bs) = negated (fall_through (array_branch env ic op l r # bs'))"
  by (simp, elim disjE) (simp_all add: array_branch_def Let_def)

lemma number_branch_negation:
  "(op, nop) \<in> set (negations FoNumber) \<Longrightarrow> op \<noteq> ''exists'' \<Longrightarrow>
   fall_through (number_branch nop l r # bs) = negated (fall_through (number_branch op l r # bs'))"
  by (simp, (elim disjE)?) (simp_all add: number_branch_def)

lemma boolean_branch_negation:
  "(op, nop) \<in> set (negations FoBoolean) \<Longrightarrow> op \<noteq> ''exists'' \<Longrightarrow>
   fall_through (boolean_branch nop l r # bs) = negated (fall_through (boolean_branch op l r # bs'))"
  by (simp, (elim disjE)?) (simp_all add: boolean_branch_def)

lemma object_branch_negation:
  "(op, nop) \<in> set (negations FoObject) \<Longrightarrow> op \<noteq> ''exists'' \<Longrightarrow>
   fall_through (object_branch nop l # bs) = negated (fall_through (object_branch op l # bs'))"
  by (simp, (elim disjE)?) (simp_all add: object_branch_def)

lemma date_branch_negation:
  "(op, nop) \<in> set (negations FoDateTime) \<Longrightarrow> op \<noteq> ''exists'' \<Longrightarrow>
   fall_through (date_branch nop l r # bs) = negated (fall_through (date_branch op l r # bs'))"
  by (simp, (elim disjE)?) (simp_all add: date_branch_def)

lemma switch_negation:
  assumes "(op, nop) \<in> set (negations type)" and "op \<noteq> ''exists''"
  shows "filter_switch env ic type nop left right = negated (filter_switch env ic type op left right)"
proof (cases type)
  case FoString
  with assms string_branch_negation show ?thesis by (simp only: filter_switch_simps)
next
  case FoArray
  with assms array_branch_negation show ?thesis by (simp only: filter_switch_simps)
next
  case FoNumber
  with assms number_branch_negation show ?thesis by (simp only: filter_switch_simps)
next
  case FoBoolean
  with assms boolean_branch_negation show ?thesis by (simp only: filter_switch_simps)
next
  case FoObject
  with assms object_branch_negation show ?thesis by (simp only: filter_switch_simps)
next
  case FoDateTime
  with assms date_branch_negation show ?thesis by (simp only: filter_switch_simps)
next
  case FoAny
  with assms show ?thesis by simp
qed

text \<open>
  An operator and its negation are opposites: whatever the values, the options and the types,
  one of them passes exactly if the other does not, and both throw if one does.
\<close>

lemma condition_negation:
  assumes "(op, nop) \<in> set (negations (cond_type c))"
  shows "executeFilterCondition env (c\<lparr>cond_operation := nop\<rparr>) opts m =
    negated (executeFilterCondition env (c\<lparr>cond_operation := op\<rparr>) opts m)"
proof (cases "op = ''exists''")
  case True
  then have "nop = ''notExists''" using assms by (cases "cond_type c") auto
  with True show ?thesis by (auto simp: executeFilterCondition_def split: sum.split)
next
  case False
  then have "nop \<noteq> ''exists''" "nop \<noteq> ''notExists''" "op \<noteq> ''notExists''" using assms by (cases "cond_type c"; auto)+
  with False switch_negation[OF assms False] show ?thesis
    by (auto simp: executeFilterCondition_def split: sum.split)
qed

lemma negated_negated [simp]: "negated (negated r) = r"
  by (cases r) auto

text \<open>Two conditions that ask for an operator and its negation of the same values.\<close>

definition opposite :: "FilterConditionValue \<Rightarrow> FilterConditionValue \<Rightarrow> bool" where
  "opposite c d \<longleftrightarrow>
     d = c\<lparr>cond_operation := cond_operation d\<rparr> \<and>
     ((cond_operation c, cond_operation d) \<in> set (negations (cond_type c)) \<or>
      (cond_operation d, cond_operation c) \<in> set (negations (cond_type c)))"

lemma opposite_negated:
  assumes "opposite c d"
  shows "executeFilterCondition env d opts m = negated (executeFilterCondition env c opts m)"
proof -
  from assms have d: "d = c\<lparr>cond_operation := cond_operation d\<rparr>" by (simp add: opposite_def)
  have c: "c = c\<lparr>cond_operation := cond_operation c\<rparr>" by simp
  from assms consider "(cond_operation c, cond_operation d) \<in> set (negations (cond_type c))"
    | "(cond_operation d, cond_operation c) \<in> set (negations (cond_type c))" by (auto simp: opposite_def)
  then show ?thesis
  proof cases
    case 1
    from condition_negation[OF this, of env opts m] d c show ?thesis by simp
  next
    case 2
    from condition_negation[OF this, of env opts m] d c show ?thesis by simp
  qed
qed

lemma every_some_negated:
  assumes "list_all2 (\<lambda>x y. g y = negated (f x)) xs ys"
  shows "res_some g ys = negated (res_every f xs)" and "res_every g ys = negated (res_some f xs)"
  using assms by (induction xs ys rule: list_all2_induct) (auto split: sum.split simp: res_bind_def negated_def)

lemma list_all2_enumerate: "list_all2 P xs ys \<Longrightarrow> list_all2 (\<lambda>x y. fst x = fst y \<and> P (snd x) (snd y)) (enumerate n xs) (enumerate n ys)"
  by (induction xs ys arbitrary: n rule: list_all2_induct) auto

text \<open>
  C31: The negation of a filter is what De Morgan's laws say, errors included: with the negation of each
  condition, and or in place of and, or the other way round, it passes exactly if the filter
  does not, and throws what the filter throws.
\<close>

theorem filter_negation:
  assumes "list_all2 opposite (conditions f) (conditions g)" and "filter_options g = filter_options f"
    and "(combinator f, combinator g) \<in> {(''and'', ''or''), (''or'', ''and'')}"
  shows "executeFilter env g itemIndex = negated (executeFilter env f itemIndex)"
proof -
  let ?m = "\<lambda>i. \<lparr>meta_index = Some i, meta_unresolved = False, meta_itemIndex = itemIndex, meta_inline = False\<rparr>"
  let ?p = "\<lambda>(i, c). executeFilterCondition env c (filter_options f) (?m i)"
  have "list_all2 (\<lambda>x y. ?p y = negated (?p x)) (enumerate 0 (conditions f)) (enumerate 0 (conditions g))"
    by (rule list_all2_mono[OF list_all2_enumerate[OF assms(1)]]) (auto simp: opposite_negated)
  from every_some_negated[OF this] assms(2,3) show ?thesis
    by (auto simp: executeFilter_def Let_def)
qed

definition sample_filter_env :: filter_env where
  "sample_filter_env =
     \<lparr>fenv_parsers = sample_parsers, fenv_regex = (\<lambda>p fl t. Inr (has_substring t p)), fenv_dateText = (\<lambda>d. [])\<rparr>"

definition loose :: FilterOptionsValue where
  "loose = \<lparr>caseSensitive = False, strictValidation = False, filter_version = Some 2\<rparr>"

definition compare_with :: "FilterOperatorType \<Rightarrow> string \<Rightarrow> jval \<Rightarrow> jval \<Rightarrow> FilterConditionValue" where
  "compare_with type op l r =
     \<lparr>cond_left = l, cond_type = type, cond_operation = op, cond_rightType = None, cond_singleValue = False, cond_right = r\<rparr>"

definition first_item :: FilterConditionMetadata where
  "first_item = \<lparr>meta_index = None, meta_unresolved = False, meta_itemIndex = None, meta_inline = False\<rparr>"

definition loose_filter :: "string \<Rightarrow> FilterConditionValue list \<Rightarrow> FilterValue" where
  "loose_filter comb cs = \<lparr>filter_options = loose, conditions = cs, combinator = comb\<rparr>"

theorem filter_negation_witness:
  "executeFilter sample_filter_env
     (loose_filter ''or'' [compare_with FoString ''notContains'' (JStr ''Hello'') (JStr ''ELL''),
        compare_with FoNumber ''exists'' JUndef JNull]) (Some 0) = Inr False"
proof -
  let ?f = "loose_filter ''and'' [compare_with FoString ''contains'' (JStr ''Hello'') (JStr ''ELL''),
        compare_with FoNumber ''notExists'' JUndef JNull]"
  have "executeFilter sample_filter_env ?f (Some 0) = Inr True" by code_simp
  moreover have "list_all2 opposite (conditions ?f)
      [compare_with FoString ''notContains'' (JStr ''Hello'') (JStr ''ELL''), compare_with FoNumber ''exists'' JUndef JNull]"
    by (simp add: opposite_def compare_with_def loose_filter_def)
  ultimately show ?thesis
    using filter_negation[of ?f "loose_filter ''or'' [compare_with FoString ''notContains'' (JStr ''Hello'') (JStr ''ELL''),
        compare_with FoNumber ''exists'' JUndef JNull]" sample_filter_env "Some 0"]
    by (simp add: loose_filter_def)
qed

text \<open>Dates have no such opposites: without a date on one side both answers are no.\<close>

lemma missing_date_neither:
  "executeFilterCondition sample_filter_env (compare_with FoDateTime ''equals'' JNull (JStr ''1970-01-01'')) loose first_item = Inr False"
  "executeFilterCondition sample_filter_env (compare_with FoDateTime ''notEquals'' JNull (JStr ''1970-01-01'')) loose first_item = Inr False"
  by code_simp+

text \<open>The branch for numbers falls through to that for arrays.\<close>

lemma number_falls_through:
  "executeFilterCondition sample_filter_env (compare_with FoNumber ''lengthEquals'' (JNum 3) (JNum 3)) loose first_item = Inr False"
  "executeFilterCondition sample_filter_env (compare_with FoNumber ''contains'' (JNum 3) (JNum 3)) loose first_item = Inl TypeError"
  "executeFilterCondition sample_filter_env (compare_with FoNumber ''after'' (JNum 3) (JNum 3)) loose first_item = Inl TypeError"
  by code_simp+

section \<open>Filters\<close>

definition pass :: "filter_env \<Rightarrow> FilterValue \<Rightarrow> nat option \<Rightarrow> nat \<times> FilterConditionValue \<Rightarrow> js_error + bool" where
  "pass env f itemIndex x =
     executeFilterCondition env (snd x) (filter_options f)
       \<lparr>meta_index = Some (fst x), meta_unresolved = False, meta_itemIndex = itemIndex, meta_inline = False\<rparr>"

lemma res_every_dropWhile:
  "res_every f xs = (case dropWhile (\<lambda>x. f x = Inr True) xs of [] \<Rightarrow> Inr True | x # _ \<Rightarrow> f x)"
proof (induction xs)
  case Nil
  then show ?case by simp
next
  case (Cons x xs)
  then show ?case by (cases "f x") auto
qed

lemma res_some_dropWhile:
  "res_some f xs = (case dropWhile (\<lambda>x. f x = Inr False) xs of [] \<Rightarrow> Inr False | x # _ \<Rightarrow> f x)"
proof (induction xs)
  case Nil
  then show ?case by simp
next
  case (Cons x xs)
  then show ?case by (cases "f x") auto
qed

text \<open>
  A filter is decided by its first condition that does not pass when all are asked for, by
  its first that does not fail when one is enough, and a condition behind that one cannot
  make it throw; any other combinator passes nothing.
\<close>

theorem executeFilter_correct:
  "executeFilter env f itemIndex =
     (if combinator f = ''and''
      then (case dropWhile (\<lambda>x. pass env f itemIndex x = Inr True) (enumerate 0 (conditions f)) of
              [] \<Rightarrow> Inr True | x # _ \<Rightarrow> pass env f itemIndex x)
      else if combinator f = ''or''
      then (case dropWhile (\<lambda>x. pass env f itemIndex x = Inr False) (enumerate 0 (conditions f)) of
              [] \<Rightarrow> Inr False | x # _ \<Rightarrow> pass env f itemIndex x)
      else Inr False)"
proof -
  have "(\<lambda>(index, c). executeFilterCondition env c (filter_options f)
        \<lparr>meta_index = Some index, meta_unresolved = False, meta_itemIndex = itemIndex, meta_inline = False\<rparr>) = pass env f itemIndex"
    by (auto simp: pass_def)
  then show ?thesis by (simp add: executeFilter_def Let_def res_every_dropWhile res_some_dropWhile)
qed

definition impossible_filter :: FilterValue where
  "impossible_filter =
     \<lparr>filter_options = loose, conditions = [compare_with FoNumber ''equals'' (JStr ''abc'') (JNum 1)], combinator = ''and''\<rparr>"

text \<open>
  Checking a filter parameter never finds an issue, not even in a filter that cannot be
  executed: its errors are returned where the check expects them to be thrown.
\<close>

theorem filter_issues_never_found:
  "validateFilterParameter env name f = [] \<and>
   executeFilter sample_filter_env impossible_filter None = Inl (ApplicationError
     (''Conversion error: the string '' @ quoted ''abc'' @ '' can'' @ apostrophe @
      ''t be converted to a number [condition 0, item 0]''))"
proof
  have "fold (\<lambda>(i, c) issues. issues) xs (z :: string list str_obj) = z" for xs :: "(nat \<times> FilterConditionValue) list" and z
    by (induction xs) auto
  moreover have "(case r of Inl e \<Rightarrow> z | Inr y \<Rightarrow> z) = z" for r :: "FilterError + parsed \<times> parsed" and z :: "string list str_obj"
    by (cases r) auto
  ultimately show "validateFilterParameter env name f = []"
    by (simp add: validateFilterParameter_def)
  show "executeFilter sample_filter_env impossible_filter None = Inl (ApplicationError
     (''Conversion error: the string '' @ quoted ''abc'' @ '' can'' @ apostrophe @
      ''t be converted to a number [condition 0, item 0]''))" by code_simp
qed

end
