(* ===== verification/ParameterIssues.thy ===== *)
theory ParameterIssues
  imports ParameterProperties FilterParameter WorkflowTypes
begin

text \<open>
  The issues of a node's parameters (packages/workflow/src/NodeHelpers.ts): what is missing,
  what does not have its type, and how issues are collected and shown.
\<close>

section \<open>Issues\<close>

type_synonym issue_lists = "string list str_obj"

record INodeIssues =
  issue_execution :: bool
  issue_parameters :: "issue_lists option"
  issue_credentials :: "issue_lists option"
  issue_input :: "issue_lists option"
  issue_typeUnknown :: bool

definition no_issues :: INodeIssues where
  "no_issues = \<lparr>issue_execution = False, issue_parameters = None, issue_credentials = None, issue_input = None,
     issue_typeUnknown = False\<rparr>"

definition push_issue :: "string \<Rightarrow> string \<Rightarrow> INodeIssues \<Rightarrow> INodeIssues" where
  "push_issue name text issues =
     (let listed = (case issue_parameters issues of None \<Rightarrow> [] | Some l \<Rightarrow> l);
          old = (case obj_get listed name of None \<Rightarrow> [] | Some ts \<Rightarrow> ts)
      in issues\<lparr>issue_parameters := Some (str_put name (old @ [text]) listed)\<rparr>)"

text \<open>Of the lists of issues those of parameters and credentials are merged, not those of inputs.\<close>

definition merge_lists :: "issue_lists option \<Rightarrow> issue_lists option \<Rightarrow> issue_lists option" where
  "merge_lists destination source =
     (case source of
        None \<Rightarrow> destination
      | Some src \<Rightarrow> Some (fold (\<lambda>(name, texts) listed.
            str_put name ((case obj_get listed name of None \<Rightarrow> [] | Some ts \<Rightarrow> ts) @ texts) listed)
          src (case destination of None \<Rightarrow> [] | Some l \<Rightarrow> l)))"

definition mergeIssues :: "INodeIssues \<Rightarrow> INodeIssues option \<Rightarrow> INodeIssues" where
  "mergeIssues destination source =
     (case source of
        None \<Rightarrow> destination
      | Some src \<Rightarrow> destination\<lparr>
          issue_execution := issue_execution destination \<or> issue_execution src,
          issue_parameters := merge_lists (issue_parameters destination) (issue_parameters src),
          issue_credentials := merge_lists (issue_credentials destination) (issue_credentials src),
          issue_typeUnknown := issue_typeUnknown destination \<or> issue_typeUnknown src\<rparr>)"

definition issue_texts :: "issue_lists option \<Rightarrow> string list" where
  "issue_texts listed = (case listed of None \<Rightarrow> [] | Some l \<Rightarrow> concat (map snd l))"

definition nodeIssuesToString :: "INodeIssues \<Rightarrow> INode option \<Rightarrow> string list" where
  "nodeIssuesToString issues node =
     (if issue_execution issues then [''Execution Error.''] else []) @
     issue_texts (issue_parameters issues) @ issue_texts (issue_credentials issues) @ issue_texts (issue_input issues) @
     (if issue_typeUnknown issues
      then [case node of
              None \<Rightarrow> ''Node Type is not known.''
            | Some n \<Rightarrow> ''Node Type '' @ [CHR 0x22] @ node_type n @ [CHR 0x22] @ '' is not known.'']
      else [])"

section \<open>Validation of single parameters\<close>

definition isValidResourceLocatorParameterValue :: "jval \<Rightarrow> js_error + bool" where
  "isValidResourceLocatorParameterValue v =
     (if js_typeof v = ''object''
      then res_bind (js_prop v ''value'') (\<lambda>x. Inr (js_typeof x = ''number'' \<or> truthy x))
      else Inr (truthy v))"

definition is_missing :: "INodeProperties \<Rightarrow> jval \<Rightarrow> js_error + bool" where
  "is_missing p v =
     (let type = prop_type p
      in if (type = Some TyString \<and> (v = JStr [] \<or> v = JUndef)) \<or> (type = Some TyMultiOptions \<and> v = JArr []) \<or>
            (type = Some TyDateTime \<and> v = JUndef) \<or> (type = Some TyOptions \<and> (v = JStr [] \<or> v = JUndef)) then Inr True
         else if type = Some TyResourceLocator \<or> type = Some TyWorkflowSelector
         then negated (isValidResourceLocatorParameterValue v)
         else Inr False)"

definition addToIssuesIfMissing :: "INodeProperties \<Rightarrow> jval \<Rightarrow> INodeIssues \<Rightarrow> js_error + INodeIssues" where
  "addToIssuesIfMissing p v issues =
     res_bind (is_missing p v) (\<lambda>missing. Inr (if missing
       then push_issue (prop_name p) (''Parameter '' @ [CHR 0x22] @ prop_displayName p @ [CHR 0x22] @ '' is required.'') issues
       else issues))"

text \<open>\<open>value?.toString()\<close>, and whether it starts as an expression.\<close>

definition value_text :: "jval \<Rightarrow> string option" where
  "value_text v = (if v = JUndef \<or> v = JNull then None else Some (js_string v))"

definition starts_expression :: "jval \<Rightarrow> bool" where
  "starts_expression v = (case value_text v of None \<Rightarrow> False | Some s \<Rightarrow> starts_with s ''='')"

definition validateResourceLocatorParameter ::
    "library \<Rightarrow> jval \<Rightarrow> (string \<times> string) option list option \<Rightarrow> js_error + string list" where
  "validateResourceLocatorParameter lib v validations =
     res_bind (js_prop v ''value'') (\<lambda>x.
       let text = (case value_text x of None \<Rightarrow> [] | Some s \<Rightarrow> s)
       in if starts_with text ''='' then Inr []
          else case validations of
              None \<Rightarrow> Inr []
            | Some vs \<Rightarrow> res_fold (\<lambda>rule errors.
                case rule of
                  None \<Rightarrow> Inr errors
                | Some (regex, message) \<Rightarrow>
                    res_bind (lib_regex lib (''^'' @ regex @ ''$'') text) (\<lambda>ok. Inr (if ok then errors else errors @ [message])))
              vs [])"

definition upper_first :: "string \<Rightarrow> string" where
  "upper_first s =
     (case s of [] \<Rightarrow> [] | c # cs \<Rightarrow>
        (let n = of_char c :: nat in if (97 \<le> n \<and> n \<le> 122) \<or> (224 \<le> n \<and> n \<le> 254 \<and> n \<noteq> 247) then char_of (n - 32) # cs else s))"

definition option_values :: "jval \<Rightarrow> js_error + jval list" where
  "option_values v =
     (if v = JUndef \<or> v = JNull then Inr []
      else case v of JArr os \<Rightarrow> res_fold (\<lambda>x acc. res_bind (js_prop x ''value'') (\<lambda>y. Inr (acc @ [y]))) os []
         | _ \<Rightarrow> Inl TypeError)"

text \<open>One field of a resource mapper; its issues are listed under a key of its own.\<close>

definition mapper_field ::
    "parsers \<Rightarrow> INodeProperties \<Rightarrow> jval \<Rightarrow> bool \<Rightarrow> jval \<Rightarrow> issue_lists \<Rightarrow> js_error + issue_lists" where
  "mapper_field env p fieldValues skipRequiredCheck field issues =
     res_bind (js_prop field ''id'') (\<lambda>fid. res_bind (js_prop field ''required'') (\<lambda>required.
     res_bind (js_prop field ''type'') (\<lambda>type. res_bind (js_prop field ''options'') (\<lambda>opts.
     res_bind (if truthy fieldValues then js_prop fieldValues (js_string fid) else Inr JNull) (\<lambda>fieldValue.
     let word = upper_first (case x_fieldWord (prop_extra p) of Some (c # w) \<Rightarrow> c # w | _ \<Rightarrow> ''Field'');
         e1 = (if truthy required \<and> \<not> skipRequiredCheck \<and> (fieldValues = JNull \<or> fieldValue = JUndef)
               then [word @ '' '' @ [CHR 0x22] @ js_string fid @ [CHR 0x22] @ '' is required''] else [])
     in res_bind (if \<not> starts_expression fieldValue \<and> truthy type
                  then (if fieldValue = JNull \<or> fieldValue = JUndef then Inr (Valid None)
                        else res_bind (option_values opts) (\<lambda>vs. Inr (validateFieldType env (js_string fid) fieldValue
                               (js_string type) (no_options\<lparr>vo_values := vs\<rparr>))))
                  else Inr (Valid None)) (\<lambda>r.
          let errors = e1 @ (case r of Valid _ \<Rightarrow> [] | Invalid m \<Rightarrow> (if m = [] then [] else [m]))
          in Inr (if errors \<noteq> [] then str_put (prop_name p @ ''.'' @ js_string fid) errors issues else issues)))))))"

definition validateResourceMapperParameter ::
    "parsers \<Rightarrow> INodeProperties \<Rightarrow> jval \<Rightarrow> bool \<Rightarrow> js_error + issue_lists" where
  "validateResourceMapperParameter env p v skipRequiredCheck =
     res_bind (js_prop v ''mappingMode'') (\<lambda>mode.
       if mode = JStr ''autoMapInputData'' then Inr []
       else res_bind (js_prop v ''schema'') (\<lambda>schema. res_bind (js_prop v ''value'') (\<lambda>fieldValues.
         case schema of
           JArr fs \<Rightarrow> res_fold (mapper_field env p fieldValues skipRequiredCheck) fs []
         | _ \<Rightarrow> Inl TypeError)))"

definition validateParameter :: "parsers \<Rightarrow> INodeProperties \<Rightarrow> jval \<Rightarrow> string \<Rightarrow> string option" where
  "validateParameter env p v type =
     (let values = (if type = ''options'' then (case prop_options p of None \<Rightarrow> [] | Some os \<Rightarrow> map (x_value \<circ> prop_extra) os) else [])
      in if starts_expression v then None
         else case validateFieldType env (prop_name p) v type (no_options\<lparr>vo_values := values\<rparr>) of
             Valid _ \<Rightarrow> None
           | Invalid m \<Rightarrow> (if m = [] then None else Some m))"

section \<open>The issues of one parameter\<close>

definition getParameterValueByPath :: "library \<Rightarrow> jval \<Rightarrow> string \<Rightarrow> string \<Rightarrow> jval" where
  "getParameterValueByPath lib nodeValues parameterName path =
     lib_get lib nodeValues (if path \<noteq> [] then path @ ''.'' @ parameterName else parameterName)"

definition has_props :: "string list \<Rightarrow> jval \<Rightarrow> bool" where
  "has_props ks v = (case v of JObj ob \<Rightarrow> list_all (obj_has ob) ks | _ \<Rightarrow> False)"

definition required_issues :: "library \<Rightarrow> INodeProperties \<Rightarrow> jval \<Rightarrow> INodeIssues \<Rightarrow> js_error + INodeIssues" where
  "required_issues lib p v issues =
     (if prop_multiple p \<noteq> None
      then (case v of JArr vs \<Rightarrow> res_fold (addToIssuesIfMissing p) vs issues | _ \<Rightarrow> Inr issues)
      else addToIssuesIfMissing p v issues)"

definition locator_issues :: "library \<Rightarrow> INodeProperties \<Rightarrow> jval \<Rightarrow> INodeIssues \<Rightarrow> js_error + INodeIssues" where
  "locator_issues lib p v issues =
     (if \<not> has_props [''value'', ''mode''] v then Inr issues
      else res_bind (js_prop v ''mode'') (\<lambda>mode.
        case (case x_modes (prop_extra p) of None \<Rightarrow> None | Some ms \<Rightarrow> find (\<lambda>m. JStr (fst m) = mode) ms) of
          None \<Rightarrow> Inr issues
        | Some m \<Rightarrow> res_bind (validateResourceLocatorParameter lib v (snd m)) (\<lambda>errors.
            Inr (fold (push_issue (prop_name p)) errors issues))))"

definition mapper_issues :: "parsers \<Rightarrow> INodeProperties \<Rightarrow> jval \<Rightarrow> INodeIssues \<Rightarrow> js_error + INodeIssues" where
  "mapper_issues env p v issues =
     (if \<not> has_props [''mappingMode'', ''schema'', ''value''] v then Inr issues
      else res_bind (validateResourceMapperParameter env p v (x_mapperMode (prop_extra p) \<noteq> Some ''add'')) (\<lambda>found.
        if found = [] then Inr issues
        else (let listed = (case issue_parameters issues of None \<Rightarrow> [] | Some l \<Rightarrow> l);
                  lists1 = (if obj_get listed (prop_name p) = None then str_put (prop_name p) [] listed else listed)
              in Inr (issues\<lparr>issue_parameters := Some (fold (\<lambda>(k, ts). str_put k ts) found lists1)\<rparr>))))"

text \<open>
  A filter whose conditions are an array is checked too, but the check finds nothing (see
  \<open>validateFilterParameter\<close> in FilterParameter).
\<close>

definition filter_issues :: "jval \<Rightarrow> INodeIssues \<Rightarrow> js_error + INodeIssues" where
  "filter_issues v issues =
     (if \<not> has_props [''conditions'', ''combinator''] v then Inr issues
      else res_bind (js_prop v ''conditions'') (\<lambda>cs.
        case cs of JArr _ \<Rightarrow> Inr issues | _ \<Rightarrow> Inl TypeError))"

lemma filter_issues_keeps:
  assumes "filter_issues v issues = Inr issues'"
  shows "issues' = issues"
proof (cases "has_props [''conditions'', ''combinator''] v")
  case True
  with assms obtain cs where "(case cs of JArr _ \<Rightarrow> Inr issues | _ \<Rightarrow> Inl TypeError) = Inr issues'"
    by (auto simp: filter_issues_def elim!: res_bindE)
  then show ?thesis by (cases cs) simp_all
qed (use assms in \<open>simp add: filter_issues_def\<close>)

definition own_issues ::
    "library \<Rightarrow> parsers \<Rightarrow> INodeProperties \<Rightarrow> jval \<Rightarrow> string \<Rightarrow> number option \<Rightarrow> js_error + INodeIssues" where
  "own_issues lib env p nodeValues path version =
     res_bind (displayParameterPath lib nodeValues p path version) (\<lambda>isDisplayed.
     let v = getParameterValueByPath lib nodeValues (prop_name p) path
     in res_bind (if prop_required p \<and> isDisplayed then required_issues lib p v no_issues else Inr no_issues) (\<lambda>issues.
          if (prop_type p = Some TyResourceLocator \<or> prop_type p = Some TyWorkflowSelector) \<and> isDisplayed
          then locator_issues lib p v issues
          else if prop_type p = Some TyResourceMapper \<and> isDisplayed then mapper_issues env p v issues
          else if prop_type p = Some TyFilter \<and> isDisplayed then filter_issues v issues
          else case x_validateType (prop_extra p) of
              None \<Rightarrow> Inr issues
            | Some type \<Rightarrow> Inr (case validateParameter env p v type of
                  None \<Rightarrow> issues | Some error \<Rightarrow> push_issue (prop_name p) error issues)))"

section \<open>The children\<close>

text \<open>
  Where the parameters below are looked for: those of a collection beside it and not in it,
  those of a fixed collection in its options.
\<close>

definition option_children ::
    "library \<Rightarrow> INodeProperties \<Rightarrow> jval \<Rightarrow> string \<Rightarrow> INodeProperties \<Rightarrow> (string \<times> INodeProperties) list \<Rightarrow>
     js_error + (string \<times> INodeProperties) list" where
  "option_children lib p nodeValues basePath opt children =
     (let v = getParameterValueByPath lib nodeValues (prop_name opt) (butlast basePath);
          path = basePath @ prop_name opt
      in if v = JUndef then Inr children
         else if prop_multiple p \<noteq> None
         then (case v of
             JArr vs \<Rightarrow>
               (if vs = [] then Inr children
                else case prop_values opt of
                    None \<Rightarrow> Inl TypeError
                  | Some os \<Rightarrow> Inr (children @ concat (map (\<lambda>i. map (Pair (path @ ''['' @ nat_string i @ '']'')) os) [0..<length vs])))
           | _ \<Rightarrow> Inr children)
         else case prop_values opt of None \<Rightarrow> Inl TypeError | Some os \<Rightarrow> Inr (children @ map (Pair path) os))"

definition child_checks ::
    "library \<Rightarrow> INodeProperties \<Rightarrow> jval \<Rightarrow> string \<Rightarrow> js_error + (string \<times> INodeProperties) list" where
  "child_checks lib p nodeValues path =
     (let basePath = (if path \<noteq> [] then path @ ''.'' else [])
      in case prop_options p of
          None \<Rightarrow> Inr []
        | Some os \<Rightarrow>
            (if prop_type p = Some TyCollection then Inr (map (Pair basePath) os)
             else if prop_type p = Some TyFixedCollection
             then res_fold (option_children lib p nodeValues (if basePath \<noteq> [] then basePath @ ''.'' else prop_name p @ ''.''))
                    os []
             else Inr []))"

lemma option_children_mem:
  assumes "option_children lib p nv base opt cs = Inr cs'" and "(b, d) \<in> set cs'"
  shows "(b, d) \<in> set cs \<or> (\<exists>ds. prop_values opt = Some ds \<and> d \<in> set ds)"
  using assms by (auto simp: option_children_def Let_def split: if_splits jval.splits option.splits)

lemma child_checks_mem:
  assumes "child_checks lib p nv path = Inr cs" and "(b, d) \<in> set cs"
  shows "\<exists>ds \<in> child_arrays p. d \<in> set ds"
proof (cases "prop_options p")
  case None
  with assms show ?thesis by (simp add: child_checks_def)
next
  case (Some os)
  have fold: "\<forall>(b, d) \<in> set cs. (b, d) \<in> set cs0 \<or> (\<exists>opt \<in> set qs. \<exists>ds. prop_values opt = Some ds \<and> d \<in> set ds)"
    if "res_fold (option_children lib p nv base) qs cs0 = Inr cs" for base qs cs0
    using that
  proof (induction qs arbitrary: cs0)
    case Nil
    then show ?case by auto
  next
    case (Cons q qs)
    then obtain cs1 where "option_children lib p nv base q cs0 = Inr cs1" "res_fold (option_children lib p nv base) qs cs1 = Inr cs"
      by (auto simp: res_bind_Inr)
    with Cons.IH[OF this(2)] option_children_mem[OF this(1)] show ?case by fastforce
  qed
  from assms Some show ?thesis
    by (auto simp: child_checks_def child_arrays_def Let_def split: if_splits dest!: fold)
qed

lemma child_checks_size:
  assumes "child_checks lib p nv path = Inr cs" and "(b, d) \<in> set cs"
  shows "size d < size p"
proof -
  from child_checks_mem[OF assms] obtain ds where ds: "ds \<in> child_arrays p" "d \<in> set ds" by blast
  then have "size d \<le> size_list size ds" using size_list_estimation'[of d ds "size d" size] by simp
  with child_size[OF ds(1)] show ?thesis by linarith
qed

function getParameterIssues ::
    "library \<Rightarrow> parsers \<Rightarrow> INodeProperties \<Rightarrow> jval \<Rightarrow> string \<Rightarrow> number option \<Rightarrow> js_error + INodeIssues" where
  "getParameterIssues lib env p nodeValues path version =
     res_bind (own_issues lib env p nodeValues path version) (\<lambda>issues.
     res_bind (child_checks lib p nodeValues path) (\<lambda>children.
       res_fold (\<lambda>x acc. res_bind (getParameterIssues lib env (snd x) nodeValues (fst x) version) (\<lambda>found.
           Inr (mergeIssues acc (Some found)))) children issues))"
  by pat_completeness auto
termination
  by (relation "measure (\<lambda>(lib, env, p, nv, path, ver). size p)") (auto dest: child_checks_size)

declare getParameterIssues.simps [simp del]

text \<open>To evaluate it: it is unfolded only for a property that is known.\<close>

lemma getParameterIssues_code [code]:
  "getParameterIssues lib env (INodeProperties n d t m df di rq os vs x) nodeValues path version =
     (let p = INodeProperties n d t m df di rq os vs x
      in res_bind (own_issues lib env p nodeValues path version) (\<lambda>issues.
         res_bind (child_checks lib p nodeValues path) (\<lambda>children.
           res_fold (\<lambda>y acc. res_bind (getParameterIssues lib env (snd y) nodeValues (fst y) version) (\<lambda>found.
               Inr (mergeIssues acc (Some found)))) children issues)))"
  by (simp only: getParameterIssues.simps[of lib env "INodeProperties n d t m df di rq os vs x"] Let_def)


section \<open>Merging\<close>

definition texts_of :: "issue_lists option \<Rightarrow> string \<Rightarrow> string list" where
  "texts_of listed name = (case listed of None \<Rightarrow> [] | Some l \<Rightarrow> (case obj_get l name of None \<Rightarrow> [] | Some ts \<Rightarrow> ts))"

definition merge_entry :: "string \<times> string list \<Rightarrow> issue_lists \<Rightarrow> issue_lists" where
  "merge_entry = (\<lambda>(name, texts) listed.
     str_put name ((case obj_get listed name of None \<Rightarrow> [] | Some ts \<Rightarrow> ts) @ texts) listed)"

lemma texts_of_None [simp]: "texts_of None name = []"
  by (simp add: texts_of_def)

lemma texts_of_merge_entry:
  "texts_of (Some (merge_entry e l)) name = texts_of (Some l) name @ (if name = fst e then snd e else [])"
  by (cases e) (simp add: texts_of_def merge_entry_def)

lemma texts_of_merge_entries:
  assumes "distinct (map fst es)"
  shows "texts_of (Some (fold merge_entry es l)) name = texts_of (Some l) name @ texts_of (Some es) name"
  using assms
proof (induction es arbitrary: l)
  case Nil
  then show ?case by (simp add: texts_of_def)
next
  case (Cons e es)
  then have "map_of es (fst e) = None" by (simp add: map_of_eq_None_iff)
  then have "texts_of (Some es) (fst e) = []" by (simp add: texts_of_def obj_get_def)
  moreover have "texts_of (Some (e # es)) name = (if name = fst e then snd e else texts_of (Some es) name)"
    by (cases e) (simp add: texts_of_def)
  ultimately show ?case using Cons by (simp add: texts_of_merge_entry)
qed

lemma merge_lists_Some: "merge_lists d (Some src) = Some (fold merge_entry src (case d of None \<Rightarrow> [] | Some l \<Rightarrow> l))"
  by (simp add: merge_lists_def merge_entry_def)


lemma texts_of_merge_lists:
  assumes "\<forall>l. src = Some l \<longrightarrow> obj_wf str_before l"
  shows "texts_of (merge_lists d src) name = texts_of d name @ texts_of src name"
proof (cases src)
  case None
  then show ?thesis by (simp add: merge_lists_def)
next
  case (Some l)
  with assms have "distinct (map fst l)" by (simp add: obj_wf_def obj_keys_def)
  then show ?thesis by (simp add: Some merge_lists_Some texts_of_merge_entries) (simp add: texts_of_def split: option.splits)
qed

text \<open>
  Merging loses no issue of a parameter or of a credential: under every name the texts of
  the source come behind those of the destination.  The issues of the source's inputs are not
  merged at all.
\<close>

theorem mergeIssues_correct:
  assumes "\<forall>l. issue_parameters source = Some l \<or> issue_credentials source = Some l \<longrightarrow> obj_wf str_before l"
  shows "texts_of (issue_parameters (mergeIssues destination (Some source))) name =
      texts_of (issue_parameters destination) name @ texts_of (issue_parameters source) name \<and>
    texts_of (issue_credentials (mergeIssues destination (Some source))) name =
      texts_of (issue_credentials destination) name @ texts_of (issue_credentials source) name \<and>
    issue_input (mergeIssues destination (Some source)) = issue_input destination \<and>
    (issue_execution (mergeIssues destination (Some source)) \<longleftrightarrow> issue_execution destination \<or> issue_execution source) \<and>
    (issue_typeUnknown (mergeIssues destination (Some source)) \<longleftrightarrow> issue_typeUnknown destination \<or> issue_typeUnknown source)"
  using assms by (simp add: mergeIssues_def texts_of_merge_lists)

theorem mergeIssues_correct_witness:
  "texts_of (issue_parameters (mergeIssues (push_issue ''p'' ''one'' no_issues) (Some (push_issue ''p'' ''two'' no_issues)))) ''p'' =
     [''one'', ''two'']"
proof -
  have "\<forall>l. issue_parameters (push_issue ''p'' ''two'' no_issues) = Some l \<or>
      issue_credentials (push_issue ''p'' ''two'' no_issues) = Some l \<longrightarrow> obj_wf str_before l"
    by (simp add: push_issue_def no_issues_def obj_wf_def obj_keys_def)
  from mergeIssues_correct[OF this, of "push_issue ''p'' ''one'' no_issues" "''p''"] show ?thesis
    by (simp add: push_issue_def no_issues_def texts_of_def)
qed

section \<open>Only issues of parameters are found\<close>

definition only_parameters :: "INodeIssues \<Rightarrow> bool" where
  "only_parameters i \<longleftrightarrow> i = no_issues\<lparr>issue_parameters := issue_parameters i\<rparr>"


lemma only_parameters_push [simp]: "only_parameters i \<Longrightarrow> only_parameters (push_issue name text i)"
  by (cases i) (simp add: only_parameters_def push_issue_def no_issues_def Let_def)













section \<open>Required parameters\<close>

lemma merge_keeps:
  "t \<in> set (texts_of (issue_parameters d) name) \<Longrightarrow> t \<in> set (texts_of (issue_parameters (mergeIssues d (Some s))) name)"
proof -
  have "t \<in> set (texts_of (Some l) name) \<Longrightarrow> t \<in> set (texts_of (Some (fold merge_entry es l)) name)" for es l
    by (induction es arbitrary: l) (auto simp: texts_of_merge_entry)
  then show "t \<in> set (texts_of (issue_parameters d) name) \<Longrightarrow>
      t \<in> set (texts_of (issue_parameters (mergeIssues d (Some s))) name)"
    by (cases "issue_parameters s"; cases "issue_parameters d") (simp_all add: mergeIssues_def merge_lists_Some, simp add: merge_lists_def)
qed

lemma texts_of_push:
  "texts_of (issue_parameters (push_issue n t i)) name = texts_of (issue_parameters i) name @ (if name = n then [t] else [])"
  by (auto simp: push_issue_def texts_of_def Let_def split: option.splits)

lemma pushes_keep:
  "t \<in> set (texts_of (issue_parameters i) name) \<Longrightarrow> t \<in> set (texts_of (issue_parameters (fold (push_issue n) ts i)) name)"
  by (induction ts arbitrary: i) (auto simp: texts_of_push)

lemma pushed_first: "t \<in> set (texts_of (issue_parameters (fold (push_issue n) ts (push_issue n t i))) n)"
  by (rule pushes_keep) (simp add: texts_of_push)

definition required_text :: "INodeProperties \<Rightarrow> string" where
  "required_text p = ''Parameter '' @ [CHR 0x22] @ prop_displayName p @ [CHR 0x22] @ '' is required.''"

lemma own_required:
  assumes "prop_required p" and "prop_multiple p = None" and "displayParameterPath lib nv p path ver = Inr True"
    and "is_missing p (getParameterValueByPath lib nv (prop_name p) path) = Inr True"
    and "own_issues lib env p nv path ver = Inr i"
  shows "required_text p \<in> set (texts_of (issue_parameters i) (prop_name p))"
proof -
  let ?v = "getParameterValueByPath lib nv (prop_name p) path"
  let ?i = "push_issue (prop_name p) (required_text p) no_issues"
  have t: "required_text p \<in> set (texts_of (issue_parameters ?i) (prop_name p))" by (simp add: texts_of_push)
  have r: "required_issues lib p ?v no_issues = Inr ?i"
    using assms(2,4) by (simp add: required_issues_def addToIssuesIfMissing_def required_text_def)
  have "prop_type p \<noteq> Some TyResourceMapper" using assms(4) by (auto simp: is_missing_def Let_def)
  with assms(1,3,5) r have "(if prop_type p = Some TyResourceLocator \<or> prop_type p = Some TyWorkflowSelector
        then locator_issues lib p ?v ?i
        else if prop_type p = Some TyFilter then filter_issues ?v ?i
        else case x_validateType (prop_extra p) of
            None \<Rightarrow> Inr ?i
          | Some type \<Rightarrow> Inr (case validateParameter env p ?v type of
                None \<Rightarrow> ?i | Some error \<Rightarrow> push_issue (prop_name p) error ?i)) = Inr i"
    by (auto simp: own_issues_def Let_def split: if_splits)
  with t show ?thesis
    by (auto simp: locator_issues_def res_bind_Inr texts_of_push pushed_first dest: filter_issues_keeps split: if_splits option.splits)
qed

text \<open>
  A required parameter that is displayed and has no value is reported under its name,
  whatever its children add.
\<close>

theorem required_parameter_reported:
  assumes "prop_required p" and "prop_multiple p = None" and "displayParameterPath lib nv p path ver = Inr True"
    and "is_missing p (getParameterValueByPath lib nv (prop_name p) path) = Inr True"
    and "getParameterIssues lib env p nv path ver = Inr issues"
  shows "required_text p \<in> set (texts_of (issue_parameters issues) (prop_name p))"
proof -
  from assms(5) obtain own cs where o: "own_issues lib env p nv path ver = Inr own"
    "res_fold (\<lambda>x acc. res_bind (getParameterIssues lib env (snd x) nv (fst x) ver) (\<lambda>found.
           Inr (mergeIssues acc (Some found)))) cs own = Inr issues"
    by (auto simp: getParameterIssues.simps[of lib env p] res_bind_Inr)
  show ?thesis
    by (rule res_fold_invariant[where I = "\<lambda>i. required_text p \<in> set (texts_of (issue_parameters i) (prop_name p))",
          OF _ own_required[OF assms(1-4) o(1)] o(2)]) (auto simp: res_bind_Inr merge_keeps)
qed

definition required_child :: INodeProperties where
  "required_child = INodeProperties ''x'' ''X'' (Some TyString) None (JStr []) None True None None no_extra"

theorem required_parameter_reported_witness:
  "\<exists>issues. getParameterIssues sample_library sample_parsers required_child (JObj []) [] None = Inr issues \<and>
     required_text required_child \<in> set (texts_of (issue_parameters issues) ''x'')"
proof -
  let ?i = "push_issue ''x'' (required_text required_child) no_issues"
  have "getParameterIssues sample_library sample_parsers required_child (JObj []) [] None = Inr ?i" by code_simp
  moreover have "displayParameterPath sample_library (JObj []) required_child [] None = Inr True" by code_simp
  moreover have "is_missing required_child (getParameterValueByPath sample_library (JObj []) (prop_name required_child) []) = Inr True"
    by code_simp
  moreover have "prop_required required_child" "prop_multiple required_child = None" "prop_name required_child = ''x''"
    by (simp_all add: required_child_def)
  ultimately show ?thesis using required_parameter_reported by metis
qed

text \<open>
  The children of a collection are looked for beside it: a required one is missing although the
  collection has it, and present if another parameter has its name.
\<close>

definition required_collection :: INodeProperties where
  "required_collection =
     INodeProperties ''c'' ''C'' (Some TyCollection) None (JObj []) None False (Some [required_child]) None no_extra"

text \<open>
  The required parameters of a collection are looked for beside the collection and not in
  it: one that the collection has is reported as missing, one that it does not have is not
  reported when the node has another parameter of that name.
\<close>

theorem collection_child_beside:
  "getParameterIssues sample_library sample_parsers required_collection (JObj [(''c'', JObj [(''x'', JStr ''set'')])]) [] None =
     Inr (push_issue ''x'' (required_text required_child) no_issues) \<and>
   getParameterIssues sample_library sample_parsers required_collection
     (JObj [(''c'', JObj [(''x'', JStr [])]), (''x'', JStr ''other'')]) [] None = Inr no_issues"
  by (rule conjI; code_simp)

text \<open>A parameter that is not displayed is validated nevertheless when it has a type to validate.\<close>

definition hidden_number :: INodeProperties where
  "hidden_number = INodeProperties ''n'' ''N'' (Some TyString) None (JStr []) (Some (shown_by ''a'' (JBool True))) False None None
     (no_extra\<lparr>x_validateType := Some ''number''\<rparr>)"

lemma hidden_parameter_validated:
  "displayParameterPath sample_library (JObj [(''n'', JStr ''x'')]) hidden_number [] None = Inr False \<and>
   getParameterIssues sample_library sample_parsers hidden_number (JObj [(''n'', JStr ''x'')]) [] None \<noteq> Inr no_issues"
  by (rule conjI; code_simp)

section \<open>No parameter has an issue\<close>



end
