(* ===== verification/NodeData.thy ===== *)
theory NodeData
  imports WorkflowNodes HighestNode
begin

text \<open>
  How an expression reads the data of another node (packages/workflow/src/WorkflowDataProxy.ts):
  the items of a run, and the item from which the current one was made, which is found by
  following the links that nodes leave in their items.
\<close>

section \<open>The proxy\<close>

text \<open>Where an item is: in an output of a recorded run, or among the pinned data of a node.\<close>

datatype item_place = RunItem string nat nat nat | PinItem string nat

text \<open>
  \<open>px_same\<close> says whether the same object is in two places, which the code compares by identity.
\<close>

record proxy =
  px_workflow :: Workflow
  px_runs :: "IRunData option"
  px_mode :: WorkflowExecuteMode
  px_active :: string
  px_context :: string
  px_input :: items
  px_itemIndex :: nat
  px_source :: "ITaskDataConnectionsSource option"
  px_defaultRun :: int
  px_same :: "item_place \<Rightarrow> item_place \<Rightarrow> bool"

text \<open>
  An error of an expression is known by its type and the node it names as the cause; the texts
  are not modelled.
\<close>

datatype proxy_error = ExpressionError string "string option" | OtherError js_error

definition getPinDataIfManualExecution :: "Workflow \<Rightarrow> string \<Rightarrow> WorkflowExecuteMode \<Rightarrow> items option" where
  "getPinDataIfManualExecution w nodeName mode = (if mode \<noteq> ModeManual then None else getPinDataOfNode w nodeName)"

definition pinned_of :: "proxy \<Rightarrow> string \<Rightarrow> items option" where
  "pinned_of px nodeName = getPinDataIfManualExecution (px_workflow px) nodeName (px_mode px)"

definition runs_of_node :: "proxy \<Rightarrow> string \<Rightarrow> ITaskData list option" where
  "runs_of_node px nodeName = (case px_runs px of None \<Rightarrow> None | Some rd \<Rightarrow> obj_get rd nodeName)"

definition task_at :: "proxy \<Rightarrow> string \<Rightarrow> nat \<Rightarrow> ITaskData option" where
  "task_at px nodeName runIndex = (case runs_of_node px nodeName of None \<Rightarrow> None | Some runs \<Rightarrow> list_get runs runIndex)"

definition task_main :: "ITaskData \<Rightarrow> items slot list option" where
  "task_main t = (case task_data t of None \<Rightarrow> None | Some c \<Rightarrow> obj_get c MainConn)"

section \<open>Following the links of an item\<close>

text \<open>
  The link of an item: its index, missing when the link is an array, its input and a source that
  replaces the recorded one.
\<close>

datatype origin = Origin (or_item: "nat option") (or_input: nat) (or_overwrite: "ISourceData option")

definition or_zero :: "nat option \<Rightarrow> nat" where
  "or_zero n = (case n of None \<Rightarrow> 0 | Some k \<Rightarrow> k)"

definition one_origin :: "IPairedItemData \<Rightarrow> origin" where
  "one_origin d = Origin (Some (pi_item d)) (or_zero (pi_input d)) (pi_sourceOverwrite d)"

fun origin_of :: "PairedItem \<Rightarrow> origin" where
  "origin_of (PairedNumber n) = Origin (Some n) 0 None"
| "origin_of (PairedOne d) = one_origin d"
| "origin_of (PairedMany ds) = Origin None 0 None"

definition overwrite_source :: "ISourceData slot \<Rightarrow> origin \<Rightarrow> ISourceData slot" where
  "overwrite_source sourceData o1 = (case or_overwrite o1 of None \<Rightarrow> sourceData | Some s \<Rightarrow> Val s)"

definition src_run :: "ISourceData \<Rightarrow> nat" where
  "src_run s = or_zero (previousNodeRun s)"

definition src_output :: "ISourceData \<Rightarrow> nat" where
  "src_output s = or_zero (previousNodeOutput s)"

definition src_task :: "proxy \<Rightarrow> ISourceData \<Rightarrow> ITaskData option" where
  "src_task px s = task_at px (previousNode s) (src_run s)"

definition no_such_output :: "proxy \<Rightarrow> ISourceData \<Rightarrow> bool" where
  "no_such_output px s =
     (case src_task px s of None \<Rightarrow> False
      | Some t \<Rightarrow> (case task_main t of None \<Rightarrow> False | Some m \<Rightarrow> length m \<le> src_output s))"

text \<open>The items of the output; data that is missing is taken from the pinned data.\<close>

definition previousNodeOutputData :: "proxy \<Rightarrow> ISourceData \<Rightarrow> items" where
  "previousNodeOutputData px s =
     (let recorded = (case src_task px s of None \<Rightarrow> Undefined
                      | Some t \<Rightarrow> (case task_main t of None \<Rightarrow> Undefined | Some m \<Rightarrow> arr_get m (src_output s)))
      in case recorded of
          Val xs \<Rightarrow> xs
        | _ \<Rightarrow> (case pinned_of px (previousNode s) of None \<Rightarrow> [] | Some xs \<Rightarrow> xs))"

definition task_sources :: "proxy \<Rightarrow> ISourceData \<Rightarrow> ISourceData slot list" where
  "task_sources px s = (case src_task px s of None \<Rightarrow> [] | Some t \<Rightarrow> task_source t)"

datatype link_next = One "ISourceData slot" origin | Many "IPairedItemData list" "ISourceData slot list"

text \<open>One round of the loop, up to the choice between one link and several.\<close>

definition link_step ::
    "proxy \<Rightarrow> string \<Rightarrow> ISourceData \<Rightarrow> origin \<Rightarrow> string option \<Rightarrow> proxy_error + link_next" where
  "link_step px dest s o1 nodeBeforeLast =
     (if no_such_output px s then Inl (ExpressionError ''internal'' nodeBeforeLast)
      else case or_item o1 of
          None \<Rightarrow> Inl (OtherError TypeError)
        | Some i \<Rightarrow>
            (let xs = previousNodeOutputData px s; source = task_sources px s
             in if length xs \<le> i then Inl (ExpressionError ''paired_item_invalid_info'' (Some (previousNode s)))
                else case pairedItem (xs ! i) of
                    None \<Rightarrow> Inl (ExpressionError ''paired_item_no_info'' (Some (previousNode s)))
                  | Some (PairedMany ds) \<Rightarrow> Inr (Many ds source)
                  | Some p \<Rightarrow>
                      (let o2 = origin_of p
                       in if length source \<le> or_input o2
                          then (if source = [] then Inl (ExpressionError ''paired_item_no_connection'' (Some dest))
                                else Inl (ExpressionError ''paired_item_invalid_info'' nodeBeforeLast))
                          else Inr (One (case source ! or_input o2 of Val t \<Rightarrow> Val t | _ \<Rightarrow> Null) o2))))"

text \<open>At the node that is looked for: the item of its output, undefined for a link that is an array.\<close>

definition final_item :: "proxy \<Rightarrow> ISourceData \<Rightarrow> origin \<Rightarrow> proxy_error + item_place option" where
  "final_item px s o1 =
     (let found = (case src_task px s of
                     Some t \<Rightarrow> (case task_main t of None \<Rightarrow> None
                       | Some m \<Rightarrow> Some (m, RunItem (previousNode s) (src_run s) (src_output s)))
                   | None \<Rightarrow> (case pinned_of px (previousNode s) of None \<Rightarrow> None
                       | Some xs \<Rightarrow> Some ([Val xs], PinItem (previousNode s))))
      in case (px_runs px, found) of
          (Some rd, Some (m, place)) \<Rightarrow>
            (if length m \<le> src_output s then Inl (ExpressionError ''paired_item_invalid_info'' (Some (previousNode s)))
             else case m ! src_output s of
                 Val xs \<Rightarrow>
                   (case or_item o1 of
                      None \<Rightarrow> Inr None
                    | Some i \<Rightarrow> (if length xs \<le> i
                        then Inl (ExpressionError ''paired_item_invalid_info'' (Some (previousNode s)))
                        else Inr (Some (place i))))
               | _ \<Rightarrow> Inl (OtherError TypeError))
        | _ \<Rightarrow> Inl (OtherError TypeError))"

text \<open>
  Of several links those that lead nowhere are dropped; the others have to lead to the same
  item.  If none is left, that is undefined.
\<close>

definition same_result :: "proxy \<Rightarrow> item_place option \<Rightarrow> item_place option \<Rightarrow> bool" where
  "same_result px a b = (case (a, b) of (None, None) \<Rightarrow> True | (Some p, Some q) \<Rightarrow> px_same px p q | _ \<Rightarrow> False)"

definition agreed_result :: "proxy \<Rightarrow> string \<Rightarrow> item_place option list \<Rightarrow> proxy_error + item_place option" where
  "agreed_result px dest results =
     (case results of
        [] \<Rightarrow> Inr None
      | [r] \<Rightarrow> Inr r
      | r # rs \<Rightarrow> (if list_all (\<lambda>x. same_result px x r) results then Inr r
                  else Inl (ExpressionError ''paired_item_multiple_matches'' (Some dest))))"

definition found_items :: "(proxy_error + item_place option) option list \<Rightarrow> item_place option list" where
  "found_items rs = concat (map (\<lambda>r. case r of Some (Inr x) \<Rightarrow> [x] | _ \<Rightarrow> []) rs)"

text \<open>
  The loop and the recursion, with fuel: recorded runs that name each other as their source would
  never end.
\<close>

fun getPairedItem ::
    "proxy \<Rightarrow> nat \<Rightarrow> string \<Rightarrow> ISourceData slot \<Rightarrow> origin \<Rightarrow> string option \<Rightarrow>
     (proxy_error + item_place option) option" where
  "getPairedItem px 0 dest sourceData o1 nodeBeforeLast = None"
| "getPairedItem px (Suc fuel) dest sourceData o1 nodeBeforeLast =
     (case overwrite_source sourceData o1 of
        Undefined \<Rightarrow> Some (Inl (OtherError TypeError))
      | Null \<Rightarrow> Some (Inl (ExpressionError ''paired_item_no_info'' nodeBeforeLast))
      | Val s \<Rightarrow>
          (if previousNode s = dest then Some (final_item px s o1)
           else case link_step px dest s o1 nodeBeforeLast of
               Inl e \<Rightarrow> Some (Inl e)
             | Inr (One sd o2) \<Rightarrow> getPairedItem px fuel dest sd o2 (Some (previousNode s))
             | Inr (Many ds source) \<Rightarrow>
                 (let rs = map (\<lambda>d.
                        if length source \<le> or_zero (pi_input d) then Some (Inl (OtherError (ApplicationError ''Not found'')))
                        else getPairedItem px fuel dest (source ! or_zero (pi_input d)) (one_origin d) None) ds
                  in if None \<in> set rs then None else Some (agreed_result px dest (found_items rs)))))"

section \<open>The data of a node\<close>

text \<open>
  \<open>getNodeExecutionData\<close> for a node that is named: its items in an output of a run, null if the
  output has none.
\<close>

definition run_index :: "proxy \<Rightarrow> int option \<Rightarrow> ITaskData list \<Rightarrow> int" where
  "run_index px runIndex runs =
     (let r = (case runIndex of None \<Rightarrow> px_defaultRun px | Some k \<Rightarrow> k)
      in if r = -1 then int (length runs) - 1 else r)"

definition is_known :: "proxy \<Rightarrow> string \<Rightarrow> bool" where
  "is_known px nodeName \<longleftrightarrow> runs_of_node px nodeName \<noteq> None \<or> pinned_of px nodeName \<noteq> None"

definition branch_items :: "proxy \<Rightarrow> string \<Rightarrow> nat option \<Rightarrow> items slot list \<Rightarrow> proxy_error + items slot" where
  "branch_items px nodeName outputIndex m =
     res_bind (case outputIndex of
         Some k \<Rightarrow> Inr k
       | None \<Rightarrow> (case getNodeConnectionIndexes (px_workflow px) (px_context px) nodeName MainConn (-1) of
             None \<Rightarrow> Inl (ExpressionError [] None) | Some c \<Rightarrow> Inr (sourceIndex c))) (\<lambda>k.
       if length m \<le> k then Inl (ExpressionError [] None) else Inr (m ! k))"

definition getNodeExecutionData :: "proxy \<Rightarrow> string \<Rightarrow> nat option \<Rightarrow> int option \<Rightarrow> proxy_error + items slot" where
  "getNodeExecutionData px nodeName outputIndex runIndex =
     (if px_runs px = None then Inl (ExpressionError [] None)
      else if getNode (px_workflow px) nodeName = None then Inl (ExpressionError [] (Some nodeName))
      else if \<not> is_known px nodeName then Inl (ExpressionError ''no_node_execution_data'' (Some nodeName))
      else case runs_of_node px nodeName of
          None \<Rightarrow> Inl (OtherError TypeError)
        | Some runs \<Rightarrow>
            (let r = run_index px runIndex runs
             in if int (length runs) \<le> r then Inl (ExpressionError [] None)
                else if r < 0 then Inl (OtherError TypeError)
                else case task_data (runs ! nat r) of
                    None \<Rightarrow> Inl (OtherError TypeError)
                  | Some c \<Rightarrow> (case obj_get c MainConn of
                        None \<Rightarrow> Inl (ExpressionError [] None)
                      | Some m \<Rightarrow> (if m = [] \<or> m ! 0 = Null then Inl (ExpressionError [] None)
                          else branch_items px nodeName outputIndex m))))"

definition getNodeExecutionOrPinnedData ::
    "proxy \<Rightarrow> string \<Rightarrow> nat option \<Rightarrow> int option \<Rightarrow> proxy_error + items slot" where
  "getNodeExecutionOrPinnedData px nodeName branchIndex runIndex =
     (case getNodeExecutionData px nodeName branchIndex runIndex of
        Inr xs \<Rightarrow> Inr xs
      | Inl e \<Rightarrow> (case pinned_of px nodeName of Some xs \<Rightarrow> Inr (Val xs) | None \<Rightarrow> Inl e))"

text \<open>\<open>$(nodeName)\<close>: the node has to exist, and for its data to be known.\<close>

definition referenced :: "proxy \<Rightarrow> string \<Rightarrow> proxy_error + INode" where
  "referenced px nodeName =
     (if nodeName = [] then Inl (ExpressionError [] None)
      else case getNode (px_workflow px) nodeName of
          None \<Rightarrow> Inl (ExpressionError [] (Some nodeName)) | Some n \<Rightarrow> Inr n)"

definition ensureNodeExecutionData :: "proxy \<Rightarrow> string \<Rightarrow> proxy_error + unit" where
  "ensureNodeExecutionData px nodeName =
     (if is_known px nodeName then Inr () else Inl (ExpressionError ''no_node_execution_data'' (Some nodeName)))"

definition default_branch :: "proxy \<Rightarrow> string \<Rightarrow> nat option \<Rightarrow> nat" where
  "default_branch px nodeName branchIndex =
     (case branchIndex of
        Some b \<Rightarrow> b
      | None \<Rightarrow> (case getNodeConnectionIndexes (px_workflow px) (px_active px) nodeName MainConn (-1) of
            None \<Rightarrow> 0 | Some c \<Rightarrow> sourceIndex c))"

definition dollar_all :: "proxy \<Rightarrow> string \<Rightarrow> nat option \<Rightarrow> int option \<Rightarrow> proxy_error + items slot" where
  "dollar_all px nodeName branchIndex runIndex =
     res_bind (referenced px nodeName) (\<lambda>_. res_bind (ensureNodeExecutionData px nodeName) (\<lambda>_.
       getNodeExecutionOrPinnedData px nodeName (Some (default_branch px nodeName branchIndex)) runIndex))"

definition dollar_first ::
    "proxy \<Rightarrow> string \<Rightarrow> nat option \<Rightarrow> int option \<Rightarrow> proxy_error + INodeExecutionData option" where
  "dollar_first px nodeName branchIndex runIndex =
     res_bind (dollar_all px nodeName branchIndex runIndex) (\<lambda>d.
       case d of Val xs \<Rightarrow> Inr (list_get xs 0) | _ \<Rightarrow> Inl (OtherError TypeError))"

definition dollar_last ::
    "proxy \<Rightarrow> string \<Rightarrow> nat option \<Rightarrow> int option \<Rightarrow> proxy_error + INodeExecutionData option" where
  "dollar_last px nodeName branchIndex runIndex =
     res_bind (dollar_all px nodeName branchIndex runIndex) (\<lambda>d.
       case d of Val xs \<Rightarrow> Inr (if xs = [] then None else Some (last xs)) | _ \<Rightarrow> Inl (OtherError TypeError))"

text \<open>
  \<open>$(nodeName).item\<close>: the input item, its link, the source it came from, and from there the item
  of the node.  \<open>contextNode\<close> is the name that \<open>getParentMainInputNode\<close> gives, or the context's.
\<close>

definition input_source :: "proxy \<Rightarrow> origin \<Rightarrow> proxy_error + ISourceData slot" where
  "input_source px o1 =
     (case px_source px of
        None \<Rightarrow> Inl (ExpressionError [] None)
      | Some src \<Rightarrow> (case obj_get src MainConn of
            None \<Rightarrow> Inl (OtherError TypeError)
          | Some m \<Rightarrow> Inr (case arr_get m (or_input o1) of Val s \<Rightarrow> Val s | _ \<Rightarrow> arr_get m 0)))"

definition pairedItemMethod ::
    "proxy \<Rightarrow> nat \<Rightarrow> string \<Rightarrow> nat \<Rightarrow> (proxy_error + INodeExecutionData option + item_place option) option" where
  "pairedItemMethod px fuel nodeName itemIndex =
     (case (if px_input px = [] then pinned_of px nodeName else None) of
        Some xs \<Rightarrow> Some (Inr (Inl (list_get xs itemIndex)))
      | None \<Rightarrow>
          (case list_get (px_input px) itemIndex of
             None \<Rightarrow> Some (Inl (ExpressionError ''paired_item_intermediate_nodes'' None))
           | Some input \<Rightarrow>
               (case pairedItem input of
                  None \<Rightarrow> Some (Inl (ExpressionError ''paired_item_no_info'' (Some (px_active px))))
                | Some p \<Rightarrow>
                    (case input_source px (origin_of p) of
                       Inl e \<Rightarrow> Some (Inl e)
                     | Inr sd \<Rightarrow> (case getPairedItem px fuel nodeName sd (origin_of p) None of
                           None \<Rightarrow> None
                         | Some (Inl e) \<Rightarrow> Some (Inl e)
                         | Some (Inr r) \<Rightarrow> Some (Inr (Inr r)))))))"

definition dollar_item ::
    "proxy \<Rightarrow> nat \<Rightarrow> string \<Rightarrow> string \<Rightarrow> nat option \<Rightarrow>
     (proxy_error + INodeExecutionData option + item_place option) option" where
  "dollar_item px fuel contextNode nodeName itemIndex =
     (case res_bind (referenced px nodeName) (\<lambda>_.
         if nodeName \<notin> set (getParentNodes (px_workflow px) contextNode (SelType MainConn) (-1))
         then Inl (ExpressionError ''paired_item_no_connection'' (Some nodeName))
         else ensureNodeExecutionData px nodeName) of
        Inl e \<Rightarrow> Some (Inl e)
      | Inr _ \<Rightarrow> pairedItemMethod px fuel nodeName (case itemIndex of None \<Rightarrow> px_itemIndex px | Some i \<Rightarrow> i))"

end
