(* ===== verification/NodeDataProperties.thy ===== *)
theory NodeDataProperties
  imports NodeData
begin

text \<open>
  What following the links of an item gives: an item of the node that was asked for, from
  which the item at hand was made; and that it ends on data in which runs come after the runs
  they were made from.
\<close>

section \<open>Where an item comes from\<close>

text \<open>The item with index \<open>i\<close> of the output that a source names, and the links it has.\<close>

definition stored :: "proxy \<Rightarrow> ISourceData \<Rightarrow> nat \<Rightarrow> INodeExecutionData option" where
  "stored px s i = (if no_such_output px s then None else list_get (previousNodeOutputData px s) i)"

definition links :: "INodeExecutionData \<Rightarrow> origin list" where
  "links item =
     (case pairedItem item of None \<Rightarrow> [] | Some (PairedMany ds) \<Rightarrow> map one_origin ds | Some p \<Rightarrow> [origin_of p])"





lemma origin_input_link:
  assumes "pairedItem item = Some p" and "\<nexists>ds. p = PairedMany ds"
  shows "links item = [origin_of p]" and "\<exists>i. or_item (origin_of p) = Some i"
  using assms by (cases p; simp add: links_def one_origin_def)+

lemma link_stepD:
  assumes "link_step px dest s o1 b = Inr r"
  shows "\<exists>i item. or_item o1 = Some i \<and> stored px s i = Some item \<and>
    (case r of
       Many ds source \<Rightarrow> pairedItem item = Some (PairedMany ds) \<and> source = task_sources px s
     | One sd o2 \<Rightarrow> links item = [o2] \<and> or_input o2 < length (task_sources px s) \<and> (\<exists>j. or_item o2 = Some j) \<and>
         sd = (case task_sources px s ! or_input o2 of Val t \<Rightarrow> Val t | _ \<Rightarrow> Null))"
proof -
  from assms obtain i where i: "or_item o1 = Some i" "\<not> no_such_output px s" "i < length (previousNodeOutputData px s)"
    by (auto simp: link_step_def Let_def split: if_splits option.splits)
  let ?item = "previousNodeOutputData px s ! i"
  from i have st: "stored px s i = Some ?item" by (simp add: stored_def list_get_def)
  from assms i obtain p where p: "pairedItem ?item = Some p" by (auto simp: link_step_def Let_def split: option.splits)
  show ?thesis
  proof (cases "\<exists>ds. p = PairedMany ds")
    case True
    with assms i p have "r = Many (THE ds. p = PairedMany ds) (task_sources px s)"
      by (auto simp: link_step_def Let_def)
    with True p i(1) st show ?thesis by (auto intro!: exI[of _ i] exI[of _ ?item])
  next
    case False
    with assms i p have "or_input (origin_of p) < length (task_sources px s)"
      and r: "r = One (case task_sources px s ! or_input (origin_of p) of Val t \<Rightarrow> Val t | _ \<Rightarrow> Null) (origin_of p)"
      by (auto simp: link_step_def Let_def split: PairedItem.splits if_splits)
    with origin_input_link[OF p False] i(1) st show ?thesis by (auto intro!: exI[of _ i] exI[of _ ?item])
  qed
qed

lemma enter_null: "overwrite_source (case sd of Val t \<Rightarrow> Val t | _ \<Rightarrow> Null) o1 = Val t \<longleftrightarrow> overwrite_source sd o1 = Val t"
  by (cases sd) (auto simp: overwrite_source_def split: option.splits)





section \<open>It ends\<close>

text \<open>
  Recorded runs are ranked when each has a rank above those of its sources, and above those of
  the sources that the links of its items name.
\<close>

definition ranked :: "proxy \<Rightarrow> (string \<Rightarrow> nat \<Rightarrow> nat) \<Rightarrow> bool" where
  "ranked px rank \<longleftrightarrow>
     (\<forall>s. (\<forall>t. Val t \<in> set (task_sources px s) \<longrightarrow> rank (previousNode t) (src_run t) < rank (previousNode s) (src_run s)) \<and>
        (\<forall>item \<in> set (previousNodeOutputData px s). \<forall>o1 \<in> set (links item). \<forall>t.
           or_overwrite o1 = Some t \<longrightarrow> rank (previousNode t) (src_run t) < rank (previousNode s) (src_run s)))"

lemma ranked_enter:
  assumes "ranked px rank" and "stored px s i = Some item" and "o1 \<in> set (links item)"
    and "or_input o1 < length (task_sources px s)" and "overwrite_source (task_sources px s ! or_input o1) o1 = Val t"
  shows "rank (previousNode t) (src_run t) < rank (previousNode s) (src_run s)"
proof (cases "or_overwrite o1")
  case None
  with assms(4,5) have "Val t \<in> set (task_sources px s)" by (metis overwrite_source_def nth_mem option.simps(4))
  with assms(1) show ?thesis by (simp add: ranked_def)
next
  case (Some u)
  with assms(5) have "u = t" by (simp add: overwrite_source_def)
  moreover have "item \<in> set (previousNodeOutputData px s)"
    using assms(2) by (auto simp: stored_def list_get_Some split: if_splits)
  ultimately show ?thesis using assms(1,3) Some by (auto simp: ranked_def)
qed

text \<open>
  Following the links ends when every run was recorded after the runs it was made from: the
  rank of the run that the search starts from bounds its rounds and the depth of its recursion.
\<close>

theorem getPairedItem_ends:
  assumes "ranked px rank" and "\<And>s. overwrite_source sourceData o1 = Val s \<Longrightarrow> rank (previousNode s) (src_run s) + 1 < fuel" and "0 < fuel"
  shows "\<exists>r. getPairedItem px fuel dest sourceData o1 b = Some r"
  using assms(2,3)
proof (induction fuel arbitrary: sourceData o1 b)
  case 0
  then show ?case by simp
next
  case (Suc fuel)
  show ?case
  proof (cases "overwrite_source sourceData o1")
    case (Val s)
    show ?thesis
    proof (cases "previousNode s = dest \<or> isl (link_step px dest s o1 b)")
      case True
      with Val show ?thesis by (auto split: sum.splits)
    next
      case False
      then obtain r where r: "link_step px dest s o1 b = Inr r" by (auto dest: not_isl_Inr)
      from link_stepD[OF r] obtain i item where oi: "or_item o1 = Some i"
        and i: "stored px s i = Some item" by blast
      from Suc.prems(1)[OF Val] have rank: "rank (previousNode s) (src_run s) < fuel" by simp
      have rec: "\<exists>x. getPairedItem px fuel dest sd o2 b2 = Some x"
        if "o2 \<in> set (links item)" "or_input o2 < length (task_sources px s)"
          and "\<And>t. overwrite_source sd o2 = Val t \<Longrightarrow> overwrite_source (task_sources px s ! or_input o2) o2 = Val t" for sd o2 b2
        using ranked_enter[OF assms(1) i that(1,2)] that(3) rank by (intro Suc.IH) fastforce+
      show ?thesis
      proof (cases r)
        case (One sd o2)
        have "\<exists>x. getPairedItem px fuel dest sd o2 (Some (previousNode s)) = Some x"
          by (rule rec) (use link_stepD[OF r] One i oi in \<open>auto simp: enter_null\<close>)
        with Val False r One show ?thesis by simp
      next
        case (Many ds source)
        have "\<exists>x. getPairedItem px fuel dest (source ! or_zero (pi_input d)) (one_origin d) None = Some x"
          if "d \<in> set ds" "or_zero (pi_input d) < length source" for d
          by (rule rec) (use link_stepD[OF r] Many i oi that in \<open>auto simp: one_origin_def links_def\<close>)
        then have "None \<notin> set (map (\<lambda>d.
            if length source \<le> or_zero (pi_input d) then Some (Inl (OtherError (ApplicationError ''Not found'')))
            else getPairedItem px fuel dest (source ! or_zero (pi_input d)) (one_origin d) None) ds)" by force
        with Val False r Many show ?thesis by (auto simp: Let_def)
      qed
    qed
  qed simp_all
qed

section \<open>It finds the item\<close>




section \<open>A run of three nodes\<close>

text \<open>
  The items of A were made by no node, B swaps them, and C combines both items of B into one.
\<close>

definition linked_item :: "string \<Rightarrow> PairedItem option \<Rightarrow> INodeExecutionData" where
  "linked_item name l = empty_item\<lparr>json := [(''name'', JStr name)], pairedItem := l\<rparr>"

definition mk_task :: "items \<Rightarrow> ISourceData slot list \<Rightarrow> ITaskData" where
  "mk_task xs source =
     \<lparr>startTime = 0, executionTime = 0, executionStatus = Some Success, task_data = Some [(MainConn, [Val xs])],
      task_error = None, hints = [], task_source = source, task_metadata = None\<rparr>"

definition from_node :: "string \<Rightarrow> ISourceData" where
  "from_node n = \<lparr>previousNode = n, previousNodeOutput = None, previousNodeRun = None\<rparr>"

definition one_link :: "nat \<Rightarrow> IPairedItemData" where
  "one_link n = \<lparr>pi_item = n, pi_input = None, pi_sourceOverwrite = None\<rparr>"

definition three_runs :: IRunData where
  "three_runs =
     [(''A'', [mk_task [linked_item ''a0'' (Some (PairedNumber 0)), linked_item ''a1'' (Some (PairedNumber 0))] []]),
      (''B'', [mk_task [linked_item ''b0'' (Some (PairedNumber 1)), linked_item ''b1'' (Some (PairedNumber 0))]
                 [Val (from_node ''A'')]]),
      (''C'', [mk_task [linked_item ''c0'' (Some (PairedMany [one_link 0, one_link 1]))] [Val (from_node ''B'')]])]"

definition empty_workflow :: Workflow where
  "empty_workflow = \<lparr>wf_id = [], wf_name = None, nodes = [], connectionsBySourceNode = [],
     connectionsByDestinationNode = [], wf_active = False, executionOrder = None, wf_pinData = None,
     staticData = [], testStaticData = None\<rparr>"

definition three_proxy :: proxy where
  "three_proxy = \<lparr>px_workflow = empty_workflow, px_runs = Some three_runs, px_mode = ModeTrigger, px_active = ''D'',
     px_context = ''D'', px_input = [], px_itemIndex = 0, px_source = None, px_defaultRun = -1, px_same = (=)\<rparr>"


lemma three_runs_of:
  "runs_of_node three_proxy n = (if n = ''A'' \<or> n = ''B'' \<or> n = ''C'' then obj_get three_runs n else None)"
  by (simp add: runs_of_node_def three_proxy_def three_runs_def)

lemma three_sources:
  "task_sources three_proxy s =
     (if src_run s = 0 then (if previousNode s = ''B'' then [Val (from_node ''A'')]
        else if previousNode s = ''C'' then [Val (from_node ''B'')] else []) else [])"
  by (simp add: task_sources_def src_task_def task_at_def three_runs_of three_runs_def list_get_def mk_task_def)

lemma three_items:
  assumes "item \<in> set (previousNodeOutputData three_proxy s)" and "o1 \<in> set (links item)"
  shows "or_overwrite o1 = None"
proof -
  have "pinned_of three_proxy n = None" for n
    by (simp add: pinned_of_def getPinDataIfManualExecution_def three_proxy_def)
  with assms(1) have "pairedItem item \<in> {Some (PairedNumber 0), Some (PairedNumber 1), Some (PairedMany [one_link 0, one_link 1])}"
    by (auto simp: previousNodeOutputData_def src_task_def task_at_def three_runs_of three_runs_def list_get_def mk_task_def
        task_main_def arr_get_def linked_item_def split: if_splits)
  with assms(2) show ?thesis by (auto simp: links_def one_origin_def one_link_def)
qed

definition three_rank :: "string \<Rightarrow> nat \<Rightarrow> nat" where
  "three_rank n r = (if n = ''B'' then 1 else if n = ''C'' then 2 else 0)"

theorem getPairedItem_ends_witness:
  "ranked three_proxy three_rank \<and> (\<exists>r. getPairedItem three_proxy 4 ''X'' (Val (from_node ''C'')) (Origin (Some 0) 0 None) None = Some r)"
proof -
  have r: "ranked three_proxy three_rank"
    by (auto simp: ranked_def three_sources three_rank_def from_node_def dest: three_items split: if_splits)
  have "three_rank (previousNode s) (src_run s) + 1 < 4" for s by (simp add: three_rank_def)
  from getPairedItem_ends[OF r this] r show ?thesis by simp
qed



text \<open>
  Several links that lead to different items are an error; several none of which leads anywhere
  are none, they give undefined.
\<close>

lemma different_links:
  "getPairedItem three_proxy 5 ''A'' (Val (from_node ''C'')) (Origin (Some 0) 0 None) None =
     Some (Inl (ExpressionError ''paired_item_multiple_matches'' (Some ''A'')))"
  by code_simp

text \<open>
  An item that was made from several items, none of which has an item of the node that is
  asked for, gives undefined where one that was made from a single such item gives an error.
\<close>

theorem unresolved_links_undefined:
  "getPairedItem three_proxy 5 ''X'' (Val (from_node ''C'')) (Origin (Some 0) 0 None) None = Some (Inr None) \<and>
   getPairedItem three_proxy 5 ''X'' (Val (from_node ''B'')) (Origin (Some 0) 0 None) None =
     Some (Inl (ExpressionError ''paired_item_no_connection'' (Some ''X'')))"
  by (rule conjI; code_simp)

end
