(* ===== verification/WebhookPaths.thy ===== *)
theory WebhookPaths
  imports WorkflowNodes JsValues
begin

text \<open>
  The webhooks that a node registers (packages/workflow/src/NodeHelpers.ts and
  packages/cli/src/webhooks/webhook-helpers.ts) and the lemmas on paths and their segments.
\<close>

section \<open>Paths\<close>

abbreviation slash :: char where
  "slash \<equiv> CHR 0x2F"

abbreviation colon :: char where
  "colon \<equiv> CHR 0x3A"

definition segments :: "string \<Rightarrow> string list" where
  "segments path = split_at_char slash path"

definition join_path :: "string list \<Rightarrow> string" where
  "join_path ss = join_with [slash] ss"

definition is_variable :: "string \<Rightarrow> bool" where
  "is_variable s = starts_with s [colon]"

definition without_slashes :: "string \<Rightarrow> string" where
  "without_slashes path =
     (let p = (if starts_with path [slash] then tl path else path)
      in if ends_with p [slash] then butlast p else p)"

definition removeTrailingSlash :: "string \<Rightarrow> string" where
  "removeTrailingSlash path = (if ends_with path [slash] then butlast path else path)"

text \<open>\<open>encodeURIComponent\<close>, for characters up to 255, whose UTF-8 has one or two bytes.\<close>

definition upper_hex :: "nat \<Rightarrow> char" where
  "upper_hex n = char_of (if n < 10 then n + 48 else n + 55)"

definition percent :: "nat \<Rightarrow> string" where
  "percent n = [CHR 0x25, upper_hex (n div 16), upper_hex (n mod 16)]"

definition uri_unreserved :: "char \<Rightarrow> bool" where
  "uri_unreserved c \<longleftrightarrow>
     (let n = of_char c :: nat
      in (48 \<le> n \<and> n \<le> 57) \<or> (65 \<le> n \<and> n \<le> 90) \<or> (97 \<le> n \<and> n \<le> 122) \<or> n \<in> {33, 39, 40, 41, 42, 45, 46, 95, 126})"

definition encode_char :: "char \<Rightarrow> string" where
  "encode_char c =
     (let n = of_char c :: nat
      in if uri_unreserved c then [c] else if n < 128 then percent n
         else percent (192 + n div 64) @ percent (128 + n mod 64))"

definition encodeURIComponent :: "string \<Rightarrow> string" where
  "encodeURIComponent s = concat (map encode_char s)"

definition getNodeWebhookPath :: "string \<Rightarrow> INode \<Rightarrow> string \<Rightarrow> bool \<Rightarrow> bool \<Rightarrow> string" where
  "getNodeWebhookPath workflowId node path isFullPath restartWebhook =
     (if restartWebhook then path
      else case webhookId node of
          None \<Rightarrow> workflowId @ [slash] @ encodeURIComponent (lower (node_name node)) @ [slash] @ path
        | Some i \<Rightarrow> (if isFullPath then path else i @ [slash] @ path))"

definition has_variable :: "string \<Rightarrow> bool" where
  "has_variable path \<longleftrightarrow> starts_with path [colon] \<or> has_substring path [slash, colon]"

definition truthy_id :: "string option \<Rightarrow> bool" where
  "truthy_id i \<longleftrightarrow> i \<noteq> None \<and> i \<noteq> Some []"

definition getNodeWebhookUrl :: "string \<Rightarrow> string \<Rightarrow> INode \<Rightarrow> string \<Rightarrow> bool \<Rightarrow> string" where
  "getNodeWebhookUrl baseUrl workflowId node path isFullPath =
     (let full = (if has_variable path \<and> truthy_id (webhookId node) then False else isFullPath);
          p = (if starts_with path [slash] then tl path else path)
      in baseUrl @ [slash] @ getNodeWebhookPath workflowId node p full False)"

section \<open>The webhooks of a node\<close>

text \<open>What a node type says of a webhook; the fields may be expressions.\<close>

record IWebhookDescription =
  wd_name :: string
  wd_httpMethod :: jval
  wd_path :: jval
  wd_isFullPath :: jval
  wd_restartWebhook :: jval

record IWebhookData =
  hook_httpMethod :: string
  hook_node :: string
  hook_path :: string
  hook_description :: IWebhookDescription
  hook_workflowId :: string
  hook_webhookId :: "string option"
  hook_isTest :: bool
  hook_userId :: "string option"
  hook_staticData :: "IDataObject str_obj option"

text \<open>
  \<open>evaluate\<close> resolves a parameter value of a node; the descriptions of a node type are an argument
  like the registry of types.
\<close>

definition getSimpleParameterValue :: "(INode \<Rightarrow> jval \<Rightarrow> js_error + jval) \<Rightarrow> INode \<Rightarrow> jval \<Rightarrow> jval \<Rightarrow> js_error + jval" where
  "getSimpleParameterValue evaluate node parameterValue defaultValue =
     (if parameterValue = JUndef then Inr defaultValue else evaluate node parameterValue)"

definition to_string :: "jval \<Rightarrow> js_error + string" where
  "to_string v = (if v = JNull \<or> v = JUndef then Inl TypeError else Inr (js_string v))"

definition description_webhooks ::
    "(INode \<Rightarrow> jval \<Rightarrow> js_error + jval) \<Rightarrow> string \<Rightarrow> INode \<Rightarrow> bool \<Rightarrow> IWebhookDescription \<Rightarrow> IWebhookData list \<Rightarrow>
     js_error + IWebhookData list" where
  "description_webhooks evaluate workflowId node ignoreRestartWebhooks d found =
     (if ignoreRestartWebhooks \<and> wd_restartWebhook d = JBool True then Inr found
      else res_bind (getSimpleParameterValue evaluate node (wd_path d) JUndef) (\<lambda>p.
        if p = JUndef then Inr found
        else res_bind (to_string p) (\<lambda>s.
          res_bind (getSimpleParameterValue evaluate node (wd_isFullPath d) (JBool False)) (\<lambda>isFullPath.
          res_bind (getSimpleParameterValue evaluate node (wd_restartWebhook d) (JBool False)) (\<lambda>restartWebhook.
          let path = getNodeWebhookPath workflowId node (without_slashes s) (isFullPath = JBool True)
                       (restartWebhook = JBool True)
          in res_bind (getSimpleParameterValue evaluate node (wd_httpMethod d) (JStr ''GET'')) (\<lambda>webhookMethods.
               if webhookMethods = JUndef then Inr found
               else let i = (if has_variable path \<and> truthy_id (webhookId node) then webhookId node else None)
                    in Inr (found @ map (\<lambda>httpMethod.
                         \<lparr>hook_httpMethod = str_trim httpMethod, hook_node = node_name node, hook_path = path,
                          hook_description = d, hook_workflowId = workflowId, hook_webhookId = i,
                          hook_isTest = False, hook_userId = None, hook_staticData = None\<rparr>)
                         (filter (\<lambda>m. m \<noteq> []) (split_at_char (CHR '','') (js_string webhookMethods))))))))))"

definition getNodeWebhooks ::
    "(INode \<Rightarrow> jval \<Rightarrow> js_error + jval) \<Rightarrow> (string \<Rightarrow> number \<Rightarrow> IWebhookDescription list option option) \<Rightarrow> Workflow \<Rightarrow> INode \<Rightarrow>
     bool \<Rightarrow> js_error + IWebhookData list" where
  "getNodeWebhooks evaluate types w node ignoreRestartWebhooks =
     (if disabled node = Some True then Inr []
      else case types (node_type node) (typeVersion node) of
          None \<Rightarrow> Inl TypeError
        | Some None \<Rightarrow> Inr []
        | Some (Some ds) \<Rightarrow>
            res_fold (description_webhooks evaluate (if wf_id w = [] then ''__UNSAVED__'' else wf_id w) node
              ignoreRestartWebhooks) ds [])"

definition getWorkflowWebhooks ::
    "(INode \<Rightarrow> jval \<Rightarrow> js_error + jval) \<Rightarrow> (string \<Rightarrow> number \<Rightarrow> IWebhookDescription list option option) \<Rightarrow> Workflow \<Rightarrow>
     string option \<Rightarrow> bool \<Rightarrow> js_error + IWebhookData list" where
  "getWorkflowWebhooks evaluate types w destination ignoreRestartWebhooks =
     (let wanted = (case destination of
            None \<Rightarrow> nodes w
          | Some n \<Rightarrow> (let ps = getParentNodes w n (SelType MainConn) (-1) @ [n]
                      in filter (\<lambda>x. node_name (snd x) \<in> set ps) (nodes w)))
      in res_fold (\<lambda>node found. res_bind (getNodeWebhooks evaluate types w node ignoreRestartWebhooks) (\<lambda>hs. Inr (found @ hs)))
           (map snd wanted) [])"

section \<open>Segments\<close>

lemma segments_join:
  assumes "ss \<noteq> []" and "\<forall>s \<in> set ss. slash \<notin> set s"
  shows "segments (join_path ss) = ss"
  using assms
proof (induction ss rule: induct_list012)
  case (3 s t ss)
  then show ?case by (simp add: segments_def join_path_def split_append)
qed (simp_all add: segments_def join_path_def split_plain)

lemma join_segments: "join_path (segments s) = s"
proof (induction s)
  case (Cons c s)
  obtain q qs where q: "split_at_char slash s = q # qs" using split_at_char_simps(3) by (cases "split_at_char slash s") auto
  with Cons show ?case by (cases qs) (auto simp: segments_def join_path_def split_at_char_simps(2))
qed (simp add: segments_def join_path_def split_at_char_simps(1))

lemma segments_no_slash: "s \<in> set (segments p) \<Longrightarrow> slash \<notin> set s"
  unfolding segments_def by (rule split_no_char)

lemma segments_Cons: "slash \<notin> set s \<Longrightarrow> segments (s @ slash # p) = s # segments p"
  by (simp add: segments_def split_append)

end
