(* ===== verification/WebhookService.thy ===== *)
theory WebhookService
  imports WebhookPaths
begin

text \<open>
  Production webhooks (packages/cli/src/webhooks/webhook.service.ts and live-webhooks.ts,
  databases/entities/webhook-entity.ts, active-workflow-manager.ts): the table of webhooks, the
  cache in front of it, how a workflow registers its webhooks and how a request finds one.
  Storing in the cache is modelled as done at once; an entry may expire at any time.
\<close>

section \<open>The table and the cache\<close>

record WebhookEntity =
  we_workflowId :: string
  we_webhookPath :: string
  we_method :: string
  we_node :: string
  we_webhookId :: "string option"
  we_pathLength :: "nat option"

definition uniquePath :: "WebhookEntity \<Rightarrow> string" where
  "uniquePath w =
     (if has_substring (we_webhookPath w) [colon]
      then join_path [case we_webhookId w of None \<Rightarrow> [] | Some i \<Rightarrow> i, we_webhookPath w]
      else we_webhookPath w)"

definition key_of :: "string \<Rightarrow> string \<Rightarrow> string" where
  "key_of m path = ''webhook:'' @ m @ ''-'' @ path"

definition cacheKey :: "WebhookEntity \<Rightarrow> string" where
  "cacheKey w = key_of (we_method w) (uniquePath w)"

definition staticSegments :: "WebhookEntity \<Rightarrow> string list" where
  "staticSegments w = filter (\<lambda>s. \<not> is_variable s) (segments (we_webhookPath w))"

definition isDynamic :: "WebhookEntity \<Rightarrow> bool" where
  "isDynamic w = list_ex is_variable (segments (we_webhookPath w))"

record WebhookStore =
  ws_table :: "WebhookEntity list"
  ws_cache :: "WebhookEntity str_obj"

definition empty_store :: WebhookStore where
  "empty_store = \<lparr>ws_table = [], ws_cache = []\<rparr>"

definition populateCache :: "WebhookStore \<Rightarrow> WebhookStore" where
  "populateCache s = s\<lparr>ws_cache := fold (\<lambda>w. str_put (cacheKey w) w) (ws_table s) (ws_cache s)\<rparr>"

definition findStaticWebhook :: "WebhookEntity list \<Rightarrow> string \<Rightarrow> string \<Rightarrow> WebhookEntity option" where
  "findStaticWebhook table m path = find (\<lambda>w. we_webhookPath w = path \<and> we_method w = m) table"

text \<open>The reduction over the candidates: the one kept so far and its number of static segments.\<close>

definition better_match ::
    "string list \<Rightarrow> WebhookEntity \<Rightarrow> WebhookEntity option \<times> nat \<Rightarrow> WebhookEntity option \<times> nat" where
  "better_match requestSegments dw acc =
     (let n = length (staticSegments dw)
      in if list_all (\<lambda>s. s \<in> set requestSegments) (staticSegments dw) \<and> snd acc < n then (Some dw, n)
         else if n = 0 \<and> fst acc = None then (Some dw, snd acc)
         else acc)"

definition candidates_of :: "WebhookEntity list \<Rightarrow> string \<Rightarrow> string \<Rightarrow> WebhookEntity list" where
  "candidates_of table m path =
     filter (\<lambda>w. we_webhookId w = Some (hd (segments path)) \<and> we_method w = m \<and>
                 we_pathLength w = Some (length (tl (segments path)))) table"

definition findDynamicWebhook :: "WebhookEntity list \<Rightarrow> string \<Rightarrow> string \<Rightarrow> WebhookEntity option" where
  "findDynamicWebhook table m path =
     fst (fold (better_match (tl (segments path))) (candidates_of table m path) (None, 0))"

definition lookup_table :: "WebhookEntity list \<Rightarrow> string \<Rightarrow> string \<Rightarrow> WebhookEntity option" where
  "lookup_table table m path =
     (case findStaticWebhook table m path of None \<Rightarrow> findDynamicWebhook table m path | Some w \<Rightarrow> Some w)"

definition findWebhook :: "string \<Rightarrow> string \<Rightarrow> WebhookStore \<Rightarrow> WebhookEntity option \<times> WebhookStore" where
  "findWebhook m path s =
     (case obj_get (ws_cache s) (key_of m path) of
        Some w \<Rightarrow> (Some w, s)
      | None \<Rightarrow>
          (case lookup_table (ws_table s) m path of
             None \<Rightarrow> (None, s)
           | Some w \<Rightarrow> (Some w, s\<lparr>ws_cache := str_put (key_of m path) w (ws_cache s)\<rparr>)))"

text \<open>The row with the same method and path is replaced.\<close>

fun upsert :: "WebhookEntity \<Rightarrow> WebhookEntity list \<Rightarrow> WebhookEntity list" where
  "upsert w [] = [w]"
| "upsert w (v # vs) =
     (if we_method v = we_method w \<and> we_webhookPath v = we_webhookPath w then w # vs else v # upsert w vs)"

definition storeWebhook :: "WebhookEntity \<Rightarrow> WebhookStore \<Rightarrow> WebhookStore" where
  "storeWebhook w s = s\<lparr>ws_cache := str_put (cacheKey w) w (ws_cache s), ws_table := upsert w (ws_table s)\<rparr>"

definition deleteWebhooks :: "WebhookEntity list \<Rightarrow> WebhookStore \<Rightarrow> WebhookStore" where
  "deleteWebhooks ws s =
     s\<lparr>ws_cache := fold obj_del (map cacheKey ws) (ws_cache s), ws_table := filter (\<lambda>w. w \<notin> set ws) (ws_table s)\<rparr>"

definition deleteWorkflowWebhooks :: "string \<Rightarrow> WebhookStore \<Rightarrow> WebhookStore" where
  "deleteWorkflowWebhooks workflowId s = deleteWebhooks (filter (\<lambda>w. we_workflowId w = workflowId) (ws_table s)) s"

definition getWebhookMethods :: "string \<Rightarrow> WebhookStore \<Rightarrow> string list" where
  "getWebhookMethods path s = map we_method (filter (\<lambda>w. we_webhookPath w = path) (ws_table s))"

section \<open>Registering the webhooks of a workflow\<close>

definition entity_of :: "INode \<Rightarrow> IWebhookData \<Rightarrow> WebhookEntity" where
  "entity_of node d =
     (let p = without_slashes (hook_path d);
          dynamic = (has_variable (hook_path d) \<and> truthy_id (webhookId node))
      in \<lparr>we_workflowId = hook_workflowId d, we_webhookPath = p, we_method = hook_httpMethod d, we_node = hook_node d,
          we_webhookId = (if dynamic then webhookId node else None),
          we_pathLength = (if dynamic then Some (length (segments p)) else None)\<rparr>)"

text \<open>
  The service that a node registers with is the state \<open>'s\<close> on which the methods of the node type act.
\<close>

definition setup_of :: "IWebhookData \<Rightarrow> WebhookSetup" where
  "setup_of d = \<lparr>wh_node = hook_node d, wh_name = wd_name (hook_description d)\<rparr>"

fun delete_hooks ::
    "INodeTypes \<Rightarrow> 's webhook_methods \<Rightarrow> Workflow \<Rightarrow> IWebhookData list \<Rightarrow> 's \<Rightarrow> (js_error + unit) \<times> 's" where
  "delete_hooks nodeTypes methods w [] s = (Inr (), s)"
| "delete_hooks nodeTypes methods w (d # ds) s =
     (case deleteWebhook nodeTypes methods w (setup_of d) s of
        (Inl e, s1) \<Rightarrow> (Inl e, s1) | (Inr _, s1) \<Rightarrow> delete_hooks nodeTypes methods w ds s1)"

definition clearWebhooks ::
    "INodeTypes \<Rightarrow> 's webhook_methods \<Rightarrow> Workflow \<Rightarrow> js_error + IWebhookData list \<Rightarrow> WebhookStore \<times> 's \<Rightarrow>
     (js_error + unit) \<times> WebhookStore \<times> 's" where
  "clearWebhooks nodeTypes methods w hooks st =
     (case hooks of
        Inl e \<Rightarrow> (Inl e, st)
      | Inr ds \<Rightarrow> (case delete_hooks nodeTypes methods w ds (snd st) of
            (Inl e, s1) \<Rightarrow> (Inl e, fst st, s1)
          | (Inr _, s1) \<Rightarrow> (Inr (), deleteWorkflowWebhooks (wf_id w) (fst st), s1)))"

text \<open>
  The loop over the webhooks: each is stored, then created at the service; when that fails, all of the
  workflow are cleared, where a failure of the clearing is only logged.  Errors of the table,
  which differ, are not modelled.
\<close>

fun add_hooks ::
    "INodeTypes \<Rightarrow> 's webhook_methods \<Rightarrow> Workflow \<Rightarrow> js_error + IWebhookData list \<Rightarrow> IWebhookData list \<Rightarrow> WebhookStore \<times> 's \<Rightarrow>
     (js_error + unit) \<times> WebhookStore \<times> 's" where
  "add_hooks nodeTypes methods w hooks [] st = (Inr (), st)"
| "add_hooks nodeTypes methods w hooks (d # ds) st =
     (case getNode w (hook_node d) of
        None \<Rightarrow> (Inl TypeError, st)
      | Some node \<Rightarrow>
          (let stored = storeWebhook (entity_of node d) (fst st)
           in case createWebhookIfNotExists nodeTypes methods w (setup_of d) (snd st) of
               (Inr _, s1) \<Rightarrow> add_hooks nodeTypes methods w hooks ds (stored, s1)
             | (Inl e, s1) \<Rightarrow> (Inl e, snd (clearWebhooks nodeTypes methods w hooks (stored, s1)))))"

definition addWebhooks ::
    "INodeTypes \<Rightarrow> 's webhook_methods \<Rightarrow> Workflow \<Rightarrow> js_error + IWebhookData list \<Rightarrow> WebhookStore \<times> 's \<Rightarrow>
     (js_error + unit) \<times> WebhookStore \<times> 's" where
  "addWebhooks nodeTypes methods w hooks st =
     (case hooks of
        Inl e \<Rightarrow> (Inl e, st)
      | Inr [] \<Rightarrow> (Inr (), st)
      | Inr ds \<Rightarrow> (case add_hooks nodeTypes methods w hooks ds st of
            (Inl e, st1) \<Rightarrow> (Inl e, st1)
          | (Inr _, st1) \<Rightarrow> (Inr (), populateCache (fst st1), snd st1)))"

section \<open>A request\<close>

datatype webhook_error = WebhookNotFound string string | OtherWebhookError js_error

definition findLiveWebhook :: "string \<Rightarrow> string \<Rightarrow> WebhookStore \<Rightarrow> (webhook_error + WebhookEntity) \<times> WebhookStore" where
  "findLiveWebhook path m s =
     (let p = removeTrailingSlash path
      in case findWebhook m p s of
          (None, s1) \<Rightarrow> (Inl (WebhookNotFound p m), s1) | (Some w, s1) \<Rightarrow> (Inr w, s1))"

text \<open>The variables of the path, from the segments of the request behind the first; missing ones are undefined.\<close>

definition path_params :: "WebhookEntity \<Rightarrow> string \<Rightarrow> string option str_obj" where
  "path_params w path =
     (if isDynamic w
      then fold (\<lambda>(i, ele) ps. if is_variable ele then str_put (tl ele) (list_get (tl (segments path)) i) ps else ps)
             (enumerate 0 (segments (we_webhookPath w))) []
      else [])"

text \<open>
  From the request to the webhook of the node: \<open>hooks\<close> are the webhooks that the node of the
  workflow has now.  The workflow is looked up by its id, an argument.
\<close>

definition route_request ::
    "(string \<Rightarrow> Workflow option) \<Rightarrow> (Workflow \<Rightarrow> INode \<Rightarrow> js_error + IWebhookData list) \<Rightarrow> string \<Rightarrow> string \<Rightarrow> WebhookStore \<Rightarrow>
     (webhook_error + Workflow \<times> IWebhookData \<times> INode \<times> string option str_obj) \<times> WebhookStore" where
  "route_request workflows hooks m path s =
     (case findLiveWebhook path m s of
        (Inl e, s1) \<Rightarrow> (Inl e, s1)
      | (Inr webhook, s1) \<Rightarrow>
          ((case workflows (we_workflowId webhook) of
              None \<Rightarrow> Inl (OtherWebhookError (ApplicationError (''Could not find workflow with id '' @ we_workflowId webhook)))
            | Some w \<Rightarrow>
                (case getNode w (we_node webhook) of
                   None \<Rightarrow> Inl (OtherWebhookError TypeError)
                 | Some node \<Rightarrow>
                     (case hooks w node of
                        Inl e \<Rightarrow> Inl (OtherWebhookError e)
                      | Inr ds \<Rightarrow>
                          (case find (\<lambda>d. hook_httpMethod d = m \<and> hook_path d = we_webhookPath webhook) ds of
                             None \<Rightarrow> Inl (OtherWebhookError TypeError)
                           | Some d \<Rightarrow>
                               (case getNode w (hook_node d) of
                                  None \<Rightarrow> Inl (OtherWebhookError (ApplicationError ''Could not find node to process webhook.''))
                                | Some n \<Rightarrow> Inr (w, d, n, path_params webhook path)))))), s1))"

end
