(* ===== verification/TestWebhooks.thy ===== *)
theory TestWebhooks
  imports WebhookService
begin

text \<open>
  Webhooks of manual executions (packages/cli/src/webhooks/test-webhooks.ts and
  test-webhook-registrations.service.ts, and the command clear-test-webhooks of
  services/orchestration/main/handle-command-message-main.ts): the registrations in the cache, the
  timers that cancel them, and the messages to the editor.
\<close>

section \<open>Registrations\<close>

record TestWebhookRegistration =
  reg_pushRef :: "string option"
  reg_workflowEntity :: WorkflowParameters
  reg_destinationNode :: "string option"
  reg_webhook :: IWebhookData

datatype TestMessage =
    TestWebhookReceived string string string
  | TestWebhookDeleted string string

text \<open>
  The hash of registrations with its time to live, the timer of each key, the armed timers with the
  workflow they cancel, the messages and the published commands, and the state of the outside services.
\<close>

record 's TestHooks =
  tw_registrations :: "TestWebhookRegistration str_obj"
  tw_ttl :: "nat option"
  tw_timeouts :: "nat str_obj"
  tw_timers :: "(nat \<times> string) list"
  tw_next_timer :: nat
  tw_messages :: "TestMessage list"
  tw_published :: "(string \<times> WorkflowParameters \<times> string) list"
  tw_service :: 's

text \<open>
  What comes from outside: the registry, the defaults and the methods of node types, which also act on
  the static data of the workflow; the resolution of expressions and the descriptions of webhooks; the
  setup, the editor connections that this process holds, and the handling of a request.
\<close>

record 's TestEnv =
  te_types :: INodeTypes
  te_defaults :: "INodeType \<Rightarrow> INode \<Rightarrow> IDataObject option"
  te_methods :: "(IDataObject str_obj \<times> 's) webhook_methods"
  te_evaluate :: "INode \<Rightarrow> jval \<Rightarrow> js_error + jval"
  te_descriptions :: "string \<Rightarrow> number \<Rightarrow> IWebhookDescription list option option"
  te_multiMain :: bool
  te_hasPushRef :: "string \<Rightarrow> bool"
  te_handle :: "Workflow \<Rightarrow> IWebhookData \<Rightarrow> INode \<Rightarrow> string option str_obj \<Rightarrow> string option \<Rightarrow> 's \<Rightarrow> (js_error + string option) \<times> 's"

datatype test_error =
    NoTestWebhook string "string list option"
  | WebhookPathTaken string
  | WorkflowMissingId
  | OtherTestError js_error

definition bar :: char where
  "bar = CHR 0x7C"

text \<open>The path behind the first slash, all of it without one.\<close>

definition after_slash :: "string \<Rightarrow> string" where
  "after_slash path = (if slash \<in> set path then tl (dropWhile (\<lambda>c. c \<noteq> slash) path) else path)"

definition toKey :: "string \<Rightarrow> string \<Rightarrow> string option \<Rightarrow> string" where
  "toKey httpMethod webhookPath i =
     (case i of
        Some (c # cs) \<Rightarrow>
          (let path = (if starts_with webhookPath (c # cs) then after_slash webhookPath else webhookPath)
           in join_with [bar] [httpMethod, c # cs, nat_string (length (segments path))])
      | _ \<Rightarrow> join_with [bar] [httpMethod, webhookPath])"

definition hook_key :: "IWebhookData \<Rightarrow> string" where
  "hook_key h = toKey (hook_httpMethod h) (hook_path h) (hook_webhookId h)"

definition register :: "('s, 'x) TestEnv_scheme \<Rightarrow> TestWebhookRegistration \<Rightarrow> 's TestHooks \<Rightarrow> 's TestHooks" where
  "register env r st =
     (let st1 = st\<lparr>tw_registrations := str_put (hook_key (reg_webhook r)) r (tw_registrations st)\<rparr>
      in if te_multiMain env then st1\<lparr>tw_ttl := Some (120000 + 30000)\<rparr> else st1)"

definition deregister :: "string \<Rightarrow> 's TestHooks \<Rightarrow> 's TestHooks" where
  "deregister key st = st\<lparr>tw_registrations := obj_del key (tw_registrations st)\<rparr>"

definition get_registration :: "string \<Rightarrow> 's TestHooks \<Rightarrow> TestWebhookRegistration option" where
  "get_registration key st = obj_get (tw_registrations st) key"

definition getAllKeys :: "'s TestHooks \<Rightarrow> string list" where
  "getAllKeys st = obj_keys (tw_registrations st)"

definition getAllRegistrations :: "'s TestHooks \<Rightarrow> TestWebhookRegistration list" where
  "getAllRegistrations st = map snd (tw_registrations st)"

definition deregisterAll :: "'s TestHooks \<Rightarrow> 's TestHooks" where
  "deregisterAll st = st\<lparr>tw_registrations := [], tw_ttl := None\<rparr>"

section \<open>Finding a test webhook\<close>

definition test_toWorkflow :: "('s, 'x) TestEnv_scheme \<Rightarrow> WorkflowParameters \<Rightarrow> Workflow" where
  "test_toWorkflow env e =
     newWorkflow (te_types env) (te_defaults env)
       (e\<lparr>par_active := False, par_staticData := Some [], par_pinData := None\<rparr>)"

definition getActiveWebhook :: "string \<Rightarrow> string \<Rightarrow> string option \<Rightarrow> 's TestHooks \<Rightarrow> IWebhookData option" where
  "getActiveWebhook httpMethod path i st =
     (case get_registration (toKey httpMethod path i) st of
        None \<Rightarrow> None
      | Some r \<Rightarrow>
          (let dynamicWebhook = reg_webhook r;
               staticElements = filter (\<lambda>e. \<not> is_variable e) (segments (hook_path dynamicWebhook));
               allStaticExist = list_all (\<lambda>e. e \<in> set (segments path)) staticElements
           in if allStaticExist \<and> 0 < length staticElements then Some dynamicWebhook
              else if length staticElements = 0 then Some dynamicWebhook
              else None))"

definition test_getWebhookMethods :: "string \<Rightarrow> 's TestHooks \<Rightarrow> test_error + string list" where
  "test_getWebhookMethods path st =
     (let webhookMethods = map (\<lambda>key. hd (split_at_char bar key)) (filter (\<lambda>key. has_substring key path) (getAllKeys st))
      in if webhookMethods = [] then Inl (NoTestWebhook path None) else Inr webhookMethods)"

definition not_found :: "string \<Rightarrow> 's TestHooks \<Rightarrow> test_error" where
  "not_found path st =
     (case test_getWebhookMethods path st of Inl e \<Rightarrow> e | Inr ms \<Rightarrow> NoTestWebhook path (Some ms))"

definition field_of :: "string \<Rightarrow> INode \<Rightarrow> jval option" where
  "field_of k node = obj_get (parameters node) k"

fun find_access_node :: "INodeTypes \<Rightarrow> string \<Rightarrow> string \<Rightarrow> INode list \<Rightarrow> js_error + INode option" where
  "find_access_node nodeTypes path m [] = Inr None"
| "find_access_node nodeTypes path m (n # ns) =
     (if field_of ''path'' n = Some (JStr path) \<and>
         (case field_of ''httpMethod'' n of None \<Rightarrow> m = ''GET'' | Some JNull \<Rightarrow> m = ''GET'' | Some JUndef \<Rightarrow> m = ''GET''
            | Some v \<Rightarrow> v = JStr m)
      then (case nodeTypes (node_type n) (typeVersion n) of
              None \<Rightarrow> Inl TypeError
            | Some t \<Rightarrow> (if has_webhook t then Inr (Some n) else find_access_node nodeTypes path m ns))
      else find_access_node nodeTypes path m ns)"

definition findAccessControlOptions ::
    "('s, 'x) TestEnv_scheme \<Rightarrow> string \<Rightarrow> string \<Rightarrow> 's TestHooks \<Rightarrow> js_error + jval option" where
  "findAccessControlOptions env path httpMethod st =
     (case find (\<lambda>key. has_substring key path \<and> starts_with key httpMethod) (getAllKeys st) of
        None \<Rightarrow> Inr None
      | Some webhookKey \<Rightarrow>
          (case get_registration webhookKey st of
             None \<Rightarrow> Inr None
           | Some r \<Rightarrow>
               res_bind (find_access_node (te_types env) path httpMethod
                   (map snd (nodes (test_toWorkflow env (reg_workflowEntity r)))))
                 (\<lambda>found. Inr (case found of None \<Rightarrow> None | Some n \<Rightarrow> field_of ''options'' n))))"

section \<open>Deactivating\<close>

definition clearTimeout :: "string \<Rightarrow> 's TestHooks \<Rightarrow> 's TestHooks" where
  "clearTimeout key st =
     (case obj_get (tw_timeouts st) key of
        None \<Rightarrow> st
      | Some timer \<Rightarrow> st\<lparr>tw_timers := filter (\<lambda>t. fst t \<noteq> timer) (tw_timers st)\<rparr>)"

text \<open>Each webhook is deleted at its service with the static data that it was registered with.\<close>

fun deactivate_hooks ::
    "('s, 'x) TestEnv_scheme \<Rightarrow> Workflow \<Rightarrow> IWebhookData list \<Rightarrow> IDataObject str_obj \<times> 's \<Rightarrow>
     (js_error + unit) \<times> IDataObject str_obj \<times> 's" where
  "deactivate_hooks env w [] s = (Inr (), s)"
| "deactivate_hooks env w (h # hs) s =
     (let s0 = ((case hook_staticData h of None \<Rightarrow> fst s | Some d \<Rightarrow> d), snd s)
      in case deleteWebhook (te_types env) (te_methods env) w (setup_of h) s0 of
          (Inl e, s1) \<Rightarrow> (Inl e, s1)
        | (Inr _, s1) \<Rightarrow> deactivate_hooks env w hs s1)"

definition webhooks_of :: "string \<Rightarrow> 's TestHooks \<Rightarrow> IWebhookData list" where
  "webhooks_of workflowId st =
     map reg_webhook (filter (\<lambda>r. hook_workflowId (reg_webhook r) = workflowId) (getAllRegistrations st))"

definition deactivateWebhooks ::
    "('s, 'x) TestEnv_scheme \<Rightarrow> Workflow \<Rightarrow> IDataObject str_obj \<Rightarrow> 's TestHooks \<Rightarrow> (js_error + unit) \<times> 's TestHooks" where
  "deactivateWebhooks env w data st =
     (if getAllRegistrations st = [] then (Inr (), st)
      else if webhooks_of (wf_id w) st = [] then (Inr (), st)
      else case deactivate_hooks env w (webhooks_of (wf_id w) st) (data, tw_service st) of
          (Inl e, s1) \<Rightarrow> (Inl e, st\<lparr>tw_service := snd s1\<rparr>)
        | (Inr _, s1) \<Rightarrow> (Inr (), deregisterAll (st\<lparr>tw_service := snd s1\<rparr>)))"

text \<open>
  Cancelling does not wait for the deactivation it starts: it takes effect \<open>delay\<close> keys later, or
  when the loop is over.  Its failure is not seen by the caller.
\<close>

definition deactivate_pending ::
    "('s, 'x) TestEnv_scheme \<Rightarrow> (nat \<times> Workflow) option \<Rightarrow> 's TestHooks \<Rightarrow> (nat \<times> Workflow) option \<times> 's TestHooks" where
  "deactivate_pending env pending st =
     (case pending of
        None \<Rightarrow> (None, st)
      | Some (0, w) \<Rightarrow> (None, snd (deactivateWebhooks env w [] st))
      | Some (Suc n, w) \<Rightarrow> (Some (n, w), st))"

fun cancel_loop ::
    "('s, 'x) TestEnv_scheme \<Rightarrow> nat \<Rightarrow> string \<Rightarrow> string list \<Rightarrow> bool \<Rightarrow> (nat \<times> Workflow) option \<Rightarrow> 's TestHooks \<Rightarrow>
     bool \<times> 's TestHooks" where
  "cancel_loop env delay workflowId [] found pending st =
     (found, case pending of None \<Rightarrow> st | Some (_, w) \<Rightarrow> snd (deactivateWebhooks env w [] st))"
| "cancel_loop env delay workflowId (key # keys) found pending st =
     (let (pending1, st1) = deactivate_pending env pending st
      in case get_registration key st1 of
          None \<Rightarrow> cancel_loop env delay workflowId keys found pending1 st1
        | Some r \<Rightarrow>
            (if par_id (reg_workflowEntity r) \<noteq> workflowId then cancel_loop env delay workflowId keys found pending1 st1
             else let st2 = clearTimeout key st1;
                      st3 = (case reg_pushRef r of
                               None \<Rightarrow> st2
                             | Some p \<Rightarrow> st2\<lparr>tw_messages := tw_messages st2 @ [TestWebhookDeleted workflowId p]\<rparr>)
                  in cancel_loop env delay workflowId keys True
                       (if found then pending1 else Some (delay, test_toWorkflow env (reg_workflowEntity r))) st3))"

definition cancelWebhook :: "('s, 'x) TestEnv_scheme \<Rightarrow> nat \<Rightarrow> string \<Rightarrow> 's TestHooks \<Rightarrow> bool \<times> 's TestHooks" where
  "cancelWebhook env delay workflowId st = cancel_loop env delay workflowId (getAllKeys st) False None st"

definition test_timer_fires :: "('s, 'x) TestEnv_scheme \<Rightarrow> nat \<Rightarrow> nat \<Rightarrow> 's TestHooks \<Rightarrow> 's TestHooks" where
  "test_timer_fires env delay timer st =
     (case map_of (tw_timers st) timer of
        None \<Rightarrow> st
      | Some workflowId \<Rightarrow>
          snd (cancelWebhook env delay workflowId (st\<lparr>tw_timers := filter (\<lambda>t. fst t \<noteq> timer) (tw_timers st)\<rparr>)))"

text \<open>The command that another main process publishes; debouncing of messages is left out.\<close>

definition clear_test_webhooks ::
    "('s, 'x) TestEnv_scheme \<Rightarrow> string \<Rightarrow> WorkflowParameters \<Rightarrow> string \<Rightarrow> 's TestHooks \<Rightarrow> (js_error + unit) \<times> 's TestHooks" where
  "clear_test_webhooks env webhookKey workflowEntity pushRef st =
     (if \<not> te_hasPushRef env pushRef then (Inr (), st)
      else deactivateWebhooks env (test_toWorkflow env workflowEntity) [] (clearTimeout webhookKey st))"

section \<open>Registering the webhooks of a manual execution\<close>

definition path_conflict :: "string \<Rightarrow> string \<Rightarrow> IWebhookData \<Rightarrow> TestWebhookRegistration option \<Rightarrow> bool" where
  "path_conflict userId workflowId h byKey =
     (case byKey of
        None \<Rightarrow> False
      | Some r \<Rightarrow> \<not> truthy_id (hook_webhookId h) \<and> \<not> hook_isTest (reg_webhook r) \<and>
          hook_userId (reg_webhook r) \<noteq> Some userId \<and> hook_workflowId (reg_webhook r) \<noteq> workflowId)"

fun register_hooks ::
    "('s, 'x) TestEnv_scheme \<Rightarrow> string \<Rightarrow> WorkflowParameters \<Rightarrow> string set option \<Rightarrow> string option \<Rightarrow> string option \<Rightarrow> nat \<Rightarrow>
     IWebhookData list \<Rightarrow> IDataObject str_obj \<Rightarrow> 's TestHooks \<Rightarrow> (test_error + bool) \<times> 's TestHooks" where
  "register_hooks env userId entity ranNodes pushRef destination timer [] data st = (Inr True, st)"
| "register_hooks env userId entity ranNodes pushRef destination timer (h # hs) data st =
     (let key = hook_key h; w = test_toWorkflow env entity
      in if (case ranNodes of None \<Rightarrow> False | Some ns \<Rightarrow> hook_node h \<in> ns) then (Inr False, st)
         else if path_conflict userId (wf_id w) h (get_registration key st) then (Inl (WebhookPathTaken (hook_node h)), st)
         else
           (let h1 = h\<lparr>hook_path := removeTrailingSlash (hook_path h), hook_isTest := True, hook_userId := Some userId\<rparr>;
                r = \<lparr>reg_pushRef = pushRef, reg_workflowEntity = entity, reg_destinationNode = destination, reg_webhook = h1\<rparr>;
                st1 = register env r st
            in case createWebhookIfNotExists (te_types env) (te_methods env) w (setup_of h1) (data, tw_service st1) of
                (Inr _, d1, s1) \<Rightarrow>
                  (let st2 = register env (r\<lparr>reg_webhook := h1\<lparr>hook_staticData := Some d1\<rparr>\<rparr>) (st1\<lparr>tw_service := s1\<rparr>)
                   in register_hooks env userId entity ranNodes pushRef destination timer hs d1
                        (st2\<lparr>tw_timeouts := str_put key timer (tw_timeouts st2)\<rparr>))
              | (Inl e, d1, s1) \<Rightarrow>
                  (case deactivateWebhooks env w d1 (st1\<lparr>tw_service := s1\<rparr>) of
                     (Inl e1, st2) \<Rightarrow> (Inl (OtherTestError e1), st2)
                   | (Inr _, st2) \<Rightarrow> (Inl (OtherTestError e), st2\<lparr>tw_timeouts := obj_del key (tw_timeouts st2)\<rparr>))))"

text \<open>\<open>ranNodes\<close> gives the names of the nodes that have run data.\<close>

definition needsWebhook ::
    "('s, 'x) TestEnv_scheme \<Rightarrow> string \<Rightarrow> WorkflowParameters \<Rightarrow> string set option \<Rightarrow> string option \<Rightarrow> string option \<Rightarrow>
     's TestHooks \<Rightarrow> (test_error + bool) \<times> 's TestHooks" where
  "needsWebhook env userId entity ranNodes pushRef destination st =
     (if par_id entity = [] then (Inl WorkflowMissingId, st)
      else let w = test_toWorkflow env entity
           in case getWorkflowWebhooks (te_evaluate env) (te_descriptions env) w destination True of
               Inl e \<Rightarrow> (Inl (OtherTestError e), st)
             | Inr webhooks \<Rightarrow>
                 (if \<not> list_ex (\<lambda>h. wd_restartWebhook (hook_description h) \<noteq> JBool True) webhooks then (Inr False, st)
                  else let timer = tw_next_timer st;
                           st1 = st\<lparr>tw_timers := tw_timers st @ [(timer, wf_id w)], tw_next_timer := timer + 1\<rparr>
                       in register_hooks env userId entity ranNodes pushRef destination timer webhooks [] st1))"

section \<open>A test request\<close>

definition test_params :: "string \<Rightarrow> string list \<Rightarrow> string option str_obj" where
  "test_params path rest =
     fold (\<lambda>(i, s) ps. if is_variable s then str_put (tl s) (list_get rest i) ps else ps) (enumerate 0 (segments path)) []"

definition find_test_webhook ::
    "string \<Rightarrow> string \<Rightarrow> 's TestHooks \<Rightarrow> test_error + IWebhookData \<times> string \<times> string option str_obj" where
  "find_test_webhook httpMethod path st =
     (case getActiveWebhook httpMethod path None st of
        Some h \<Rightarrow> Inr (h, path, [])
      | None \<Rightarrow>
          (case getActiveWebhook httpMethod (join_path (tl (segments path))) (Some (hd (segments path))) st of
             None \<Rightarrow> Inl (not_found path st)
           | Some h \<Rightarrow> Inr (h, hook_path h, test_params (hook_path h) (tl (segments path)))))"

text \<open>
  After the workflow was started: the editor is told, and the webhooks are cleared, here or by the
  process that holds the editor's connection.  A request that starts no execution leaves them.
\<close>

definition after_request ::
    "('s, 'x) TestEnv_scheme \<Rightarrow> Workflow \<Rightarrow> IWebhookData \<Rightarrow> string \<Rightarrow> TestWebhookRegistration \<Rightarrow> js_error + string option \<Rightarrow>
     's TestHooks \<Rightarrow> 's TestHooks" where
  "after_request env w h key r started st =
     (if started = Inr None then st
      else let st1 = (case (started, reg_pushRef r) of
                        (Inr (Some e), Some p) \<Rightarrow>
                          st\<lparr>tw_messages := tw_messages st @ [TestWebhookReceived (hook_workflowId h) e p]\<rparr>
                      | _ \<Rightarrow> st)
           in case (if te_multiMain env then reg_pushRef r else None) of
               Some (c # cs) \<Rightarrow>
                 (if te_hasPushRef env (c # cs) then snd (deactivateWebhooks env w [] (clearTimeout key st1))
                  else st1\<lparr>tw_published := tw_published st1 @ [(key, reg_workflowEntity r, c # cs)]\<rparr>)
             | _ \<Rightarrow> snd (deactivateWebhooks env w [] (clearTimeout key st1)))"

definition executeTestWebhook ::
    "('s, 'x) TestEnv_scheme \<Rightarrow> string \<Rightarrow> string \<Rightarrow> 's TestHooks \<Rightarrow>
     (test_error + (js_error + string option)) \<times> 's TestHooks" where
  "executeTestWebhook env httpMethod requestPath st =
     (case find_test_webhook httpMethod (removeTrailingSlash requestPath) st of
        Inl e \<Rightarrow> (Inl e, st)
      | Inr (h, path, params) \<Rightarrow>
          (case get_registration (hook_key h) st of
             None \<Rightarrow> (Inl (not_found path st), st)
           | Some r \<Rightarrow>
               (let w0 = test_toWorkflow env (reg_workflowEntity r);
                    w = (case hook_staticData (reg_webhook r) of None \<Rightarrow> w0 | Some d \<Rightarrow> w0\<lparr>testStaticData := Some d\<rparr>)
                in case getNode w (hook_node h) of
                    None \<Rightarrow> (Inl (OtherTestError (ApplicationError ''Could not find node to process webhook.'')), st)
                  | Some node \<Rightarrow>
                      (let (started, s1) = te_handle env w h node params (reg_destinationNode r) (tw_service st)
                       in (Inr started, after_request env w h (hook_key h) r started (st\<lparr>tw_service := s1\<rparr>))))))"

end
