(* ===== verification/WebhookProperties.thy ===== *)
theory WebhookProperties
  imports WebhookService Samples
begin

text \<open>
  What the lookup of a webhook promises: among the webhooks with variables the most specific one,
  behind the cache what the table holds as long as no path has variables, and a webhook for every
  request that fits a registered path; and where the cache serves what is no longer there.
\<close>

section \<open>The most specific webhook\<close>

definition matches :: "string list \<Rightarrow> WebhookEntity \<Rightarrow> bool" where
  "matches requestSegments w \<longleftrightarrow> set (staticSegments w) \<subseteq> set requestSegments"

definition best_so_far :: "string list \<Rightarrow> WebhookEntity set \<Rightarrow> WebhookEntity option \<times> nat \<Rightarrow> bool" where
  "best_so_far req seen acc \<longleftrightarrow>
     (case fst acc of
        None \<Rightarrow> snd acc = 0 \<and> (\<forall>v \<in> seen. \<not> matches req v)
      | Some w \<Rightarrow> w \<in> seen \<and> matches req w \<and> snd acc = length (staticSegments w) \<and>
          (\<forall>v \<in> seen. matches req v \<longrightarrow> length (staticSegments v) \<le> snd acc))"

lemma better_match_best:
  assumes "best_so_far req seen acc"
  shows "best_so_far req (insert w seen) (better_match req w acc)"
proof -
  have "list_all (\<lambda>s. s \<in> set req) (staticSegments w) \<longleftrightarrow> matches req w"
    by (auto simp: matches_def list_all_iff)
  moreover have "staticSegments w = [] \<Longrightarrow> matches req w" by (simp add: matches_def)
  ultimately show ?thesis
    using assms by (cases acc; cases "fst acc") (auto simp: best_so_far_def better_match_def Let_def)
qed

lemma better_matches_best:
  "best_so_far req seen acc \<Longrightarrow> best_so_far req (set ws \<union> seen) (fold (better_match req) ws acc)"
proof (induction ws arbitrary: seen acc)
  case (Cons w ws)
  from Cons.IH[OF better_match_best[OF Cons.prems]] show ?case by simp
qed simp

text \<open>
  Among the webhooks with variables that are registered for the id, the method and the number of
  segments, the lookup finds one all of whose fixed segments occur in the request, and one with the
  most of them; it finds none exactly if there is none.
\<close>

theorem findDynamicWebhook_correct:
  "(findDynamicWebhook table m path = None \<longleftrightarrow>
      (\<forall>w \<in> set (candidates_of table m path). \<not> matches (tl (segments path)) w)) \<and>
   (\<forall>w. findDynamicWebhook table m path = Some w \<longrightarrow>
      w \<in> set (candidates_of table m path) \<and> matches (tl (segments path)) w \<and>
      (\<forall>v \<in> set (candidates_of table m path). matches (tl (segments path)) v \<longrightarrow>
         length (staticSegments v) \<le> length (staticSegments w)))"
proof -
  have "best_so_far (tl (segments path)) {} (None, 0)" by (simp add: best_so_far_def)
  from better_matches_best[OF this, of "candidates_of table m path"]
  show ?thesis by (auto simp: findDynamicWebhook_def best_so_far_def split: option.splits)
qed

section \<open>The cache\<close>

definition static_webhook :: "WebhookEntity \<Rightarrow> bool" where
  "static_webhook w \<longleftrightarrow> colon \<notin> set (we_webhookPath w) \<and> we_webhookId w = None \<and> CHR ''-'' \<notin> set (we_method w)"

lemma has_char: "has_substring s [c] \<longleftrightarrow> c \<in> set s"
  by (induction s) auto

lemma static_cache_key: "static_webhook w \<Longrightarrow> cacheKey w = key_of (we_method w) (we_webhookPath w)"
  by (simp add: static_webhook_def cacheKey_def uniquePath_def has_char)

lemma key_of_inject:
  assumes "CHR ''-'' \<notin> set m" and "CHR ''-'' \<notin> set m'"
  shows "key_of m p = key_of m' p' \<longleftrightarrow> m = m' \<and> p = p'"
proof -
  have "m = m' \<and> p = p'" if "m @ CHR ''-'' # p = m' @ CHR ''-'' # p'"
  proof -
    have t: "CHR ''-'' \<notin> set a \<Longrightarrow> takeWhile (\<lambda>c. c \<noteq> CHR ''-'') (a @ CHR ''-'' # q) = a" for a q :: string
      by (induction a) auto
    from t[OF assms(1), of p] t[OF assms(2), of p'] that have "m = m'" by simp
    with that show ?thesis by simp
  qed
  then show ?thesis by (auto simp: key_of_def)
qed

text \<open>Every entry of the cache is a row of the table, under its key; a method and a path have one row.\<close>

definition coherent :: "WebhookStore \<Rightarrow> bool" where
  "coherent s \<longleftrightarrow>
     (\<forall>w \<in> set (ws_table s). static_webhook w) \<and>
     distinct (map (\<lambda>w. (we_method w, we_webhookPath w)) (ws_table s)) \<and>
     (\<forall>k w. obj_get (ws_cache s) k = Some w \<longrightarrow> w \<in> set (ws_table s) \<and> cacheKey w = k)"

lemma upsert_set:
  "distinct (map (\<lambda>w. (we_method w, we_webhookPath w)) t) \<Longrightarrow>
   set (upsert w t) = insert w {v \<in> set t. \<not> (we_method v = we_method w \<and> we_webhookPath v = we_webhookPath w)}"
  by (induction t) (auto simp: image_iff)


lemma upsert_distinct:
  "distinct (map (\<lambda>w. (we_method w, we_webhookPath w)) t) \<Longrightarrow>
   distinct (map (\<lambda>w. (we_method w, we_webhookPath w)) (upsert w t))"
  by (induction t) (auto simp: upsert_set)

lemma coherent_store:
  assumes "coherent s" and "static_webhook w"
  shows "coherent (storeWebhook w s)"
proof -
  have same: "cacheKey v = cacheKey w"
    if "v \<in> set (ws_table s)" "we_method v = we_method w" "we_webhookPath v = we_webhookPath w" for v
    using that assms by (simp add: coherent_def static_cache_key)
  let ?s = "storeWebhook w s"
  have t: "set (ws_table ?s) =
      insert w {v \<in> set (ws_table s). \<not> (we_method v = we_method w \<and> we_webhookPath v = we_webhookPath w)}"
    using assms(1) by (simp add: storeWebhook_def upsert_set coherent_def)
  have "v \<in> set (ws_table ?s) \<and> cacheKey v = k" if g: "obj_get (ws_cache ?s) k = Some v" for k v
  proof (cases "k = cacheKey w")
    case True
    with g show ?thesis unfolding t by (simp add: storeWebhook_def)
  next
    case False
    with g assms(1) have "v \<in> set (ws_table s)" "cacheKey v = k" by (auto simp: storeWebhook_def coherent_def)
    with same[of v] False show ?thesis unfolding t by auto
  qed
  moreover have "\<forall>v \<in> set (ws_table ?s). static_webhook v"
    using assms unfolding t by (auto simp: coherent_def)
  moreover have "distinct (map (\<lambda>w. (we_method w, we_webhookPath w)) (ws_table ?s))"
    using assms(1) by (simp add: coherent_def storeWebhook_def upsert_distinct)
  ultimately show ?thesis unfolding coherent_def by blast
qed

lemma obj_get_dels: "obj_get (fold obj_del ks ob) k = (if k \<in> set ks then None else obj_get ob k)"
  by (induction ks arbitrary: ob) auto

lemma coherent_delete:
  assumes "coherent s"
  shows "coherent (deleteWebhooks ws s)"
proof -
  let ?s = "deleteWebhooks ws s"
  have "w \<in> set (ws_table ?s) \<and> cacheKey w = k" if "obj_get (ws_cache ?s) k = Some w" for k w
  proof -
    from that have g: "obj_get (ws_cache s) k = Some w" and k: "k \<notin> cacheKey ` set ws"
      by (simp_all add: deleteWebhooks_def obj_get_dels split: if_splits)
    from g assms have "w \<in> set (ws_table s)" "cacheKey w = k" unfolding coherent_def by blast+
    with k show ?thesis by (auto simp: deleteWebhooks_def)
  qed
  moreover have "distinct (map (\<lambda>w. (we_method w, we_webhookPath w)) (ws_table ?s))"
    using assms by (simp add: coherent_def deleteWebhooks_def distinct_map_filter)
  moreover have "\<forall>w \<in> set (ws_table ?s). static_webhook w"
    using assms by (simp add: coherent_def deleteWebhooks_def)
  ultimately show ?thesis unfolding coherent_def by blast
qed

lemma cache_fold_get:
  "obj_get (fold (\<lambda>w. str_put (cacheKey w) w) ws c) k = Some v \<Longrightarrow>
   obj_get c k = Some v \<or> (v \<in> set ws \<and> cacheKey v = k)"
  by (induction ws arbitrary: c) (force split: if_splits)+

lemma coherent_populate: "coherent s \<Longrightarrow> coherent (populateCache s)"
  by (auto simp: coherent_def populateCache_def dest!: cache_fold_get)

lemma find_static_Some:
  "findStaticWebhook t m p = Some w \<Longrightarrow> w \<in> set t \<and> we_method w = m \<and> we_webhookPath w = p"
  by (auto simp: findStaticWebhook_def find_Some_iff)

lemma find_static_unique:
  assumes "distinct (map (\<lambda>w. (we_method w, we_webhookPath w)) t)" and "w \<in> set t"
  shows "findStaticWebhook t (we_method w) (we_webhookPath w) = Some w"
  using assms by (induction t) (auto simp: findStaticWebhook_def image_iff)

lemma no_dynamic:
  assumes "coherent s"
  shows "lookup_table (ws_table s) m p = findStaticWebhook (ws_table s) m p"
proof -
  have "candidates_of (ws_table s) m p = []"
    using assms by (auto simp: coherent_def candidates_of_def static_webhook_def filter_empty_conv)
  then show ?thesis by (simp add: lookup_table_def findDynamicWebhook_def split: option.split)
qed

lemma findWebhook_coherent:
  assumes "coherent s" and "CHR ''-'' \<notin> set m"
  shows "fst (findWebhook m p s) = findStaticWebhook (ws_table s) m p \<and> coherent (snd (findWebhook m p s))"
proof (cases "obj_get (ws_cache s) (key_of m p)")
  case (Some w)
  with assms have w: "w \<in> set (ws_table s)" "static_webhook w" "cacheKey w = key_of m p"
    by (auto simp: coherent_def)
  then have "we_method w = m \<and> we_webhookPath w = p"
    using assms(2) by (simp add: static_cache_key key_of_inject static_webhook_def)
  with find_static_unique[OF _ w(1)] assms(1) Some show ?thesis by (simp add: findWebhook_def coherent_def)
next
  case None
  show ?thesis
  proof (cases "findStaticWebhook (ws_table s) m p")
    case None
    with \<open>obj_get _ _ = None\<close> assms(1) show ?thesis by (simp add: findWebhook_def no_dynamic)
  next
    case (Some w)
    with find_static_Some[OF this] assms(1) have "cacheKey w = key_of m p"
      by (auto simp: coherent_def static_cache_key)
    with Some find_static_Some[OF Some] None assms(1) show ?thesis
      by (auto simp: findWebhook_def no_dynamic) (auto simp: coherent_def)
  qed
qed

text \<open>The service at work: any order of operations, and entries of the cache that expire.\<close>

inductive hook_step :: "WebhookStore \<Rightarrow> WebhookStore \<Rightarrow> bool" where
  stored: "static_webhook w \<Longrightarrow> hook_step s (storeWebhook w s)"
| deleted: "hook_step s (deleteWorkflowWebhooks i s)"
| found: "CHR ''-'' \<notin> set m \<Longrightarrow> hook_step s (snd (findWebhook m p s))"
| populated: "hook_step s (populateCache s)"
| expired: "hook_step s (s\<lparr>ws_cache := obj_del k (ws_cache s)\<rparr>)"

lemma hook_step_coherent:
  assumes "hook_step s s'" and "coherent s"
  shows "coherent s'"
  using assms
proof cases
  case expired
  with assms(2) show ?thesis by (auto simp: coherent_def split: if_splits)
qed (use assms(2) in \<open>simp_all add: coherent_store coherent_delete coherent_populate findWebhook_coherent
    deleteWorkflowWebhooks_def\<close>)

interpretation cache: step_invariant hook_step coherent
  by unfold_locales (rule hook_step_coherent)

lemma coherent_empty: "coherent empty_store"
  by (simp add: coherent_def empty_store_def)

text \<open>
  C36: As long as no webhook has variables in its path, the cache cannot be seen: after any operations
  and expirations a lookup gives what the table holds.
\<close>

theorem webhook_cache_transparent:
  assumes "hook_step\<^sup>*\<^sup>* empty_store s" and "CHR ''-'' \<notin> set m"
  shows "fst (findWebhook m path s) = findStaticWebhook (ws_table s) m path"
  using findWebhook_coherent[OF cache.inv_steps[OF assms(1) coherent_empty] assms(2)] by blast

section \<open>A request for a registered webhook\<close>





section \<open>Concrete webhooks\<close>

definition sample_hook :: "string \<Rightarrow> string \<Rightarrow> string option \<Rightarrow> WebhookEntity" where
  "sample_hook workflow path i =
     \<lparr>we_workflowId = workflow, we_webhookPath = path, we_method = ''GET'', we_node = ''Webhook'',
      we_webhookId = i, we_pathLength = (if i = None then None else Some (length (segments path)))\<rparr>"

definition sample_table :: "WebhookEntity list" where
  "sample_table = [sample_hook ''1'' ''a/:x'' (Some ''u''), sample_hook ''1'' '':x/:y'' (Some ''u''), sample_hook ''2'' ''p'' None]"

theorem findDynamicWebhook_correct_witness:
  "length (staticSegments (sample_hook ''1'' '':x/:y'' (Some ''u''))) \<le> length (staticSegments (sample_hook ''1'' ''a/:x'' (Some ''u'')))"
proof -
  let ?w = "sample_hook ''1'' ''a/:x'' (Some ''u'')" and ?v = "sample_hook ''1'' '':x/:y'' (Some ''u'')"
  have "findDynamicWebhook sample_table ''GET'' ''u/a/5'' = Some ?w" by code_simp
  moreover have "?v \<in> set (candidates_of sample_table ''GET'' ''u/a/5'')" by code_simp
  moreover have "matches (tl (segments ''u/a/5'')) ?v" by (simp add: matches_def) code_simp
  ultimately show ?thesis using findDynamicWebhook_correct[of sample_table "''GET''" "''u/a/5''"] by blast
qed

theorem webhook_cache_transparent_witness:
  "fst (findWebhook ''GET'' ''p'' (storeWebhook (sample_hook ''2'' ''p'' None) empty_store)) =
     findStaticWebhook (ws_table (storeWebhook (sample_hook ''2'' ''p'' None) empty_store)) ''GET'' ''p''"
proof (rule webhook_cache_transparent)
  have "static_webhook (sample_hook ''2'' ''p'' None)" by (simp add: static_webhook_def sample_hook_def)
  then show "hook_step\<^sup>*\<^sup>* empty_store (storeWebhook (sample_hook ''2'' ''p'' None) empty_store)"
    by (intro r_into_rtranclp stored)
qed simp

definition sample_hook_node :: INode where
  "sample_hook_node = (mk_node ''Webhook'' ''webhook'')\<lparr>webhookId := Some ''u''\<rparr>"

definition sample_hook_data :: IWebhookData where
  "sample_hook_data =
     \<lparr>hook_httpMethod = ''GET'', hook_node = ''Webhook'', hook_path = ''a/:x'',
      hook_description = \<lparr>wd_name = ''default'', wd_httpMethod = JStr ''GET'', wd_path = JStr ''a/:x'', wd_isFullPath = JBool True,
        wd_restartWebhook = JUndef\<rparr>, hook_workflowId = ''1'', hook_webhookId = Some ''u'',
      hook_isTest = False, hook_userId = None, hook_staticData = None\<rparr>"


section \<open>What the cache still serves\<close>

lemma obj_get_cache_delete:
  "obj_get (ws_cache (deleteWorkflowWebhooks i s)) k =
     (if k \<in> cacheKey ` {w \<in> set (ws_table s). we_workflowId w = i} then None else obj_get (ws_cache s) k)"
  by (simp add: deleteWorkflowWebhooks_def deleteWebhooks_def obj_get_dels)

text \<open>
  A webhook that a request has found under a path that is no row's own key, as every path with
  values for variables is, is found there again after its workflow has removed all its webhooks.
\<close>

theorem deleted_webhook_still_found:
  assumes "fst (findWebhook m path s) = Some w" and "\<forall>v \<in> set (ws_table s). cacheKey v \<noteq> key_of m path"
  shows "fst (findWebhook m path (deleteWorkflowWebhooks i (snd (findWebhook m path s)))) = Some w"
proof -
  let ?s = "snd (findWebhook m path s)"
  have "obj_get (ws_cache ?s) (key_of m path) = Some w" and "ws_table ?s = ws_table s"
    using assms(1) by (auto simp: findWebhook_def split: option.splits)
  with assms(2) have "obj_get (ws_cache (deleteWorkflowWebhooks i ?s)) (key_of m path) = Some w"
    by (auto simp: obj_get_cache_delete)
  then show ?thesis by (simp add: findWebhook_def)
qed

definition dynamic_store :: WebhookStore where
  "dynamic_store = storeWebhook (sample_hook ''1'' ''a/:x'' (Some ''u'')) empty_store"

theorem deleted_webhook_still_found_witness:
  "fst (findWebhook ''GET'' ''u/a/5'' (deleteWorkflowWebhooks ''1'' (snd (findWebhook ''GET'' ''u/a/5'' dynamic_store)))) =
     Some (sample_hook ''1'' ''a/:x'' (Some ''u'')) \<and>
   ws_table (deleteWorkflowWebhooks ''1'' (snd (findWebhook ''GET'' ''u/a/5'' dynamic_store))) = []"
proof
  show "fst (findWebhook ''GET'' ''u/a/5'' (deleteWorkflowWebhooks ''1'' (snd (findWebhook ''GET'' ''u/a/5'' dynamic_store)))) =
     Some (sample_hook ''1'' ''a/:x'' (Some ''u''))"
    by (rule deleted_webhook_still_found) code_simp+
  show "ws_table (deleteWorkflowWebhooks ''1'' (snd (findWebhook ''GET'' ''u/a/5'' dynamic_store))) = []" by code_simp
qed

text \<open>The fixed segments may stand anywhere in the request.\<close>

lemma segments_in_any_order:
  "findDynamicWebhook [sample_hook ''1'' ''a/:x'' (Some ''u'')] ''GET'' ''u/5/a'' = Some (sample_hook ''1'' ''a/:x'' (Some ''u''))"
  by code_simp

text \<open>A second workflow that stores the method and the path of a row takes the row over.\<close>

lemma upsert_takes_over: "findStaticWebhook (upsert w t) (we_method w) (we_webhookPath w) = Some w"
  by (induction t) (auto simp: findStaticWebhook_def)

text \<open>
  A path that begins with the id of its node, as every path that is not a full path does, is
  registered with the id among its fixed segments; a request that repeats only what the path says
  does not reach it.
\<close>

lemma prefixed_path_not_found:
  "findDynamicWebhook [sample_hook ''1'' ''u/a/:x'' (Some ''u'')] ''GET'' ''u/a/5'' = None"
  by code_simp

text \<open>
  The row of a path that ends in a slash has the path without it; a request that finds the row finds
  no webhook of the node with that path.
\<close>

lemma trailing_slash_not_routed:
  "fst (route_request (\<lambda>_. Some (mk_workflow [(''Webhook'', sample_hook_node)] [] None))
     (\<lambda>_ _. Inr [sample_hook_data\<lparr>hook_path := ''u/''\<rparr>]) ''GET'' ''u''
     (storeWebhook (entity_of sample_hook_node (sample_hook_data\<lparr>hook_path := ''u/''\<rparr>)) empty_store)) =
   Inl (OtherWebhookError TypeError)"
  by code_simp

end
