(* ===== verification/TestWebhookProperties.thy ===== *)
theory TestWebhookProperties
  imports TestWebhooks WebhookProperties
begin

text \<open>
  What holds of the webhooks of manual executions: every registration is under its own key and of a
  test webhook, so that a path is never refused as taken; a workflow whose webhooks were registered
  gets the requests to them; and what one workflow's deactivation does to the others.
\<close>

section \<open>The registrations\<close>

definition registrations_ok :: "TestWebhookRegistration str_obj \<Rightarrow> bool" where
  "registrations_ok rs \<longleftrightarrow>
     (\<forall>k r. obj_get rs k = Some r \<longrightarrow> hook_isTest (reg_webhook r) \<and> hook_key (reg_webhook r) = k)"

lemma registrations_ok_Nil [simp]: "registrations_ok []"
  by (simp add: registrations_ok_def)

lemma registrations_ok_put:
  "registrations_ok rs \<Longrightarrow> hook_isTest (reg_webhook r) \<Longrightarrow> registrations_ok (str_put (hook_key (reg_webhook r)) r rs)"
  by (simp add: registrations_ok_def)

lemma register_registrations [simp]:
  "tw_registrations (register env r st) = str_put (hook_key (reg_webhook r)) r (tw_registrations st)"
  by (simp add: register_def Let_def)

lemma clearTimeout_registrations [simp]: "tw_registrations (clearTimeout k st) = tw_registrations st"
  by (simp add: clearTimeout_def split: option.split)

lemma deactivate_registrations:
  "tw_registrations (snd (deactivateWebhooks env w d st)) \<in> {tw_registrations st, []}"
  by (auto simp: deactivateWebhooks_def deregisterAll_def split: prod.splits sum.splits)

lemma deactivate_ok:
  assumes "registrations_ok (tw_registrations st)"
  shows "registrations_ok (tw_registrations (snd (deactivateWebhooks env w d st)))"
  using deactivate_registrations[of env w d st] assms by auto

lemma deactivate_pending_ok:
  "registrations_ok (tw_registrations st) \<Longrightarrow> registrations_ok (tw_registrations (snd (deactivate_pending env p st)))"
  by (auto simp: deactivate_pending_def deactivate_ok split: option.split nat.split)

lemma cancel_loop_ok:
  "registrations_ok (tw_registrations st) \<Longrightarrow>
   registrations_ok (tw_registrations (snd (cancel_loop env delay i keys found p st)))"
proof (induction keys arbitrary: found p st)
  case Nil
  then show ?case by (auto simp: deactivate_ok split: option.split)
next
  case (Cons key keys)
  obtain p1 st1 where t: "deactivate_pending env p st = (p1, st1)" by (cases "deactivate_pending env p st")
  have "registrations_ok (tw_registrations st1)" using deactivate_pending_ok[OF Cons.prems, of env p] t by simp
  then show ?case using t by (auto simp: Let_def Cons.IH split: option.split)
qed

lemmas request_cases = option.splits list.splits sum.splits prod.splits

lemma after_request_ok:
  "registrations_ok (tw_registrations st) \<Longrightarrow> registrations_ok (tw_registrations (after_request env w h k r started st))"
  by (auto simp: after_request_def Let_def intro!: deactivate_ok split: request_cases)

lemma execute_ok:
  "registrations_ok (tw_registrations st) \<Longrightarrow>
   registrations_ok (tw_registrations (snd (executeTestWebhook env m p st)))"
  by (auto simp: executeTestWebhook_def Let_def intro!: after_request_ok split: request_cases)

text \<open>The registration that the loop makes of a webhook, and one round of the loop.\<close>

definition registration_of :: "string \<Rightarrow> WorkflowParameters \<Rightarrow> string option \<Rightarrow> string option \<Rightarrow> IWebhookData \<Rightarrow> TestWebhookRegistration" where
  "registration_of userId entity pushRef destination h =
     \<lparr>reg_pushRef = pushRef, reg_workflowEntity = entity, reg_destinationNode = destination,
      reg_webhook = h\<lparr>hook_path := removeTrailingSlash (hook_path h), hook_isTest := True, hook_userId := Some userId\<rparr>\<rparr>"

definition created_registration :: "IDataObject str_obj \<Rightarrow> TestWebhookRegistration \<Rightarrow> TestWebhookRegistration" where
  "created_registration d r = r\<lparr>reg_webhook := (reg_webhook r)\<lparr>hook_staticData := Some d\<rparr>\<rparr>"

lemma registration_key:
  "hook_key (reg_webhook (created_registration d r)) = hook_key (reg_webhook r)"
  "hook_isTest (reg_webhook (created_registration d r)) = hook_isTest (reg_webhook r)"
  "hook_isTest (reg_webhook (registration_of u e p dest h))"
  by (simp_all add: registration_of_def created_registration_def hook_key_def)

lemma register_hooks_cases:
  fixes env :: "('s, 'x) TestEnv_scheme"
  obtains (ran_before) "register_hooks env u e rn p dest t (h # hs) d st = (Inr False, st)"
  | (taken) "path_conflict u (wf_id (test_toWorkflow env e)) h (get_registration (hook_key h) st)"
      "register_hooks env u e rn p dest t (h # hs) d st = (Inl (WebhookPathTaken (hook_node h)), st)"
  | (created) d1 s1 where
      "tw_registrations s1 = str_put (hook_key (reg_webhook (registration_of u e p dest h)))
         (created_registration d1 (registration_of u e p dest h))
         (str_put (hook_key (reg_webhook (registration_of u e p dest h))) (registration_of u e p dest h) (tw_registrations st))"
      "register_hooks env u e rn p dest t (h # hs) d st = register_hooks env u e rn p dest t hs d1 s1"
  | (failed) d1 s1 er where
      "tw_registrations s1 = str_put (hook_key (reg_webhook (registration_of u e p dest h))) (registration_of u e p dest h)
         (tw_registrations st)"
      "fst (register_hooks env u e rn p dest t (h # hs) d st) = Inl (OtherTestError er)"
      "tw_registrations (snd (register_hooks env u e rn p dest t (h # hs) d st)) =
         tw_registrations (snd (deactivateWebhooks env (test_toWorkflow env e) d1 s1))"
proof -
  let ?R = "register_hooks env u e rn p dest t (h # hs) d st"
  let ?r = "registration_of u e p dest h" and ?w = "test_toWorkflow env e"
  let ?st1 = "register env ?r st"
  consider (a) "case rn of None \<Rightarrow> False | Some ns \<Rightarrow> hook_node h \<in> ns"
    | (b) "\<not> (case rn of None \<Rightarrow> False | Some ns \<Rightarrow> hook_node h \<in> ns)"
        "path_conflict u (wf_id ?w) h (get_registration (hook_key h) st)"
    | (c) "\<not> (case rn of None \<Rightarrow> False | Some ns \<Rightarrow> hook_node h \<in> ns)"
        "\<not> path_conflict u (wf_id ?w) h (get_registration (hook_key h) st)" by blast
  then show thesis
  proof cases
    case a
    then have "?R = (Inr False, st)" by (simp add: Let_def)
    then show thesis by (rule ran_before)
  next
    case b
    then have "?R = (Inl (WebhookPathTaken (hook_node h)), st)" by (simp add: Let_def)
    with b(2) show thesis by (rule taken)
  next
    case c
    obtain x d1 s1 where cr: "createWebhookIfNotExists (te_types env) (te_methods env) ?w
        (setup_of (reg_webhook ?r)) (d, tw_service ?st1) = (x, d1, s1)" by (metis prod.exhaust)
    show thesis
    proof (cases x)
      case (Inr y)
      let ?st2 = "register env (created_registration d1 ?r) (?st1\<lparr>tw_service := s1\<rparr>)"
      let ?st3 = "?st2\<lparr>tw_timeouts := str_put (hook_key h) t (tw_timeouts ?st2)\<rparr>"
      have "?R = register_hooks env u e rn p dest t hs d1 ?st3"
        using c cr Inr by (simp add: Let_def registration_of_def created_registration_def)
      then show thesis by (intro created[of ?st3 d1]) (simp_all add: registration_key)
    next
      case (Inl er)
      obtain y st2 where de: "deactivateWebhooks env ?w d1 (?st1\<lparr>tw_service := s1\<rparr>) = (y, st2)" by (metis prod.exhaust)
      with c cr Inl have "\<exists>er. fst ?R = Inl (OtherTestError er)" and "tw_registrations (snd ?R) = tw_registrations st2"
        by (auto simp: Let_def registration_of_def split: sum.split)
      then show thesis using de by (auto intro: failed[of "?st1\<lparr>tw_service := s1\<rparr>" _ d1])
    qed
  qed
qed

lemma register_hooks_ok:
  assumes "registrations_ok (tw_registrations st)"
  shows "registrations_ok (tw_registrations (snd (register_hooks env u e rn p dest t hs d st))) \<and>
    fst (register_hooks env u e rn p dest t hs d st) \<noteq> Inl (WebhookPathTaken n)"
  using assms
proof (induction hs arbitrary: d st)
  case (Cons h hs)
  have no: "\<not> path_conflict u (wf_id (test_toWorkflow env e)) h (get_registration (hook_key h) st)"
    using Cons.prems by (auto simp: path_conflict_def get_registration_def registrations_ok_def split: option.split)
  show ?case
  proof (cases rule: register_hooks_cases[of env u e rn p dest t h hs d st])
    case (created d1 s1)
    have "registrations_ok (tw_registrations s1)" unfolding created(1)
      by (metis Cons.prems registration_key registrations_ok_put)
    with Cons.IH show ?thesis unfolding created(2) by blast
  next
    case (failed d1 s1 er)
    have "registrations_ok (tw_registrations s1)" unfolding failed(1)
      by (intro registrations_ok_put Cons.prems registration_key)
    with failed(2,3) deactivate_ok[of s1] show ?thesis by simp
  qed (use Cons.prems no in simp_all)
qed simp

lemma needs_ok:
  assumes "registrations_ok (tw_registrations st)"
  shows "registrations_ok (tw_registrations (snd (needsWebhook env u e rn p dest st))) \<and>
    fst (needsWebhook env u e rn p dest st) \<noteq> Inl (WebhookPathTaken n)"
  using assms by (auto simp: needsWebhook_def Let_def register_hooks_ok split: sum.split)

section \<open>The process\<close>

definition no_test_hooks :: "'s \<Rightarrow> 's TestHooks" where
  "no_test_hooks s = \<lparr>tw_registrations = [], tw_ttl = None, tw_timeouts = [], tw_timers = [], tw_next_timer = 0,
     tw_messages = [], tw_published = [], tw_service = s\<rparr>"

text \<open>Operations in any order; in the setup with several processes the hash expires at some time.\<close>

inductive test_step :: "('s, 'x) TestEnv_scheme \<Rightarrow> 's TestHooks \<Rightarrow> 's TestHooks \<Rightarrow> bool" for env where
  needs: "test_step env st (snd (needsWebhook env u e rn p dest st))"
| request: "test_step env st (snd (executeTestWebhook env m path st))"
| cancel: "test_step env st (snd (cancelWebhook env delay i st))"
| timer: "test_step env st (test_timer_fires env delay t st)"
| command: "test_step env st (snd (clear_test_webhooks env k e p st))"
| expiry: "tw_ttl st \<noteq> None \<Longrightarrow> test_step env st (deregisterAll st)"

lemma test_step_ok:
  assumes "test_step env st st'" and "registrations_ok (tw_registrations st)"
  shows "registrations_ok (tw_registrations st')"
  using assms
proof cases
  case (timer delay t)
  with assms(2) show ?thesis by (auto simp: test_timer_fires_def cancelWebhook_def cancel_loop_ok split: option.split)
next
  case (command k e p)
  with assms(2) show ?thesis by (auto simp: clear_test_webhooks_def deactivate_ok)
qed (use assms(2) in \<open>simp_all add: needs_ok execute_ok cancelWebhook_def cancel_loop_ok deregisterAll_def\<close>)

interpretation registered: step_invariant "test_step env" "\<lambda>st. registrations_ok (tw_registrations st)" for env
  by unfold_locales (rule test_step_ok)

lemma reachable_ok:
  assumes "(test_step env)\<^sup>*\<^sup>* (no_test_hooks s) st"
  shows "registrations_ok (tw_registrations st)"
  using registered.inv_steps[OF assms] by (simp add: no_test_hooks_def)

text \<open>
  Whatever requests, cancellations, timers, commands and expirations came before, registering the
  webhooks of a manual execution never refuses a path as taken, not even one that another user's
  workflow is listening on: every registration is of a test webhook, which the check exempts.
\<close>

theorem test_path_never_taken:
  assumes "(test_step env)\<^sup>*\<^sup>* (no_test_hooks s) st"
  shows "fst (needsWebhook env userId entity rn pushRef destination st) \<noteq> Inl (WebhookPathTaken n)"
  using needs_ok[OF reachable_ok[OF assms]] by blast

section \<open>A registered workflow gets its requests\<close>

text \<open>Under key \<open>k\<close> there is a registration of one of the webhooks \<open>H\<close> of the workflow.\<close>

definition listening :: "WorkflowParameters \<Rightarrow> IWebhookData set \<Rightarrow> string \<Rightarrow> TestWebhookRegistration str_obj \<Rightarrow> bool" where
  "listening entity H k rs \<longleftrightarrow>
     (\<exists>r h. obj_get rs k = Some r \<and> h \<in> H \<and> reg_workflowEntity r = entity \<and> hook_key (reg_webhook r) = k \<and>
        hook_httpMethod (reg_webhook r) = hook_httpMethod h \<and> hook_node (reg_webhook r) = hook_node h \<and>
        hook_webhookId (reg_webhook r) = hook_webhookId h \<and> hook_path (reg_webhook r) = removeTrailingSlash (hook_path h))"

lemma listening_put:
  assumes "h \<in> H" and "r = registration_of u e p dest h \<or> r = created_registration d (registration_of u e p dest h)"
  shows "listening e H (hook_key (reg_webhook r)) (str_put (hook_key (reg_webhook r)) r rs)"
  using assms by (auto simp: listening_def registration_of_def created_registration_def intro!: bexI[of _ h] exI[of _ h])

lemma listening_keep:
  assumes "listening e H k rs" and "h \<in> H"
    and "r = registration_of u e p dest h \<or> r = created_registration d (registration_of u e p dest h)"
  shows "listening e H k (str_put (hook_key (reg_webhook r)) r rs)"
proof (cases "k = hook_key (reg_webhook r)")
  case True
  with listening_put[OF assms(2,3)] show ?thesis by simp
next
  case False
  with assms(1) show ?thesis by (simp add: listening_def)
qed

lemma register_hooks_listening:
  assumes "fst (register_hooks env u e rn p dest t hs d st) = Inr True" and "set hs \<subseteq> H"
  shows "(\<forall>k. listening e H k (tw_registrations st) \<longrightarrow>
            listening e H k (tw_registrations (snd (register_hooks env u e rn p dest t hs d st)))) \<and>
         (\<forall>h \<in> set hs. listening e H (hook_key (reg_webhook (registration_of u e p dest h)))
            (tw_registrations (snd (register_hooks env u e rn p dest t hs d st))))"
  using assms
proof (induction hs arbitrary: d st)
  case (Cons h hs)
  let ?r = "registration_of u e p dest h"
  show ?case
  proof (cases rule: register_hooks_cases[of env u e rn p dest t h hs d st])
    case (created d1 s1)
    from Cons.prems have h: "h \<in> H" by simp
    let ?r1 = "created_registration d1 ?r"
    have s1: "tw_registrations s1 = str_put (hook_key (reg_webhook ?r1)) ?r1 (str_put (hook_key (reg_webhook ?r)) ?r (tw_registrations st))"
      using created(1) by (simp add: registration_key)
    have keep: "listening e H k (tw_registrations s1)" if "listening e H k (tw_registrations st)" for k
      unfolding s1 by (intro listening_keep[OF _ h] that) blast+
    have "listening e H (hook_key (reg_webhook ?r1)) (tw_registrations s1)"
      unfolding s1 by (intro listening_put[OF h]) blast
    then have new: "listening e H (hook_key (reg_webhook ?r)) (tw_registrations s1)" by (simp add: registration_key)
    from Cons.IH[of d1 s1] Cons.prems created(2) keep new show ?thesis by simp
  qed (use Cons.prems(1) in simp_all)
qed simp

lemma needs_listening:
  assumes "needsWebhook env u e rn p dest st = (Inr True, st')"
    and "getWorkflowWebhooks (te_evaluate env) (te_descriptions env) (test_toWorkflow env e) dest True = Inr hs" and "h \<in> set hs"
  shows "listening e (set hs) (hook_key (reg_webhook (registration_of u e p dest h))) (tw_registrations st')"
proof -
  let ?st1 = "st\<lparr>tw_timers := tw_timers st @ [(tw_next_timer st, wf_id (test_toWorkflow env e))], tw_next_timer := tw_next_timer st + 1\<rparr>"
  have "register_hooks env u e rn p dest (tw_next_timer st) hs [] ?st1 = (Inr True, st')"
    using assms(1,2) by (simp add: needsWebhook_def Let_def split: if_splits)
  then show ?thesis using register_hooks_listening[of env u e rn p dest "tw_next_timer st" hs "[]" ?st1 "set hs"] assms(3) by simp
qed

text \<open>Keys without bars in their parts tell the method and the path.\<close>

lemma toKey_static: "\<not> truthy_id i \<Longrightarrow> toKey m p i = m @ bar # p"
  by (cases i; cases "the i") (auto simp: toKey_def truthy_id_def)

lemma one_bar:
  assumes "m @ bar # p = m' @ bar # p'" and "bar \<notin> set m" and "bar \<notin> set p"
  shows "m' = m \<and> p' = p"
  using assms by (induction m arbitrary: m') (auto simp: Cons_eq_append_conv append_eq_Cons_conv)

lemma toKey_static_inject:
  assumes "toKey m' p' i = m @ bar # p" and "bar \<notin> set m" and "bar \<notin> set p"
  shows "m' = m \<and> p' = p \<and> \<not> truthy_id i"
proof (cases "truthy_id i")
  case True
  then obtain c cs where "i = Some (c # cs)" by (cases i; cases "the i") (auto simp: truthy_id_def)
  then obtain q where "toKey m' p' i = m' @ bar # (c # cs) @ bar # q" by (auto simp: toKey_def Let_def)
  with assms one_bar[of m p m' "(c # cs) @ bar # q"] have "p = (c # cs) @ bar # q" by simp
  with assms(3) show ?thesis by simp
next
  case False
  with assms one_bar[of m p m' p'] show ?thesis by (simp add: toKey_static)
qed

text \<open>
  Once registering the webhooks of a manual execution has answered true, a request to the path of
  any of its webhooks that has no variable is given to that path of this workflow, whoever listened
  on it before.
\<close>

theorem test_webhook_gets_request:
  assumes "needsWebhook env userId entity ran_nodes pushRef destination st = (Inr True, st')"
    and "getWorkflowWebhooks (te_evaluate env) (te_descriptions env) (test_toWorkflow env entity) destination True = Inr webhooks"
    and "h \<in> set webhooks" and "\<not> truthy_id (hook_webhookId h)" and "path = removeTrailingSlash (hook_path h)"
    and "bar \<notin> set (hook_httpMethod h)" and "bar \<notin> set path"
  shows "\<exists>v r. find_test_webhook (hook_httpMethod h) path st' = Inr (v, path, []) \<and> hook_path v = path \<and>
    hook_httpMethod v = hook_httpMethod h \<and> get_registration (hook_key v) st' = Some r \<and>
    reg_workflowEntity r = entity \<and> reg_webhook r = v"
proof -
  have k: "hook_key (reg_webhook (registration_of userId entity pushRef destination h)) = hook_httpMethod h @ bar # path"
    using assms(4,5) by (simp add: registration_of_def hook_key_def toKey_static)
  from needs_listening[OF assms(1-3)] obtain r where
    r: "obj_get (tw_registrations st') (hook_httpMethod h @ bar # path) = Some r" "reg_workflowEntity r = entity"
      "hook_key (reg_webhook r) = hook_httpMethod h @ bar # path"
    unfolding k listening_def by blast
  let ?v = "reg_webhook r"
  have v: "hook_path ?v = path" "hook_httpMethod ?v = hook_httpMethod h"
    using toKey_static_inject[of _ _ _ "hook_httpMethod h" path] r(3) assms(6,7) by (simp_all add: hook_key_def)
  have "getActiveWebhook (hook_httpMethod h) path None st' = Some ?v"
    using r(1) v(1) by (auto simp: getActiveWebhook_def get_registration_def toKey_static truthy_id_def Let_def list_all_iff)
  with r v show ?thesis by (auto simp: find_test_webhook_def get_registration_def)
qed

section \<open>What deactivating one workflow does to the others\<close>

text \<open>
  When the webhooks of a workflow are deactivated without an error, no registration of any
  workflow is left, and a request to another workflow's test webhook is not found any more.
\<close>

theorem deactivation_reaches_others:
  assumes "deactivateWebhooks env w d st = (Inr (), st')" and "webhooks_of (wf_id w) st \<noteq> []"
  shows "tw_registrations st' = [] \<and> find_test_webhook m path st' = Inl (NoTestWebhook path None)"
proof -
  from assms have "tw_registrations st' = []"
    by (auto simp: deactivateWebhooks_def deregisterAll_def webhooks_of_def split: if_splits prod.splits sum.splits)
  then show ?thesis
    by (simp add: find_test_webhook_def getActiveWebhook_def get_registration_def not_found_def test_getWebhookMethods_def
        getAllKeys_def obj_keys_def)
qed

text \<open>A webhook of a node that already has run data: the answer is false, but the timer stays armed.\<close>

lemma timer_left_armed:
  assumes "par_id entity \<noteq> []" and "hook_node h \<in> ns"
    and "getWorkflowWebhooks (te_evaluate env) (te_descriptions env) (test_toWorkflow env entity) dest True = Inr (h # hs)"
    and "wd_restartWebhook (hook_description h) \<noteq> JBool True"
  shows "fst (needsWebhook env u entity (Some ns) p dest st) = Inr False \<and>
    (tw_next_timer st, par_id entity) \<in> set (tw_timers (snd (needsWebhook env u entity (Some ns) p dest st)))"
  using assms by (simp add: needsWebhook_def Let_def test_toWorkflow_def newWorkflow_def)

section \<open>Two workflows on one path\<close>

definition sample_description :: IWebhookDescription where
  "sample_description = \<lparr>wd_name = ''default'', wd_httpMethod = JStr ''GET'', wd_path = JStr ''p'', wd_isFullPath = JBool True,
     wd_restartWebhook = JUndef\<rparr>"

definition sample_test_env :: "unit TestEnv" where
  "sample_test_env = \<lparr>te_types = sample_types, te_defaults = (\<lambda>_ n. Some (parameters n)), te_methods = (\<lambda>_ _ _. None),
     te_evaluate = (\<lambda>_ v. Inr v), te_descriptions = (\<lambda>ty _. if ty = ''trigger'' then Some (Some [sample_description]) else Some None),
     te_multiMain = False, te_hasPushRef = (\<lambda>_. True), te_handle = (\<lambda>_ _ _ _ _ s. (Inr (Some ''7''), s))\<rparr>"

definition sample_entity :: "string \<Rightarrow> WorkflowParameters" where
  "sample_entity i = \<lparr>par_id = i, par_name = None, par_nodes = [(mk_node ''W'' ''trigger'')\<lparr>webhookId := Some ''u''\<rparr>],
     par_connections = [], par_active = False, par_staticData = None, par_order = None, par_pinData = None\<rparr>"

definition sample_listening :: "unit TestHooks" where
  "sample_listening = snd (needsWebhook sample_test_env ''alice'' (sample_entity ''1'') None (Some ''ref'') None (no_test_hooks ()))"

theorem test_path_never_taken_witness:
  "fst (needsWebhook sample_test_env ''bob'' (sample_entity ''2'') None None None sample_listening) \<noteq> Inl (WebhookPathTaken ''W'')"
proof (rule test_path_never_taken)
  show "(test_step sample_test_env)\<^sup>*\<^sup>* (no_test_hooks ()) sample_listening"
    unfolding sample_listening_def by (intro r_into_rtranclp test_step.needs)
qed

definition sample_test_hook :: IWebhookData where
  "sample_test_hook = \<lparr>hook_httpMethod = ''GET'', hook_node = ''W'', hook_path = ''p'', hook_description = sample_description,
     hook_workflowId = ''2'', hook_webhookId = None, hook_isTest = False, hook_userId = None, hook_staticData = None\<rparr>"

definition sample_taken_over :: "unit TestHooks" where
  "sample_taken_over = snd (needsWebhook sample_test_env ''bob'' (sample_entity ''2'') None None None sample_listening)"

theorem test_webhook_gets_request_witness:
  "\<exists>v (r :: TestWebhookRegistration). find_test_webhook ''GET'' ''p'' sample_taken_over = Inr (v, ''p'', []) \<and> reg_workflowEntity r = sample_entity ''2'' \<and>
     reg_webhook r = v"
proof -
  have a: "needsWebhook sample_test_env ''bob'' (sample_entity ''2'') None None None sample_listening = (Inr True, sample_taken_over)"
    by code_simp
  have b: "getWorkflowWebhooks (te_evaluate sample_test_env) (te_descriptions sample_test_env)
      (test_toWorkflow sample_test_env (sample_entity ''2'')) None True = Inr [sample_test_hook]"
    by code_simp
  have m: "hook_httpMethod sample_test_hook = ''GET''" by (simp add: sample_test_hook_def)
  have c: "sample_test_hook \<in> set [sample_test_hook]" by simp
  have d: "\<not> truthy_id (hook_webhookId sample_test_hook)" by code_simp
  have e: "''p'' = removeTrailingSlash (hook_path sample_test_hook)" by code_simp
  have f: "bar \<notin> set (hook_httpMethod sample_test_hook)" by code_simp
  have g: "bar \<notin> set ''p''" by code_simp
  from test_webhook_gets_request[OF a b c d e f g] show ?thesis unfolding m by (elim exE conjE) (intro exI conjI, assumption+)
qed

definition sample_other :: "unit TestHooks" where
  "sample_other = register sample_test_env (registration_of ''carol'' (sample_entity ''3'') None None
     (sample_test_hook\<lparr>hook_workflowId := ''3'', hook_path := ''q''\<rparr>)) sample_listening"

theorem deactivation_reaches_others_witness:
  "(\<exists>v. find_test_webhook ''GET'' ''q'' sample_other = Inr (v, ''q'', [])) \<and>
   find_test_webhook ''GET'' ''q''
     (snd (deactivateWebhooks sample_test_env (test_toWorkflow sample_test_env (sample_entity ''1'')) [] sample_other)) =
     Inl (NoTestWebhook ''q'' None)"
proof
  let ?w = "test_toWorkflow sample_test_env (sample_entity ''1'')"
  show "\<exists>v. find_test_webhook ''GET'' ''q'' sample_other = Inr (v, ''q'', [])"
    by (rule exI[of _ "reg_webhook (registration_of ''carol'' (sample_entity ''3'') None None
          (sample_test_hook\<lparr>hook_workflowId := ''3'', hook_path := ''q''\<rparr>))"]) code_simp
  have "fst (deactivateWebhooks sample_test_env ?w [] sample_other) = Inr ()" by code_simp
  then have "deactivateWebhooks sample_test_env ?w [] sample_other =
      (Inr (), snd (deactivateWebhooks sample_test_env ?w [] sample_other))" by (simp add: prod_eq_iff)
  moreover have "webhooks_of (wf_id ?w) sample_other \<noteq> []" by code_simp
  ultimately show "find_test_webhook ''GET'' ''q'' (snd (deactivateWebhooks sample_test_env ?w [] sample_other)) =
      Inl (NoTestWebhook ''q'' None)"
    by (rule deactivation_reaches_others[THEN conjunct2])
qed

end
