(* ===== verification/LeaderElection.thy ===== *)
theory LeaderElection
  imports Prelude
begin

text \<open>
  The election of a leader among several main processes
  (packages/cli/src/services/orchestration/main/multi-main-setup.ee.ts, the commands of
  services/redis/redis-service-pub-sub-publisher.ts it uses and the role of core/src/InstanceSettings.ts).
  A check is a task that stops at every command to Redis; tasks of all processes interleave.
\<close>

section \<open>The key and the processes\<close>

datatype InstanceRole = RoleUnset | RoleLeader | RoleFollower

datatype MultiMainEvent = LeaderStepdown | LeaderTakeover

text \<open>
  Where a task waits: for the code behind the answer to \<open>get\<close>, \<open>expire\<close> of a renewal, \<open>setnx\<close>,
  for the code behind its answer, and for \<open>expire\<close> of a new leader.
\<close>

datatype main_task = GotKey "string option" | Renewing | Claiming | Claimed bool | Expiring

datatype main_phase = NotStarted | Running | Clearing | Stopped | Crashed

text \<open>The interval of checks: not yet set, running or cleared.\<close>

record MainInstance =
  instanceRole :: InstanceRole
  main_phase :: main_phase
  leaderCheckInterval :: "bool option"
  tasks :: "main_task list"
  main_events :: "MultiMainEvent list"

text \<open>The leader key in Redis with the seconds it has left; none for a key that does not expire.\<close>

record Cluster =
  leaderKey :: "string option"
  keyTtl :: "nat option"
  mains :: "string \<Rightarrow> MainInstance"

definition new_main :: MainInstance where
  "new_main = \<lparr>instanceRole = RoleUnset, main_phase = NotStarted, leaderCheckInterval = None, tasks = [], main_events = []\<rparr>"

definition new_cluster :: Cluster where
  "new_cluster = \<lparr>leaderKey = None, keyTtl = None, mains = (\<lambda>_. new_main)\<rparr>"

definition isLeader :: "MainInstance \<Rightarrow> bool" where
  "isLeader m = (instanceRole m = RoleLeader)"

definition markAsLeader :: "MainInstance \<Rightarrow> MainInstance" where
  "markAsLeader m = m\<lparr>instanceRole := RoleLeader\<rparr>"

definition markAsFollower :: "MainInstance \<Rightarrow> MainInstance" where
  "markAsFollower m = m\<lparr>instanceRole := RoleFollower\<rparr>"

definition emit :: "MultiMainEvent \<Rightarrow> MainInstance \<Rightarrow> MainInstance" where
  "emit e m = m\<lparr>main_events := main_events m @ [e]\<rparr>"

definition on_main :: "string \<Rightarrow> (MainInstance \<Rightarrow> MainInstance) \<Rightarrow> Cluster \<Rightarrow> Cluster" where
  "on_main i f s = s\<lparr>mains := (mains s)(i := f (mains s i))\<rparr>"

definition end_task :: "main_task \<Rightarrow> MainInstance \<Rightarrow> MainInstance" where
  "end_task t m = m\<lparr>tasks := remove1 t (tasks m)\<rparr>"

definition next_task :: "main_task \<Rightarrow> main_task \<Rightarrow> MainInstance \<Rightarrow> MainInstance" where
  "next_task t t' m = m\<lparr>tasks := t' # remove1 t (tasks m)\<rparr>"

section \<open>Redis\<close>

definition setIfNotExists :: "string \<Rightarrow> Cluster \<Rightarrow> bool \<times> Cluster" where
  "setIfNotExists v s =
     (if leaderKey s = None then (True, s\<lparr>leaderKey := Some v, keyTtl := None\<rparr>) else (False, s))"

definition setExpiration :: "nat \<Rightarrow> Cluster \<Rightarrow> Cluster" where
  "setExpiration ttl s = (if leaderKey s = None then s else s\<lparr>keyTtl := Some ttl\<rparr>)"

definition clear_key :: "Cluster \<Rightarrow> Cluster" where
  "clear_key s = s\<lparr>leaderKey := None, keyTtl := None\<rparr>"

text \<open>A second passes; a key with nothing left is gone.\<close>

definition second_passes :: "Cluster \<Rightarrow> Cluster" where
  "second_passes s =
     (case keyTtl s of
        None \<Rightarrow> s
      | Some n \<Rightarrow> (if n \<le> 1 then clear_key s else s\<lparr>keyTtl := Some (n - 1)\<rparr>))"

section \<open>The operations, up to the next command\<close>

definition init_main :: "string \<Rightarrow> Cluster \<Rightarrow> Cluster" where
  "init_main i s = on_main i (\<lambda>m. m\<lparr>main_phase := Running, tasks := Claiming # tasks m\<rparr>) s"

text \<open>A check begins: the interval has come, and Redis answers \<open>get\<close>.\<close>

definition read_key :: "string \<Rightarrow> Cluster \<Rightarrow> Cluster" where
  "read_key i s = on_main i (\<lambda>m. m\<lparr>tasks := GotKey (leaderKey s) # tasks m\<rparr>) s"

definition act_on_key :: "string \<Rightarrow> string option \<Rightarrow> Cluster \<Rightarrow> Cluster" where
  "act_on_key i leaderId s =
     on_main i (\<lambda>m.
       if leaderId = Some i then next_task (GotKey leaderId) Renewing m
       else if leaderId \<noteq> None \<and> leaderId \<noteq> Some []
       then end_task (GotKey leaderId) (if isLeader m then emit LeaderStepdown (markAsFollower m) else m)
       else next_task (GotKey leaderId) Claiming (emit LeaderStepdown (markAsFollower m))) s"

definition renew_key :: "nat \<Rightarrow> string \<Rightarrow> Cluster \<Rightarrow> Cluster" where
  "renew_key ttl i s = on_main i (end_task Renewing) (setExpiration ttl s)"

definition claim_key :: "string \<Rightarrow> Cluster \<Rightarrow> Cluster" where
  "claim_key i s = (let (b, s1) = setIfNotExists i s in on_main i (next_task Claiming (Claimed b)) s1)"

text \<open>At the end of its first attempt a process starts the interval.\<close>

definition start_interval :: "MainInstance \<Rightarrow> MainInstance" where
  "start_interval m =
     (if leaderCheckInterval m = None then m\<lparr>leaderCheckInterval := Some True\<rparr> else m)"

definition act_on_claim :: "string \<Rightarrow> bool \<Rightarrow> Cluster \<Rightarrow> Cluster" where
  "act_on_claim i keySetSuccessfully s =
     on_main i (\<lambda>m.
       if keySetSuccessfully then next_task (Claimed True) Expiring (markAsLeader m)
       else start_interval (end_task (Claimed False) (markAsFollower m))) s"

definition expire_key :: "nat \<Rightarrow> string \<Rightarrow> Cluster \<Rightarrow> Cluster" where
  "expire_key ttl i s =
     on_main i (\<lambda>m. start_interval (end_task Expiring (emit LeaderTakeover m))) (setExpiration ttl s)"

definition shutdown_main :: "string \<Rightarrow> Cluster \<Rightarrow> Cluster" where
  "shutdown_main i s =
     on_main i (\<lambda>m. m\<lparr>leaderCheckInterval := (if leaderCheckInterval m = None then None else Some False),
                     main_phase := (if isLeader m then Clearing else Stopped)\<rparr>) s"

definition clear_leader :: "string \<Rightarrow> Cluster \<Rightarrow> Cluster" where
  "clear_leader i s = on_main i (\<lambda>m. m\<lparr>main_phase := Stopped\<rparr>) (clear_key s)"

definition crash_main :: "string \<Rightarrow> Cluster \<Rightarrow> Cluster" where
  "crash_main i s =
     on_main i (\<lambda>m. m\<lparr>main_phase := Crashed, leaderCheckInterval := Some False, tasks := []\<rparr>) s"

text \<open>The whole operations, when nothing comes between their commands.\<close>

definition tryBecomeLeader :: "nat \<Rightarrow> string \<Rightarrow> Cluster \<Rightarrow> Cluster" where
  "tryBecomeLeader ttl i s =
     (if fst (setIfNotExists i s) then expire_key ttl i (act_on_claim i True (claim_key i s))
      else act_on_claim i False (claim_key i s))"

definition checkLeader :: "nat \<Rightarrow> string \<Rightarrow> Cluster \<Rightarrow> Cluster" where
  "checkLeader ttl i s =
     (let s1 = act_on_key i (leaderKey s) (read_key i s)
      in if leaderKey s = Some i then renew_key ttl i s1
         else if leaderKey s \<noteq> None \<and> leaderKey s \<noteq> Some [] then s1
         else tryBecomeLeader ttl i s1)"

section \<open>Steps\<close>

text \<open>\<open>expires\<close> says whether time may pass.\<close>

inductive main_step :: "nat \<Rightarrow> bool \<Rightarrow> Cluster \<Rightarrow> Cluster \<Rightarrow> bool" for ttl expires where
  step_init: "main_phase (mains s i) = NotStarted \<Longrightarrow> main_step ttl expires s (init_main i s)"
| step_read: "leaderCheckInterval (mains s i) = Some True \<Longrightarrow> main_step ttl expires s (read_key i s)"
| step_act: "GotKey v \<in> set (tasks (mains s i)) \<Longrightarrow> main_step ttl expires s (act_on_key i v s)"
| step_renew: "Renewing \<in> set (tasks (mains s i)) \<Longrightarrow> main_step ttl expires s (renew_key ttl i s)"
| step_claim: "Claiming \<in> set (tasks (mains s i)) \<Longrightarrow> main_step ttl expires s (claim_key i s)"
| step_claimed: "Claimed b \<in> set (tasks (mains s i)) \<Longrightarrow> main_step ttl expires s (act_on_claim i b s)"
| step_expire: "Expiring \<in> set (tasks (mains s i)) \<Longrightarrow> main_step ttl expires s (expire_key ttl i s)"
| step_shutdown: "main_phase (mains s i) = Running \<Longrightarrow> main_step ttl expires s (shutdown_main i s)"
| step_clear: "main_phase (mains s i) = Clearing \<Longrightarrow> main_step ttl expires s (clear_leader i s)"
| step_crash: "main_phase (mains s i) \<notin> {NotStarted, Crashed} \<Longrightarrow> main_step ttl expires s (crash_main i s)"
| step_second: "expires \<Longrightarrow> main_step ttl expires s (second_passes s)"

lemma on_main_simps [simp]:
  "leaderKey (on_main i f s) = leaderKey s" "keyTtl (on_main i f s) = keyTtl s"
  "mains (on_main i f s) j = (if j = i then f (mains s i) else mains s j)"
  by (simp_all add: on_main_def)

lemma redis_simps [simp]:
  "leaderKey (setExpiration ttl s) = leaderKey s" "mains (setExpiration ttl s) = mains s"
  "keyTtl (setExpiration ttl s) = (if leaderKey s = None then keyTtl s else Some ttl)"
  "leaderKey (clear_key s) = None" "mains (clear_key s) = mains s" "keyTtl (clear_key s) = None"
  "mains (snd (setIfNotExists i s)) = mains s" "fst (setIfNotExists i s) \<longleftrightarrow> leaderKey s = None"
  "leaderKey (snd (setIfNotExists i s)) = (if leaderKey s = None then Some i else leaderKey s)"
  "keyTtl (snd (setIfNotExists i s)) = (if leaderKey s = None then None else keyTtl s)"
  by (simp_all add: setExpiration_def clear_key_def setIfNotExists_def)

lemma claim_key_simps [simp]:
  "leaderKey (claim_key i s) = (if leaderKey s = None then Some i else leaderKey s)"
  "keyTtl (claim_key i s) = (if leaderKey s = None then None else keyTtl s)"
  "mains (claim_key i s) j = (if j = i then next_task Claiming (Claimed (leaderKey s = None)) (mains s i) else mains s j)"
  by (auto simp: claim_key_def setIfNotExists_def)

lemmas main_ops = init_main_def read_key_def act_on_key_def renew_key_def act_on_claim_def expire_key_def
  shutdown_main_def clear_leader_def crash_main_def

lemmas main_fields = isLeader_def markAsLeader_def markAsFollower_def emit_def end_task_def next_task_def start_interval_def

end
