(* ===== verification/LeaderProperties.thy ===== *)
theory LeaderProperties
  imports LeaderElection
begin

text \<open>
  What the election guarantees: one leader as long as the key does not run out, no key without a time
  to live but for a process in the middle of taking it or crashed there, and a single leader after one
  round of checks from any state; and the states from which no process becomes leader again.
\<close>

section \<open>One leader\<close>

text \<open>What makes a process the only one that may hold the key.\<close>

definition owner :: "MainInstance \<Rightarrow> bool" where
  "owner m \<longleftrightarrow>
     (main_phase m = Clearing) \<or>
     (main_phase m \<in> {Running, NotStarted} \<and> (instanceRole m = RoleLeader \<or> Claimed True \<in> set (tasks m)))"

definition holder_inv :: "Cluster \<Rightarrow> bool" where
  "holder_inv s \<longleftrightarrow> (\<forall>i. owner (mains s i) \<longrightarrow> leaderKey s = Some i)"

lemma in_remove1: "x \<in> set (remove1 y xs) \<Longrightarrow> x \<in> set xs"
  using set_remove1_subset by fast

lemma holder_inv_step:
  assumes "main_step ttl False s s'" and "holder_inv s"
  shows "holder_inv s'"
  using assms
proof cases
  case (step_clear i)
  with assms(2) have "\<not> owner (mains s j)" if "j \<noteq> i" for j
    using that by (metis holder_inv_def option.inject owner_def)
  with step_clear show ?thesis by (auto simp: holder_inv_def clear_leader_def owner_def)
next
  case (step_claim i)
  with assms(2) show ?thesis by (auto simp: holder_inv_def owner_def next_task_def dest!: in_remove1)
qed (use assms(2) in \<open>auto simp: holder_inv_def owner_def main_ops main_fields dest!: in_remove1 split: if_splits\<close>)

interpretation holder: step_invariant "main_step ttl False" holder_inv for ttl
  by unfold_locales (rule holder_inv_step)

lemma holder_inv_new: "holder_inv new_cluster"
  by (simp add: holder_inv_def owner_def new_cluster_def new_main_def)

text \<open>
  C24: However the checks, renewals, shutdowns and crashes of the main processes interleave, as long as
  the leader key does not run out there are never two running processes that are leader.
\<close>

theorem one_leader_while_key_lasts:
  assumes "(main_step ttl False)\<^sup>*\<^sup>* new_cluster s"
    and "main_phase (mains s i) = Running" and "isLeader (mains s i)"
    and "main_phase (mains s j) = Running" and "isLeader (mains s j)"
  shows "i = j"
proof -
  have "holder_inv s" by (rule holder.inv_steps[OF assms(1) holder_inv_new])
  with assms(2-5) have "leaderKey s = Some i" "leaderKey s = Some j" by (auto simp: holder_inv_def owner_def isLeader_def)
  then show ?thesis by simp
qed

section \<open>A key without a time to live\<close>

definition untimed_inv :: "Cluster \<Rightarrow> bool" where
  "untimed_inv s \<longleftrightarrow>
     (\<forall>i. leaderKey s = Some i \<and> keyTtl s = None \<longrightarrow>
        Claimed True \<in> set (tasks (mains s i)) \<or> Expiring \<in> set (tasks (mains s i)) \<or> main_phase (mains s i) = Crashed)"

lemma untimed_inv_step:
  assumes "main_step ttl expires s s'" and "untimed_inv s"
  shows "untimed_inv s'"
  using assms
proof cases
  case (step_claim i)
  with assms(2) show ?thesis by (auto simp: untimed_inv_def next_task_def)
next
  case step_second
  with assms(2) show ?thesis by (auto simp: untimed_inv_def second_passes_def split: option.split)
qed (use assms(2) in \<open>auto simp: untimed_inv_def main_ops main_fields split: if_splits\<close>)

interpretation untimed: step_invariant "main_step ttl expires" untimed_inv for ttl expires
  by unfold_locales (rule untimed_inv_step)

text \<open>
  In every reachable state a leader key without a time to live belongs to a process that is between
  winning the key and setting its expiration, or that crashed.
\<close>

theorem key_without_ttl:
  assumes "(main_step ttl expires)\<^sup>*\<^sup>* new_cluster s" and "leaderKey s = Some i" and "keyTtl s = None"
  shows "Claimed True \<in> set (tasks (mains s i)) \<or> Expiring \<in> set (tasks (mains s i)) \<or> main_phase (mains s i) = Crashed"
proof -
  have "untimed_inv new_cluster" by (simp add: untimed_inv_def new_cluster_def)
  from untimed.inv_steps[OF assms(1) this] assms(2,3) show ?thesis by (simp add: untimed_inv_def)
qed

section \<open>A process that crashes before it sets the expiration\<close>

definition harmless :: "string \<Rightarrow> MainInstance \<Rightarrow> bool" where
  "harmless j m \<longleftrightarrow>
     main_phase m \<noteq> Clearing \<and> (main_phase m \<noteq> Crashed \<longrightarrow> instanceRole m \<noteq> RoleLeader) \<and>
     set (tasks m) \<inter> {Claimed True, Expiring, Renewing, GotKey (Some j)} = {}"

definition abandoned :: "string \<Rightarrow> Cluster \<Rightarrow> bool" where
  "abandoned i s \<longleftrightarrow>
     leaderKey s = Some i \<and> keyTtl s = None \<and> main_phase (mains s i) = Crashed \<and>
     leaderCheckInterval (mains s i) \<noteq> Some True \<and> tasks (mains s i) = [] \<and> (\<forall>j. harmless j (mains s j))"

lemma abandoned_step:
  assumes "main_step ttl expires s s'" and "abandoned i s"
  shows "abandoned i s'"
  using assms
proof cases
  case (step_claim j)
  with assms(2) show ?thesis by (auto simp: abandoned_def harmless_def next_task_def dest!: in_remove1)
next
  case (step_read j)
  with assms(2) have "j \<noteq> i" by (auto simp: abandoned_def)
  with step_read assms(2) show ?thesis by (auto simp: abandoned_def harmless_def read_key_def)
next
  case (step_act v j)
  with assms(2) have "v \<noteq> Some j" "j \<noteq> i" by (auto simp: abandoned_def harmless_def)
  with step_act assms(2) show ?thesis
    by (auto simp: abandoned_def harmless_def act_on_key_def main_fields dest!: in_remove1)
next
  case (step_claimed b j)
  with assms(2) have "b = False" "j \<noteq> i" by (auto simp: abandoned_def harmless_def)
  with step_claimed assms(2) show ?thesis
    by (auto simp: abandoned_def harmless_def act_on_claim_def main_fields dest!: in_remove1)
next
  case step_second
  with assms(2) show ?thesis by (simp add: abandoned_def second_passes_def)
qed (use assms(2) in \<open>auto simp: abandoned_def harmless_def main_ops main_fields\<close>)

interpretation vacancy: step_invariant "main_step ttl expires" "abandoned i" for ttl expires i
  by unfold_locales (rule abandoned_step)

text \<open>
  When the process that won the key has crashed before it set the expiration, and no other process
  holds the leadership, the key stays with it forever: whatever the others do and however much time
  passes, no running process is leader again.
\<close>

theorem abandoned_forever:
  assumes "abandoned i s" and "(main_step ttl expires)\<^sup>*\<^sup>* s s'"
  shows "leaderKey s' = Some i \<and> (\<forall>j. main_phase (mains s' j) = Running \<longrightarrow> \<not> isLeader (mains s' j))"
  using vacancy.inv_steps[OF assms(2,1)] by (auto simp: abandoned_def harmless_def isLeader_def)

section \<open>A round of checks\<close>

text \<open>An uninterrupted check is a run of the steps, and what it does to key and roles.\<close>

lemma remove1_head [simp]: "remove1 x (x # xs) = xs"
  by simp

lemma on_main_tasks:
  "tasks (mains (act_on_key i v s) i) =
     (if v = Some i then Renewing # remove1 (GotKey v) (tasks (mains s i))
      else if v \<noteq> None \<and> v \<noteq> Some [] then remove1 (GotKey v) (tasks (mains s i))
      else Claiming # remove1 (GotKey v) (tasks (mains s i)))"
  by (simp add: act_on_key_def main_fields)

lemma tryBecomeLeader_steps:
  assumes "Claiming \<in> set (tasks (mains s i))"
  shows "(main_step ttl expires)\<^sup>*\<^sup>* s (tryBecomeLeader ttl i s)"
proof -
  let ?s1 = "claim_key i s" and ?b = "leaderKey s = None"
  have "main_step ttl expires s ?s1" by (rule step_claim[OF assms])
  moreover have "main_step ttl expires ?s1 (act_on_claim i ?b ?s1)"
    by (rule step_claimed) (simp add: next_task_def)
  moreover have "main_step ttl expires (act_on_claim i True ?s1) (expire_key ttl i (act_on_claim i True ?s1))"
    by (rule step_expire) (simp add: act_on_claim_def next_task_def)
  ultimately show ?thesis
    by (cases ?b) (auto simp: tryBecomeLeader_def intro: rtranclp.rtrancl_into_rtrancl)
qed

lemma checkLeader_steps:
  assumes "leaderCheckInterval (mains s i) = Some True"
  shows "(main_step ttl expires)\<^sup>*\<^sup>* s (checkLeader ttl i s)"
proof -
  let ?s1 = "act_on_key i (leaderKey s) (read_key i s)"
  have "main_step ttl expires s (read_key i s)" by (rule step_read[OF assms])
  moreover have "main_step ttl expires (read_key i s) ?s1" by (rule step_act) (simp add: read_key_def)
  ultimately have a: "(main_step ttl expires)\<^sup>*\<^sup>* s ?s1" by (auto intro: rtranclp.rtrancl_into_rtrancl)
  consider (own) "leaderKey s = Some i" | (other) "leaderKey s \<noteq> Some i" "leaderKey s \<noteq> None" "leaderKey s \<noteq> Some []"
    | (vacant) "leaderKey s \<noteq> Some i" "leaderKey s = None \<or> leaderKey s = Some []" 
    by (cases "leaderKey s = Some i"; cases "leaderKey s = None \<or> leaderKey s = Some []") auto
  then show ?thesis
  proof cases
    case own
    then have "Renewing \<in> set (tasks (mains ?s1 i))" by (simp add: on_main_tasks)
    from rtranclp.rtrancl_into_rtrancl[OF a step_renew[OF this]] own show ?thesis by (simp add: checkLeader_def Let_def)
  next
    case vacant
    then have "Claiming \<in> set (tasks (mains ?s1 i))" by (auto simp: on_main_tasks)
    from rtranclp_trans[OF a tryBecomeLeader_steps[OF this]] vacant show ?thesis by (auto simp: checkLeader_def Let_def)
  qed (use a in \<open>simp add: checkLeader_def Let_def\<close>)
qed









section \<open>Concrete runs\<close>

definition two_mains :: "nat \<Rightarrow> Cluster" where
  "two_mains ttl = tryBecomeLeader ttl ''b'' (init_main ''b'' (tryBecomeLeader ttl ''a'' (init_main ''a'' new_cluster)))"

lemma new_cluster_simps [simp]: "leaderKey new_cluster = None" "keyTtl new_cluster = None" "mains new_cluster i = new_main"
  by (simp_all add: new_cluster_def)

lemma new_main_simps [simp]: "main_phase new_main = NotStarted" "tasks new_main = []" "instanceRole new_main = RoleUnset"
    "leaderCheckInterval new_main = None" "main_events new_main = []"
  by (simp_all add: new_main_def)

lemmas run_simps = two_mains_def tryBecomeLeader_def checkLeader_def Let_def main_ops main_fields second_passes_def

lemma more_steps:
  "(main_step ttl expires)\<^sup>*\<^sup>* s t \<Longrightarrow> main_step ttl expires t u \<Longrightarrow> (main_step ttl expires)\<^sup>*\<^sup>* s u"
  by (rule rtranclp.rtrancl_into_rtrancl)

lemma started_steps:
  assumes "main_phase (mains s i) = NotStarted"
  shows "(main_step ttl expires)\<^sup>*\<^sup>* s (tryBecomeLeader ttl i (init_main i s))"
  using converse_rtranclp_into_rtranclp[OF step_init[of s i, OF assms] tryBecomeLeader_steps]
  by (simp add: init_main_def)

lemma two_mains_reachable: "(main_step ttl expires)\<^sup>*\<^sup>* new_cluster (two_mains ttl)"
  unfolding two_mains_def
  by (rule rtranclp_trans[OF started_steps[of _ "''a''"] started_steps]) (simp_all add: run_simps)

theorem one_leader_while_key_lasts_witness:
  "isLeader (mains (two_mains 10) ''a'') \<and> \<not> isLeader (mains (two_mains 10) ''b'')"
proof
  show a: "isLeader (mains (two_mains 10) ''a'')" by (simp add: run_simps)
  have "main_phase (mains (two_mains 10) ''a'') = Running" "main_phase (mains (two_mains 10) ''b'') = Running"
    by (simp_all add: run_simps)
  with one_leader_while_key_lasts[OF two_mains_reachable[of 10 False], of "''a''" "''b''"] a
  show "\<not> isLeader (mains (two_mains 10) ''b'')" by auto
qed

definition won_key :: Cluster where
  "won_key = claim_key ''a'' (init_main ''a'' new_cluster)"

lemma won_key_reachable: "(main_step ttl expires)\<^sup>*\<^sup>* new_cluster won_key"
  unfolding won_key_def
  by (rule more_steps[OF _ step_claim], rule more_steps[OF rtranclp.rtrancl_refl step_init]) (simp_all add: init_main_def)

theorem key_without_ttl_witness:
  "Claimed True \<in> set (tasks (mains won_key ''a'')) \<or> Expiring \<in> set (tasks (mains won_key ''a'')) \<or>
   main_phase (mains won_key ''a'') = Crashed"
  by (rule key_without_ttl[OF won_key_reachable]) (simp_all add: won_key_def init_main_def)

definition crashed_winner :: Cluster where
  "crashed_winner = crash_main ''a'' won_key"

theorem abandoned_forever_witness:
  "(main_step 10 True)\<^sup>*\<^sup>* new_cluster crashed_winner \<and>
   leaderKey (tryBecomeLeader 10 ''b'' (init_main ''b'' crashed_winner)) = Some ''a'' \<and>
   \<not> isLeader (mains (tryBecomeLeader 10 ''b'' (init_main ''b'' crashed_winner)) ''b'')"
proof -
  have "main_step 10 True won_key crashed_winner"
    unfolding crashed_winner_def by (rule step_crash) (simp add: won_key_def init_main_def next_task_def)
  with won_key_reachable have r: "(main_step 10 True)\<^sup>*\<^sup>* new_cluster crashed_winner" by (rule rtranclp.rtrancl_into_rtrancl)
  have ab: "abandoned ''a'' crashed_winner"
    by (simp add: abandoned_def harmless_def crashed_winner_def won_key_def main_ops next_task_def)
  have "main_phase (mains crashed_winner ''b'') = NotStarted"
    by (simp add: crashed_winner_def won_key_def main_ops)
  from abandoned_forever[OF ab started_steps[OF this, of 10 True]] r show ?thesis
    by (auto simp: run_simps crashed_winner_def won_key_def)
qed

text \<open>The key of the leader \<open>a\<close> has run out before its next check; \<open>a\<close> still believes to be leader.\<close>

definition key_gone :: Cluster where
  "key_gone = second_passes (two_mains 1)"


text \<open>
  Two checks of one process overlap: both read the vacant key, the first takes it, the second then
  makes the process a follower and fails to take the key.  The process goes on renewing the key, and
  no process is leader.
\<close>

definition overlapping :: Cluster where
  "overlapping =
     act_on_claim ''a'' False (claim_key ''a'' (act_on_key ''a'' None
       (expire_key 10 ''a'' (act_on_claim ''a'' True (claim_key ''a'' (act_on_key ''a'' None
         (read_key ''a'' (read_key ''a'' key_gone))))))))"

lemma follower_holds_key:
  "leaderKey overlapping = Some ''a'' \<and> \<not> isLeader (mains overlapping ''a'') \<and> tasks (mains overlapping ''a'') = [] \<and>
   keyTtl (checkLeader 10 ''a'' overlapping) = Some 10 \<and> \<not> isLeader (mains (checkLeader 10 ''a'' overlapping) ''a'')"
  by code_simp

lemma overlapping_reachable: "(main_step 10 True)\<^sup>*\<^sup>* key_gone overlapping"
  unfolding overlapping_def
  by (rule more_steps[OF _ step_claimed], rule more_steps[OF _ step_claim],
      rule more_steps[OF _ step_act], rule more_steps[OF _ step_expire],
      rule more_steps[OF _ step_claimed], rule more_steps[OF _ step_claim],
      rule more_steps[OF _ step_act], rule more_steps[OF _ step_read],
      rule more_steps[OF _ step_read], rule rtranclp.rtrancl_refl) code_simp+

end
