(* ===== verification/ExpressionParser.thy ===== *)
theory ExpressionParser
  imports JsValues "HOL-Library.Sublist"
begin

text \<open>
  Splitting an expression into text and code and joining it again
  (packages/workflow/src/Extensions/ExpressionParser.ts).
\<close>

datatype ExpressionChunk = TextChunk string | CodeChunk string bool

abbreviation backslash :: char where
  "backslash \<equiv> CHR 0x5C"

abbreviation open_brace :: char where
  "open_brace \<equiv> CHR 0x7B"

abbreviation close_brace :: char where
  "close_brace \<equiv> CHR 0x7D"

text \<open>\<open>replace\<close> with a string pattern: the first occurrence.\<close>

fun replace_first :: "string \<Rightarrow> string \<Rightarrow> string \<Rightarrow> string" where
  "replace_first pat new [] = (if pat = [] then new else [])"
| "replace_first pat new (c # cs) =
     (if starts_with (c # cs) pat then new @ drop (length pat) (c # cs) else c # replace_first pat new cs)"

definition escapeCode :: "string \<Rightarrow> string" where
  "escapeCode text = replace_first [backslash, close_brace, close_brace] [close_brace, close_brace] text"

definition escapeTmplExpression :: "string \<Rightarrow> string" where
  "escapeTmplExpression part = replace_first [close_brace, close_brace] [backslash, close_brace, close_brace] part"

text \<open>
  The first match of two brackets \<open>b\<close>, with or without a backslash before them: its index and
  whether it has the backslash.
\<close>

fun find_bracket :: "char \<Rightarrow> string \<Rightarrow> (nat \<times> bool) option" where
  "find_bracket b [] = None"
| "find_bracket b (c # cs) =
     (if c = backslash \<and> starts_with cs [b, b] then Some (0, True)
      else if starts_with (c # cs) [b, b] then Some (0, False)
      else map_option (\<lambda>(i, e). (Suc i, e)) (find_bracket b cs))"

text \<open>\<open>closing\<close> says that the loop is searching for the closing bracket.\<close>

function split_loop :: "bool \<Rightarrow> string \<Rightarrow> string \<Rightarrow> ExpressionChunk list" where
  "split_loop closing buffer expr =
     (if expr = [] then []
      else case find_bracket (if closing then close_brace else open_brace) expr of
          None \<Rightarrow>
            (if closing then [CodeChunk (escapeCode (buffer @ expr)) False] else [TextChunk (buffer @ expr)])
        | Some (i, True) \<Rightarrow> split_loop closing (buffer @ take (i + 3) expr) (drop (i + 3) expr)
        | Some (i, False) \<Rightarrow>
            (if closing then CodeChunk (escapeCode (buffer @ take i expr)) True else TextChunk (buffer @ take i expr)) #
            split_loop (\<not> closing) [] (drop (i + 2) expr))"
  by pat_completeness auto
termination
  by (relation "measure (\<lambda>(_, _, expr). length expr)") auto

declare split_loop.simps [simp del]

definition splitExpression :: "string \<Rightarrow> ExpressionChunk list" where
  "splitExpression expression = split_loop False [] expression"

definition join_chunk :: "ExpressionChunk \<Rightarrow> string" where
  "join_chunk chunk =
     (case chunk of
        TextChunk t \<Rightarrow> t
      | CodeChunk t hasClosingBrackets \<Rightarrow>
          [open_brace, open_brace] @ escapeTmplExpression t @ (if hasClosingBrackets then [close_brace, close_brace] else []))"

definition joinExpression :: "ExpressionChunk list \<Rightarrow> string" where
  "joinExpression parts = concat (map join_chunk parts)"

section \<open>Brackets in a text\<close>

lemma starts_with_prefix: "starts_with s p \<longleftrightarrow> prefix p s"
  by (induction s p rule: starts_with.induct) auto

definition no_brackets :: "char \<Rightarrow> string \<Rightarrow> bool" where
  "no_brackets b s \<longleftrightarrow> \<not> sublist [b, b] s"

lemma no_brackets_simps [simp]:
  "no_brackets b []"
  "no_brackets b (c # cs) \<longleftrightarrow> \<not> prefix [b, b] (c # cs) \<and> no_brackets b cs"
  by (simp_all add: no_brackets_def sublist_Cons_right)

lemma find_bracket_None: "find_bracket b s = None \<Longrightarrow> no_brackets b s"
  by (induction s) (auto simp: starts_with_prefix split: if_splits)

lemma find_bracket_Some:
  assumes "find_bracket b s = Some (i, e)" and "b \<noteq> backslash"
  shows "\<exists>u v. s = u @ (if e then [backslash] else []) @ [b, b] @ v \<and> length u = i \<and> no_brackets b u"
  using assms
proof (induction s arbitrary: i)
  case (Cons c cs)
  show ?case
  proof (cases "c = backslash \<and> prefix [b, b] cs")
    case True
    with Cons.prems show ?thesis by (auto simp: starts_with_prefix prefix_def)
  next
    case F: False
    show ?thesis
    proof (cases "prefix [b, b] (c # cs)")
      case True
      with F Cons.prems show ?thesis by (auto simp: starts_with_prefix prefix_def)
    next
      case False
      with F Cons.prems obtain j where j: "i = Suc j" "find_bracket b cs = Some (j, e)"
        by (auto simp: starts_with_prefix split: if_splits)
      from Cons.IH[OF j(2) Cons.prems(2)] obtain u v where
        u: "cs = u @ (if e then [backslash] else []) @ [b, b] @ v" "length u = j" "no_brackets b u" by blast
      have "prefix (c # u) (c # cs)" using u(1) by simp
      with False have "\<not> prefix [b, b] (c # u)" using prefix_order.trans by blast
      with u j(1) show ?thesis by (intro exI[of _ "c # u"] exI[of _ v]) simp
    qed
  qed
qed simp

text \<open>The first occurrence of two brackets is where a text without brackets that does not end in one ends.\<close>

lemma replace_first_none: "\<not> sublist pat s \<Longrightarrow> pat \<noteq> [] \<Longrightarrow> replace_first pat new s = s"
  by (induction s) (auto simp: starts_with_prefix sublist_Cons_right)

lemma replace_first_at:
  assumes "\<forall>k < length u. \<not> prefix pat (drop k (u @ pat @ v))"
  shows "replace_first pat new (u @ pat @ v) = u @ new @ v"
  using assms
proof (induction u)
  case Nil
  have "prefix pat (pat @ v)" "drop (length pat) (pat @ v) = v" by simp_all
  then show ?case by (cases "pat @ v") (simp_all add: starts_with_prefix)
next
  case (Cons c u)
  then have "\<not> prefix pat (c # u @ pat @ v)" by force
  moreover have "\<forall>k < length u. \<not> prefix pat (drop k (u @ pat @ v))" using Cons.prems by force
  ultimately show ?case using Cons.IH by (simp add: starts_with_prefix)
qed

text \<open>
  The parser and the joiner undo each other's escaping of the closing brackets at the first place
  where they occur, unless a bracket stands right before it.
\<close>

abbreviation escaped_close :: string where
  "escaped_close \<equiv> [backslash, close_brace, close_brace]"

lemma sublist_drop: "sublist p s \<longleftrightarrow> (\<exists>k. prefix p (drop k s))"
proof
  assume "sublist p s"
  then obtain ps ss where "s = ps @ p @ ss" by (auto simp: sublist_def)
  then have "prefix p (drop (length ps) s)" by simp
  then show "\<exists>k. prefix p (drop k s)" ..
next
  assume "\<exists>k. prefix p (drop k s)"
  then obtain k zs where "drop k s = p @ zs" by (auto simp: prefix_def)
  then have "s = take k s @ p @ zs" by (metis append_take_drop_id)
  then show "sublist p s" by (auto simp: sublist_def)
qed

lemma no_prefix_before:
  assumes "no_brackets b u" and "\<not> suffix [b] u" and "k < length u"
  shows "\<not> prefix [b, b] (drop k (u @ w))"
proof
  assume p: "prefix [b, b] (drop k (u @ w))"
  obtain c cs where c: "drop k u = c # cs" using assms(3) by (cases "drop k u") auto
  with p assms(3) have "c = b" by (simp add: prefix_Cons)
  show False
  proof (cases cs)
    case Nil
    with c \<open>c = b\<close> have "u = take k u @ [b]" by (metis append_take_drop_id)
    then have "suffix [b] u" by (metis suffix_def)
    with assms(2) show False by blast
  next
    case (Cons d ds)
    with p c assms(3) have "prefix [b, b] (drop k u)" using \<open>c = b\<close> by simp
    with assms(1) show False by (auto simp: no_brackets_def sublist_drop)
  qed
qed

lemma escape_join:
  assumes "no_brackets close_brace u" and "\<not> suffix [close_brace] u"
  shows "escapeTmplExpression (u @ [close_brace, close_brace] @ v) = u @ escaped_close @ v"
  unfolding escapeTmplExpression_def
  by (rule replace_first_at) (use no_prefix_before[OF assms] in blast)

lemma escape_code:
  assumes "no_brackets close_brace u"
  shows "escapeCode (u @ escaped_close @ v) = u @ [close_brace, close_brace] @ v"
  unfolding escapeCode_def
proof (rule replace_first_at, intro allI impI notI)
  fix k
  assume k: "k < length u" and p: "prefix escaped_close (drop k (u @ escaped_close @ v))"
  obtain c cs where c: "drop k u = c # cs" using k by (cases "drop k u") auto
  with p k have q: "prefix [close_brace, close_brace] (cs @ escaped_close @ v)" by auto
  show False
  proof (cases cs)
    case Nil
    with q show False by simp
  next
    case (Cons d ds)
    show False
    proof (cases ds)
      case Nil
      with q Cons show False by simp
    next
      case (Cons d' ds')
      with q \<open>cs = d # ds\<close> c have "prefix [close_brace, close_brace] (drop (Suc k) u)"
        by (auto simp: drop_Suc tl_drop[symmetric])
      with assms show False by (auto simp: no_brackets_def sublist_drop)
    qed
  qed
qed

lemma no_brackets_code: "no_brackets close_brace s \<Longrightarrow> escapeCode s = s"
  unfolding escapeCode_def
  by (rule replace_first_none) (auto simp: no_brackets_def sublist_def, metis append.assoc append_Cons append_Nil)

lemma no_brackets_tmpl: "no_brackets close_brace s \<Longrightarrow> escapeTmplExpression s = s"
  unfolding escapeTmplExpression_def by (rule replace_first_none) (simp_all add: no_brackets_def)

end
