(* ===== verification/ExpressionProperties.thy ===== *)
theory ExpressionProperties
  imports ExpressionParser
begin

text \<open>
  Splitting and joining of expressions are inverse to each other, but for endings and bracket
  sequences that the two treat differently.
\<close>

section \<open>Joining what was split\<close>

definition open_close_free_ends :: "string \<Rightarrow> bool" where
  "open_close_free_ends s \<longleftrightarrow>
     \<not> suffix [open_brace, open_brace] s \<and> \<not> suffix escaped_close s \<and> \<not> sublist (close_brace # escaped_close) s"

lemma ends_drop: "open_close_free_ends (u @ v) \<Longrightarrow> open_close_free_ends v"
  by (auto simp: open_close_free_ends_def suffix_append sublist_append)

text \<open>What the buffer holds while the closing bracket is searched.\<close>

definition code_buffer :: "string \<Rightarrow> bool" where
  "code_buffer r \<longleftrightarrow>
     (r = [] \<or> (\<exists>u v. r = u @ escaped_close @ v \<and> no_brackets close_brace u \<and> \<not> suffix [close_brace] u))"

lemma code_buffer_more: "code_buffer r \<Longrightarrow> r \<noteq> [] \<Longrightarrow> code_buffer (r @ w)"
  unfolding code_buffer_def by (metis append.assoc append_Cons)

lemma code_buffer_restored:
  assumes "code_buffer r" and "no_brackets close_brace w"
  shows "escapeTmplExpression (escapeCode (r @ w)) = r @ w"
proof (cases "r = []")
  case True
  with assms(2) show ?thesis by (simp add: no_brackets_code no_brackets_tmpl)
next
  case False
  with assms(1) obtain u v where r: "r = u @ escaped_close @ v" and u: "no_brackets close_brace u" "\<not> suffix [close_brace] u"
    by (auto simp: code_buffer_def)
  from escape_code[OF u(1), of "v @ w"] escape_join[OF u, of "v @ w"] show ?thesis by (simp add: r)
qed

lemma split_loop_joins:
  assumes "open_close_free_ends rest" and "rest \<noteq> [] \<or> (\<not> closing \<and> buffer = [])" and "closing \<Longrightarrow> code_buffer buffer"
  shows "joinExpression (split_loop closing buffer rest) =
    (if closing then [open_brace, open_brace] else []) @ buffer @ rest"
  using assms
proof (induction closing buffer rest rule: split_loop.induct)
  case (1 closing buffer rest)
  let ?b = "if closing then close_brace else open_brace"
  note step = split_loop.simps[of closing buffer rest]
  show ?case
  proof (cases "rest = []")
    case True
    with "1.prems" step show ?thesis by (simp add: joinExpression_def)
  next
    case ne: False
    show ?thesis
    proof (cases "find_bracket ?b rest")
      case None
      with find_bracket_None[OF None] code_buffer_restored[of buffer rest] "1.prems"(3) ne step show ?thesis
        by (auto simp: joinExpression_def join_chunk_def)
    next
      case (Some p)
      obtain i e where p: "p = (i, e)" by (cases p)
      have "?b \<noteq> backslash" by simp
      from find_bracket_Some[OF _ this] Some p obtain u v where
        rest: "rest = u @ (if e then [backslash] else []) @ [?b, ?b] @ v" and i: "length u = i" and u: "no_brackets ?b u"
        by blast
      have v: "open_close_free_ends v" 
        using ends_drop[of "u @ (if e then [backslash] else []) @ [?b, ?b]" v] "1.prems"(1) rest by simp
      show ?thesis
      proof (cases e)
        case True
        have "v \<noteq> []" using "1.prems"(1) True unfolding rest
          by (auto simp: open_close_free_ends_def suffix_def split: if_splits)
        have t: "take (i + 3) rest = u @ [backslash, ?b, ?b]" "drop (i + 3) rest = v"
          using i True unfolding rest by simp_all
        have "code_buffer (buffer @ u @ escaped_close)" if closing
        proof (cases "buffer = []")
          case True
          have "\<not> suffix [close_brace] u"
          proof
            assume "suffix [close_brace] u"
            then obtain zs where "u = zs @ [close_brace]" by (auto simp: suffix_def)
            with that \<open>e\<close> have "rest = zs @ (close_brace # escaped_close) @ v" unfolding rest by simp
            then have "sublist (close_brace # escaped_close) rest" by blast
            with "1.prems"(1) show False by (simp add: open_close_free_ends_def)
          qed
          with True u that show ?thesis by (auto simp: code_buffer_def)
        next
          case False
          with "1.prems"(3)[OF that] show ?thesis by (rule code_buffer_more)
        qed
        with "1.IH"(1)[OF ne Some, of i e] p True t v \<open>v \<noteq> []\<close>
        have "joinExpression (split_loop closing (buffer @ u @ [backslash, ?b, ?b]) v) =
            (if closing then [open_brace, open_brace] else []) @ (buffer @ u @ [backslash, ?b, ?b]) @ v"
          by (cases closing) auto
        moreover have "split_loop closing buffer rest = split_loop closing (buffer @ u @ [backslash, ?b, ?b]) v"
          using step ne Some p True t by simp
        ultimately show ?thesis using True unfolding rest by simp
      next
        case False
        have t: "take i rest = u" "drop (i + 2) rest = v" using i False unfolding rest by simp_all
        have "v \<noteq> [] \<or> closing" using "1.prems"(1) False unfolding rest
          by (auto simp: open_close_free_ends_def suffix_def split: if_splits)
        with "1.IH"(2)[OF ne Some, of i e] p False t v
        have "joinExpression (split_loop (\<not> closing) [] v) = (if closing then [] else [open_brace, open_brace]) @ v"
          by (cases closing) (auto simp: code_buffer_def)
        moreover have "split_loop closing buffer rest =
            (if closing then CodeChunk (escapeCode (buffer @ u)) True else TextChunk (buffer @ u)) # split_loop (\<not> closing) [] v"
          using step ne Some p False t by simp
        ultimately show ?thesis using False u "1.prems"(3) code_buffer_restored[of buffer u] unfolding rest
          by (cases closing) (simp_all add: joinExpression_def join_chunk_def)
      qed
    qed
  qed
qed

text \<open>
  An expression that is split and joined again is unchanged, unless it ends in an opening or an
  escaped closing bracket or has a brace right before an escaped closing bracket.
\<close>

theorem split_join_roundtrip:
  assumes "\<not> suffix [open_brace, open_brace] s" and "\<not> suffix escaped_close s" and "\<not> sublist (close_brace # escaped_close) s"
  shows "joinExpression (splitExpression s) = s"
  using split_loop_joins[of s False "[]"] assms by (simp add: splitExpression_def open_close_free_ends_def)

theorem split_join_roundtrip_witness:
  "joinExpression (splitExpression ''{{ a }} b'') = ''{{ a }} b''"
proof (rule split_join_roundtrip)
  show "\<not> suffix [open_brace, open_brace] ''{{ a }} b''" "\<not> suffix escaped_close ''{{ a }} b''"
    by (simp_all add: suffix_to_prefix)
  show "\<not> sublist (close_brace # escaped_close) ''{{ a }} b''" by (simp add: sublist_Cons_right)
qed

text \<open>A text that ends in an escaped bracket is lost, and so is an opening bracket at the end.\<close>

lemma escaped_end_lost:
  "splitExpression (''a '' @ [backslash, open_brace, open_brace]) = []"
  "joinExpression (splitExpression ''a {{'') = ''a ''"
  by code_simp+

section \<open>Splitting what was joined\<close>

text \<open>
  Text that the parser reads as it is, and code with at most one closing bracket of its own.
\<close>

definition plain_text :: "string \<Rightarrow> bool" where
  "plain_text t \<longleftrightarrow> no_brackets open_brace t \<and> \<not> suffix [open_brace] t \<and> \<not> suffix [backslash] t"

definition plain_code :: "string \<Rightarrow> bool" where
  "plain_code c \<longleftrightarrow> no_brackets close_brace c \<and> \<not> suffix [close_brace] c \<and> \<not> suffix [backslash] c"

definition code_text :: "string \<Rightarrow> bool" where
  "code_text c \<longleftrightarrow>
     plain_code c \<or>
     (\<exists>u v. c = u @ [close_brace, close_brace] @ v \<and> no_brackets close_brace u \<and> \<not> suffix [close_brace] u \<and> plain_code v)"

fun chunks_ok :: "ExpressionChunk list \<Rightarrow> bool" where
  "chunks_ok [] = True"
| "chunks_ok [TextChunk t] = (t \<noteq> [] \<and> no_brackets open_brace t)"
| "chunks_ok (TextChunk t # CodeChunk c True # cs) = (plain_text t \<and> code_text c \<and> chunks_ok cs)"
| "chunks_ok _ = False"

lemma find_bracket_first:
  assumes "no_brackets b u" and "\<not> suffix [b] u" and "\<not> suffix [backslash] u" and "b \<noteq> backslash"
  shows "find_bracket b (u @ [b, b] @ v) = Some (length u, False)"
  using assms
proof (induction u)
  case Nil
  then show ?case by (simp add: starts_with_prefix)
next
  case (Cons c u)
  have "\<not> (c = backslash \<and> prefix [b, b] (u @ [b, b] @ v))"
    using Cons.prems by (cases u; cases "tl u") (auto simp: suffix_def)
  moreover have "\<not> prefix [b, b] (c # u @ [b, b] @ v)"
    using Cons.prems by (cases u) (auto simp: suffix_def)
  moreover have "\<not> suffix [b] u" "\<not> suffix [backslash] u" using Cons.prems(2,3) by (auto simp: suffix_Cons)
  ultimately show ?case using Cons by (simp add: starts_with_prefix)
qed

lemma find_bracket_escaped:
  assumes "no_brackets b u" and "\<not> suffix [b] u" and "b \<noteq> backslash"
  shows "find_bracket b (u @ [backslash, b, b] @ v) = Some (length u, True)"
  using assms
proof (induction u)
  case Nil
  then show ?case by (simp add: starts_with_prefix)
next
  case (Cons c u)
  have "\<not> (c = backslash \<and> prefix [b, b] (u @ [backslash, b, b] @ v))"
    using Cons.prems by (cases u; cases "tl u") (auto simp: suffix_def)
  moreover have "\<not> prefix [b, b] (c # u @ [backslash, b, b] @ v)"
    using Cons.prems by (cases u) (auto simp: suffix_def)
  moreover have "\<not> suffix [b] u" using Cons.prems(2) by (auto simp: suffix_Cons)
  ultimately show ?case using Cons by (simp add: starts_with_prefix)
qed

lemma find_bracket_no: "no_brackets b s \<Longrightarrow> find_bracket b s = None"
proof (induction s)
  case (Cons c cs)
  then have "no_brackets b cs" by simp
  then have "\<not> prefix [b, b] cs" by (auto simp: no_brackets_def dest: prefix_imp_sublist)
  with Cons show ?case by (simp add: starts_with_prefix)
qed simp

lemma split_code:
  assumes "code_text c"
  shows "split_loop True [] (escapeTmplExpression c @ [close_brace, close_brace] @ s) = CodeChunk c True # split_loop False [] s"
  using assms unfolding code_text_def
proof
  assume c: "plain_code c"
  then have "find_bracket close_brace (c @ [close_brace, close_brace] @ s) = Some (length c, False)"
    by (intro find_bracket_first) (simp_all add: plain_code_def)
  with c split_loop.simps[of True "[]" "c @ [close_brace, close_brace] @ s"] show ?thesis
    by (simp add: no_brackets_tmpl no_brackets_code plain_code_def)
next
  assume "\<exists>u v. c = u @ [close_brace, close_brace] @ v \<and> no_brackets close_brace u \<and> \<not> suffix [close_brace] u \<and> plain_code v"
  then obtain u v where c: "c = u @ [close_brace, close_brace] @ v" and u: "no_brackets close_brace u" "\<not> suffix [close_brace] u"
    and v: "plain_code v" by blast
  let ?r = "v @ [close_brace, close_brace] @ s"
  have "find_bracket close_brace (u @ escaped_close @ ?r) = Some (length u, True)"
    using u by (intro find_bracket_escaped) simp_all
  with split_loop.simps[of True "[]" "u @ escaped_close @ ?r"]
  have 1: "split_loop True [] (u @ escaped_close @ ?r) = split_loop True (u @ escaped_close) ?r" by simp
  have "find_bracket close_brace ?r = Some (length v, False)"
    using v by (intro find_bracket_first) (simp_all add: plain_code_def)
  with split_loop.simps[of True "u @ escaped_close" ?r] escape_code[OF u(1), of v]
  have 2: "split_loop True (u @ escaped_close) ?r = CodeChunk c True # split_loop False [] s" by (simp add: c)
  from escape_join[OF u, of v] c have "escapeTmplExpression c = u @ escaped_close @ v" by simp
  with 1 2 show ?thesis by simp
qed

text \<open>
  C40: Chunks that alternate between text without opening brackets and closed code that holds at most
  one closing bracket of its own come back when they are joined and split.
\<close>

theorem join_split_roundtrip:
  assumes "chunks_ok cs"
  shows "splitExpression (joinExpression cs) = cs"
  using assms unfolding splitExpression_def
proof (induction cs rule: chunks_ok.induct)
  case (2 t)
  then show ?case
    using split_loop.simps[of False "[]" t] by (simp add: joinExpression_def join_chunk_def find_bracket_no)
next
  case (3 t c cs)
  let ?s = "escapeTmplExpression c @ [close_brace, close_brace] @ joinExpression cs"
  have j: "joinExpression (TextChunk t # CodeChunk c True # cs) = t @ [open_brace, open_brace] @ ?s"
    by (simp add: joinExpression_def join_chunk_def)
  have "find_bracket open_brace (t @ [open_brace, open_brace] @ ?s) = Some (length t, False)"
    using 3 by (intro find_bracket_first) (simp_all add: plain_text_def)
  with split_loop.simps[of False "[]" "t @ [open_brace, open_brace] @ ?s"]
  have "split_loop False [] (t @ [open_brace, open_brace] @ ?s) = TextChunk t # split_loop True [] ?s" by simp
  with 3 split_code[of c "joinExpression cs"] show ?case unfolding j by simp
qed (simp_all add: joinExpression_def split_loop.simps)

definition sample_chunks :: "ExpressionChunk list" where
  "sample_chunks = [TextChunk ''a'', CodeChunk ''{b:{}}.c'' True, TextChunk ''d'']"

theorem join_split_roundtrip_witness: "splitExpression (joinExpression sample_chunks) = sample_chunks"
proof (rule join_split_roundtrip)
  have "plain_code ''.c''" by (simp add: plain_code_def suffix_to_prefix)
  moreover have "no_brackets close_brace ''{b:{''" "\<not> suffix [close_brace] ''{b:{''" by (simp_all add: suffix_to_prefix)
  ultimately have "code_text ''{b:{}}.c''"
    unfolding code_text_def by (intro disjI2 exI[of _ "''{b:{''"] exI[of _ "''.c''"]) simp
  then show "chunks_ok sample_chunks" by (simp add: sample_chunks_def plain_text_def suffix_to_prefix)
qed

text \<open>Only the first closing bracket in code is escaped; a second one ends the code where it stands.\<close>

lemma second_bracket_ends_code:
  "splitExpression (joinExpression [TextChunk [], CodeChunk ''f({a:{}}, {b:{}})'' True]) \<noteq>
     [TextChunk [], CodeChunk ''f({a:{}}, {b:{}})'' True]"
  by code_simp

end
