(* ===== verification/ArrayExtensions.thy ===== *)
theory ArrayExtensions
  imports JsValues
begin

text \<open>
  The functions that expressions may call on arrays (packages/workflow/src/Extensions/ArrayExtensions.ts)
  and \<open>compact\<close> on objects (ObjectExtensions.ts).  The deep equality of deep-equal and \<open>uniqWith\<close> of
  lodash are arguments.  Numbers are rationals; keys of prototypes are left out.
\<close>

datatype extension_error =
    ExpressionExtensionError string
  | ExpressionError string
  | ExtensionTypeError

section \<open>Values and their entries\<close>

text \<open>\<open>Object.entries\<close>.\<close>

definition js_entries :: "jval \<Rightarrow> (string \<times> jval) list" where
  "js_entries v =
     (case v of
        JObj ob \<Rightarrow> ob
      | JArr vs \<Rightarrow> zip (map nat_string [0..<length vs]) vs
      | JStr s \<Rightarrow> zip (map nat_string [0..<length s]) (map (\<lambda>c. JStr [c]) s)
      | _ \<Rightarrow> [])"

text \<open>\<open>Object.assign\<close>; with an empty first object it is the spread of the second.\<close>

definition assign_entries :: "IDataObject \<Rightarrow> jval \<Rightarrow> IDataObject" where
  "assign_entries ob v = fold (\<lambda>(k, x) o'. str_put k x o') (js_entries v) ob"

definition is_object :: "jval \<Rightarrow> bool" where
  "is_object v \<longleftrightarrow> js_typeof v = ''object''"

definition array_first :: "jval list \<Rightarrow> jval" where
  "array_first value = (case value of [] \<Rightarrow> JUndef | v # _ \<Rightarrow> v)"

definition array_last :: "jval list \<Rightarrow> jval" where
  "array_last value = (if value = [] then JUndef else last value)"

definition array_isEmpty :: "jval list \<Rightarrow> bool" where
  "array_isEmpty value \<longleftrightarrow> length value = 0"

definition array_isNotEmpty :: "jval list \<Rightarrow> bool" where
  "array_isNotEmpty value \<longleftrightarrow> 0 < length value"

text \<open>\<open>random\<close> is the number that the generator gives, taken modulo the length.\<close>

definition randomItem :: "nat \<Rightarrow> jval list \<Rightarrow> jval" where
  "randomItem random value = (if length value = 0 then JUndef else value ! (random mod length value))"

definition pluck :: "jval list \<Rightarrow> jval list \<Rightarrow> jval list" where
  "pluck value extraArgs =
     (if extraArgs = [] then value
      else concat (map (\<lambda>current.
        if truthy current \<and> is_object current
        then let p = concat (map (\<lambda>(k, x). map (\<lambda>_. x) (filter (\<lambda>field. field = JStr k) extraArgs)) (js_entries current))
             in (case p of [] \<Rightarrow> [] | [x] \<Rightarrow> [x] | _ \<Rightarrow> [JArr p])
        else []) value))"

section \<open>Sets of values\<close>

text \<open>\<open>uniqWith\<close> and \<open>deepEqual\<close> are the library functions.\<close>

definition equality_view :: "string list \<Rightarrow> jval \<Rightarrow> js_error + jval" where
  "equality_view extraArgs item =
     (if extraArgs \<noteq> [] \<and> truthy item \<and> is_object item
      then res_bind (res_fold (\<lambda>key acc. res_bind (js_prop item key) (\<lambda>x. Inr (str_put key x acc))) extraArgs [])
             (\<lambda>ob. Inr (JObj ob))
      else Inr item)"

definition equal_by :: "(jval \<Rightarrow> jval \<Rightarrow> bool) \<Rightarrow> string list \<Rightarrow> jval \<Rightarrow> jval \<Rightarrow> bool" where
  "equal_by deepEqual extraArgs a b =
     (case (equality_view extraArgs a, equality_view extraArgs b) of
        (Inr x, Inr y) \<Rightarrow> deepEqual x y | _ \<Rightarrow> False)"

definition unique ::
    "((jval \<Rightarrow> jval \<Rightarrow> bool) \<Rightarrow> jval list \<Rightarrow> jval list) \<Rightarrow> (jval \<Rightarrow> jval \<Rightarrow> bool) \<Rightarrow> jval list \<Rightarrow> string list \<Rightarrow> jval list" where
  "unique uniqWith deepEqual value extraArgs = uniqWith (equal_by deepEqual extraArgs) value"

definition contains_equal :: "(jval \<Rightarrow> jval \<Rightarrow> bool) \<Rightarrow> jval list \<Rightarrow> jval \<Rightarrow> bool" where
  "contains_equal deepEqual ws v = list_ex (\<lambda>w. deepEqual w v) ws"

definition others_of :: "string \<Rightarrow> jval list \<Rightarrow> extension_error + jval list" where
  "others_of fn extraArgs =
     (case array_first extraArgs of
        JArr others \<Rightarrow> Inr others
      | _ \<Rightarrow> Inl (ExpressionExtensionError (fn @ ''(): expected array arg, e.g. .'' @ fn @ ''([1, 2, 3, 4])'')))"

definition union ::
    "((jval \<Rightarrow> jval \<Rightarrow> bool) \<Rightarrow> jval list \<Rightarrow> jval list) \<Rightarrow> (jval \<Rightarrow> jval \<Rightarrow> bool) \<Rightarrow> jval list \<Rightarrow> jval list \<Rightarrow>
     extension_error + jval list" where
  "union uniqWith deepEqual value extraArgs =
     res_bind (others_of ''union'' extraArgs) (\<lambda>others.
       Inr (unique uniqWith deepEqual
         (fold (\<lambda>v newArr. if \<not> contains_equal deepEqual newArr v then newArr @ [v] else newArr) others value) []))"

definition difference ::
    "((jval \<Rightarrow> jval \<Rightarrow> bool) \<Rightarrow> jval list \<Rightarrow> jval list) \<Rightarrow> (jval \<Rightarrow> jval \<Rightarrow> bool) \<Rightarrow> jval list \<Rightarrow> jval list \<Rightarrow>
     extension_error + jval list" where
  "difference uniqWith deepEqual value extraArgs =
     res_bind (others_of ''difference'' extraArgs) (\<lambda>others.
       Inr (unique uniqWith deepEqual (filter (\<lambda>v. \<not> contains_equal deepEqual others v) value) []))"

definition intersection ::
    "((jval \<Rightarrow> jval \<Rightarrow> bool) \<Rightarrow> jval list \<Rightarrow> jval list) \<Rightarrow> (jval \<Rightarrow> jval \<Rightarrow> bool) \<Rightarrow> jval list \<Rightarrow> jval list \<Rightarrow>
     extension_error + jval list" where
  "intersection uniqWith deepEqual value extraArgs =
     res_bind (others_of ''intersection'' extraArgs) (\<lambda>others.
       Inr (unique uniqWith deepEqual
         (filter (contains_equal deepEqual others) value @ filter (contains_equal deepEqual value) others) []))"

definition array_append :: "jval list \<Rightarrow> jval list \<Rightarrow> jval list" where
  "array_append value extraArgs = value @ extraArgs"

section \<open>Numbers\<close>

definition ensureNumberArray :: "string \<Rightarrow> jval list \<Rightarrow> extension_error + number list" where
  "ensureNumberArray fnName arr =
     (if list_ex (\<lambda>v. js_typeof v \<noteq> ''number'') arr
      then Inl (ExpressionExtensionError (fnName @ ''(): all array elements must be numbers''))
      else Inr (map (\<lambda>v. case v of JNum n \<Rightarrow> n | _ \<Rightarrow> 0) arr))"

definition array_sum :: "jval list \<Rightarrow> extension_error + number" where
  "array_sum value = res_bind (ensureNumberArray ''sum'' value) (\<lambda>ns. Inr (fold (\<lambda>c p. p + c) ns 0))"

text \<open>The least of no numbers is plus infinity, the greatest minus infinity.\<close>

definition array_min :: "jval list \<Rightarrow> extension_error + js_number" where
  "array_min value =
     res_bind (ensureNumberArray ''min'' value) (\<lambda>ns.
       Inr (case ns of [] \<Rightarrow> Infinite True | n # rest \<Rightarrow> Finite (fold min rest n)))"

definition array_max :: "jval list \<Rightarrow> extension_error + js_number" where
  "array_max value =
     res_bind (ensureNumberArray ''max'' value) (\<lambda>ns.
       Inr (case ns of [] \<Rightarrow> Infinite False | n # rest \<Rightarrow> Finite (fold max rest n)))"

definition average :: "jval list \<Rightarrow> extension_error + number" where
  "average value =
     res_bind (ensureNumberArray ''average'' value) (\<lambda>_.
       if length value = 0 then Inr 0
       else res_bind (array_sum value) (\<lambda>n. Inr (n / of_nat (length value))))"

section \<open>Objects\<close>

definition kept_value :: "jval \<Rightarrow> bool" where
  "kept_value v \<longleftrightarrow> v \<noteq> JNull \<and> v \<noteq> JUndef \<and> v \<noteq> JStr ''nil'' \<and> v \<noteq> JStr []"

text \<open>One entry: its key, its value and the compacted value.\<close>

definition compact_entry :: "string \<times> jval \<times> jval \<Rightarrow> IDataObject \<Rightarrow> IDataObject" where
  "compact_entry e newObj =
     (case e of (k, v, c) \<Rightarrow>
        if \<not> kept_value v then newObj
        else if is_object v then (if js_keys v = [] then newObj else str_put k c newObj)
        else str_put k v newObj)"

fun object_compact :: "jval \<Rightarrow> jval" where
  "object_compact (JObj ob) =
     JObj (fold compact_entry (map (\<lambda>p. (fst p, snd p, object_compact (snd p))) ob) [])"
| "object_compact (JArr vs) =
     JObj (fold compact_entry (zip (map nat_string [0..<length vs]) (map (\<lambda>v. (v, object_compact v)) vs)) [])"
| "object_compact (JStr s) =
     JObj (fold compact_entry (zip (map nat_string [0..<length s]) (map (\<lambda>c. (JStr [c], JStr [c])) s)) [])"
| "object_compact _ = JObj []"

definition array_compact :: "jval list \<Rightarrow> jval list" where
  "array_compact value =
     map (\<lambda>v. if is_object v \<and> v \<noteq> JNull then object_compact v else v)
       (filter (\<lambda>v. \<not> (truthy v \<and> is_object v \<and> js_keys v = []) \<and> kept_value v) value)"

definition has_field :: "string \<Rightarrow> jval \<Rightarrow> bool" where
  "has_field k v \<longleftrightarrow> k \<in> set (js_keys v)"

definition smartJoin :: "jval list \<Rightarrow> jval list \<Rightarrow> extension_error + IDataObject" where
  "smartJoin value extraArgs =
     (case (list_get extraArgs 0, list_get extraArgs 1) of
        (Some (JStr (c # cs)), Some (JStr (d # ds))) \<Rightarrow>
          Inr (fold (\<lambda>v ob.
            (let keyField = c # cs; valueField = d # ds
             in if is_object v \<and> v \<noteq> JNull \<and> has_field keyField v \<and> has_field valueField v
                then case (js_prop v keyField, js_prop v valueField) of
                    (Inr k, Inr x) \<Rightarrow> str_put (js_string k) x ob
                  | _ \<Rightarrow> ob
                else ob)) value [])
      | _ \<Rightarrow> Inl (ExpressionExtensionError ''smartJoin(): expected two string args, e.g. .smartJoin(\"name\", \"value\")''))"

definition rename_field :: "string \<times> string \<Rightarrow> IDataObject \<Rightarrow> IDataObject" where
  "rename_field p ob =
     (case obj_get ob (fst p) of None \<Rightarrow> ob | Some x \<Rightarrow> obj_del (fst p) (str_put (snd p) x ob))"

fun pairs :: "'a list \<Rightarrow> ('a \<times> 'a) list" where
  "pairs (x # y # zs) = (x, y) # pairs zs"
| "pairs _ = []"

definition renameKeys :: "jval list \<Rightarrow> string list \<Rightarrow> extension_error + jval list" where
  "renameKeys value extraArgs =
     (if length extraArgs = 0 \<or> length extraArgs mod 2 \<noteq> 0
      then Inl (ExpressionExtensionError ''renameKeys(): expected an even amount of args: from1, to1 [, from2, to2, ...]. e.g. .renameKeys(\"name\", \"title\")'')
      else Inr (map (\<lambda>v. if \<not> is_object v \<or> v = JNull then v
                         else JObj (fold rename_field (pairs extraArgs) (assign_entries [] v))) value))"

definition mergeObjects :: "jval \<Rightarrow> jval \<Rightarrow> extension_error + jval" where
  "mergeObjects value other =
     (if \<not> truthy other then Inr value
      else if \<not> is_object other then Inl (ExpressionExtensionError ''merge(): expected object arg'')
      else Inr (JObj (fold (\<lambda>(key, val) newObject. if obj_has newObject key then newObject else str_put key val newObject)
                        (js_entries other) (assign_entries [] value))))"

definition js_at :: "jval list \<Rightarrow> nat \<Rightarrow> jval" where
  "js_at vs i = (if i < length vs then vs ! i else JUndef)"

definition array_merge :: "jval list \<Rightarrow> jval list \<Rightarrow> extension_error + jval" where
  "array_merge value extraArgs =
     (case array_first extraArgs of
        JUndef \<Rightarrow>
          res_fold (\<lambda>current combined.
            case current of JObj _ \<Rightarrow> mergeObjects combined current | _ \<Rightarrow> Inr combined) value (JObj [])
      | JArr others \<Rightarrow>
          res_bind (res_fold (\<lambda>i merged.
            if js_at value i \<noteq> JUndef \<and> is_object (js_at value i) \<and> is_object (js_at others i)
            then res_bind (mergeObjects (js_at value i) (js_at others i)) (\<lambda>m. Inr (assign_entries merged m))
            else Inr merged) [0..<max (length value) (length others)] []) (\<lambda>ob. Inr (JObj ob))
      | _ \<Rightarrow> Inl (ExpressionExtensionError ''merge(): expected array arg, e.g. .merge([{ id: 1, otherValue: 3 }])''))"

section \<open>Chunks\<close>

text \<open>\<open>slice\<close>: the bounds are cut to integers, negative ones count from the end.\<close>

definition cut :: "number \<Rightarrow> int" where
  "cut x = (if 0 \<le> x then \<lfloor>x\<rfloor> else \<lceil>x\<rceil>)"

definition slice_bound :: "nat \<Rightarrow> number \<Rightarrow> nat" where
  "slice_bound n x = (if cut x < 0 then nat (int n + cut x) else min n (nat (cut x)))"

definition js_slice :: "'a list \<Rightarrow> number \<Rightarrow> number \<Rightarrow> 'a list" where
  "js_slice xs a b = drop (slice_bound (length xs) a) (take (slice_bound (length xs) b) xs)"

text \<open>The loop runs while the index is below the length; None means that it does not end.\<close>

partial_function (option) chunk_from :: "'a list \<Rightarrow> number \<Rightarrow> number \<Rightarrow> 'a list list option" where
  "chunk_from value chunkSize i =
     (if i < of_nat (length value)
      then Option.bind (chunk_from value chunkSize (i + chunkSize))
             (\<lambda>rest. Some (js_slice value i (i + chunkSize) # rest))
      else Some [])"

definition chunk :: "jval list \<Rightarrow> jval list \<Rightarrow> (extension_error + jval list list) option" where
  "chunk value extraArgs =
     (case array_first extraArgs of
        JNum n \<Rightarrow>
          (if n = 0 then Some (Inl (ExpressionExtensionError ''chunk(): expected non-zero numeric arg, e.g. .chunk(5)''))
           else map_option Inr (chunk_from value n 0))
      | _ \<Rightarrow> Some (Inl (ExpressionExtensionError ''chunk(): expected non-zero numeric arg, e.g. .chunk(5)'')))"

end
