(* ===== verification/ArrayProperties.thy ===== *)
theory ArrayProperties
  imports ArrayExtensions
begin

text \<open>
  The array functions of expressions: chunks that join to the array, and for which sizes the loop does
  not end; the set operations up to deep equality; and what compacting does to arrays in arrays.
\<close>

section \<open>Chunks\<close>

lemma slice_from_nat:
  "js_slice xs (of_nat a) (of_nat b) = drop a (take b xs)"
  by (auto simp: js_slice_def slice_bound_def cut_def min_def)

lemma chunk_from_end: "i \<ge> of_nat (length xs) \<Longrightarrow> chunk_from xs n i = Some []"
  by (subst chunk_from.simps) simp

lemma chunk_from_ends:
  assumes "0 < n"
  shows "\<exists>cs. chunk_from xs (of_nat n) (of_nat a) = Some cs \<and> concat cs = drop a xs \<and>
    (\<forall>c \<in> set cs. c \<noteq> [] \<and> length c \<le> n) \<and> (\<forall>c \<in> set (butlast cs). length c = n)"
proof (induction "length xs - a" arbitrary: a rule: less_induct)
  case less
  show ?case
  proof (cases "a < length xs")
    case False
    then show ?thesis using chunk_from_end[of xs "of_nat a" "of_nat n"] by simp
  next
    case True
    with assms have "length xs - (a + n) < length xs - a" by simp
    from less[OF this] obtain cs where
      cs: "chunk_from xs (of_nat n) (of_nat (a + n)) = Some cs" "concat cs = drop (a + n) xs"
        "\<forall>c \<in> set cs. c \<noteq> [] \<and> length c \<le> n" "\<forall>c \<in> set (butlast cs). length c = n" by blast
    let ?c = "drop a (take (a + n) xs)"
    have "chunk_from xs (of_nat n) (of_nat a) = Some (?c # cs)"
      using cs(1) True slice_from_nat[of xs a "a + n"] by (subst chunk_from.simps) simp
    moreover have "concat (?c # cs) = drop a xs"
      using cs(2) by simp (metis append_take_drop_id drop_take add_diff_cancel_left' drop_drop add.commute)
    moreover have "?c \<noteq> [] \<and> length ?c \<le> n" using True assms by (auto simp: min_def)
    moreover have "length ?c = n" if "cs \<noteq> []"
    proof -
      from that cs(3) have "concat cs \<noteq> []" by (cases cs) auto
      with cs(2) show ?thesis by simp
    qed
    ultimately show ?thesis using cs(3,4) by (intro exI[of _ "?c # cs"]) auto
  qed
qed

text \<open>
  For a positive whole size the loop ends, the chunks join to the array, none is empty or longer
  than the size, and all but the last have exactly the size.
\<close>

theorem chunk_correct:
  assumes "0 < n"
  shows "\<exists>cs. chunk xs [JNum (of_nat n)] = Some (Inr cs) \<and> concat cs = xs \<and>
    (\<forall>c \<in> set cs. c \<noteq> [] \<and> length c \<le> n) \<and> (\<forall>c \<in> set (butlast cs). length c = n)"
  using chunk_from_ends[OF assms, of xs 0] assms by (auto simp: chunk_def array_first_def)

theorem chunk_correct_witness:
  "\<exists>cs. chunk [JBool True, JNull, JBool False] [JNum (of_nat 2)] = Some (Inr cs) \<and> concat cs = [JBool True, JNull, JBool False]"
  using chunk_correct[of 2 "[JBool True, JNull, JBool False]"] by auto

lemma chunk_from_negative:
  assumes "chunk_from xs n i = Some cs"
  shows "n < 0 \<longrightarrow> i \<le> 0 \<longrightarrow> xs = []"
proof (rule chunk_from.raw_induct[where P = "\<lambda>xs n i _. n < 0 \<longrightarrow> i \<le> 0 \<longrightarrow> xs = []", OF _ assms], intro impI, rule ccontr)
  fix rec_call :: "'a list \<Rightarrow> number \<Rightarrow> number \<Rightarrow> 'a list list option" and xs n i cs
  assume IH: "\<And>xs n i cs. rec_call xs n i = Some cs \<Longrightarrow> n < 0 \<longrightarrow> i \<le> 0 \<longrightarrow> xs = []"
    and body: "(if i < of_nat (length xs) then Option.bind (rec_call xs n (i + n)) (\<lambda>rest. Some (js_slice xs i (i + n) # rest))
      else Some []) = Some cs"
    and neg: "n < 0" "i \<le> 0" "xs \<noteq> []"
  from neg have "i < of_nat (length xs)" by (cases xs) auto
  with body obtain rest where "rec_call xs n (i + n) = Some rest" by (auto split: bind_splits)
  with IH[OF this] neg show False by simp
qed

text \<open>For a negative size and an array that is not empty the loop does not end.\<close>

theorem chunk_negative_never_returns:
  assumes "n < 0" and "xs \<noteq> []"
  shows "chunk xs [JNum n] = None"
proof -
  have "chunk_from xs n 0 = None"
    using chunk_from_negative[of xs n 0] assms by (cases "chunk_from xs n 0") auto
  with assms(1) show ?thesis by (simp add: chunk_def array_first_def)
qed

theorem chunk_negative_never_returns_witness: "chunk [JNull] [JNum (-1)] = None"
  by (rule chunk_negative_never_returns) simp_all

section \<open>Sets of values\<close>

text \<open>What is relied on of the two library functions.\<close>

definition uniqWith_ok :: "((jval \<Rightarrow> jval \<Rightarrow> bool) \<Rightarrow> jval list \<Rightarrow> jval list) \<Rightarrow> bool" where
  "uniqWith_ok uniqWith \<longleftrightarrow>
     (\<forall>f xs. equivp f \<longrightarrow> set (uniqWith f xs) \<subseteq> set xs \<and> (\<forall>x \<in> set xs. \<exists>y \<in> set (uniqWith f xs). f y x) \<and>
        sorted_wrt (\<lambda>a b. \<not> f a b) (uniqWith f xs))"

lemma equal_by_none [simp]: "equal_by d [] = d"
  by (intro ext) (simp add: equal_by_def equality_view_def)

lemma contains_unique:
  assumes "equivp d" and "uniqWith_ok u"
  shows "contains_equal d (unique u d xs []) v \<longleftrightarrow> contains_equal d xs v"
proof -
  from assms have u: "set (u d xs) \<subseteq> set xs" "\<forall>x \<in> set xs. \<exists>y \<in> set (u d xs). d y x" by (simp_all add: uniqWith_ok_def)
  have "\<exists>y \<in> set (u d xs). d y v" if "x \<in> set xs" "d x v" for x
    using u(2) that equivp_transp[OF assms(1)] by blast
  with u(1) show ?thesis by (auto simp: contains_equal_def list_ex_iff unique_def)
qed

lemma unique_unequal: "equivp d \<Longrightarrow> uniqWith_ok u \<Longrightarrow> sorted_wrt (\<lambda>a b. \<not> d a b) (unique u d xs [])"
  by (simp add: unique_def uniqWith_ok_def)

lemma contains_added:
  assumes "equivp d"
  shows "contains_equal d (fold (\<lambda>v acc. if \<not> contains_equal d acc v then acc @ [v] else acc) ys xs) w \<longleftrightarrow>
    contains_equal d xs w \<or> contains_equal d ys w"
proof (induction ys arbitrary: xs)
  case Nil
  then show ?case by (simp add: contains_equal_def)
next
  case (Cons y ys)
  have "contains_equal d xs w" if "contains_equal d xs y" "d y w"
    using that equivp_transp[OF assms] by (auto simp: contains_equal_def list_ex_iff)
  with Cons show ?case by (auto simp: contains_equal_def)
qed

lemma contains_iff: "contains_equal d xs w \<longleftrightarrow> (\<exists>v \<in> set xs. d v w)"
  by (simp add: contains_equal_def list_ex_iff)

lemma contains_append: "contains_equal d (xs @ ys) w \<longleftrightarrow> contains_equal d xs w \<or> contains_equal d ys w"
  by (simp add: contains_equal_def)

lemma contains_filter:
  assumes "equivp d"
  shows "contains_equal d (filter (\<lambda>v. contains_equal d ys v = b) xs) w \<longleftrightarrow> contains_equal d xs w \<and> contains_equal d ys w = b"
proof -
  have same: "contains_equal d ys v = contains_equal d ys w" if "d v w" for v
    unfolding contains_iff using that equivp_transp[OF assms] equivp_symp[OF assms] by metis
  show ?thesis
    unfolding contains_iff[of d xs] contains_iff[of d "filter _ _"] using same by (simp add: Bex_def) metis
qed

text \<open>
  Up to deep equality, \<open>union\<close>, \<open>difference\<close> and \<open>intersection\<close> of two arrays hold the values of
  the union, the difference and the intersection of their sets, each value once.
\<close>

theorem array_set_operations:
  assumes "equivp deepEqual" and "uniqWith_ok uniqWith"
  shows "\<exists>u d i. union uniqWith deepEqual xs [JArr ys] = Inr u \<and> difference uniqWith deepEqual xs [JArr ys] = Inr d \<and>
    intersection uniqWith deepEqual xs [JArr ys] = Inr i \<and>
    (\<forall>v. contains_equal deepEqual u v \<longleftrightarrow> contains_equal deepEqual xs v \<or> contains_equal deepEqual ys v) \<and>
    (\<forall>v. contains_equal deepEqual d v \<longleftrightarrow> contains_equal deepEqual xs v \<and> \<not> contains_equal deepEqual ys v) \<and>
    (\<forall>v. contains_equal deepEqual i v \<longleftrightarrow> contains_equal deepEqual xs v \<and> contains_equal deepEqual ys v) \<and>
    (\<forall>r \<in> {u, d, i}. sorted_wrt (\<lambda>a b. \<not> deepEqual a b) r)"
proof -
  note e = assms(1) and once = unique_unequal[OF assms] and same = contains_unique[OF assms]
  let ?u = "fold (\<lambda>v acc. if \<not> contains_equal deepEqual acc v then acc @ [v] else acc) ys xs"
  let ?d = "filter (\<lambda>v. \<not> contains_equal deepEqual ys v) xs"
  let ?i = "filter (contains_equal deepEqual ys) xs @ filter (contains_equal deepEqual xs) ys"
  have r: "union uniqWith deepEqual xs [JArr ys] = Inr (unique uniqWith deepEqual ?u [])"
    "difference uniqWith deepEqual xs [JArr ys] = Inr (unique uniqWith deepEqual ?d [])"
    "intersection uniqWith deepEqual xs [JArr ys] = Inr (unique uniqWith deepEqual ?i [])"
    by (simp_all only: union_def difference_def intersection_def others_of_def array_first_def list.case jval.case res_bind_simps)
  have d: "contains_equal deepEqual ?d v \<longleftrightarrow> contains_equal deepEqual xs v \<and> \<not> contains_equal deepEqual ys v" for v
    using contains_filter[OF e, of ys False xs v] by simp
  have i: "contains_equal deepEqual ?i v \<longleftrightarrow> contains_equal deepEqual xs v \<and> contains_equal deepEqual ys v" for v
    using contains_filter[OF e, of ys True xs v] contains_filter[OF e, of xs True ys v] by (auto simp: contains_append)
  show ?thesis
    unfolding r by (rule exI, rule exI, rule exI, intro conjI, (rule refl)+) (simp_all add: same once contains_added[OF e] d i)
qed

fun first_of_each :: "(jval \<Rightarrow> jval \<Rightarrow> bool) \<Rightarrow> jval list \<Rightarrow> jval list" where
  "first_of_each f [] = []"
| "first_of_each f (x # xs) = x # filter (\<lambda>y. \<not> f x y) (first_of_each f xs)"

lemma first_of_each_ok: "uniqWith_ok first_of_each"
proof -
  have "set (first_of_each f xs) \<subseteq> set xs \<and> (\<forall>x \<in> set xs. \<exists>y \<in> set (first_of_each f xs). f y x) \<and>
      sorted_wrt (\<lambda>a b. \<not> f a b) (first_of_each f xs)" if f: "equivp f" for f xs
  proof (induction xs)
    case (Cons x xs)
    have "\<exists>y \<in> set (first_of_each f (x # xs)). f y z" if z: "z \<in> set xs" for z
    proof -
      from Cons z obtain y where y: "y \<in> set (first_of_each f xs)" "f y z" by blast
      show ?thesis
      proof (cases "f x y")
        case True
        with y equivp_transp[OF f] have "f x z" by blast
        then show ?thesis by simp
      next
        case False
        with y show ?thesis by auto
      qed
    qed
    with Cons equivp_reflp[OF f] show ?case by (auto intro: sorted_wrt_filter)
  qed simp
  then show ?thesis by (simp add: uniqWith_ok_def)
qed

theorem array_set_operations_witness:
  "\<exists>u. union first_of_each (=) [JNull, JBool True] [JArr [JBool True, JStr ''a'']] = Inr u \<and> contains_equal (=) u (JStr ''a'')"
proof -
  have "contains_equal (=) [JBool True, JStr ''a''] (JStr ''a'')" by (simp add: contains_equal_def)
  with array_set_operations[OF identity_equivp first_of_each_ok, of "[JNull, JBool True]" "[JBool True, JStr ''a'']"]
  show ?thesis by blast
qed

section \<open>Compacting and renaming\<close>

text \<open>An array in an array, or in an object, comes back as an object; an object that becomes empty stays.\<close>

lemma compact_turns_arrays_to_objects:
  "array_compact [JArr [JBool True]] = [JObj [(''0'', JBool True)]]"
  "object_compact (JObj [(''a'', JArr [JBool True])]) = JObj [(''a'', JObj [(''0'', JBool True)])]"
  "object_compact (JObj [(''a'', JObj [(''b'', JNull)])]) = JObj [(''a'', JObj [])]"
  by code_simp+

text \<open>Renaming a key to itself removes it.\<close>

lemma rename_to_itself: "obj_get (rename_field (k, k) ob) k = None"
  by (simp add: rename_field_def split: option.split)

end
