(* ===== verification/AugmentObject.thy ===== *)
theory AugmentObject
  imports Prelude
begin

text \<open>
  Copy on write for the data that expressions see (packages/workflow/src/AugmentObject.ts), over a
  store of objects: plain objects and arrays, and the two kinds of proxies with the data they hide.
  Dates, regular expressions and bytes, which are copied when read, are values of the store here;
  symbols and prototypes are left out.
\<close>

section \<open>The store\<close>

datatype hval = Prim jval | Ref nat

text \<open>A proxy has its target, the new data and, for an object, the deleted properties.\<close>

datatype cell =
    PlainObj "hval str_obj"
  | PlainArr "hval list"
  | AugObj nat "hval str_obj" "string list"
  | AugArr nat "hval list option"

type_synonym heap = "cell list"

abbreviation undef :: hval where
  "undef \<equiv> Prim JUndef"

definition or_undef :: "hval option \<Rightarrow> hval" where
  "or_undef v = (case v of None \<Rightarrow> undef | Some x \<Rightarrow> x)"

definition obj_cell :: "heap \<Rightarrow> nat \<Rightarrow> hval str_obj" where
  "obj_cell h a = (if a < length h then (case h ! a of PlainObj ob \<Rightarrow> ob | _ \<Rightarrow> []) else [])"

definition arr_cell :: "heap \<Rightarrow> nat \<Rightarrow> hval list" where
  "arr_cell h a = (if a < length h then (case h ! a of PlainArr vs \<Rightarrow> vs | _ \<Rightarrow> []) else [])"

section \<open>Augmenting\<close>

text \<open>What is already a proxy is returned as it is.\<close>

definition augmentArray :: "nat \<Rightarrow> heap \<Rightarrow> nat \<times> heap" where
  "augmentArray a h = (case h ! a of PlainArr _ \<Rightarrow> (length h, h @ [AugArr a None]) | _ \<Rightarrow> (a, h))"

definition augmentObject :: "nat \<Rightarrow> heap \<Rightarrow> nat \<times> heap" where
  "augmentObject a h = (case h ! a of PlainObj _ \<Rightarrow> (length h, h @ [AugObj a [] []]) | _ \<Rightarrow> (a, h))"

definition augment :: "hval \<Rightarrow> heap \<Rightarrow> hval \<times> heap" where
  "augment v h =
     (case v of
        Prim x \<Rightarrow> (v, h)
      | Ref a \<Rightarrow>
          (let (b, h1) = (case h ! a of PlainArr _ \<Rightarrow> augmentArray a h | _ \<Rightarrow> augmentObject a h) in (Ref b, h1)))"

section \<open>Objects\<close>

definition get_key :: "nat \<Rightarrow> string \<Rightarrow> heap \<Rightarrow> hval \<times> heap" where
  "get_key a key h =
     (case h ! a of
        PlainObj ob \<Rightarrow> (or_undef (obj_get ob key), h)
      | AugObj target newData deleted \<Rightarrow>
          (if key \<in> set deleted then (undef, h)
           else if or_undef (obj_get newData key) \<noteq> undef then (or_undef (obj_get newData key), h)
           else let v = or_undef (obj_get (obj_cell h target) key);
                    (newValue, h1) = augment v h
                in if newValue \<noteq> v then (newValue, h1[a := AugObj target (str_put key newValue newData) deleted])
                   else (v, h))
      | _ \<Rightarrow> (undef, h))"

text \<open>Deleting, and setting to undefined.\<close>

definition remove_key :: "string \<Rightarrow> nat \<Rightarrow> hval str_obj \<Rightarrow> string list \<Rightarrow> heap \<Rightarrow> cell" where
  "remove_key key target newData deleted h =
     AugObj target (if obj_has newData key then obj_del key newData else newData)
       (if obj_has (obj_cell h target) key then List.insert key deleted else deleted)"

definition delete_key :: "nat \<Rightarrow> string \<Rightarrow> heap \<Rightarrow> heap" where
  "delete_key a key h =
     (case h ! a of
        PlainObj ob \<Rightarrow> h[a := PlainObj (obj_del key ob)]
      | AugObj target newData deleted \<Rightarrow> h[a := remove_key key target newData deleted h]
      | _ \<Rightarrow> h)"

definition set_key :: "nat \<Rightarrow> string \<Rightarrow> hval \<Rightarrow> heap \<Rightarrow> heap" where
  "set_key a key newValue h =
     (case h ! a of
        PlainObj ob \<Rightarrow> h[a := PlainObj (str_put key newValue ob)]
      | AugObj target newData deleted \<Rightarrow>
          (if newValue = undef then h[a := remove_key key target newData deleted h]
           else h[a := AugObj target (str_put key newValue newData) (removeAll key deleted)])
      | _ \<Rightarrow> h)"

definition has_key :: "nat \<Rightarrow> string \<Rightarrow> heap \<Rightarrow> bool" where
  "has_key a key h =
     (case h ! a of
        PlainObj ob \<Rightarrow> obj_has ob key
      | AugObj target newData deleted \<Rightarrow>
          key \<notin> set deleted \<and> (obj_has newData key \<or> obj_has (obj_cell h target) key)
      | _ \<Rightarrow> False)"

definition own_keys :: "nat \<Rightarrow> heap \<Rightarrow> string list" where
  "own_keys a h =
     (case h ! a of
        PlainObj ob \<Rightarrow> obj_keys ob
      | AugObj target newData deleted \<Rightarrow>
          filter (\<lambda>k. k \<notin> set deleted)
            (obj_keys (obj_cell h target) @ filter (\<lambda>k. k \<notin> set (obj_keys (obj_cell h target))) (obj_keys newData))
      | _ \<Rightarrow> [])"

section \<open>Arrays\<close>

text \<open>The data that is read: the new data, before there is any those of the target.\<close>

definition arr_data :: "nat \<Rightarrow> hval list option \<Rightarrow> heap \<Rightarrow> hval list" where
  "arr_data target newData h = (case newData of None \<Rightarrow> arr_cell h target | Some vs \<Rightarrow> vs)"

definition nth_or_undef :: "hval list \<Rightarrow> nat \<Rightarrow> hval" where
  "nth_or_undef vs i = (if i < length vs then vs ! i else undef)"

text \<open>Writing behind the end leaves holes.\<close>

definition put_index :: "nat \<Rightarrow> hval \<Rightarrow> hval list \<Rightarrow> hval list" where
  "put_index i v vs = (vs @ replicate (i + 1 - length vs) undef)[i := v]"

definition array_length :: "nat \<Rightarrow> heap \<Rightarrow> nat" where
  "array_length a h =
     (case h ! a of PlainArr vs \<Rightarrow> length vs | AugArr target newData \<Rightarrow> length (arr_data target newData h) | _ \<Rightarrow> 0)"

definition get_index :: "nat \<Rightarrow> nat \<Rightarrow> heap \<Rightarrow> hval \<times> heap" where
  "get_index a i h =
     (case h ! a of
        PlainArr vs \<Rightarrow> (nth_or_undef vs i, h)
      | AugArr target newData \<Rightarrow>
          (let v = nth_or_undef (arr_data target newData h) i;
               (newValue, h1) = augment v h
           in if newValue \<noteq> v
              then (newValue, h1[a := AugArr target (Some (put_index i newValue (arr_data target newData h)))])
              else (v, h))
      | _ \<Rightarrow> (undef, h))"

definition set_index :: "nat \<Rightarrow> nat \<Rightarrow> hval \<Rightarrow> heap \<Rightarrow> heap" where
  "set_index a i newValue h =
     (case h ! a of
        PlainArr vs \<Rightarrow> h[a := PlainArr (put_index i newValue vs)]
      | AugArr target newData \<Rightarrow>
          (let (v, h1) = augment newValue h
           in h1[a := AugArr target (Some (put_index i v (arr_data target newData h)))])
      | _ \<Rightarrow> h)"

text \<open>Deleting an element leaves a hole.\<close>

definition delete_index :: "nat \<Rightarrow> nat \<Rightarrow> heap \<Rightarrow> heap" where
  "delete_index a i h =
     (case h ! a of
        PlainArr vs \<Rightarrow> h[a := PlainArr (vs[i := undef])]
      | AugArr target newData \<Rightarrow> h[a := AugArr target (Some ((arr_data target newData h)[i := undef]))]
      | _ \<Rightarrow> h)"

text \<open>
  \<open>hasOwnProperty\<close> of an array for a key other than \<open>length\<close>: once there are new data, every key
  that the original does not describe has the default descriptor.
\<close>

definition describes_index :: "nat \<Rightarrow> nat \<Rightarrow> heap \<Rightarrow> bool" where
  "describes_index a i h =
     (case h ! a of
        PlainArr vs \<Rightarrow> i < length vs
      | AugArr target None \<Rightarrow> i < length (arr_cell h target)
      | AugArr target (Some _) \<Rightarrow> True
      | _ \<Rightarrow> False)"

section \<open>A client\<close>

definition refs_of :: "hval \<Rightarrow> nat set" where
  "refs_of v = (case v of Prim _ \<Rightarrow> {} | Ref a \<Rightarrow> {a})"

text \<open>
  Code that knows the addresses \<open>K\<close>: it reads, writes and deletes properties of what it knows, with
  values that it knows, and makes objects and arrays of its own.
\<close>

inductive client_step :: "heap \<times> nat set \<Rightarrow> heap \<times> nat set \<Rightarrow> bool" where
  reads_key: "a \<in> K \<Longrightarrow> client_step (h, K) (snd (get_key a k h), K \<union> refs_of (fst (get_key a k h)))"
| writes_key: "a \<in> K \<Longrightarrow> refs_of v \<subseteq> K \<Longrightarrow> client_step (h, K) (set_key a k v h, K)"
| deletes_key: "a \<in> K \<Longrightarrow> client_step (h, K) (delete_key a k h, K)"
| reads_index: "a \<in> K \<Longrightarrow> client_step (h, K) (snd (get_index a i h), K \<union> refs_of (fst (get_index a i h)))"
| writes_index: "a \<in> K \<Longrightarrow> refs_of v \<subseteq> K \<Longrightarrow> client_step (h, K) (set_index a i v h, K)"
| deletes_index: "a \<in> K \<Longrightarrow> client_step (h, K) (delete_index a i h, K)"
| new_object: "client_step (h, K) (h @ [PlainObj []], insert (length h) K)"
| new_array: "client_step (h, K) (h @ [PlainArr []], insert (length h) K)"

end
