(* ===== verification/AugmentProperties.thy ===== *)
theory AugmentProperties
  imports AugmentObject
begin

text \<open>
  A client that only has the proxy of some data never changes the data, whatever it does with what it
  reads from the proxy; and a proxy answers like an object of its own.
\<close>

section \<open>The original data\<close>























section \<open>The operations keep the data\<close>














definition sample_data :: heap where
  "sample_data = [PlainObj [(''k'', Ref 1)], PlainArr [Prim (JBool True)]]"

definition sample_proxy :: heap where
  "sample_proxy = snd (augment (Ref 0) sample_data)"


section \<open>A proxy as an object\<close>

text \<open>What has a key is what the keys list.\<close>

lemma has_own_keys: "has_key a k h \<longleftrightarrow> k \<in> set (own_keys a h)"
  by (auto simp: has_key_def own_keys_def obj_has_iff split: cell.split)

lemma read_target:
  "fst (get_key a k h) = (case h ! a of
     AugObj t nd d \<Rightarrow>
       if k \<in> set d then undef
       else if or_undef (obj_get nd k) \<noteq> undef then or_undef (obj_get nd k)
       else fst (augment (or_undef (obj_get (obj_cell h t) k)) h)
   | PlainObj ob \<Rightarrow> or_undef (obj_get ob k)
   | _ \<Rightarrow> undef)"
proof -
  have "fst (augment v h) = v" if "\<not> fst (augment v h) \<noteq> v" for v using that by simp
  then show ?thesis by (auto simp: get_key_def Let_def split: cell.split prod.split) 
qed

lemma nth_update: "h[a := c] ! b = (if b = a \<and> a < length h then c else h ! b)"
  by (cases "b = a"; cases "a < length h") (simp_all add: list_update_beyond)

lemma augment_result:
  "fst (augment v (h[a := AugObj t nd d])) = fst (augment v h)" if "h ! a = AugObj t nd' d'"
  using that
  by (cases v) (auto simp: augment_def augmentArray_def augmentObject_def nth_update split: cell.splits)

lemma obj_cell_update:
  "h ! a = AugObj t nd d \<Longrightarrow> obj_cell (h[a := AugObj t nd' d']) t' = obj_cell h t'"
  by (auto simp: obj_cell_def nth_update)

text \<open>
  C38: The proxy of an object answers like an object of its own: a key that was set has its value and
  is listed, a key that was deleted or set to undefined has none and is not, and the other keys are
  what they were.
\<close>

theorem proxy_reads_own_writes:
  assumes "a < length h" and "h ! a = AugObj t nd d"
  shows "(v \<noteq> undef \<longrightarrow> fst (get_key a k (set_key a k v h)) = v \<and> k \<in> set (own_keys a (set_key a k v h))) \<and>
    (\<forall>h' \<in> {delete_key a k h, set_key a k undef h}. fst (get_key a k h') = undef \<and> k \<notin> set (own_keys a h')) \<and>
    (\<forall>h' \<in> {set_key a k v h, delete_key a k h}. \<forall>k'. k' \<noteq> k \<longrightarrow>
       fst (get_key a k' h') = fst (get_key a k' h) \<and> (k' \<in> set (own_keys a h') \<longleftrightarrow> k' \<in> set (own_keys a h)))"
proof -
  have key: "fst (get_key a k' (h[a := AugObj t nd' d'])) =
      (if k' \<in> set d' then undef
       else if or_undef (obj_get nd' k') \<noteq> undef then or_undef (obj_get nd' k')
       else fst (augment (or_undef (obj_get (obj_cell h t) k')) h))" for k' nd' d'
    by (simp add: read_target assms(1) obj_cell_update[OF assms(2)] augment_result[OF assms(2)])
  have keys: "k' \<in> set (own_keys a (h[a := AugObj t nd' d'])) \<longleftrightarrow>
      k' \<notin> set d' \<and> (obj_has nd' k' \<or> obj_has (obj_cell h t) k')" for k' nd' d'
    by (simp add: has_own_keys[symmetric] has_key_def assms(1) obj_cell_update[OF assms(2)])
  have h: "h[a := AugObj t nd d] = h" using assms(2) by (metis list_update_id)
  obtain nd' d' where r: "remove_key k t nd d h = AugObj t nd' d'"
    and nd': "\<And>j. obj_get nd' j = (if j = k then None else obj_get nd j)"
    and d': "\<And>j. j \<noteq> k \<Longrightarrow> j \<in> set d' \<longleftrightarrow> j \<in> set d" "obj_has (obj_cell h t) k \<Longrightarrow> k \<in> set d'"
    by (auto simp: remove_key_def obj_has_get)
  have del: "fst (get_key a k h') = undef \<and> k \<notin> set (own_keys a h')" if "h' \<in> {delete_key a k h, set_key a k undef h}" for h'
  proof -
    have "h' = h[a := AugObj t nd' d']" using that by (auto simp: delete_key_def set_key_def assms(2) r)
    moreover have "obj_get (obj_cell h t) k = None" if "k \<notin> set d'" 
      using that d'(2) by (cases "obj_get (obj_cell h t) k") (auto simp: obj_has_get)
    ultimately show ?thesis using nd' d'(2) by (auto simp: key keys obj_has_get or_undef_def augment_def)
  qed
  have removed: "fst (get_key a k' (h[a := AugObj t nd' d'])) = fst (get_key a k' h) \<and>
      (k' \<in> set (own_keys a (h[a := AugObj t nd' d'])) \<longleftrightarrow> k' \<in> set (own_keys a h))" if "k' \<noteq> k" for k'
    using that key[of k' nd' d'] key[of k' nd d] keys[of k' nd' d'] keys[of k' nd d] nd'[of k'] d'(1)[of k']
    by (simp add: h obj_has_get)
  have set_other: "fst (get_key a k' (set_key a k v h)) = fst (get_key a k' h) \<and>
      (k' \<in> set (own_keys a (set_key a k v h)) \<longleftrightarrow> k' \<in> set (own_keys a h))" if "k' \<noteq> k" for k'
  proof (cases "v = undef")
    case True
    with removed[OF that] show ?thesis by (simp add: set_key_def assms(2) r)
  next
    case False
    with that key[of k' "str_put k v nd" "removeAll k d"] key[of k' nd d] keys[of k' "str_put k v nd" "removeAll k d"] keys[of k' nd d]
    show ?thesis by (simp add: set_key_def assms(2) h obj_has_get)
  qed
  have new: "v \<noteq> undef \<longrightarrow> fst (get_key a k (set_key a k v h)) = v \<and> k \<in> set (own_keys a (set_key a k v h))"
    using key[of k "str_put k v nd" "removeAll k d"] keys[of k "str_put k v nd" "removeAll k d"]
    by (simp add: set_key_def assms(2) or_undef_def obj_has_get)
  have "delete_key a k h = h[a := AugObj t nd' d']" by (simp add: delete_key_def assms(2) r)
  with new del removed set_other show ?thesis by auto
qed

theorem proxy_reads_own_writes_witness:
  "fst (get_key 2 ''k'' (set_key 2 ''k'' (Prim JNull) sample_proxy)) = Prim JNull \<and>
   fst (get_key 2 ''k'' (delete_key 2 ''k'' sample_proxy)) = undef"
proof -
  have "2 < length sample_proxy" "sample_proxy ! 2 = AugObj 0 [] []" by code_simp+
  from proxy_reads_own_writes[OF this, of "Prim JNull" "''k''"] show ?thesis by simp
qed

text \<open>Once something of an array was written, every index counts as one of its own properties.\<close>

lemma every_index_described:
  assumes "h ! a = AugArr t nd" and "a < length h" and "refs_of v = {}"
  shows "describes_index a i (set_index a n v h)"
proof -
  from assms(3) obtain x where "v = Prim x" by (cases v) (auto simp: refs_of_def)
  with assms(1,2) show ?thesis by (simp add: describes_index_def set_index_def augment_def)
qed

end
