(* ===== verification/FlowNodes.thy ===== *)
theory FlowNodes
  imports NodeData FilterParameter NodeExecution ArrayExtensions
begin

text \<open>
  The nodes that steer the items of a workflow (packages/nodes-base/nodes): If, Filter, Switch,
  Limit and Loop Over Items (SplitInBatches).  What a node reads with \<open>getNodeParameter\<close> is an
  argument, for each item a value or an error, since expressions decide it; a filter is evaluated
  by the model of FilterParameter.ts.
\<close>

section \<open>Errors of a node\<close>

text \<open>
  The three kinds that the nodes tell apart: a NodeOperationError, an ApplicationError and any
  other, with the message and the index of the item in the context of the first two.
\<close>

datatype node_failure =
    OperationFailure string "nat option"
  | AppFailure string "nat option"
  | PlainFailure string

fun failure_message :: "node_failure \<Rightarrow> string" where
  "failure_message (OperationFailure m c) = m"
| "failure_message (AppFailure m c) = m"
| "failure_message (PlainFailure m) = m"

text \<open>\<open>set(error, 'context.itemIndex', itemIndex)\<close>\<close>

fun mark_item :: "nat \<Rightarrow> node_failure \<Rightarrow> node_failure" where
  "mark_item i (OperationFailure m c) = OperationFailure m (Some i)"
| "mark_item i (AppFailure m c) = AppFailure m (Some i)"
| "mark_item i (PlainFailure m) = PlainFailure m"

text \<open>What is thrown for an error with an item when the node does not continue on errors.\<close>

fun thrown_for_item :: "nat \<Rightarrow> node_failure \<Rightarrow> node_failure" where
  "thrown_for_item i (OperationFailure m c) = OperationFailure m c"
| "thrown_for_item i (AppFailure m c) = AppFailure m (Some i)"
| "thrown_for_item i (PlainFailure m) = OperationFailure m (Some i)"

definition node_continues :: "INode \<Rightarrow> bool" where
  "node_continues n =
     (case onError n of
        None \<Rightarrow> continueOnFail n = Some True
      | Some e \<Rightarrow> e = ContinueRegularOutput \<or> e = ContinueErrorOutput)"

section \<open>The value of a filter parameter\<close>

text \<open>
  The value after its expressions were resolved: a filter, which is executed, or something else,
  which is taken as it is.
\<close>

datatype resolved = ResolvedFilter FilterValue | ResolvedOther jval

definition extractValueFilter :: "filter_env \<Rightarrow> resolved \<Rightarrow> nat \<Rightarrow> js_error + bool" where
  "extractValueFilter env v itemIndex =
     (case v of ResolvedOther x \<Rightarrow> Inr (truthy x) | ResolvedFilter f \<Rightarrow> executeFilter env f (Some itemIndex))"

definition extract_conditions :: "filter_env \<Rightarrow> resolved \<Rightarrow> nat \<Rightarrow> node_failure + bool" where
  "extract_conditions env v itemIndex =
     (case extractValueFilter env v itemIndex of
        Inl e \<Rightarrow> Inl (OperationFailure (err_message (mk_error e)) None) | Inr b \<Rightarrow> Inr b)"

section \<open>If and Filter\<close>

record ConditionNode =
  cn_env :: filter_env
  cn_options :: "nat \<Rightarrow> node_failure + unit"
  cn_conditions :: "nat \<Rightarrow> node_failure + resolved"
  cn_continue :: bool

definition item_passes :: "ConditionNode \<Rightarrow> nat \<Rightarrow> node_failure + bool" where
  "item_passes cn itemIndex =
     res_bind (cn_options cn itemIndex) (\<lambda>_.
       case res_bind (cn_conditions cn itemIndex) (\<lambda>v. extract_conditions (cn_env cn) v itemIndex) of
         Inl e \<Rightarrow> Inl (mark_item itemIndex e) | Inr b \<Rightarrow> Inr b)"

definition paired_to :: "nat \<Rightarrow> PairedItem" where
  "paired_to itemIndex = PairedOne \<lparr>pi_item = itemIndex, pi_input = None, pi_sourceOverwrite = None\<rparr>"

definition keep_or_pair :: "nat \<Rightarrow> INodeExecutionData \<Rightarrow> INodeExecutionData" where
  "keep_or_pair itemIndex item =
     (if pairedItem item = None then item\<lparr>pairedItem := Some (paired_to itemIndex)\<rparr> else item)"

fun condition_loop ::
    "ConditionNode \<Rightarrow> nat \<Rightarrow> items \<Rightarrow> items \<times> items \<Rightarrow> node_failure + items \<times> items" where
  "condition_loop cn itemIndex [] (trueItems, falseItems) = Inr (trueItems, falseItems)"
| "condition_loop cn itemIndex (item # rest) (trueItems, falseItems) =
     (case item_passes cn itemIndex of
        Inr b \<Rightarrow>
          condition_loop cn (Suc itemIndex) rest
            (if b then (trueItems @ [keep_or_pair itemIndex item], falseItems)
             else (trueItems, falseItems @ [keep_or_pair itemIndex item]))
      | Inl e \<Rightarrow>
          (if cn_continue cn then condition_loop cn (Suc itemIndex) rest (trueItems, falseItems @ [item])
           else Inl (thrown_for_item itemIndex e)))"

definition IfV2_execute :: "ConditionNode \<Rightarrow> items \<Rightarrow> node_failure + items \<times> items" where
  "IfV2_execute cn inputs = condition_loop cn 0 inputs ([], [])"

text \<open>The same loop, with the items kept and those discarded.\<close>

definition FilterV2_execute :: "ConditionNode \<Rightarrow> items \<Rightarrow> node_failure + items \<times> items" where
  "FilterV2_execute cn inputs = condition_loop cn 0 inputs ([], [])"

section \<open>Switch\<close>

text \<open>The fallback output is none, the extra output or the index of an output.\<close>

datatype Fallback = FallbackNone | FallbackExtra | FallbackIndex js_number

record SwitchOptions =
  fallbackOutput :: "Fallback option"
  allMatchingOutputs :: bool

text \<open>
  Of a rule the number that is checked as the index of its output, which is not a number when
  the rule has none, as in the rules of this version; its conditions are read by its index.
\<close>

record SwitchNode =
  sw_env :: filter_env
  sw_mode :: string
  sw_numberOutputs :: "nat \<Rightarrow> node_failure + number"
  sw_output :: "nat \<Rightarrow> node_failure + js_number"
  sw_rules :: "nat \<Rightarrow> node_failure + js_number list"
  sw_options :: "nat \<Rightarrow> node_failure + SwitchOptions"
  sw_conditions :: "nat \<Rightarrow> nat \<Rightarrow> node_failure + resolved"
  sw_continue :: bool

definition checkIndexRange :: "nat \<Rightarrow> js_number \<Rightarrow> nat \<Rightarrow> node_failure + unit" where
  "checkIndexRange len index itemIndex =
     (case compare_numbers index (Finite (of_nat len)) of
        Some Equal \<Rightarrow> Inl (OperationFailure (''The ouput '' @ number_text index @ '' is not allowed. '') (Some itemIndex))
      | Some Greater \<Rightarrow> Inl (OperationFailure (''The ouput '' @ number_text index @ '' is not allowed'') (Some itemIndex))
      | _ \<Rightarrow>
          (if compare_numbers index (Finite 0) = Some Less
           then Inl (OperationFailure (''The ouput '' @ number_text index @ '' is not allowed'') (Some itemIndex))
           else Inr ()))"

text \<open>
  The outputs after a piece of code, and the error that it ended with: what was pushed before the
  error stays.
\<close>

type_synonym switch_result = "items list \<times> node_failure option"

text \<open>\<open>returnData[index].push(item)\<close>, for an index that is a natural number and for any number.\<close>

definition push_failure :: node_failure where
  "push_failure = PlainFailure ''Cannot read properties of undefined (reading 'push')''"

definition push_output :: "nat \<Rightarrow> INodeExecutionData \<Rightarrow> items list \<Rightarrow> switch_result" where
  "push_output index item outs =
     (if index < length outs then (outs[index := outs ! index @ [item]], None) else (outs, Some push_failure))"

definition push_number :: "js_number \<Rightarrow> INodeExecutionData \<Rightarrow> items list \<Rightarrow> switch_result" where
  "push_number index item outs =
     (case index of
        Finite x \<Rightarrow> (if 0 \<le> x \<and> of_int \<lfloor>x\<rfloor> = x then push_output (nat \<lfloor>x\<rfloor>) item outs else (outs, Some push_failure))
      | _ \<Rightarrow> (outs, Some push_failure))"

definition checked_push :: "js_number \<Rightarrow> nat \<Rightarrow> INodeExecutionData \<Rightarrow> items list \<Rightarrow> switch_result" where
  "checked_push index itemIndex item outs =
     (case checkIndexRange (length outs) index itemIndex of
        Inl e \<Rightarrow> (outs, Some e) | Inr _ \<Rightarrow> push_number index item outs)"

text \<open>\<open>new Array(n).fill(0).map(() => [])\<close>\<close>

definition new_outputs :: "number \<Rightarrow> node_failure + items list" where
  "new_outputs n =
     (if 0 \<le> n \<and> n < 2 ^ 32 \<and> of_int \<lfloor>n\<rfloor> = n then Inr (replicate (nat \<lfloor>n\<rfloor>) [])
      else Inl (PlainFailure ''Invalid array length''))"

definition expression_item :: "SwitchNode \<Rightarrow> nat \<Rightarrow> INodeExecutionData \<Rightarrow> items list \<Rightarrow> switch_result" where
  "expression_item sw itemIndex item outs =
     (case sw_numberOutputs sw itemIndex of
        Inl e \<Rightarrow> (outs, Some e)
      | Inr n \<Rightarrow>
          (case (if itemIndex = 0 then new_outputs n else Inr outs) of
             Inl e \<Rightarrow> (outs, Some e)
           | Inr outs' \<Rightarrow>
               (case sw_output sw itemIndex of
                  Inl e \<Rightarrow> (outs', Some e) | Inr index \<Rightarrow> checked_push index itemIndex item outs')))"

text \<open>
  The loop over the rules: the outputs, whether a rule matched, whether the item is finished (at
  the first match, unless it goes to all that match) and the error.
\<close>

fun rules_loop ::
    "SwitchNode \<Rightarrow> bool \<Rightarrow> nat \<Rightarrow> INodeExecutionData \<Rightarrow> nat \<Rightarrow> js_number list \<Rightarrow> bool \<Rightarrow> items list \<Rightarrow>
     items list \<times> bool \<times> bool \<times> node_failure option" where
  "rules_loop sw allOutputs itemIndex item ruleIndex [] matchFound outs = (outs, matchFound, False, None)"
| "rules_loop sw allOutputs itemIndex item ruleIndex (rule # rules) matchFound outs =
     (case res_bind (sw_conditions sw ruleIndex itemIndex) (\<lambda>v. extract_conditions (sw_env sw) v itemIndex) of
        Inl e \<Rightarrow> (outs, matchFound, False, Some (mark_item itemIndex e))
      | Inr False \<Rightarrow> rules_loop sw allOutputs itemIndex item (Suc ruleIndex) rules matchFound outs
      | Inr True \<Rightarrow>
          (case checkIndexRange (length outs) rule itemIndex of
             Inl e \<Rightarrow> (outs, True, False, Some e)
           | Inr _ \<Rightarrow>
               (case push_output ruleIndex item outs of
                  (outs', Some e) \<Rightarrow> (outs', True, False, Some e)
                | (outs', None) \<Rightarrow>
                    (if allOutputs then rules_loop sw allOutputs itemIndex item (Suc ruleIndex) rules True outs'
                     else (outs', True, True, None)))))"

definition fallback_item ::
    "SwitchOptions \<Rightarrow> nat \<Rightarrow> INodeExecutionData \<Rightarrow> bool \<Rightarrow> items list \<Rightarrow> switch_result" where
  "fallback_item opts itemIndex item matchFound outs =
     (if matchFound then (outs, None)
      else case fallbackOutput opts of
          None \<Rightarrow> (outs, None)
        | Some FallbackNone \<Rightarrow> (outs, None)
        | Some FallbackExtra \<Rightarrow> (if outs = [] then (outs, Some push_failure) else push_output (length outs - 1) item outs)
        | Some (FallbackIndex index) \<Rightarrow> checked_push index itemIndex item outs)"

definition rules_item :: "SwitchNode \<Rightarrow> nat \<Rightarrow> INodeExecutionData \<Rightarrow> items list \<Rightarrow> switch_result" where
  "rules_item sw itemIndex item outs =
     (case sw_rules sw itemIndex of
        Inl e \<Rightarrow> (outs, Some e)
      | Inr rules \<Rightarrow>
          (if rules = [] then (outs, None)
           else case sw_options sw itemIndex of
               Inl e \<Rightarrow> (outs, Some e)
             | Inr opts \<Rightarrow>
                 (let outs' = (if itemIndex = 0
                        then replicate (length rules) [] @ (if fallbackOutput opts = Some FallbackExtra then [[]] else [])
                        else outs)
                  in case rules_loop sw (allMatchingOutputs opts) itemIndex item 0 rules False outs' of
                      (outs'', matchFound, finished, Some e) \<Rightarrow> (outs'', Some e)
                    | (outs'', matchFound, finished, None) \<Rightarrow>
                        (if finished then (outs'', None) else fallback_item opts itemIndex item matchFound outs''))))"

definition switch_item :: "SwitchNode \<Rightarrow> nat \<Rightarrow> INodeExecutionData \<Rightarrow> items list \<Rightarrow> switch_result" where
  "switch_item sw itemIndex item outs =
     (let item' = item\<lparr>pairedItem := Some (paired_to itemIndex)\<rparr>
      in if sw_mode sw = ''expression'' then expression_item sw itemIndex item' outs
         else if sw_mode sw = ''rules'' then rules_item sw itemIndex item' outs
         else (outs, None))"

definition message_item :: "node_failure \<Rightarrow> INodeExecutionData" where
  "message_item e = empty_item\<lparr>json := [(''error'', JStr (failure_message e))]\<rparr>"

text \<open>
  The loop over the items.  When the node continues on errors the error goes to the first output;
  without outputs that itself throws, inside of the handler of errors.
\<close>

fun switch_loop :: "SwitchNode \<Rightarrow> nat \<Rightarrow> items \<Rightarrow> items list \<Rightarrow> node_failure + items list" where
  "switch_loop sw itemIndex [] outs = Inr outs"
| "switch_loop sw itemIndex (item # rest) outs =
     (case switch_item sw itemIndex item outs of
        (outs', None) \<Rightarrow> switch_loop sw (Suc itemIndex) rest outs'
      | (outs', Some e) \<Rightarrow>
          (if sw_continue sw
           then (case push_output 0 (message_item e) outs' of
                   (outs'', None) \<Rightarrow> switch_loop sw (Suc itemIndex) rest outs''
                 | (outs'', Some e') \<Rightarrow> Inl e')
           else Inl (thrown_for_item itemIndex e)))"

definition SwitchV3_execute :: "SwitchNode \<Rightarrow> items \<Rightarrow> node_failure + items list" where
  "SwitchV3_execute sw inputs =
     res_bind (switch_loop sw 0 inputs []) (\<lambda>outs. Inr (if outs = [] then [[]] else outs))"

section \<open>Limit\<close>

definition Limit_execute :: "number \<Rightarrow> string \<Rightarrow> items \<Rightarrow> items" where
  "Limit_execute maxItems keep inputs =
     (if of_nat (length inputs) < maxItems then inputs
      else if keep = ''firstItems'' then js_slice inputs 0 maxItems
      else js_slice inputs (of_nat (length inputs) - maxItems) (of_nat (length inputs)))"

section \<open>Loop Over Items\<close>

text \<open>What the node keeps in its context between the rounds of the loop.\<close>

record SplitContext =
  sc_items :: items
  sc_processedItems :: items
  sc_currentRunIndex :: nat
  sc_maxRunIndex :: js_number
  sc_sourceData :: "ISourceData slot"
  sc_noItemsLeft :: bool
  sc_done :: bool

definition getInputSourceData :: "ITaskDataConnectionsSource option \<Rightarrow> node_failure + ISourceData slot" where
  "getInputSourceData source =
     (case source of
        None \<Rightarrow> Inl (AppFailure ''Source data is missing'' None)
      | Some s \<Rightarrow> (case obj_get s MainConn of
            None \<Rightarrow> Inl (PlainFailure ''Cannot read properties of undefined'') | Some xs \<Rightarrow> Inr (arr_get xs 0)))"

text \<open>The number of elements \<open>splice(0, n)\<close> removes.\<close>

definition splice_count :: "number \<Rightarrow> nat \<Rightarrow> nat" where
  "splice_count n len = min len (nat \<lfloor>n\<rfloor>)"

definition max_run_index :: "nat \<Rightarrow> number \<Rightarrow> js_number" where
  "max_run_index len batchSize =
     (if batchSize = 0 then (if len = 0 then NotANumber else Infinite True)
      else Finite (of_int \<lceil>of_nat len / batchSize\<rceil>))"

definition addSourceOverwrite :: "ISourceData slot \<Rightarrow> IPairedItemData \<Rightarrow> IPairedItemData" where
  "addSourceOverwrite source d = d\<lparr>pi_sourceOverwrite := slot_option source\<rparr>"

definition getPairedItemInformation :: "ISourceData slot \<Rightarrow> INodeExecutionData \<Rightarrow> PairedItem" where
  "getPairedItemInformation source item =
     (case pairedItem item of
        None \<Rightarrow> PairedOne \<lparr>pi_item = 0, pi_input = None, pi_sourceOverwrite = slot_option source\<rparr>
      | Some (PairedMany ds) \<Rightarrow> PairedMany (map (addSourceOverwrite source) ds)
      | Some (PairedOne d) \<Rightarrow> PairedOne (addSourceOverwrite source d)
      | Some (PairedNumber n) \<Rightarrow> PairedOne \<lparr>pi_item = n, pi_input = None, pi_sourceOverwrite = slot_option source\<rparr>)"

definition overwritten :: "ISourceData slot \<Rightarrow> INodeExecutionData \<Rightarrow> INodeExecutionData" where
  "overwritten source item = item\<lparr>pairedItem := Some (getPairedItemInformation source item)\<rparr>"

definition processed_item :: "ISourceData slot \<Rightarrow> nat \<times> INodeExecutionData \<Rightarrow> INodeExecutionData" where
  "processed_item source e =
     (snd e)\<lparr>pairedItem := Some (PairedOne
        \<lparr>pi_item = fst e, pi_input = None, pi_sourceOverwrite = slot_option source\<rparr>)\<rparr>"

text \<open>The first time the node runs, or with the option to reset: the context is made anew.\<close>

definition first_batch :: "number \<Rightarrow> ISourceData slot \<Rightarrow> items \<Rightarrow> items \<times> SplitContext" where
  "first_batch batchSize source inputs =
     (let k = splice_count batchSize (length inputs)
      in (take k inputs,
          \<lparr>sc_items = drop k inputs, sc_processedItems = [], sc_currentRunIndex = 0,
           sc_maxRunIndex = max_run_index (length inputs) batchSize, sc_sourceData = source,
           sc_noItemsLeft = False, sc_done = False\<rparr>))"

definition next_batch :: "number \<Rightarrow> ISourceData slot \<Rightarrow> items \<Rightarrow> SplitContext \<Rightarrow> items \<times> SplitContext" where
  "next_batch batchSize source inputs c =
     (let k = splice_count batchSize (length (sc_items c))
      in (map (overwritten (sc_sourceData c)) (take k (sc_items c)),
          c\<lparr>sc_items := drop k (sc_items c),
            sc_processedItems := sc_processedItems c @ map (processed_item source) (enumerate 0 inputs),
            sc_currentRunIndex := Suc (sc_currentRunIndex c)\<rparr>))"

text \<open>The outputs: the items that are done and the batch for the loop.\<close>

definition SplitInBatchesV3_execute ::
    "number \<Rightarrow> bool \<Rightarrow> ITaskDataConnectionsSource option \<Rightarrow> items \<Rightarrow> SplitContext option \<Rightarrow>
     node_failure + (items \<times> items) \<times> SplitContext" where
  "SplitInBatchesV3_execute batchSize reset source inputs context =
     res_bind (getInputSourceData source) (\<lambda>src.
       let (returnItems, c) =
             (case context of
                Some c \<Rightarrow> (if reset then first_batch batchSize src inputs else next_batch batchSize src inputs c)
              | None \<Rightarrow> first_batch batchSize src inputs);
           c' = c\<lparr>sc_noItemsLeft := sc_items c = [], sc_done := returnItems = []\<rparr>
       in Inr (if returnItems = [] then (sc_processedItems c, []) else ([], returnItems), c'))"

end
