(* ===== verification/FlowProperties.thy ===== *)
theory FlowProperties
  imports FlowNodes
begin

text \<open>
  Where the nodes that steer a workflow send its items: If and Filter partition them, Switch sends
  each to the outputs of its rules, and a loop over items goes over each of them once and then
  gives what came back.
\<close>

section \<open>If and Filter\<close>

text \<open>The items with the given answer in order, linked to the items they were; one that failed is not.\<close>

definition goes_true :: "ConditionNode \<Rightarrow> nat \<Rightarrow> bool" where
  "goes_true cn i \<longleftrightarrow> item_passes cn i = Inr True"

definition sent_item :: "ConditionNode \<Rightarrow> nat \<times> INodeExecutionData \<Rightarrow> INodeExecutionData" where
  "sent_item cn e = (if isl (item_passes cn (fst e)) then snd e else keep_or_pair (fst e) (snd e))"

definition sent_to :: "ConditionNode \<Rightarrow> nat \<Rightarrow> items \<Rightarrow> bool \<Rightarrow> items" where
  "sent_to cn i xs b = map (sent_item cn) (filter (\<lambda>e. goes_true cn (fst e) = b) (enumerate i xs))"

lemma sent_to_simps [simp]:
  "sent_to cn i [] b = []"
  "sent_to cn i (x # xs) b = (if goes_true cn i = b then [sent_item cn (i, x)] else []) @ sent_to cn (Suc i) xs b"
  by (simp_all add: sent_to_def)

definition first_failure :: "ConditionNode \<Rightarrow> nat list \<Rightarrow> nat option" where
  "first_failure cn is = (if cn_continue cn then None else List.find (\<lambda>i. isl (item_passes cn i)) is)"

lemma condition_loop_spec:
  "condition_loop cn i xs (ts, fs) =
     (case first_failure cn [i..<i + length xs] of
        None \<Rightarrow> Inr (ts @ sent_to cn i xs True, fs @ sent_to cn i xs False)
      | Some j \<Rightarrow> Inl (thrown_for_item j (projl (item_passes cn j))))"
proof (induction xs arbitrary: i ts fs)
  case Nil
  then show ?case by (simp add: first_failure_def)
next
  case (Cons x xs)
  have "[i..<i + length (x # xs)] = i # [Suc i..<Suc i + length xs]" by (simp add: upt_conv_Cons del: upt_Suc)
  then show ?case
    by (cases "item_passes cn i")
      (auto simp: Cons.IH first_failure_def goes_true_def sent_item_def simp del: upt_Suc split: option.split)
qed

text \<open>
  C14: An If node sends each item to one of its outputs, the ones whose conditions hold to the first and
  the others to the second, in the order they came in and linked to their places.  An item whose
  conditions cannot be evaluated goes to the second output as it is when the node continues on
  errors; if not, the first such item ends the execution.
\<close>

theorem IfV2_partitions:
  "IfV2_execute cn xs =
     (case first_failure cn [0..<length xs] of
        None \<Rightarrow> Inr (sent_to cn 0 xs True, sent_to cn 0 xs False)
      | Some j \<Rightarrow> Inl (thrown_for_item j (projl (item_passes cn j))))"
  unfolding IfV2_execute_def by (simp only: condition_loop_spec append_Nil add_0)

lemma FilterV2_is_If: "FilterV2_execute cn xs = IfV2_execute cn xs"
  by (simp add: FilterV2_execute_def IfV2_execute_def)

section \<open>Loop Over Items\<close>

text \<open>
  The calls of the node in one loop, each with the source and the items of its input: the items
  that enter the loop first, then what comes back from each round.
\<close>

type_synonym loop_call = "ITaskDataConnectionsSource option \<times> items"

fun loop_calls ::
    "number \<Rightarrow> loop_call list \<Rightarrow> SplitContext option \<Rightarrow> node_failure + (items \<times> items) list \<times> SplitContext option" where
  "loop_calls b [] context = Inr ([], context)"
| "loop_calls b ((source, inputs) # calls) context =
     res_bind (SplitInBatchesV3_execute b False source inputs context) (\<lambda>(outs, c).
       res_bind (loop_calls b calls (Some c)) (\<lambda>(rest, c'). Inr (outs # rest, c')))"

definition has_source :: "loop_call \<Rightarrow> bool" where
  "has_source call \<longleftrightarrow> \<not> isl (getInputSourceData (fst call))"

text \<open>The items that came back in some calls, with their places in them.\<close>

definition came_back :: "loop_call list \<Rightarrow> items" where
  "came_back calls =
     concat (map (\<lambda>(source, ys). map (processed_item (projr (getInputSourceData source))) (enumerate 0 ys)) calls)"

lemma came_back_simps [simp]:
  "came_back [] = []"
  "came_back ((s, ys) # calls) = map (processed_item (projr (getInputSourceData s))) (enumerate 0 ys) @ came_back calls"
  by (simp_all add: came_back_def)

text \<open>
  What call \<open>k\<close> after the first gives when \<open>xs\<close> is left and \<open>before\<close> are the items that came back
  before: the next batch as long as there is one, then everything that came back.
\<close>

definition round_output ::
    "nat \<Rightarrow> ISourceData slot \<Rightarrow> items \<Rightarrow> items \<Rightarrow> loop_call list \<Rightarrow> nat \<Rightarrow> items \<times> items" where
  "round_output n src xs before calls k =
     (if k * n < length xs then ([], map (overwritten src) (take n (drop (k * n) xs)))
      else (before @ came_back (take (Suc k) calls), []))"

lemma round_output_Suc:
  assumes "0 < n"
  shows "round_output n src xs before ((s, ys) # calls) (Suc k) =
    round_output n src (drop n xs) (before @ came_back [(s, ys)]) calls k"
  using assms by (auto simp: round_output_def add.commute)

lemma map_upt_first: "map f [0..<Suc m] = f 0 # map (\<lambda>k. f (Suc k)) [0..<m]"
  by (simp add: upt_conv_Cons map_Suc_upt[symmetric] del: upt_Suc)

lemma next_rounds:
  assumes "1 \<le> b" and "\<forall>call \<in> set calls. has_source call"
  shows "\<exists>c'. loop_calls b calls (Some c) =
      Inr (map (round_output (nat \<lfloor>b\<rfloor>) (sc_sourceData c) (sc_items c) (sc_processedItems c) calls) [0..<length calls], Some c') \<and>
    (calls \<noteq> [] \<longrightarrow> sc_done c' = (length (sc_items c) \<le> (length calls - 1) * nat \<lfloor>b\<rfloor>))"
  using assms(2)
proof (induction calls arbitrary: c)
  case Nil
  then show ?case by simp
next
  case (Cons call calls)
  obtain s ys where call: "call = (s, ys)" by (cases call)
  let ?n = "nat \<lfloor>b\<rfloor>" and ?xs = "sc_items c"
  from Cons.prems call obtain t where t: "getInputSourceData s = Inr t" by (auto simp: has_source_def not_isl_Inr dest: not_isl_Inr)
  have n: "0 < ?n" using assms(1) by (simp add: le_floor_iff)
  define c1 where "c1 = (snd (next_batch b t ys c))\<lparr>sc_noItemsLeft := drop ?n ?xs = [], sc_done := ?xs = []\<rparr>"
  have e: "SplitInBatchesV3_execute b False s ys (Some c) =
      Inr (round_output ?n (sc_sourceData c) ?xs (sc_processedItems c) (call # calls) 0, c1)"
    using n by (auto simp: SplitInBatchesV3_execute_def t next_batch_def Let_def splice_count_def round_output_def c1_def call
      take_Cons' min_def)
  have c1: "sc_items c1 = drop ?n ?xs" "sc_sourceData c1 = sc_sourceData c"
    "sc_processedItems c1 = sc_processedItems c @ came_back [(s, ys)]"
    by (auto simp: c1_def next_batch_def Let_def splice_count_def t min_def)
  have c1_done: "sc_done c1 = (?xs = [])" by (simp add: c1_def)
  from Cons.IH[of c1] Cons.prems obtain c' where c': "loop_calls b calls (Some c1) =
      Inr (map (round_output ?n (sc_sourceData c) (drop ?n ?xs) (sc_processedItems c @ came_back [(s, ys)]) calls)
        [0..<length calls], Some c')"
    and d: "calls \<noteq> [] \<longrightarrow> sc_done c' = (length (drop ?n ?xs) \<le> (length calls - 1) * ?n)"
    unfolding c1 by auto
  show ?case
  proof (intro exI[of _ c'] conjI impI)
    show "loop_calls b (call # calls) (Some c) =
        Inr (map (round_output ?n (sc_sourceData c) ?xs (sc_processedItems c) (call # calls)) [0..<length (call # calls)], Some c')"
      using e c' call by (simp add: map_upt_first round_output_Suc[OF n] del: upt_Suc)
    show "sc_done c' = (length ?xs \<le> (length (call # calls) - 1) * ?n)"
    proof (cases calls)
      case Nil
      with c' have "c' = c1" by simp
      with Nil c1_done show ?thesis by simp
    next
      case (Cons a as)
      with d show ?thesis by auto
    qed
  qed
qed

text \<open>
  C9: A loop over items goes over every batch once and in order: with a batch size of at least one, call
  \<open>k\<close> of the node sends the items from \<open>k\<close> times the batch size on into the loop as long as there
  are such items, and after that it gives, on its other output, all that came back from the rounds
  before, and says that it is done.  The items of the later batches are linked to the input of the
  first call.
\<close>

theorem SplitInBatchesV3_loops:
  assumes "1 \<le> b" and "getInputSourceData source = Inr src" and "\<forall>call \<in> set calls. has_source call"
  shows "\<exists>c. loop_calls b ((source, xs) # calls) None =
      Inr (map (\<lambda>k. if k * nat \<lfloor>b\<rfloor> < length xs
                   then ([], map (if k = 0 then id else overwritten src) (take (nat \<lfloor>b\<rfloor>) (drop (k * nat \<lfloor>b\<rfloor>) xs)))
                   else (came_back (take k calls), []))
             [0..<Suc (length calls)], Some c) \<and>
    sc_done c = (length xs \<le> length calls * nat \<lfloor>b\<rfloor>)"
proof -
  let ?n = "nat \<lfloor>b\<rfloor>"
  have n: "0 < ?n" using assms(1) by (simp add: le_floor_iff)
  define c0 where "c0 = (snd (first_batch b src xs))\<lparr>sc_noItemsLeft := drop ?n xs = [], sc_done := xs = []\<rparr>"
  have e: "SplitInBatchesV3_execute b False source xs None = Inr (([], take ?n xs), c0)"
    using n by (auto simp: SplitInBatchesV3_execute_def assms(2) first_batch_def Let_def splice_count_def c0_def min_def)
  have c0: "sc_items c0 = drop ?n xs" "sc_sourceData c0 = src" "sc_processedItems c0 = []" "sc_done c0 = (xs = [])"
    by (auto simp: c0_def first_batch_def Let_def splice_count_def min_def)
  from next_rounds[OF assms(1,3), of c0] obtain c where c: "loop_calls b calls (Some c0) =
      Inr (map (round_output ?n src (drop ?n xs) [] calls) [0..<length calls], Some c)"
    and d: "calls \<noteq> [] \<longrightarrow> sc_done c = (length (drop ?n xs) \<le> (length calls - 1) * ?n)"
    unfolding c0 by auto
  have finished: "sc_done c = (length xs \<le> length calls * ?n)"
  proof (cases calls)
    case Nil
    with c c0 show ?thesis by simp
  next
    case (Cons a as)
    with d show ?thesis by auto
  qed
  have r: "round_output ?n src (drop ?n xs) [] calls k =
      (if Suc k * ?n < length xs then ([], map (overwritten src) (take ?n (drop (Suc k * ?n) xs)))
       else (came_back (take (Suc k) calls), []))" for k
    by (auto simp: round_output_def add.commute)
  show ?thesis
    by (intro exI[of _ c] conjI finished) (use e c in \<open>simp add: map_upt_first r del: upt_Suc\<close>)
qed

text \<open>Every item is in exactly one batch.\<close>

lemma concat_batches: "concat (map (\<lambda>k. take n (drop (k * n) xs)) [0..<m]) = take (m * n) xs"
proof (induction m)
  case 0
  then show ?case by simp
next
  case (Suc m)
  then show ?case by (simp add: take_add[of "m * n" n, symmetric] add.commute)
qed

text \<open>
  A batch size below one, which an expression may give, ends the loop at once without any item; a
  loop that is entered again without the option to reset goes over nothing.
\<close>

lemma no_batch_drops_items:
  assumes "b < 1" and "getInputSourceData source = Inr src"
  shows "\<exists>c. SplitInBatchesV3_execute b False source xs None = Inr (([], []), c) \<and> sc_done c"
proof -
  have "nat \<lfloor>b\<rfloor> = 0" using assms(1) by (simp add: floor_le_iff)
  then show ?thesis
    by (simp add: SplitInBatchesV3_execute_def assms(2) first_batch_def Let_def splice_count_def)
qed

lemma entered_again:
  assumes "sc_items c = []" and "getInputSourceData source = Inr src"
  shows "\<exists>c'. SplitInBatchesV3_execute b False source xs (Some c) =
    Inr ((sc_processedItems c @ map (processed_item src) (enumerate 0 xs), []), c')"
  by (simp add: SplitInBatchesV3_execute_def assms next_batch_def Let_def splice_count_def)

text \<open>The links of an item of a later batch lead to the input of the first call.\<close>

lemma batch_links_lead_to_input:
  assumes "pairedItem item = None \<or> pairedItem item = Some (PairedNumber n) \<or> pairedItem item = Some (PairedOne d)"
  shows "overwrite_source sd (origin_of (getPairedItemInformation (Val s) item)) = Val s"
  using assms
  by (auto simp: getPairedItemInformation_def one_origin_def overwrite_source_def addSourceOverwrite_def)

definition loop_source :: "ITaskDataConnectionsSource option" where
  "loop_source = Some [(MainConn, [Val \<lparr>previousNode = ''A'', previousNodeOutput = None, previousNodeRun = None\<rparr>])]"

theorem SplitInBatchesV3_loops_witness:
  "\<exists>c outs. loop_calls 2 [(loop_source, [empty_item, empty_item, empty_item]), (loop_source, [empty_item]), (loop_source, [])] None =
      Inr (outs, Some c) \<and> map (\<lambda>(d, l). (length d, length l)) outs = [(0, 2), (0, 1), (1, 0)] \<and> sc_done c"
proof -
  have g: "\<exists>src. getInputSourceData loop_source = Inr src" by (simp add: loop_source_def getInputSourceData_def)
  then obtain src where src: "getInputSourceData loop_source = Inr src" ..
  show ?thesis
    using SplitInBatchesV3_loops[of 2 loop_source src "[(loop_source, [empty_item]), (loop_source, [])]"
        "[empty_item, empty_item, empty_item]"] src
    by (auto simp: has_source_def came_back_def numeral_3_eq_3)
qed

section \<open>Switch\<close>

definition rule_answer :: "SwitchNode \<Rightarrow> nat \<Rightarrow> nat \<Rightarrow> node_failure + bool" where
  "rule_answer sw i k = res_bind (sw_conditions sw k i) (\<lambda>v. extract_conditions (sw_env sw) v i)"

definition rule_matches :: "SwitchNode \<Rightarrow> nat \<Rightarrow> nat \<Rightarrow> bool" where
  "rule_matches sw i k \<longleftrightarrow> rule_answer sw i k = Inr True"

text \<open>
  The outputs that an item belongs to: that of the first rule that matches, or of all that do, or
  else the fallback.
\<close>

definition fallback_targets :: "nat \<Rightarrow> Fallback option \<Rightarrow> nat list" where
  "fallback_targets r fb =
     (case fb of
        Some FallbackExtra \<Rightarrow> [r]
      | Some (FallbackIndex (Finite x)) \<Rightarrow> [nat \<lfloor>x\<rfloor>]
      | _ \<Rightarrow> [])"

definition targets :: "SwitchNode \<Rightarrow> SwitchOptions \<Rightarrow> nat \<Rightarrow> nat \<Rightarrow> nat list" where
  "targets sw opts r i =
     (case filter (rule_matches sw i) [0..<r] of
        [] \<Rightarrow> fallback_targets r (fallbackOutput opts)
      | k # ks \<Rightarrow> (if allMatchingOutputs opts then k # ks else [k]))"

definition routed_to :: "SwitchNode \<Rightarrow> SwitchOptions \<Rightarrow> nat \<Rightarrow> nat \<Rightarrow> items \<Rightarrow> nat \<Rightarrow> items" where
  "routed_to sw opts r i xs k =
     map (\<lambda>(j, x). x\<lparr>pairedItem := Some (paired_to j)\<rparr>) (filter (\<lambda>(j, x). k \<in> set (targets sw opts r j)) (enumerate i xs))"

definition add_to :: "INodeExecutionData \<Rightarrow> nat list \<Rightarrow> items list \<Rightarrow> items list" where
  "add_to item ks outs = fold (\<lambda>k os. os[k := os ! k @ [item]]) ks outs"

lemma length_add_to [simp]: "length (add_to item ks outs) = length outs"
  unfolding add_to_def by (induction ks arbitrary: outs) auto

lemma add_to_Nil [simp]: "add_to item [] outs = outs"
  by (simp add: add_to_def)

lemma add_to_Cons: "add_to item (k # ks) outs = add_to item ks (outs[k := outs ! k @ [item]])"
  by (simp add: add_to_def)

lemma nth_add_to:
  "distinct ks \<Longrightarrow> \<forall>k \<in> set ks. k < length outs \<Longrightarrow> j < length outs \<Longrightarrow>
   add_to item ks outs ! j = (if j \<in> set ks then outs ! j @ [item] else outs ! j)"
  by (induction ks arbitrary: outs) (auto simp: add_to_Cons nth_list_update)

lemma rules_loop_spec:
  assumes "set rules \<subseteq> {NotANumber}" and "r0 + length rules \<le> length outs"
    and "\<forall>k \<in> {r0..<r0 + length rules}. \<not> isl (rule_answer sw i k)"
  shows "rules_loop sw everywhere i item r0 rules found outs =
    (case filter (rule_matches sw i) [r0..<r0 + length rules] of
       [] \<Rightarrow> (outs, found, False, None)
     | k # ks \<Rightarrow> (if everywhere then (add_to item (k # ks) outs, True, False, None) else (add_to item [k] outs, True, True, None)))"
  using assms
proof (induction rules arbitrary: r0 outs found everywhere)
  case Nil
  then show ?case by simp
next
  case (Cons rule rules)
  let ?os = "outs[r0 := outs ! r0 @ [item]]"
  from Cons.prems(3) obtain b where b: "rule_answer sw i r0 = Inr b" using not_isl_Inr by fastforce
  then have m: "rule_matches sw i r0 = b" by (simp add: rule_matches_def)
  have u: "[r0..<r0 + length (rule # rules)] = r0 # [Suc r0..<Suc r0 + length rules]"
    by (simp add: upt_conv_Cons del: upt_Suc)
  have c: "checkIndexRange (length outs) rule i = Inr ()" using Cons.prems(1) by (simp add: checkIndexRange_def compare_numbers_def)
  have IH: "rules_loop sw e i item (Suc r0) rules f os =
      (case filter (rule_matches sw i) [Suc r0..<Suc r0 + length rules] of
         [] \<Rightarrow> (os, f, False, None)
       | k # ks \<Rightarrow> (if e then (add_to item (k # ks) os, True, False, None) else (add_to item [k] os, True, True, None)))"
    if "length os = length outs" for os f e
    using Cons.prems that by (intro Cons.IH) auto
  show ?case
    using b c m Cons.prems(2) unfolding u
    by (cases b; cases "filter (rule_matches sw i) [Suc r0..<Suc r0 + length rules]")
      (auto simp: rule_answer_def[symmetric] IH push_output_def add_to_Cons
        simp del: upt_Suc split: list.split)
qed

lemma targets_ok:
  assumes "\<forall>x. fallbackOutput opts = Some (FallbackIndex x) \<longrightarrow> (\<exists>k < r. x = Finite (of_nat k))"
  shows "distinct (targets sw opts r i)"
    and "k \<in> set (targets sw opts r i) \<Longrightarrow> k < r + (if fallbackOutput opts = Some FallbackExtra then 1 else 0)"
proof -
  have f: "k < r + (if fallbackOutput opts = Some FallbackExtra then 1 else 0)"
    if "k \<in> set (fallback_targets r (fallbackOutput opts))"
  proof (cases "fallbackOutput opts")
    case (Some fb)
    with that assms show ?thesis
      by (cases fb) (auto simp: fallback_targets_def split: js_number.splits)
  qed (use that in \<open>simp add: fallback_targets_def\<close>)
  have d: "distinct (fallback_targets r (fallbackOutput opts))"
    by (auto simp: fallback_targets_def split: option.splits Fallback.splits js_number.splits)
  have m: "set (filter (rule_matches sw i) [0..<r]) \<subseteq> {..<r}" "distinct (filter (rule_matches sw i) [0..<r])" by auto
  show "distinct (targets sw opts r i)"
    using d m(2) by (cases "filter (rule_matches sw i) [0..<r]") (auto simp: targets_def)
  show "k \<in> set (targets sw opts r i) \<Longrightarrow> k < r + (if fallbackOutput opts = Some FallbackExtra then 1 else 0)"
    using f m(1) by (cases "filter (rule_matches sw i) [0..<r]") (auto simp: targets_def split: if_splits)
qed

text \<open>
  Parameters that do not fail and that are the same for all items, but for the answers of the rules.
\<close>

definition uniform_switch :: "SwitchNode \<Rightarrow> js_number list \<Rightarrow> SwitchOptions \<Rightarrow> nat set \<Rightarrow> bool" where
  "uniform_switch sw rules opts I \<longleftrightarrow>
     sw_mode sw = ''rules'' \<and> rules \<noteq> [] \<and> set rules \<subseteq> {NotANumber} \<and>
     (\<forall>i \<in> I. sw_rules sw i = Inr rules \<and> sw_options sw i = Inr opts \<and> (\<forall>k < length rules. \<not> isl (rule_answer sw i k))) \<and>
     (\<forall>x. fallbackOutput opts = Some (FallbackIndex x) \<longrightarrow> (\<exists>k < length rules. x = Finite (of_nat k)))"

definition output_count :: "js_number list \<Rightarrow> SwitchOptions \<Rightarrow> nat" where
  "output_count rules opts = length rules + (if fallbackOutput opts = Some FallbackExtra then 1 else 0)"

lemma switch_item_spec:
  assumes "uniform_switch sw rules opts I" and "i \<in> I"
    and "if i = 0 then outs = [] else length outs = output_count rules opts"
  shows "switch_item sw i x outs =
    (add_to (x\<lparr>pairedItem := Some (paired_to i)\<rparr>) (targets sw opts (length rules) i)
       (if i = 0 then replicate (output_count rules opts) [] else outs), None)"
proof -
  let ?x = "x\<lparr>pairedItem := Some (paired_to i)\<rparr>" and ?r = "length rules"
  define os where "os = (if i = 0 then replicate (output_count rules opts) [] else outs)"
  have len: "length os = output_count rules opts" using assms(3) by (auto simp: os_def)
  have os: "(if i = 0 then replicate ?r [] @ (if fallbackOutput opts = Some FallbackExtra then [[]] else []) else outs) = os"
    by (auto simp: os_def output_count_def replicate_append_same)
  note U = assms(1)[unfolded uniform_switch_def]
  have loop: "rules_loop sw (allMatchingOutputs opts) i ?x 0 rules False os =
      (case filter (rule_matches sw i) [0..<?r] of
         [] \<Rightarrow> (os, False, False, None)
       | k # ks \<Rightarrow> (if allMatchingOutputs opts then (add_to ?x (k # ks) os, True, False, None)
                   else (add_to ?x [k] os, True, True, None)))"
    using rules_loop_spec[of rules 0 os sw i "allMatchingOutputs opts" ?x False] U assms(2) len
    by (auto simp: output_count_def)
  have fb: "fallback_item opts i ?x False os = (add_to ?x (fallback_targets ?r (fallbackOutput opts)) os, None)"
  proof (cases "fallbackOutput opts")
    case (Some fb)
    show ?thesis
    proof (cases fb)
      case (FallbackIndex y)
      with Some U obtain k where "k < ?r" "y = Finite (of_nat k)" by blast
      with Some FallbackIndex len show ?thesis
        by (auto simp: fallback_item_def fallback_targets_def checked_push_def checkIndexRange_def compare_numbers_def
            push_number_def push_output_def add_to_Cons output_count_def)
    qed (use Some len U in \<open>auto simp: fallback_item_def fallback_targets_def push_output_def add_to_Cons output_count_def\<close>)
  qed (simp add: fallback_item_def fallback_targets_def)
  have "rules_item sw i ?x outs = (add_to ?x (targets sw opts ?r i) os, None)"
    using U assms(2) loop fb
    by (cases "filter (rule_matches sw i) [0..<?r]")
      (auto simp: rules_item_def os Let_def targets_def fallback_item_def[of _ _ _ True])
  with U show ?thesis by (simp add: switch_item_def os_def)
qed

lemma routed_to_simps [simp]:
  "routed_to sw opts r i [] k = []"
  "routed_to sw opts r i (x # xs) k =
     (if k \<in> set (targets sw opts r i) then [x\<lparr>pairedItem := Some (paired_to i)\<rparr>] else []) @ routed_to sw opts r (Suc i) xs k"
  by (simp_all add: routed_to_def)

lemma switch_loop_spec:
  assumes "uniform_switch sw rules opts I" and "{i..<i + length xs} \<subseteq> I" and "0 < i" and "length outs = output_count rules opts"
  shows "switch_loop sw i xs outs =
    Inr (map (\<lambda>k. outs ! k @ routed_to sw opts (length rules) i xs k) [0..<output_count rules opts])"
  using assms(2-)
proof (induction xs arbitrary: i outs)
  case Nil
  then show ?case by simp (metis map_nth)
next
  case (Cons x xs)
  let ?os = "add_to (x\<lparr>pairedItem := Some (paired_to i)\<rparr>) (targets sw opts (length rules) i) outs"
  have fb: "\<forall>y. fallbackOutput opts = Some (FallbackIndex y) \<longrightarrow> (\<exists>k < length rules. y = Finite (of_nat k))"
    using assms(1) by (simp add: uniform_switch_def)
  from Cons.prems have "i \<in> I" by force
  then have s: "switch_item sw i x outs = (?os, None)"
    using switch_item_spec[OF assms(1), of i outs x] Cons.prems(2,3) by simp
  have "\<forall>k \<in> set (targets sw opts (length rules) i). k < length outs"
    using targets_ok(2)[OF fb] Cons.prems(3) by (auto simp: output_count_def)
  note nth = nth_add_to[OF targets_ok(1)[OF fb] this]
  have sub: "{Suc i..<Suc i + length xs} \<subseteq> I" using Cons.prems(1) by force
  show ?case
    using s Cons.IH[OF sub, of ?os] Cons.prems(3) nth by (auto intro!: map_cong)
qed

text \<open>
  C8: A Switch node sends each item to the output of the first rule it matches, or to those of all rules
  that it matches if the node says so, and an item that matches none to the fallback output if
  there is one: each output holds just the items that belong there, in the order they came in and
  linked to their places.
\<close>

theorem SwitchV3_routes:
  assumes "uniform_switch sw rules opts {..<length xs}" and "xs \<noteq> []"
  shows "SwitchV3_execute sw xs = Inr (map (routed_to sw opts (length rules) 0 xs) [0..<output_count rules opts])"
proof -
  obtain x ys where xs: "xs = x # ys" using assms(2) by (cases xs) auto
  let ?n = "output_count rules opts"
  let ?os = "add_to (x\<lparr>pairedItem := Some (paired_to 0)\<rparr>) (targets sw opts (length rules) 0) (replicate ?n [])"
  have fb: "\<forall>y. fallbackOutput opts = Some (FallbackIndex y) \<longrightarrow> (\<exists>k < length rules. y = Finite (of_nat k))"
    and n: "0 < ?n" using assms(1) by (auto simp: uniform_switch_def output_count_def)
  have "\<forall>k \<in> set (targets sw opts (length rules) 0). k < length (replicate ?n ([] :: items))"
    using targets_ok(2)[OF fb] by (auto simp: output_count_def)
  note nth = nth_add_to[OF targets_ok(1)[OF fb] this]
  have "switch_item sw 0 x [] = (?os, None)"
    using switch_item_spec[OF assms(1), of 0 "[]" x] xs by simp
  moreover have "{1..<1 + length ys} \<subseteq> {..<length xs}" using xs by auto
  ultimately have "switch_loop sw 0 xs [] = Inr (map (\<lambda>k. ?os ! k @ routed_to sw opts (length rules) 1 ys k) [0..<?n])"
    using switch_loop_spec[OF assms(1), of 1 ys ?os] xs by simp
  also have "\<dots> = Inr (map (routed_to sw opts (length rules) 0 xs) [0..<?n])"
    using nth by (auto simp: xs intro!: map_cong)
  finally show ?thesis using n by (simp add: SwitchV3_execute_def)
qed

text \<open>
  Two rules of which rule \<open>k\<close> answers for item \<open>i\<close> as the table says, and the rest of the node.
\<close>

definition sample_switch :: "(nat \<Rightarrow> nat \<Rightarrow> node_failure + bool) \<Rightarrow> SwitchOptions \<Rightarrow> SwitchNode" where
  "sample_switch tab opts =
     \<lparr>sw_env = sample_filter_env, sw_mode = ''rules'', sw_numberOutputs = (\<lambda>i. Inr 2), sw_output = (\<lambda>i. Inr NotANumber),
      sw_rules = (\<lambda>i. Inr [NotANumber, NotANumber]), sw_options = (\<lambda>i. Inr opts),
      sw_conditions = (\<lambda>k i. case tab k i of Inl e \<Rightarrow> Inl e | Inr b \<Rightarrow> Inr (ResolvedOther (JBool b))), sw_continue = True\<rparr>"

definition extra_output :: SwitchOptions where
  "extra_output = \<lparr>fallbackOutput = Some FallbackExtra, allMatchingOutputs = False\<rparr>"

theorem SwitchV3_routes_witness:
  "\<exists>outs. SwitchV3_execute (sample_switch (\<lambda>k i. Inr (k = i)) extra_output) [empty_item, empty_item, empty_item] = Inr outs \<and>
     map length outs = [1, 1, 1]"
proof -
  let ?sw = "sample_switch (\<lambda>k i. Inr (k = i)) extra_output" and ?xs = "[empty_item, empty_item, empty_item]"
  have m: "rule_answer ?sw i k = Inr (k = i)" for i k
    by (simp add: rule_answer_def sample_switch_def extract_conditions_def extractValueFilter_def)
  have "uniform_switch ?sw [NotANumber, NotANumber] extra_output {..<length ?xs}"
    using m by (simp add: uniform_switch_def) (simp add: sample_switch_def extra_output_def)
  from SwitchV3_routes[OF this] m show ?thesis
    by (simp add: output_count_def routed_to_def targets_def rule_matches_def fallback_targets_def extra_output_def
        numeral_2_eq_2 numeral_3_eq_3)
qed

text \<open>
  The first item makes the outputs.  If its rules cannot be read, a node that continues on errors
  has no output for the error: it fails, with the error of the handler and not with that of the item.
\<close>

lemma switch_first_failure_escapes:
  assumes "sw_mode sw = ''rules''" and "sw_rules sw 0 = Inl e" and "sw_continue sw"
  shows "SwitchV3_execute sw (x # xs) = Inl push_failure"
  using assms by (simp add: SwitchV3_execute_def switch_item_def Let_def rules_item_def push_output_def)

text \<open>If the first item has no rules there is no output for a later one that matches.\<close>

lemma switch_first_without_rules:
  assumes "sw_mode sw = ''rules''" and "sw_rules sw 0 = Inr []" and "sw_rules sw (Suc 0) = Inr (NotANumber # rules)"
    and "sw_options sw (Suc 0) = Inr opts" and "rule_answer sw (Suc 0) 0 = Inr True" and "\<not> sw_continue sw"
  shows "SwitchV3_execute sw (x # y # xs) = Inl (thrown_for_item (Suc 0) push_failure)"
  using assms
  by (simp add: SwitchV3_execute_def switch_item_def Let_def rules_item_def push_output_def
      rule_answer_def[symmetric] checkIndexRange_def compare_numbers_def)

text \<open>An item whose second rule fails after it was sent to the first output is there twice, once as an error.\<close>

lemma switch_failed_item_twice:
  "SwitchV3_execute (sample_switch (\<lambda>k i. if k = 0 then Inr True else Inl (PlainFailure ''no''))
      \<lparr>fallbackOutput = None, allMatchingOutputs = True\<rparr>) [empty_item] =
   Inr [[empty_item\<lparr>pairedItem := Some (paired_to 0)\<rparr>, message_item (PlainFailure ''no'')], []]"
  by code_simp

section \<open>Limit\<close>

lemma slice_bound_nat: "slice_bound m (of_nat k) = min m k" "slice_bound m 0 = 0"
  by (simp_all add: slice_bound_def ArrayExtensions.cut_def)

lemma Limit_first: "Limit_execute (of_nat n) ''firstItems'' xs = take n xs"
  by (simp add: Limit_execute_def js_slice_def slice_bound_nat)

lemma Limit_last:
  assumes "keep \<noteq> ''firstItems''"
  shows "Limit_execute (of_nat n) keep xs = drop (length xs - n) xs"
proof (cases "length xs < n")
  case False
  then have e: "(of_nat (length xs) :: number) - of_nat n = of_nat (length xs - n)" using of_nat_diff[of n "length xs"] by simp
  from False assms show ?thesis unfolding Limit_execute_def js_slice_def e slice_bound_nat by simp
qed (simp add: Limit_execute_def)

end
