(* ===== verification/MergeNode.thy ===== *)
theory MergeNode
  imports FlowNodes ExpressionParser
begin

text \<open>
  The Merge node (packages/nodes-base/nodes/Merge/v3): appending, combining by matching fields, by
  position or all with all, and choosing an input.  The functions of lodash are a record: \<open>get\<close>,
  \<open>isEqual\<close> and the ones that merge objects into the first of them.
\<close>

section \<open>The library\<close>

record lodash =
  ld_get :: "IDataObject \<Rightarrow> string \<Rightarrow> jval"
  ld_isEqual :: "jval \<Rightarrow> jval \<Rightarrow> bool"
  ld_merge :: "IDataObject \<Rightarrow> jval list \<Rightarrow> IDataObject"
  ld_mergeWith :: "(jval \<Rightarrow> jval \<Rightarrow> jval) \<Rightarrow> IDataObject \<Rightarrow> jval list \<Rightarrow> IDataObject"
  ld_assign :: "IDataObject \<Rightarrow> jval list \<Rightarrow> IDataObject"
  ld_assignWith :: "(jval \<Rightarrow> jval \<Rightarrow> jval) \<Rightarrow> IDataObject \<Rightarrow> jval list \<Rightarrow> IDataObject"
  ld_json_parse :: "string \<Rightarrow> jval option"

section \<open>Comparing values (packages/nodes-base/utils/utilities.ts)\<close>

definition isFalsy :: "jval \<Rightarrow> bool" where
  "isFalsy v \<longleftrightarrow> v = JNull \<or> v = JStr [] \<or> v = JArr []"

definition parseStringAndCompareToObject :: "lodash \<Rightarrow> string \<Rightarrow> jval \<Rightarrow> bool" where
  "parseStringAndCompareToObject ld s v = (case ld_json_parse ld s of None \<Rightarrow> False | Some x \<Rightarrow> ld_isEqual ld x v)"

text \<open>The texts and numbers that a boolean is equal to.\<close>

definition boolean_matches :: "bool \<Rightarrow> jval \<Rightarrow> bool" where
  "boolean_matches b v =
     (case v of
        JStr s \<Rightarrow> lower s = (if b then ''true'' else ''false'') \<or> s = (if b then ''1'' else ''0'')
      | JNum n \<Rightarrow> n = (if b then 1 else 0)
      | _ \<Rightarrow> False)"

definition zero_like :: "jval \<Rightarrow> bool" where
  "zero_like v \<longleftrightarrow> v = JNull \<or> v = JNum 0 \<or> v = JStr ''0''"

definition fuzzy_equal :: "lodash \<Rightarrow> nat \<Rightarrow> jval \<Rightarrow> jval \<Rightarrow> bool" where
  "fuzzy_equal ld compareVersion a b =
     (if a \<noteq> JNull \<and> b \<noteq> JNull \<and> js_typeof a = js_typeof b then ld_isEqual ld a b
      else if 2 \<le> compareVersion \<and> (a = JNull \<and> zero_like b \<or> b = JNull \<and> zero_like a) then True
      else if isFalsy a \<and> isFalsy b \<or> isFalsy a \<and> b = JUndef \<or> a = JUndef \<and> isFalsy b then True
      else case (a, b) of
          (JNum n, JStr s) \<Rightarrow> num_string n = s
        | (JStr s, JNum n) \<Rightarrow> s = num_string n
        | (JObj ob, JStr s) \<Rightarrow> parseStringAndCompareToObject ld s a
        | (JArr vs, JStr s) \<Rightarrow> parseStringAndCompareToObject ld s a
        | (JStr s, JObj ob) \<Rightarrow> parseStringAndCompareToObject ld s b
        | (JStr s, JArr vs) \<Rightarrow> parseStringAndCompareToObject ld s b
        | (JBool p, _) \<Rightarrow> (if boolean_matches p b then True else ld_isEqual ld a b)
        | (_, JBool p) \<Rightarrow> (if boolean_matches p a then True else ld_isEqual ld a b)
        | _ \<Rightarrow> ld_isEqual ld a b)"

definition fuzzyCompare :: "lodash \<Rightarrow> bool \<Rightarrow> nat \<Rightarrow> jval \<Rightarrow> jval \<Rightarrow> bool" where
  "fuzzyCompare ld useFuzzyCompare compareVersion a b =
     (if useFuzzyCompare then fuzzy_equal ld compareVersion a b else ld_isEqual ld a b)"

section \<open>Matching the items of two inputs\<close>

datatype JoinMode = KeepMatches | KeepNonMatches | KeepEverything | EnrichInput1 | EnrichInput2

datatype OutputDataFrom = FromBoth | FromInput1 | FromInput2

record MatchFieldsOptions =
  joinMode :: JoinMode
  outputDataFrom :: OutputDataFrom
  multipleMatches :: "string option"
  disableDotNotation :: bool
  useFuzzy :: bool

record PairToMatch =
  field1 :: string
  field2 :: string

record EntryMatches =
  entry :: INodeExecutionData
  matches :: items

record FilteredData =
  matched :: "EntryMatches list"
  matched2 :: items
  unmatched1 :: items
  unmatched2 :: items

definition field_value :: "lodash \<Rightarrow> bool \<Rightarrow> INodeExecutionData \<Rightarrow> string \<Rightarrow> jval" where
  "field_value ld noDots e k = (if noDots then get_prop (json e) k else ld_get ld (json e) k)"

definition lookup_of :: "lodash \<Rightarrow> MatchFieldsOptions \<Rightarrow> PairToMatch list \<Rightarrow> INodeExecutionData \<Rightarrow> IDataObject" where
  "lookup_of ld opts ps entry1 =
     fold (\<lambda>p lk. str_put (field2 p) (field_value ld (disableDotNotation opts) entry1 (field1 p)) lk) ps []"

definition entry_fits :: "lodash \<Rightarrow> MatchFieldsOptions \<Rightarrow> IDataObject \<Rightarrow> INodeExecutionData \<Rightarrow> bool" where
  "entry_fits ld opts lk entry2 \<longleftrightarrow>
     list_all (\<lambda>k. fuzzyCompare ld (useFuzzy opts) 1 (get_prop lk k) (field_value ld (disableDotNotation opts) entry2 k)) (obj_keys lk)"

definition findAllMatches :: "(INodeExecutionData \<Rightarrow> bool) \<Rightarrow> items \<Rightarrow> (nat \<times> INodeExecutionData) list" where
  "findAllMatches fit data = filter (\<lambda>e. fit (snd e)) (enumerate 0 data)"

definition findFirstMatch :: "(INodeExecutionData \<Rightarrow> bool) \<Rightarrow> items \<Rightarrow> (nat \<times> INodeExecutionData) list" where
  "findFirstMatch fit data =
     (case List.find (\<lambda>e. fit (snd e)) (enumerate 0 data) of None \<Rightarrow> [] | Some e \<Rightarrow> [e])"

definition found_matches ::
    "lodash \<Rightarrow> MatchFieldsOptions \<Rightarrow> PairToMatch list \<Rightarrow> items \<Rightarrow> INodeExecutionData \<Rightarrow> (nat \<times> INodeExecutionData) list" where
  "found_matches ld opts ps data2 entry1 =
     (let lk = lookup_of ld opts ps entry1
      in if JUndef \<in> snd ` set lk then []
         else if multipleMatches opts \<in> {None, Some [], Some ''all''} then findAllMatches (entry_fits ld opts lk) data2
         else findFirstMatch (entry_fits ld opts lk) data2)"

text \<open>The loop over the first input, with the indexes that were matched in the second.\<close>

definition one_by_one :: "MatchFieldsOptions \<Rightarrow> bool" where
  "one_by_one opts \<longleftrightarrow> outputDataFrom opts = FromBoth \<or> joinMode opts = EnrichInput1 \<or> joinMode opts = EnrichInput2"

definition match_entry ::
    "lodash \<Rightarrow> MatchFieldsOptions \<Rightarrow> PairToMatch list \<Rightarrow> items \<Rightarrow> INodeExecutionData \<Rightarrow>
     EntryMatches list \<times> items \<times> nat list \<Rightarrow> EntryMatches list \<times> items \<times> nat list" where
  "match_entry ld opts ps data2 entry1 = (\<lambda>(ms, us, is).
     let found = found_matches ld opts ps data2 entry1
     in if found = [] then (ms, us @ [entry1], is)
        else (ms @ (if one_by_one opts then map (\<lambda>e. \<lparr>entry = entry1, matches = [snd e]\<rparr>) found
                    else [\<lparr>entry = entry1, matches = map snd found\<rparr>]),
              us, is @ map fst found))"

definition findMatches ::
    "lodash \<Rightarrow> items \<Rightarrow> items \<Rightarrow> PairToMatch list \<Rightarrow> MatchFieldsOptions \<Rightarrow> FilteredData" where
  "findMatches ld input1 input2 fieldsToMatch opts =
     (let (ms, us, is) = fold (match_entry ld opts fieldsToMatch input2) input1 ([], [], [])
      in \<lparr>matched = ms,
          matched2 = map snd (filter (\<lambda>e. fst e \<in> set is) (enumerate 0 input2)),
          unmatched1 = us,
          unmatched2 = map snd (filter (\<lambda>e. fst e \<notin> set is) (enumerate 0 input2))\<rparr>)"

section \<open>Merging items\<close>

record ClashResolveOptions =
  resolveClash :: "string option"
  mergeMode :: "string option"
  overrideEmpty :: bool

definition keep_unless_empty :: "jval \<Rightarrow> jval \<Rightarrow> jval" where
  "keep_unless_empty targetValue srcValue = (if srcValue \<in> {JUndef, JNull, JStr []} then targetValue else JUndef)"

definition selectMergeMethod :: "lodash \<Rightarrow> ClashResolveOptions \<Rightarrow> IDataObject \<Rightarrow> jval list \<Rightarrow> IDataObject" where
  "selectMergeMethod ld clash target source =
     (if overrideEmpty clash
      then (if mergeMode clash = Some ''deepMerge'' then ld_mergeWith ld keep_unless_empty target source
            else if mergeMode clash = Some ''shallowMerge'' then ld_assignWith ld keep_unless_empty target source
            else ld_merge ld [] (JObj target # source))
      else (if mergeMode clash = Some ''shallowMerge'' then ld_assign ld [] (JObj target # source)
            else ld_merge ld [] (JObj target # source)))"

definition addSuffixToEntriesKeys :: "string \<Rightarrow> items \<Rightarrow> items" where
  "addSuffixToEntriesKeys sfx data =
     map (\<lambda>e. e\<lparr>json := fold (\<lambda>(k, v) ob. str_put (k @ ''_'' @ sfx) v ob) (json e) []\<rparr>) data"

text \<open>\<open>{...v}\<close>\<close>

definition spread_value :: "jval \<Rightarrow> IDataObject" where
  "spread_value v = (case v of JObj ob \<Rightarrow> ob | _ \<Rightarrow> [])"

definition preparePairedItemDataArray :: "PairedItem option \<Rightarrow> IPairedItemData list" where
  "preparePairedItemDataArray p =
     (case p of
        None \<Rightarrow> []
      | Some (PairedNumber n) \<Rightarrow> [\<lparr>pi_item = n, pi_input = None, pi_sourceOverwrite = None\<rparr>]
      | Some (PairedMany ds) \<Rightarrow> ds
      | Some (PairedOne d) \<Rightarrow> [d])"

definition merged_item :: "IDataObject \<Rightarrow> jval \<Rightarrow> IPairedItemData list \<Rightarrow> INodeExecutionData" where
  "merged_item js bin ps = empty_item\<lparr>json := js, binary := bin, pairedItem := Some (PairedMany ps)\<rparr>"

text \<open>The items merged one after the other, the later into the earlier ones.\<close>

definition merge_chain :: "lodash \<Rightarrow> ClashResolveOptions \<Rightarrow> items \<Rightarrow> INodeExecutionData" where
  "merge_chain ld clash es =
     (case es of
        [] \<Rightarrow> merged_item [] (JObj []) []
      | e # rest \<Rightarrow>
          merged_item (selectMergeMethod ld clash (json e) (map (\<lambda>x. JObj (json x)) rest))
            (JObj (selectMergeMethod ld clash (spread_value (binary e)) (map binary rest)))
            (concat (map (\<lambda>x. preparePairedItemDataArray (pairedItem x)) es)))"

definition resolve_clash :: "ClashResolveOptions \<Rightarrow> JoinMode option \<Rightarrow> string" where
  "resolve_clash clash mode =
     (case resolveClash clash of
        Some r \<Rightarrow> r
      | None \<Rightarrow> (if mode = Some EnrichInput2 then ''preferInput1'' else ''preferLast''))"

definition merge_match :: "lodash \<Rightarrow> ClashResolveOptions \<Rightarrow> JoinMode option \<Rightarrow> EntryMatches \<Rightarrow> INodeExecutionData" where
  "merge_match ld clash mode m =
     (let r = resolve_clash clash mode
      in if r = ''addSuffix''
         then merge_chain ld clash (addSuffixToEntriesKeys ''1'' [entry m] @ addSuffixToEntriesKeys ''2'' (matches m))
         else if r = ''preferInput1'' then merge_chain ld clash (matches m @ [entry m])
         else if r = ''preferLast'' then merge_chain ld clash (entry m # matches m)
         else merged_item [] (JObj []) [])"

definition mergeMatched :: "lodash \<Rightarrow> EntryMatches list \<Rightarrow> ClashResolveOptions \<Rightarrow> JoinMode option \<Rightarrow> items" where
  "mergeMatched ld ms clash mode = map (merge_match ld clash mode) ms"

definition addSourceField :: "string \<Rightarrow> items \<Rightarrow> items" where
  "addSourceField sourceField data = map (\<lambda>e. e\<lparr>json := str_put ''_source'' (JStr sourceField) (json e)\<rparr>) data"

section \<open>Checking the parameters\<close>

definition double_quote :: string where
  "double_quote = [CHR 34]"

definition pair_message :: "nat \<Rightarrow> PairToMatch \<Rightarrow> string" where
  "pair_message index p =
     (let gap = [CHR 10] @ replicate 4 (CHR 9) @ '' ''
      in ''You need to define both fields in '' @ double_quote @ ''Fields to Match'' @ double_quote @ '' for pair '' @
         nat_string (Suc index) @ '','' @ gap @ ''field 1 = '' @ quoted (field1 p) @ gap @ ''field 2 = '' @ quoted (field2 p))"

definition checkMatchFieldsInput :: "PairToMatch list \<Rightarrow> node_failure + PairToMatch list" where
  "checkMatchFieldsInput data =
     (if data = [\<lparr>field1 = [], field2 = []\<rparr>]
      then Inl (AppFailure (''You need to define at least one pair of fields in '' @ double_quote @ ''Fields to Match'' @
        double_quote @ '' to match on'') None)
      else case List.find (\<lambda>e. field1 (snd e) = [] \<or> field2 (snd e) = []) (enumerate 0 data) of
          Some (index, p) \<Rightarrow> Inl (AppFailure (pair_message index p) None)
        | None \<Rightarrow> Inr data)"

definition is_present :: "lodash \<Rightarrow> bool \<Rightarrow> items \<Rightarrow> string \<Rightarrow> bool" where
  "is_present ld noDots inputs k =
     list_ex (\<lambda>e. if noDots then obj_has (json e) k else ld_get ld (json e) k \<noteq> JUndef) inputs"

definition checkInput :: "lodash \<Rightarrow> items slot \<Rightarrow> string list \<Rightarrow> bool \<Rightarrow> string \<Rightarrow> node_failure + items slot" where
  "checkInput ld input ks noDots label =
     (case List.find (\<lambda>k. \<not> is_present ld noDots (case input of Val xs \<Rightarrow> xs | _ \<Rightarrow> []) k) ks of
        Some k \<Rightarrow> Inl (AppFailure (''Field '' @ quoted k @ '' is not present in any of items in '' @ quoted label) None)
      | None \<Rightarrow> Inr input)"

section \<open>The inputs\<close>

definition getInputData :: "ITaskDataConnections \<Rightarrow> nat \<Rightarrow> node_failure + items slot" where
  "getInputData inputData inputIndex =
     (case obj_get inputData MainConn of
        None \<Rightarrow> Inr (Val [])
      | Some inputs \<Rightarrow>
          (if length inputs < inputIndex then Inl (AppFailure ''Could not get input with given index'' None)
           else case arr_get inputs inputIndex of
               Null \<Rightarrow> Inl (AppFailure ''Value of input was not set'' None)
             | s \<Rightarrow> Inr s))"

text \<open>The data of each of the node's inputs; nothing for one that has none.\<close>

definition getNodeInputsData :: "ITaskDataConnections \<Rightarrow> nat \<Rightarrow> items list" where
  "getNodeInputsData inputData numberInputs =
     map (\<lambda>i. case getInputData inputData i of Inr (Val xs) \<Rightarrow> xs | _ \<Rightarrow> []) [0..<numberInputs]"

definition not_iterable :: node_failure where
  "not_iterable = PlainFailure ''Cannot read properties of undefined''"

section \<open>The modes\<close>

definition append_execute :: "items list \<Rightarrow> items" where
  "append_execute inputsData = concat inputsData"

text \<open>The parameters of the node, as read for the first item.\<close>

record MergeNode =
  mn_lodash :: lodash
  mn_version :: number
  mn_mode :: string
  mn_combineBy :: string
  mn_advanced :: bool
  mn_mergeByFields :: "PairToMatch list"
  mn_fieldsToMatchString :: string
  mn_options :: MatchFieldsOptions
  mn_clash :: ClashResolveOptions
  mn_includeUnpaired :: bool
  mn_chooseBranchMode :: string
  mn_output :: string
  mn_useDataOfInput :: number

definition fields_of_string :: "string \<Rightarrow> PairToMatch list" where
  "fields_of_string s = map (\<lambda>f. \<lparr>field1 = str_trim f, field2 = str_trim f\<rparr>) (split_at_char (CHR '','') s)"

definition match_fields :: "MergeNode \<Rightarrow> node_failure + PairToMatch list" where
  "match_fields mn =
     checkMatchFieldsInput (if mn_advanced mn then mn_mergeByFields mn else fields_of_string (mn_fieldsToMatchString mn))"

text \<open>What there is to return when one of the inputs is empty.\<close>

definition one_input_empty :: "JoinMode \<Rightarrow> OutputDataFrom \<Rightarrow> items \<Rightarrow> items \<Rightarrow> items" where
  "one_input_empty jm from_input input1 input2 =
     (if input1 = [] \<and> jm = KeepNonMatches \<and> from_input = FromInput1 then []
      else if input2 = [] \<and> jm = KeepNonMatches \<and> from_input = FromInput2 then []
      else if jm = KeepMatches then []
      else if jm = EnrichInput1 \<and> input1 = [] then []
      else if jm = EnrichInput2 \<and> input2 = [] then []
      else input1 @ input2)"

definition suffixed :: "ClashResolveOptions \<Rightarrow> string \<Rightarrow> items \<Rightarrow> items" where
  "suffixed clash sfx data = (if resolveClash clash = Some ''addSuffix'' then addSuffixToEntriesKeys sfx data else data)"

definition joined_items :: "lodash \<Rightarrow> ClashResolveOptions \<Rightarrow> MatchFieldsOptions \<Rightarrow> FilteredData \<Rightarrow> items" where
  "joined_items ld clash opts fd =
     (let kept = (case outputDataFrom opts of
            FromInput1 \<Rightarrow> map entry (matched fd)
          | FromInput2 \<Rightarrow> matched2 fd
          | FromBoth \<Rightarrow> mergeMatched ld (matched fd) clash None)
      in case joinMode opts of
          KeepMatches \<Rightarrow> kept
        | KeepEverything \<Rightarrow> kept @ suffixed clash ''1'' (unmatched1 fd) @ suffixed clash ''2'' (unmatched2 fd)
        | KeepNonMatches \<Rightarrow>
            (case outputDataFrom opts of
               FromInput1 \<Rightarrow> unmatched1 fd
             | FromInput2 \<Rightarrow> unmatched2 fd
             | FromBoth \<Rightarrow> addSourceField ''input1'' (unmatched1 fd) @ addSourceField ''input2'' (unmatched2 fd))
        | EnrichInput1 \<Rightarrow> mergeMatched ld (matched fd) clash (Some EnrichInput1) @ suffixed clash ''1'' (unmatched1 fd)
        | EnrichInput2 \<Rightarrow> mergeMatched ld (matched fd) clash (Some EnrichInput2) @ suffixed clash ''2'' (unmatched2 fd))"

text \<open>The inputs: before version 2.1 they are read again and have to hold the fields.\<close>

definition join_inputs ::
    "MergeNode \<Rightarrow> ITaskDataConnections \<Rightarrow> PairToMatch list \<Rightarrow> items list \<Rightarrow> node_failure + items slot \<times> items slot" where
  "join_inputs mn inputData ps inputsData =
     (if mn_version mn < 21 / 10
      then res_bind (res_bind (getInputData inputData 0) (\<lambda>i1.
               checkInput (mn_lodash mn) i1 (map field1 ps) (disableDotNotation (mn_options mn)) ''Input 1'')) (\<lambda>i1.
             if slot_truthy i1
             then res_bind (res_bind (getInputData inputData 1) (\<lambda>i2.
                      checkInput (mn_lodash mn) i2 (map field2 ps) (disableDotNotation (mn_options mn)) ''Input 2''))
                    (\<lambda>i2. Inr (i1, i2))
             else Inr (i1, Undefined))
      else Inr (case list_get inputsData 0 of None \<Rightarrow> Undefined | Some xs \<Rightarrow> Val xs,
                case list_get inputsData 1 of None \<Rightarrow> Undefined | Some xs \<Rightarrow> Val xs))"

definition combineByFields_execute ::
    "MergeNode \<Rightarrow> ITaskDataConnections \<Rightarrow> items list \<Rightarrow> node_failure + items" where
  "combineByFields_execute mn inputData inputsData =
     res_bind (match_fields mn) (\<lambda>ps.
     res_bind (join_inputs mn inputData ps inputsData) (\<lambda>(i1, i2).
       case (i1, i2) of
         (Val input1, Val input2) \<Rightarrow>
           (if input1 = [] \<or> input2 = []
            then Inr (one_input_empty (joinMode (mn_options mn)) (outputDataFrom (mn_options mn)) input1 input2)
            else if ps = []
            then Inr (if joinMode (mn_options mn) \<in> {KeepMatches, KeepEverything, EnrichInput2} then [] else input1)
            else Inr (joined_items (mn_lodash mn) (mn_clash mn) (mn_options mn)
                   (findMatches (mn_lodash mn) input1 input2 ps (mn_options mn))))
       | (Val input1, _) \<Rightarrow>
           (if input1 = []
            then (if joinMode (mn_options mn) = KeepNonMatches \<and> outputDataFrom (mn_options mn) = FromInput1 then Inr []
                  else Inl not_iterable)
            else Inl not_iterable)
       | _ \<Rightarrow> Inr []))"

text \<open>By position: the input whose values win, and the entries at one position.\<close>

definition preferred_index :: "ClashResolveOptions \<Rightarrow> nat \<Rightarrow> nat option" where
  "preferred_index clash numberInputs =
     (case resolveClash clash of
        None \<Rightarrow> (if numberInputs = 0 then None else Some (numberInputs - 1))
      | Some r \<Rightarrow>
          (if has_substring r ''preferInput''
           then (case string_number (replace_first ''preferInput'' [] r) of
                   Finite x \<Rightarrow> (if 1 \<le> x \<and> of_int \<lfloor>x\<rfloor> = x \<and> nat \<lfloor>x\<rfloor> \<le> numberInputs then Some (nat \<lfloor>x\<rfloor> - 1) else None)
                 | _ \<Rightarrow> None)
           else if numberInputs = 0 then None else Some (numberInputs - 1)))"

definition or_empty :: "INodeExecutionData option \<Rightarrow> INodeExecutionData" where
  "or_empty e = (case e of None \<Rightarrow> empty_item | Some x \<Rightarrow> x)"

definition or_object :: "jval \<Rightarrow> jval" where
  "or_object v = (if v = JUndef \<or> v = JNull then JObj [] else v)"

definition combined_at :: "lodash \<Rightarrow> ClashResolveOptions \<Rightarrow> items list \<Rightarrow> items \<Rightarrow> nat \<Rightarrow> INodeExecutionData" where
  "combined_at ld clash inputs preferred i =
     (let es = map (\<lambda>input. or_empty (list_get input i)) inputs @ [or_empty (list_get preferred i)]
      in merged_item (selectMergeMethod ld clash [] (map (\<lambda>e. JObj (json e)) es))
           (JObj (ld_merge ld [] (map (\<lambda>e. or_object (binary e)) es)))
           (concat (map (\<lambda>e. preparePairedItemDataArray (pairedItem e)) es)))"

text \<open>The preferred input is taken before the suffixes are added.\<close>

definition combineByPosition_execute :: "MergeNode \<Rightarrow> items list \<Rightarrow> node_failure + items" where
  "combineByPosition_execute mn inputsData =
     (case preferred_index (mn_clash mn) (length inputsData) of
        None \<Rightarrow> Inl not_iterable
      | Some k \<Rightarrow>
          (let preferred = inputsData ! k;
               inputs = (if resolveClash (mn_clash mn) = Some ''addSuffix''
                         then map (\<lambda>(i, xs). addSuffixToEntriesKeys (nat_string (Suc i)) xs) (enumerate 0 inputsData)
                         else inputsData);
               numEntries = (if mn_includeUnpaired mn then Max (set (map length inputs)) else Min (set (map length inputs)))
           in Inr (map (combined_at (mn_lodash mn) (mn_clash mn) inputs preferred) [0..<numEntries])))"

definition combineAll_execute :: "MergeNode \<Rightarrow> items list \<Rightarrow> node_failure + items" where
  "combineAll_execute mn inputsData =
     (let clash = mn_clash mn; ld = mn_lodash mn;
          (i1, i2) = (if resolveClash clash = Some ''preferInput1'' then (list_get inputsData 1, list_get inputsData 0)
                      else (list_get inputsData 0, list_get inputsData 1))
      in case (i1, i2) of
          (Some input1, Some input2) \<Rightarrow>
            Inr (concat (map (\<lambda>e1. map (\<lambda>e2.
              merged_item (selectMergeMethod ld clash (json e1) [JObj (json e2)]) (JObj (ld_merge ld [] [binary e1, binary e2]))
                (preparePairedItemDataArray (pairedItem e1) @ preparePairedItemDataArray (pairedItem e2)))
              (suffixed clash ''2'' input2)) (suffixed clash ''1'' input1)))
        | _ \<Rightarrow> (if resolveClash clash = Some ''addSuffix'' then Inl not_iterable else Inr []))"

definition chosen_input :: "number \<Rightarrow> items list \<Rightarrow> items" where
  "chosen_input n inputsData =
     (if 1 \<le> n \<and> of_int \<lfloor>n\<rfloor> = n then (case list_get inputsData (nat \<lfloor>n\<rfloor> - 1) of None \<Rightarrow> [] | Some xs \<Rightarrow> xs) else [])"

definition input_links :: "ITaskDataConnections \<Rightarrow> nat \<Rightarrow> node_failure + IPairedItemData list" where
  "input_links inputData i =
     res_bind (getInputData inputData i) (\<lambda>s.
       case s of Val xs \<Rightarrow> Inr (concat (map (\<lambda>e. preparePairedItemDataArray (pairedItem e)) xs)) | _ \<Rightarrow> Inl not_iterable)"

definition chooseBranch_execute :: "MergeNode \<Rightarrow> ITaskDataConnections \<Rightarrow> items list \<Rightarrow> node_failure + items" where
  "chooseBranch_execute mn inputData inputsData =
     (if mn_chooseBranchMode mn \<noteq> ''waitForAll'' then Inr []
      else if mn_output mn = ''specifiedInput''
      then (if of_nat (length inputsData) < mn_useDataOfInput mn
            then Inl (OperationFailure (''Input '' @ num_string (mn_useDataOfInput mn) @ '' doesn'' @ apostrophe @ ''t exist'') None)
            else Inr (chosen_input (mn_useDataOfInput mn) inputsData))
      else if mn_output mn = ''empty''
      then res_bind (input_links inputData 0) (\<lambda>p0. res_bind (input_links inputData 1) (\<lambda>p1.
             Inr [empty_item\<lparr>pairedItem := Some (PairedMany (p0 @ p1))\<rparr>]))
      else Inr [])"

text \<open>The mode that combines by a query is left to the caller.\<close>

definition merge_router ::
    "(items list \<Rightarrow> node_failure + items) \<Rightarrow> MergeNode \<Rightarrow> nat \<Rightarrow> ITaskDataConnections \<Rightarrow> node_failure + items" where
  "merge_router by_sql mn numberInputs inputData =
     (let inputsData = getNodeInputsData inputData numberInputs;
          operationMode = (if mn_mode mn = ''combine'' then mn_combineBy mn else mn_mode mn)
      in if operationMode = ''append'' then Inr (append_execute inputsData)
         else if operationMode = ''combineAll'' then combineAll_execute mn inputsData
         else if operationMode = ''combineByFields'' then combineByFields_execute mn inputData inputsData
         else if operationMode = ''combineBySql'' then by_sql inputsData
         else if operationMode = ''combineByPosition'' then combineByPosition_execute mn inputsData
         else if operationMode = ''chooseBranch'' then chooseBranch_execute mn inputData inputsData
         else Inl not_iterable)"

end
