(* ===== verification/MergeProperties.thy ===== *)
theory MergeProperties
  imports MergeNode
begin

text \<open>
  What the Merge node computes: combining by fields is a join of its inputs, inner, outer, left,
  right or anti, and combining by position puts the entries at one position together.
\<close>

section \<open>Which items match\<close>

text \<open>Two items match when each pair of fields has a value in the first and equal values in both.\<close>

definition joins :: "lodash \<Rightarrow> MatchFieldsOptions \<Rightarrow> PairToMatch list \<Rightarrow> INodeExecutionData \<Rightarrow> INodeExecutionData \<Rightarrow> bool" where
  "joins ld opts ps e1 e2 \<longleftrightarrow>
     (\<forall>p \<in> set ps. let v = field_value ld (disableDotNotation opts) e1 (field1 p)
        in v \<noteq> JUndef \<and> fuzzyCompare ld (useFuzzy opts) 1 v (field_value ld (disableDotNotation opts) e2 (field2 p)))"

lemma fold_put_get:
  "obj_get (fold (\<lambda>p lk. str_put (f p) (g p) lk) ps lk0) k =
     (case List.find (\<lambda>p. f p = k) (rev ps) of None \<Rightarrow> obj_get lk0 k | Some p \<Rightarrow> Some (g p))"
  by (induction ps rule: rev_induct) (auto split: option.split)

lemma fold_put_wf: "obj_wf str_before lk \<Longrightarrow> obj_wf str_before (fold (\<lambda>p lk. str_put (f p) (g p) lk) ps lk)"
  by (induction ps arbitrary: lk) (auto intro: sobj.wf_put)

lemma find_distinct:
  assumes "distinct (map f ps)" and "p \<in> set ps"
  shows "List.find (\<lambda>q. f q = f p) ps = Some p"
  using assms by (induction ps) auto

lemma set_obj:
  assumes "obj_wf str_before ob"
  shows "(k, v) \<in> set ob \<longleftrightarrow> obj_get ob k = Some v"
  using assms by (simp add: obj_get_def obj_wf_def obj_keys_def)

lemma lookup_get:
  assumes "distinct (map field2 ps)"
  shows "obj_get (lookup_of ld opts ps e1) k = Some v \<longleftrightarrow>
     (\<exists>p \<in> set ps. field2 p = k \<and> v = field_value ld (disableDotNotation opts) e1 (field1 p))"
proof -
  have "distinct (map field2 (rev ps))" using assms by (simp add: rev_map[symmetric])
  note find = find_distinct[OF this]
  show ?thesis
  proof
    assume "obj_get (lookup_of ld opts ps e1) k = Some v"
    then obtain p where p: "List.find (\<lambda>p. field2 p = k) (rev ps) = Some p"
        "v = field_value ld (disableDotNotation opts) e1 (field1 p)"
      by (auto simp: lookup_of_def fold_put_get split: option.splits)
    from p(1) have "p \<in> set (rev ps)" "field2 p = k" by (auto simp: find_Some_iff in_set_conv_nth simp del: set_rev)
    with p(2) show "\<exists>p \<in> set ps. field2 p = k \<and> v = field_value ld (disableDotNotation opts) e1 (field1 p)" by auto
  next
    assume "\<exists>p \<in> set ps. field2 p = k \<and> v = field_value ld (disableDotNotation opts) e1 (field1 p)"
    with find show "obj_get (lookup_of ld opts ps e1) k = Some v"
      by (auto simp: lookup_of_def fold_put_get)
  qed
qed

lemma lookup_joins:
  assumes "distinct (map field2 ps)"
  shows "joins ld opts ps e1 e2 \<longleftrightarrow>
    JUndef \<notin> snd ` set (lookup_of ld opts ps e1) \<and> entry_fits ld opts (lookup_of ld opts ps e1) e2"
proof -
  let ?lk = "lookup_of ld opts ps e1"
  let ?v = "\<lambda>p. field_value ld (disableDotNotation opts) e1 (field1 p)"
  have wf: "obj_wf str_before ?lk" unfolding lookup_of_def by (rule fold_put_wf) simp
  have mem: "(k, v) \<in> set ?lk \<longleftrightarrow> (\<exists>p \<in> set ps. field2 p = k \<and> v = ?v p)" for k v
    using set_obj[OF wf] lookup_get[OF assms] by simp
  have undef: "JUndef \<in> snd ` set ?lk \<longleftrightarrow> (\<exists>p \<in> set ps. ?v p = JUndef)"
    using mem by force
  have at: "get_prop ?lk (field2 p) = ?v p" if "p \<in> set ps" for p
  proof -
    from that have "obj_get ?lk (field2 p) = Some (?v p)" using lookup_get[OF assms, of ld opts e1 "field2 p" "?v p"] by blast
    then show ?thesis by (simp add: get_prop_def)
  qed
  have "set (obj_keys ?lk) = field2 ` set ps" using mem by (force simp: obj_keys_def)
  then have "entry_fits ld opts ?lk e2 \<longleftrightarrow>
      (\<forall>p \<in> set ps. fuzzyCompare ld (useFuzzy opts) 1 (?v p) (field_value ld (disableDotNotation opts) e2 (field2 p)))"
    using at by (simp add: entry_fits_def list_all_iff)
  with undef show ?thesis by (auto simp: joins_def Let_def)
qed

section \<open>The matches of two inputs\<close>

definition matches_all :: "MatchFieldsOptions \<Rightarrow> bool" where
  "matches_all opts \<longleftrightarrow> multipleMatches opts \<in> {None, Some [], Some ''all''}"

lemma found_matches_all:
  assumes "distinct (map field2 ps)" and "matches_all opts"
  shows "found_matches ld opts ps xs e1 = filter (\<lambda>e. joins ld opts ps e1 (snd e)) (enumerate 0 xs)"
  using lookup_joins[OF assms(1), of ld opts e1] assms(2)
  by (cases "JUndef \<in> snd ` set (lookup_of ld opts ps e1)")
    (simp_all add: found_matches_def Let_def matches_all_def findAllMatches_def)

lemma map_snd_enumerate: "map snd (filter (\<lambda>e. P (snd e)) (enumerate n xs)) = filter P xs"
  by (induction xs arbitrary: n) auto

lemma filter_enumerate_Nil: "filter (\<lambda>e. P (snd e)) (enumerate n xs) = [] \<longleftrightarrow> filter P xs = []"
  using map_snd_enumerate[of P n xs] by (metis Nil_is_map_conv)

text \<open>The entries that an item of the first input contributes.\<close>

definition entries_of :: "lodash \<Rightarrow> MatchFieldsOptions \<Rightarrow> PairToMatch list \<Rightarrow> items \<Rightarrow> INodeExecutionData \<Rightarrow> EntryMatches list" where
  "entries_of ld opts ps xs e1 =
     (let es = filter (joins ld opts ps e1) xs
      in if es = [] then []
         else if one_by_one opts then map (\<lambda>e2. \<lparr>entry = e1, matches = [e2]\<rparr>) es
         else [\<lparr>entry = e1, matches = es\<rparr>])"

lemma match_entry_spec:
  assumes "distinct (map field2 ps)" and "matches_all opts"
  shows "match_entry ld opts ps xs e1 (ms, us, is) =
    (ms @ entries_of ld opts ps xs e1,
     us @ (if list_ex (joins ld opts ps e1) xs then [] else [e1]),
     is @ map fst (filter (\<lambda>e. joins ld opts ps e1 (snd e)) (enumerate 0 xs)))"
proof -
  let ?J = "joins ld opts ps e1"
  have ex: "list_ex ?J xs \<longleftrightarrow> filter ?J xs \<noteq> []" by (simp add: list_ex_iff filter_empty_conv)
  have m: "map (\<lambda>e. f (snd e)) (filter (\<lambda>e. ?J (snd e)) (enumerate 0 xs)) = map f (filter ?J xs)" for f :: "INodeExecutionData \<Rightarrow> EntryMatches"
    unfolding map_snd_enumerate[of ?J 0 xs, symmetric] by simp
  show ?thesis
    by (simp add: match_entry_def Let_def found_matches_all[OF assms] filter_enumerate_Nil entries_of_def ex
        m[of "\<lambda>e2. \<lparr>entry = e1, matches = [e2]\<rparr>"] map_snd_enumerate)
qed

lemma matches_loop:
  assumes "distinct (map field2 ps)" and "matches_all opts"
  shows "fold (match_entry ld opts ps xs) ys (ms, us, is) =
    (ms @ concat (map (entries_of ld opts ps xs) ys),
     us @ filter (\<lambda>e1. \<not> list_ex (joins ld opts ps e1) xs) ys,
     is @ concat (map (\<lambda>e1. map fst (filter (\<lambda>e. joins ld opts ps e1 (snd e)) (enumerate 0 xs))) ys))"
  by (induction ys arbitrary: ms us "is") (simp_all add: match_entry_spec[OF assms])

lemma filter_by_index:
  assumes "\<And>e. e \<in> set (enumerate 0 xs) \<Longrightarrow> P e \<longleftrightarrow> Q (snd e)"
  shows "map snd (filter P (enumerate 0 xs)) = filter Q xs"
  using map_snd_enumerate[of Q 0 xs] filter_cong[OF refl assms, of "enumerate 0 xs"] by simp

lemma enumerate_inj: "e \<in> set (enumerate 0 xs) \<Longrightarrow> e' \<in> set (enumerate 0 xs) \<Longrightarrow> fst e = fst e' \<Longrightarrow> e = e'"
  by (cases e; cases e') (auto simp: in_set_enumerate_eq)

lemma findMatches_join:
  assumes "distinct (map field2 ps)" and "matches_all opts"
  shows "findMatches ld ys xs ps opts =
    \<lparr>matched = concat (map (entries_of ld opts ps xs) ys),
     matched2 = filter (\<lambda>e2. \<exists>e1 \<in> set ys. joins ld opts ps e1 e2) xs,
     unmatched1 = filter (\<lambda>e1. \<not> list_ex (joins ld opts ps e1) xs) ys,
     unmatched2 = filter (\<lambda>e2. \<not> (\<exists>e1 \<in> set ys. joins ld opts ps e1 e2)) xs\<rparr>"
proof -
  let ?is = "concat (map (\<lambda>e1. map fst (filter (\<lambda>e. joins ld opts ps e1 (snd e)) (enumerate 0 xs))) ys)"
  have i: "fst e \<in> set ?is \<longleftrightarrow> (\<exists>e1 \<in> set ys. joins ld opts ps e1 (snd e))" if "e \<in> set (enumerate 0 xs)" for e
    using that enumerate_inj[OF that] by (fastforce simp del: enumerate_simps)
  have in2: "map snd (filter (\<lambda>e. fst e \<in> set ?is) (enumerate 0 xs)) =
      filter (\<lambda>e2. \<exists>e1 \<in> set ys. joins ld opts ps e1 e2) xs"
    by (rule filter_by_index) (rule i)
  have out2: "map snd (filter (\<lambda>e. fst e \<notin> set ?is) (enumerate 0 xs)) =
      filter (\<lambda>e2. \<not> (\<exists>e1 \<in> set ys. joins ld opts ps e1 e2)) xs"
    by (rule filter_by_index) (simp only: i)
  show ?thesis
    unfolding findMatches_def matches_loop[OF assms] Let_def prod.case append_Nil in2 out2 ..
qed

section \<open>Combining by fields is a join\<close>

text \<open>
  The joins of two lists of items: the pairs that match, merged, and the items of each that match
  nothing, which the outer joins add and the anti join keeps alone.
\<close>

definition merged_pairs ::
    "(INodeExecutionData \<Rightarrow> INodeExecutionData \<Rightarrow> INodeExecutionData) \<Rightarrow>
     (INodeExecutionData \<Rightarrow> INodeExecutionData \<Rightarrow> bool) \<Rightarrow> items \<Rightarrow> items \<Rightarrow> items" where
  "merged_pairs combine J ys xs = concat (map (\<lambda>e1. map (combine e1) (filter (J e1) xs)) ys)"

definition partnered :: "(INodeExecutionData \<Rightarrow> INodeExecutionData \<Rightarrow> bool) \<Rightarrow> items \<Rightarrow> items \<Rightarrow> items" where
  "partnered J ys xs = filter (\<lambda>e1. \<exists>e2 \<in> set xs. J e1 e2) ys"

definition alone :: "(INodeExecutionData \<Rightarrow> INodeExecutionData \<Rightarrow> bool) \<Rightarrow> items \<Rightarrow> items \<Rightarrow> items" where
  "alone J ys xs = filter (\<lambda>e1. \<not> (\<exists>e2 \<in> set xs. J e1 e2)) ys"

definition reference_join ::
    "MergeNode \<Rightarrow> (INodeExecutionData \<Rightarrow> INodeExecutionData \<Rightarrow> bool) \<Rightarrow> items \<Rightarrow> items \<Rightarrow> items" where
  "reference_join mn J ys xs =
     (let jm = joinMode (mn_options mn); clash = mn_clash mn;
          mode = (if jm \<in> {EnrichInput1, EnrichInput2} then Some jm else None);
          combine = (\<lambda>e1 e2. merge_match (mn_lodash mn) clash mode \<lparr>entry = e1, matches = [e2]\<rparr>);
          left = alone J ys xs; right = alone (\<lambda>e2 e1. J e1 e2) xs ys;
          kept = (case outputDataFrom (mn_options mn) of
              FromBoth \<Rightarrow> merged_pairs combine J ys xs
            | FromInput1 \<Rightarrow> partnered J ys xs
            | FromInput2 \<Rightarrow> partnered (\<lambda>e2 e1. J e1 e2) xs ys)
      in case jm of
          KeepMatches \<Rightarrow> kept
        | KeepEverything \<Rightarrow> kept @ suffixed clash ''1'' left @ suffixed clash ''2'' right
        | KeepNonMatches \<Rightarrow>
            (case outputDataFrom (mn_options mn) of
               FromInput1 \<Rightarrow> left | FromInput2 \<Rightarrow> right
             | FromBoth \<Rightarrow> addSourceField ''input1'' left @ addSourceField ''input2'' right)
        | EnrichInput1 \<Rightarrow> merged_pairs combine J ys xs @ suffixed clash ''1'' left
        | EnrichInput2 \<Rightarrow> merged_pairs combine J ys xs @ suffixed clash ''2'' right)"

lemma merged_entries:
  assumes "one_by_one opts"
  shows "mergeMatched ld (concat (map (entries_of ld opts ps xs) ys)) clash mode =
    merged_pairs (\<lambda>e1 e2. merge_match ld clash mode \<lparr>entry = e1, matches = [e2]\<rparr>) (joins ld opts ps) ys xs"
proof -
  have "map (merge_match ld clash mode) (entries_of ld opts ps xs e1) =
      map (\<lambda>e2. merge_match ld clash mode \<lparr>entry = e1, matches = [e2]\<rparr>) (filter (joins ld opts ps e1) xs)" for e1
    using assms by (simp add: entries_of_def Let_def)
  then show ?thesis by (simp add: mergeMatched_def merged_pairs_def map_concat comp_def)
qed

lemma semi_join_entries:
  assumes "\<not> one_by_one opts"
  shows "map entry (concat (map (entries_of ld opts ps xs) ys)) = partnered (joins ld opts ps) ys xs"
  using assms by (induction ys) (auto simp: entries_of_def partnered_def Let_def filter_empty_conv)

text \<open>
  C10: Combining by matching fields computes a join: the merged pairs of items that agree in all fields, in
  the order of the first input, for an inner join, and with the items that match nothing for the
  outer, left and right joins; only these for an anti join, and the items that match for a semi join.
\<close>

theorem combineByFields_joins:
  assumes "match_fields mn = Inr ps" and "ps \<noteq> []" and "distinct (map field2 ps)" and "matches_all (mn_options mn)"
    and "21 / 10 \<le> mn_version mn" and "ys \<noteq> []" and "xs \<noteq> []"
  shows "combineByFields_execute mn d (ys # xs # rest) =
    Inr (reference_join mn (joins (mn_lodash mn) (mn_options mn) ps) ys xs)"
proof -
  let ?ld = "mn_lodash mn" and ?opts = "mn_options mn"
  have left: "filter (\<lambda>e1. \<not> list_ex (joins ?ld ?opts ps e1) xs) ys = alone (joins ?ld ?opts ps) ys xs"
    by (simp add: alone_def list_ex_iff)
  have right: "filter (\<lambda>e2. \<not> (\<exists>e1 \<in> set ys. joins ?ld ?opts ps e1 e2)) xs = alone (\<lambda>e2 e1. joins ?ld ?opts ps e1 e2) xs ys"
    by (simp add: alone_def)
  have in2: "filter (\<lambda>e2. \<exists>e1 \<in> set ys. joins ?ld ?opts ps e1 e2) xs = partnered (\<lambda>e2 e1. joins ?ld ?opts ps e1 e2) xs ys"
    by (simp add: partnered_def)
  have "joined_items ?ld (mn_clash mn) ?opts (findMatches ?ld ys xs ps ?opts) = reference_join mn (joins ?ld ?opts ps) ys xs"
    unfolding findMatches_join[OF assms(3,4)] left right in2
    by (cases "joinMode ?opts"; cases "outputDataFrom ?opts")
      (simp_all add: joined_items_def reference_join_def Let_def one_by_one_def merged_entries semi_join_entries)
  then show ?thesis
    using assms(1,2,5,6,7) by (simp add: combineByFields_execute_def join_inputs_def list_get_def)
qed

text \<open>A library for the examples: plain look-up, equality, and merging at the top level.\<close>

definition put_all :: "IDataObject \<Rightarrow> jval list \<Rightarrow> IDataObject" where
  "put_all target sources = fold (\<lambda>v ob. fold (\<lambda>(k, x) ob. str_put k x ob) (spread_value v) ob) sources target"

definition sample_lodash :: lodash where
  "sample_lodash =
     \<lparr>ld_get = get_prop, ld_isEqual = (=), ld_merge = put_all, ld_mergeWith = (\<lambda>c. put_all), ld_assign = put_all,
      ld_assignWith = (\<lambda>c. put_all), ld_json_parse = (\<lambda>s. None)\<rparr>"

definition sample_merge :: "JoinMode \<Rightarrow> string option \<Rightarrow> MergeNode" where
  "sample_merge jm clash =
     \<lparr>mn_lodash = sample_lodash, mn_version = 3, mn_mode = ''combine'', mn_combineBy = ''combineByFields'', mn_advanced = False,
      mn_mergeByFields = [], mn_fieldsToMatchString = ''id'',
      mn_options = \<lparr>joinMode = jm, outputDataFrom = FromBoth, multipleMatches = None, disableDotNotation = False, useFuzzy = True\<rparr>,
      mn_clash = \<lparr>resolveClash = clash, mergeMode = None, overrideEmpty = False\<rparr>,
      mn_includeUnpaired = False, mn_chooseBranchMode = ''waitForAll'', mn_output = ''empty'', mn_useDataOfInput = 1\<rparr>"

definition record_of :: "(string \<times> jval) list \<Rightarrow> INodeExecutionData" where
  "record_of js = empty_item\<lparr>json := js\<rparr>"

theorem combineByFields_joins_witness:
  "map_sum id (map json) (combineByFields_execute (sample_merge KeepEverything None) []
     [[record_of [(''id'', JNum 1), (''a'', JNum 5)], record_of [(''id'', JNum 2)]],
      [record_of [(''id'', JStr ''1''), (''b'', JNum 6)], record_of [(''id'', JNum 3)]]]) =
   Inr [[(''id'', JStr ''1''), (''a'', JNum 5), (''b'', JNum 6)], [(''id'', JNum 2)], [(''id'', JNum 3)]]"
proof -
  let ?mn = "sample_merge KeepEverything None" and ?ps = "[\<lparr>field1 = ''id'', field2 = ''id''\<rparr>]"
  let ?ys = "[record_of [(''id'', JNum 1), (''a'', JNum 5)], record_of [(''id'', JNum 2)]]"
  let ?xs = "[record_of [(''id'', JStr ''1''), (''b'', JNum 6)], record_of [(''id'', JNum 3)]]"
  have "match_fields ?mn = Inr ?ps" by code_simp
  moreover have "matches_all (mn_options ?mn)" by (simp add: matches_all_def sample_merge_def)
  moreover have "21 / 10 \<le> mn_version ?mn" by (simp add: sample_merge_def)
  ultimately have "combineByFields_execute ?mn [] [?ys, ?xs] =
      Inr (reference_join ?mn (joins (mn_lodash ?mn) (mn_options ?mn) ?ps) ?ys ?xs)"
    using combineByFields_joins[of ?mn ?ps ?ys ?xs "[]" "[]"] by simp
  moreover have "map json (reference_join ?mn (joins (mn_lodash ?mn) (mn_options ?mn) ?ps) ?ys ?xs) =
      [[(''id'', JStr ''1''), (''a'', JNum 5), (''b'', JNum 6)], [(''id'', JNum 2)], [(''id'', JNum 3)]]"
    by code_simp
  ultimately show ?thesis by simp
qed

text \<open>
  Of several pairs with one field of the second input only the last is compared: here the items
  differ in a and b, but match.
\<close>

lemma repeated_field_ignored:
  "matched (findMatches sample_lodash [record_of [(''a'', JNum 1), (''b'', JNum 2)]] [record_of [(''k'', JNum 2)]]
     [\<lparr>field1 = ''a'', field2 = ''k''\<rparr>, \<lparr>field1 = ''b'', field2 = ''k''\<rparr>] (mn_options (sample_merge KeepMatches None))) \<noteq> []"
  by code_simp

section \<open>Combining by position\<close>

lemma length_suffixed: "map length (map (\<lambda>(i, xs). addSuffixToEntriesKeys (f i) xs) (enumerate n xss)) = map length xss"
  by (induction xss arbitrary: n) (simp_all add: addSuffixToEntriesKeys_def)

lemma combineByPosition_length:
  assumes "combineByPosition_execute mn inputs = Inr out"
  shows "length out = (if mn_includeUnpaired mn then Max (set (map length inputs)) else Min (set (map length inputs)))"
  using assms unfolding combineByPosition_execute_def Let_def
  by (simp only: length_suffixed if_distrib[of "map length"] split: option.splits) (auto simp: length_suffixed simp del: set_map)

text \<open>
  Adding the number of the input to the field names leaves the names of the last input without a
  number as well: the preferred entries are taken before the suffixes are added.
\<close>

lemma suffix_leaves_plain_fields:
  "map_sum id (map json) (combineByPosition_execute (sample_merge KeepMatches (Some ''addSuffix''))
     [[record_of [(''a'', JNum 1)]], [record_of [(''a'', JNum 2)]]]) =
   Inr [[(''a_1'', JNum 1), (''a_2'', JNum 2), (''a'', JNum 2)]]"
  by code_simp

text \<open>Of three inputs the option for the earliest version gives the value of the third over that of the second.\<close>

lemma earliest_is_latest_of_rest:
  "map_sum id (map json) (combineByPosition_execute (sample_merge KeepMatches (Some ''preferInput1''))
     [[record_of []], [record_of [(''a'', JNum 2)]], [record_of [(''a'', JNum 3)]]]) = Inr [[(''a'', JNum 3)]]"
  by code_simp

section \<open>Inputs without data\<close>

text \<open>The check of the index is off by one: the first index behind the inputs gives undefined and no error.\<close>

lemma getInputData_behind:
  assumes "obj_get d MainConn = Some inputs"
  shows "getInputData d (length inputs) = Inr Undefined"
    and "length inputs < i \<Longrightarrow> \<exists>e. getInputData d i = Inl e"
  using assms by (simp_all add: getInputData_def arr_get_def)

lemma choose_empty_needs_two_inputs:
  "chooseBranch_execute (sample_merge KeepMatches None) [(MainConn, [Val [empty_item]])] [[empty_item], []] = Inl not_iterable"
  by code_simp

end
