(* ===== verification/ActiveTriggers.thy ===== *)
theory ActiveTriggers
  imports WorkflowNodes JsValues
begin

text \<open>
  The triggers and pollers of the active workflows of a process
  (packages/core/src/ActiveWorkflows.ts), the timers of the pollers (ScheduledTaskManager.ts), and
  the texts of their times (packages/workflow/src/Cron.ts).
\<close>

section \<open>Times\<close>

datatype TriggerTime =
    EveryMinute
  | EveryXMinutes number
  | EveryXHours number
  | EveryHour number
  | EveryDay number number
  | EveryWeek number number number
  | EveryMonth number number number
  | CustomTrigger string

text \<open>The fields with spaces between them, after the random second and, for hours, minute.\<close>

definition toCronExpression :: "nat \<Rightarrow> nat \<Rightarrow> TriggerTime \<Rightarrow> string" where
  "toCronExpression randomSecond randomMinute item =
     (let sec = nat_string randomSecond @ '' ''
      in case item of
          EveryMinute \<Rightarrow> sec @ ''* * * * *''
        | EveryHour m \<Rightarrow> sec @ num_string m @ '' * * * *''
        | EveryXMinutes v \<Rightarrow> sec @ ''*/'' @ num_string v @ '' * * * *''
        | EveryXHours v \<Rightarrow> sec @ nat_string randomMinute @ '' */'' @ num_string v @ '' * * *''
        | EveryDay h m \<Rightarrow> sec @ num_string m @ '' '' @ num_string h @ '' * * *''
        | EveryWeek h m d \<Rightarrow> sec @ num_string m @ '' '' @ num_string h @ '' * * '' @ num_string d
        | EveryMonth h m d \<Rightarrow> sec @ num_string m @ '' '' @ num_string h @ '' '' @ num_string d @ '' * *''
        | CustomTrigger e \<Rightarrow> str_trim e)"

text \<open>The check that an interval is at least a minute: no star in the first field.\<close>

definition too_short :: "string \<Rightarrow> bool" where
  "too_short cronTime \<longleftrightarrow> CHR ''*'' \<in> set (hd (split_at_char (CHR '' '') cronTime))"

section \<open>The state\<close>

text \<open>A timer of a poller; whether the library runs it.\<close>

record CronJob =
  job_expr :: string
  job_node :: string
  job_running :: bool

text \<open>
  What the close function of a trigger does: there may be none, it may close, throw a
  TriggerCloseError or another error.
\<close>

datatype close_kind = NoClose | Closes | ThrowsCloseError | ThrowsError string

record TriggerHandle =
  th_id :: nat
  th_node :: string
  th_close :: close_kind

text \<open>
  Of the outside the triggers that were started and not closed, with their workflows, and the
  data that polling emitted.
\<close>

record ActiveState =
  as_active :: "TriggerHandle list str_obj"
  as_crons :: "(string, CronJob list) obj"
  as_open :: "(string \<times> TriggerHandle) list"
  as_emitted :: "(string \<times> string) list"
  as_next :: nat

definition no_active_workflows :: ActiveState where
  "no_active_workflows = \<lparr>as_active = [], as_crons = [], as_open = [], as_emitted = [], as_next = 0\<rparr>"

text \<open>
  What node types and parameters give during one activation: an error text, or the close function
  of the trigger if it gives a response, the times of a poller, whether it has data, and whether the
  library takes the text of a time.
\<close>

record ActivationEnv =
  av_types :: INodeTypes
  av_trigger :: "INode \<Rightarrow> string + close_kind option"
  av_pollTimes :: "INode \<Rightarrow> string + TriggerTime list"
  av_poll :: "INode \<Rightarrow> string + bool"
  av_random :: "INode \<Rightarrow> nat \<Rightarrow> nat \<times> nat"
  av_cronError :: "string \<Rightarrow> string option"

datatype activation_error = WorkflowActivationError string string | WorkflowDeactivationError string string

definition aw_isActive :: "string \<Rightarrow> ActiveState \<Rightarrow> bool" where
  "aw_isActive workflowId s = obj_has (as_active s) workflowId"

definition allActiveWorkflows :: "ActiveState \<Rightarrow> string list" where
  "allActiveWorkflows s = obj_keys (as_active s)"

section \<open>Timers\<close>

definition cron_jobs :: "string \<Rightarrow> ActiveState \<Rightarrow> CronJob list" where
  "cron_jobs workflowId s = (case obj_get (as_crons s) workflowId of None \<Rightarrow> [] | Some js \<Rightarrow> js)"

definition registerCron :: "string \<Rightarrow> string \<Rightarrow> string \<Rightarrow> ActiveState \<Rightarrow> ActiveState" where
  "registerCron workflowId nodeName cronExpression s =
     s\<lparr>as_crons := enum_put workflowId
        (cron_jobs workflowId s @ [\<lparr>job_expr = cronExpression, job_node = nodeName, job_running = True\<rparr>]) (as_crons s)\<rparr>"

text \<open>The jobs are stopped and stay in the map.\<close>

definition deregisterCrons :: "string \<Rightarrow> ActiveState \<Rightarrow> ActiveState" where
  "deregisterCrons workflowId s =
     (case obj_get (as_crons s) workflowId of
        None \<Rightarrow> s
      | Some js \<Rightarrow> s\<lparr>as_crons := enum_put workflowId (map (\<lambda>j. j\<lparr>job_running := False\<rparr>) js) (as_crons s)\<rparr>)"

text \<open>\<open>Object.keys\<close> of a Map, which has no own properties.\<close>

definition own_keys_of_map :: "('k, 'v) obj \<Rightarrow> 'k list" where
  "own_keys_of_map m = []"

definition deregisterAllCrons :: "ActiveState \<Rightarrow> ActiveState" where
  "deregisterAllCrons s = fold deregisterCrons (own_keys_of_map (as_crons s)) s"

text \<open>A tick of a timer polls only on the leader.\<close>

definition cron_polls :: "bool \<Rightarrow> CronJob \<Rightarrow> bool" where
  "cron_polls isLeader job \<longleftrightarrow> job_running job \<and> isLeader"

section \<open>Activation\<close>

definition runTrigger :: "ActivationEnv \<Rightarrow> INode \<Rightarrow> string + close_kind option" where
  "runTrigger env node =
     (case av_types env (node_type node) (typeVersion node) of
        None \<Rightarrow> Inl ''Node with unknown node type''
      | Some t \<Rightarrow> (if has_trigger t then av_trigger env node else Inl ''Node type does not have a trigger function defined''))"

definition runPoll :: "ActivationEnv \<Rightarrow> INode \<Rightarrow> string + bool" where
  "runPoll env node =
     (case av_types env (node_type node) (typeVersion node) of
        None \<Rightarrow> Inl ''Node with unknown node type''
      | Some t \<Rightarrow> (if has_poll t then av_poll env node else Inl ''Node type does not have a poll function defined''))"

definition responses :: "string \<Rightarrow> ActiveState \<Rightarrow> TriggerHandle list" where
  "responses workflowId s = (case obj_get (as_active s) workflowId of None \<Rightarrow> [] | Some hs \<Rightarrow> hs)"

definition record_trigger :: "string \<Rightarrow> INode \<Rightarrow> close_kind \<Rightarrow> ActiveState \<Rightarrow> ActiveState" where
  "record_trigger workflowId node kind s =
     (let h = \<lparr>th_id = as_next s, th_node = node_name node, th_close = kind\<rparr>
      in s\<lparr>as_active := str_put workflowId (responses workflowId s @ [h]) (as_active s),
           as_open := (if kind = NoClose then as_open s else as_open s @ [(workflowId, h)]),
           as_next := Suc (as_next s)\<rparr>)"

fun start_triggers :: "ActivationEnv \<Rightarrow> string \<Rightarrow> INode list \<Rightarrow> ActiveState \<Rightarrow> activation_error option \<times> ActiveState" where
  "start_triggers env workflowId [] s = (None, s)"
| "start_triggers env workflowId (node # ns) s =
     (case runTrigger env node of
        Inl m \<Rightarrow> (Some (WorkflowActivationError m (node_name node)), s)
      | Inr None \<Rightarrow> start_triggers env workflowId ns s
      | Inr (Some kind) \<Rightarrow> start_triggers env workflowId ns (record_trigger workflowId node kind s))"

fun register_crons :: "ActivationEnv \<Rightarrow> string \<Rightarrow> INode \<Rightarrow> string list \<Rightarrow> ActiveState \<Rightarrow> string option \<times> ActiveState" where
  "register_crons env workflowId node [] s = (None, s)"
| "register_crons env workflowId node (cronTime # cs) s =
     (if too_short cronTime then (Some ''The polling interval is too short. It has to be at least a minute.'', s)
      else case av_cronError env cronTime of
          Some m \<Rightarrow> (Some m, s)
        | None \<Rightarrow> register_crons env workflowId node cs (registerCron workflowId (node_name node) cronTime s))"

text \<open>The poller is run once, where it may throw, before its timers are set.\<close>

definition activatePolling :: "ActivationEnv \<Rightarrow> string \<Rightarrow> INode \<Rightarrow> ActiveState \<Rightarrow> string option \<times> ActiveState" where
  "activatePolling env workflowId node s =
     (case av_pollTimes env node of
        Inl m \<Rightarrow> (Some m, s)
      | Inr tms \<Rightarrow>
          (case runPoll env node of
             Inl m \<Rightarrow> (Some m, s)
           | Inr found \<Rightarrow>
               register_crons env workflowId node
                 (map (\<lambda>(i, item). toCronExpression (fst (av_random env node i)) (snd (av_random env node i)) item) (enumerate 0 tms))
                 (if found then s\<lparr>as_emitted := as_emitted s @ [(workflowId, node_name node)]\<rparr> else s)))"

fun start_polls :: "ActivationEnv \<Rightarrow> string \<Rightarrow> INode list \<Rightarrow> ActiveState \<Rightarrow> activation_error option \<times> ActiveState" where
  "start_polls env workflowId [] s = (None, s)"
| "start_polls env workflowId (node # ns) s =
     (case activatePolling env workflowId node s of
        (Some m, s1) \<Rightarrow> (Some (WorkflowActivationError m (node_name node)), s1)
      | (None, s1) \<Rightarrow> start_polls env workflowId ns s1)"

definition aw_add :: "ActivationEnv \<Rightarrow> Workflow \<Rightarrow> ActiveState \<Rightarrow> activation_error option \<times> ActiveState" where
  "aw_add env w s =
     (case start_triggers env (wf_id w) (getTriggerNodes (av_types env) w) (s\<lparr>as_active := str_put (wf_id w) [] (as_active s)\<rparr>) of
        (Some e, s1) \<Rightarrow> (Some e, s1)
      | (None, s1) \<Rightarrow> start_polls env (wf_id w) (getPollNodes (av_types env) w) s1)"

section \<open>Deactivation\<close>

definition closeTrigger :: "string \<Rightarrow> TriggerHandle \<Rightarrow> ActiveState \<Rightarrow> activation_error option \<times> ActiveState" where
  "closeTrigger workflowId h s =
     (case th_close h of
        NoClose \<Rightarrow> (None, s)
      | Closes \<Rightarrow> (None, s\<lparr>as_open := filter (\<lambda>e. snd e \<noteq> h) (as_open s)\<rparr>)
      | ThrowsCloseError \<Rightarrow> (None, s)
      | ThrowsError m \<Rightarrow> (Some (WorkflowDeactivationError workflowId m), s))"

fun close_triggers :: "string \<Rightarrow> TriggerHandle list \<Rightarrow> ActiveState \<Rightarrow> activation_error option \<times> ActiveState" where
  "close_triggers workflowId [] s = (None, s)"
| "close_triggers workflowId (h # hs) s =
     (case closeTrigger workflowId h s of
        (Some e, s1) \<Rightarrow> (Some e, s1) | (None, s1) \<Rightarrow> close_triggers workflowId hs s1)"

definition aw_remove :: "string \<Rightarrow> ActiveState \<Rightarrow> (activation_error + bool) \<times> ActiveState" where
  "aw_remove workflowId s =
     (if \<not> aw_isActive workflowId s then (Inr False, s)
      else case close_triggers workflowId (responses workflowId s) (deregisterCrons workflowId s) of
          (Some e, s1) \<Rightarrow> (Inl e, s1)
        | (None, s1) \<Rightarrow> (Inr True, s1\<lparr>as_active := obj_del workflowId (as_active s1)\<rparr>))"

fun deactivate_each :: "string list \<Rightarrow> ActiveState \<Rightarrow> (activation_error + unit) \<times> ActiveState" where
  "deactivate_each [] s = (Inr (), s)"
| "deactivate_each (i # is) s =
     (case aw_remove i s of (Inl e, s1) \<Rightarrow> (Inl e, s1) | (Inr _, s1) \<Rightarrow> deactivate_each is s1)"

definition removeAllTriggerAndPollerBasedWorkflows :: "ActiveState \<Rightarrow> (activation_error + unit) \<times> ActiveState" where
  "removeAllTriggerAndPollerBasedWorkflows s = deactivate_each (allActiveWorkflows s) s"

end
