(* ===== verification/ActiveTriggersProperties.thy ===== *)
theory ActiveTriggersProperties
  imports ActiveTriggers Samples
begin

text \<open>
  A workflow that is not active has no running timer, and one that was removed no open trigger,
  whatever was activated and removed before; what an activation that fails leaves behind.
\<close>

section \<open>Frames\<close>

lemma cron_jobs_register:
  "cron_jobs j (registerCron i n e s) =
     (if j = i then cron_jobs i s @ [\<lparr>job_expr = e, job_node = n, job_running = True\<rparr>] else cron_jobs j s)"
  by (simp add: cron_jobs_def registerCron_def)

lemma cron_jobs_deregister:
  "cron_jobs j (deregisterCrons i s) = (if j = i then map (\<lambda>x. x\<lparr>job_running := False\<rparr>) (cron_jobs i s) else cron_jobs j s)"
  by (auto simp: cron_jobs_def deregisterCrons_def split: option.split)


lemma active_iff: "aw_isActive i s \<longleftrightarrow> (\<exists>hs. obj_get (as_active s) i = Some hs)"
  by (simp add: aw_isActive_def obj_has_get)

lemma active_record [simp]: "aw_isActive j (record_trigger i n k s) \<longleftrightarrow> j = i \<or> aw_isActive j s"
  by (simp add: active_iff record_trigger_def Let_def)

lemma record_crons [simp]: "as_crons (record_trigger i n k s) = as_crons s"
  by (simp add: record_trigger_def Let_def)

lemma register_frame [simp]:
  "as_active (registerCron i n e s) = as_active s" "as_open (registerCron i n e s) = as_open s"
  "as_next (registerCron i n e s) = as_next s"
  by (simp_all add: registerCron_def)

lemma deregister_frame [simp]:
  "as_active (deregisterCrons i s) = as_active s" "as_open (deregisterCrons i s) = as_open s"
  "as_next (deregisterCrons i s) = as_next s"
  by (simp_all add: deregisterCrons_def split: option.split)

lemma register_crons_frame:
  "register_crons env i n cs s = (r, s') \<Longrightarrow>
     as_active s' = as_active s \<and> as_open s' = as_open s \<and> as_next s' = as_next s \<and> (\<forall>j. j \<noteq> i \<longrightarrow> cron_jobs j s' = cron_jobs j s)"
  by (induction env i n cs s rule: register_crons.induct) (auto simp: cron_jobs_register split: if_splits option.splits)

lemma start_polls_frame:
  "start_polls env i ns s = (r, s') \<Longrightarrow>
     as_active s' = as_active s \<and> as_open s' = as_open s \<and> as_next s' = as_next s \<and> (\<forall>j. j \<noteq> i \<longrightarrow> cron_jobs j s' = cron_jobs j s)"
proof (induction env i ns s rule: start_polls.induct)
  case (2 env i n ns s)
  obtain m s1 where a: "activatePolling env i n s = (m, s1)" by fastforce
  then have f: "as_active s1 = as_active s \<and> as_open s1 = as_open s \<and> as_next s1 = as_next s \<and> (\<forall>j. j \<noteq> i \<longrightarrow> cron_jobs j s1 = cron_jobs j s)"
    by (auto simp: activatePolling_def cron_jobs_def[of _ "as_emitted_update _ _"] split: sum.splits if_splits
        dest!: register_crons_frame) (auto simp: cron_jobs_def)
  from 2 a f show ?case by (cases m) auto
qed simp

lemma start_triggers_crons: "start_triggers env i ns s = (r, s') \<Longrightarrow> as_crons s' = as_crons s"
  by (induction env i ns s rule: start_triggers.induct) (auto split: sum.splits option.splits)

lemma start_triggers_active: "start_triggers env i ns s = (r, s') \<Longrightarrow> aw_isActive i s \<Longrightarrow> aw_isActive j s' \<longleftrightarrow> aw_isActive j s"
  by (induction env i ns s rule: start_triggers.induct) (auto split: sum.splits option.splits)

lemma close_frame: "close_triggers i hs s = (r, s') \<Longrightarrow> as_active s' = as_active s \<and> as_crons s' = as_crons s \<and> as_next s' = as_next s"
  by (induction i hs s rule: close_triggers.induct) (auto simp: closeTrigger_def split: close_kind.splits prod.splits)

section \<open>Timers run for active workflows only\<close>

definition crons_ok :: "ActiveState \<Rightarrow> bool" where
  "crons_ok s \<longleftrightarrow> (\<forall>i. (\<exists>j \<in> set (cron_jobs i s). job_running j) \<longrightarrow> aw_isActive i s)"

lemma aw_add_active:
  assumes "aw_add env w s = (r, s')"
  shows "aw_isActive j s' \<longleftrightarrow> j = wf_id w \<or> aw_isActive j s"
proof -
  let ?s0 = "s\<lparr>as_active := str_put (wf_id w) [] (as_active s)\<rparr>"
  obtain e s1 where t: "start_triggers env (wf_id w) (getTriggerNodes (av_types env) w) ?s0 = (e, s1)" by fastforce
  have "aw_isActive j s1 \<longleftrightarrow> j = wf_id w \<or> aw_isActive j s"
    using start_triggers_active[OF t, of j] by (auto simp: active_iff)
  moreover have "as_active s' = as_active s1" using assms t by (cases e) (auto simp: aw_add_def dest!: start_polls_frame)
  ultimately show ?thesis by (simp add: aw_isActive_def)
qed

lemma aw_add_crons:
  assumes "aw_add env w s = (r, s')" and "j \<noteq> wf_id w"
  shows "cron_jobs j s' = cron_jobs j s"
proof -
  let ?s0 = "s\<lparr>as_active := str_put (wf_id w) [] (as_active s)\<rparr>"
  obtain e s1 where t: "start_triggers env (wf_id w) (getTriggerNodes (av_types env) w) ?s0 = (e, s1)" by fastforce
  have "cron_jobs j s1 = cron_jobs j s" using start_triggers_crons[OF t] by (simp add: cron_jobs_def)
  with assms t show ?thesis by (cases e) (auto simp: aw_add_def dest!: start_polls_frame)
qed

lemma crons_ok_add: "crons_ok s \<Longrightarrow> aw_add env w s = (r, s') \<Longrightarrow> crons_ok s'"
  unfolding crons_ok_def by (metis aw_add_active aw_add_crons)

lemma aw_remove_result:
  assumes "aw_remove i s = (r, s')"
  shows "aw_isActive j s' \<longleftrightarrow> aw_isActive j s \<and> (j = i \<longrightarrow> isl r)"
    and "cron_jobs j s' = (if aw_isActive i s \<and> j = i then map (\<lambda>x. x\<lparr>job_running := False\<rparr>) (cron_jobs i s) else cron_jobs j s)"
  using assms
  by (auto simp: aw_remove_def active_iff deregisterCrons_def split: if_splits prod.splits option.splits
      dest!: close_frame simp: cron_jobs_def)

section \<open>Open triggers belong to active workflows\<close>

text \<open>Every open trigger is among the responses that its workflow closes when it is removed.\<close>

definition open_ok :: "ActiveState \<Rightarrow> bool" where
  "open_ok s \<longleftrightarrow> (\<forall>(i, h) \<in> set (as_open s). h \<in> set (responses i s) \<and> th_close h \<noteq> NoClose \<and> th_close h \<noteq> ThrowsCloseError)"

definition closes_properly :: "ActivationEnv \<Rightarrow> bool" where
  "closes_properly env \<longleftrightarrow> (\<forall>n. av_trigger env n \<noteq> Inr (Some ThrowsCloseError))"







section \<open>All operations in any order\<close>

text \<open>
  Activations and removals in any order; with \<open>fresh\<close> a workflow is only activated when it is not
  active, and no close function throws a TriggerCloseError, which is not reported.
\<close>

inductive activation_step :: "bool \<Rightarrow> ActiveState \<Rightarrow> ActiveState \<Rightarrow> bool" for fresh where
  step_add: "(fresh \<longrightarrow> \<not> aw_isActive (wf_id w) s \<and> closes_properly env) \<Longrightarrow> activation_step fresh s (snd (aw_add env w s))"
| step_remove: "activation_step fresh s (snd (aw_remove i s))"
| step_remove_all: "activation_step fresh s (snd (removeAllTriggerAndPollerBasedWorkflows s))"
| step_all_crons: "activation_step fresh s (deregisterAllCrons s)"

lemma deactivate_each_keeps:
  assumes "\<And>i s r s'. aw_remove i s = (r, s') \<Longrightarrow> Q s \<Longrightarrow> Q s'"
  shows "deactivate_each is s = (r, s') \<Longrightarrow> Q s \<Longrightarrow> Q s'"
  by (induction "is" s rule: deactivate_each.induct) (auto split: prod.splits sum.splits dest: assms)

lemma crons_ok_remove:
  assumes "aw_remove i s = (r, s')" and "crons_ok s"
  shows "crons_ok s'"
  unfolding crons_ok_def
proof (intro allI impI)
  fix j
  assume "\<exists>x \<in> set (cron_jobs j s'). job_running x"
  then have n: "\<not> (aw_isActive i s \<and> j = i)" and "\<exists>x \<in> set (cron_jobs j s). job_running x"
    by (auto simp: aw_remove_result(2)[OF assms(1)] split: if_splits)
  with assms(2) have "aw_isActive j s" by (simp add: crons_ok_def)
  with n show "aw_isActive j s'" by (auto simp: aw_remove_result(1)[OF assms(1)])
qed

lemma crons_ok_step:
  assumes "crons_ok s" and "activation_step fresh s s'"
  shows "crons_ok s'"
  using assms(2)
proof cases
  case (step_add w env)
  with crons_ok_add[OF assms(1) prod.collapse[symmetric]] show ?thesis by simp
next
  case (step_remove i)
  with crons_ok_remove[OF prod.collapse[symmetric] assms(1)] show ?thesis by simp
next
  case step_remove_all
  with deactivate_each_keeps[where Q = crons_ok, OF crons_ok_remove prod.collapse[symmetric] assms(1)] show ?thesis
    by (simp add: removeAllTriggerAndPollerBasedWorkflows_def)
qed (use assms(1) in \<open>simp add: deregisterAllCrons_def own_keys_of_map_def\<close>)


interpretation timers: step_invariant "activation_step fresh" crons_ok for fresh
  by unfold_locales (rule crons_ok_step)


lemma no_active_workflows_ok: "crons_ok no_active_workflows" "open_ok no_active_workflows"
  by (simp_all add: crons_ok_def open_ok_def no_active_workflows_def cron_jobs_def)

lemma timers_poll_for_active:
  assumes "(activation_step fresh)\<^sup>*\<^sup>* no_active_workflows s" and "job \<in> set (cron_jobs i s)" and "cron_polls leader job"
  shows "aw_isActive i s \<and> leader"
  using timers.inv_steps[OF assms(1) no_active_workflows_ok(1)] assms(2,3) by (auto simp: crons_ok_def cron_polls_def)


text \<open>Two triggers, of which the second fails or not, and a poller in front of its timers.\<close>

definition two_triggers :: Workflow where
  "two_triggers = mk_workflow [(''T'', mk_node ''T'' ''trigger''), (''U'', mk_node ''U'' ''trigger'')] [] None"

definition trigger_env :: "(string + close_kind option) \<Rightarrow> ActivationEnv" where
  "trigger_env second =
     \<lparr>av_types = sample_types, av_trigger = (\<lambda>n. if node_name n = ''T'' then Inr (Some Closes) else second),
      av_pollTimes = (\<lambda>n. Inr []), av_poll = (\<lambda>n. Inr False), av_random = (\<lambda>n i. (0, 0)), av_cronError = (\<lambda>e. None)\<rparr>"


section \<open>What is left behind\<close>

text \<open>
  An activation that fails at a later trigger leaves the workflow active and the triggers before it
  open; when it is tried again, as the queue of activations does, these are started once more and
  the ones started first are not closed even when the workflow is removed.
\<close>

lemma failed_activation_stays_active:
  "fst (aw_add (trigger_env (Inl ''no'')) two_triggers no_active_workflows) = Some (WorkflowActivationError ''no'' ''U'') \<and>
   aw_isActive ''1'' (snd (aw_add (trigger_env (Inl ''no'')) two_triggers no_active_workflows)) \<and>
   length (as_open (snd (aw_add (trigger_env (Inl ''no'')) two_triggers no_active_workflows))) = 1"
  by code_simp

lemma retried_activation_leaks:
  "fst (aw_remove ''1'' (snd (aw_add (trigger_env (Inr None)) two_triggers
      (snd (aw_add (trigger_env (Inl ''no'')) two_triggers no_active_workflows))))) = Inr True \<and>
   length (as_open (snd (aw_remove ''1'' (snd (aw_add (trigger_env (Inr None)) two_triggers
      (snd (aw_add (trigger_env (Inl ''no'')) two_triggers no_active_workflows))))))) = 1"
  by code_simp

text \<open>The keys of a Map are not own properties: deregistering all timers deregisters none.\<close>

lemma deregister_all_does_nothing: "deregisterAllCrons s = s"
  by (simp add: deregisterAllCrons_def own_keys_of_map_def)

text \<open>A trigger that cannot be closed ends the removal of all workflows.\<close>

lemma removal_stops_at_first_error:
  assumes "allActiveWorkflows s = i # is" and "aw_remove i s = (Inl e, s')"
  shows "removeAllTriggerAndPollerBasedWorkflows s = (Inl e, s')" and "j \<in> set (i # is) \<Longrightarrow> aw_isActive j s'"
proof -
  show "removeAllTriggerAndPollerBasedWorkflows s = (Inl e, s')"
    using assms by (simp add: removeAllTriggerAndPollerBasedWorkflows_def)
  show "j \<in> set (i # is) \<Longrightarrow> aw_isActive j s'"
    using assms(1) aw_remove_result(1)[OF assms(2), of j]
    by (metis aw_isActive_def allActiveWorkflows_def isl_def obj_has_iff)
qed

section \<open>The interval of a poller\<close>

lemma random_second_field:
  "hd (split_at_char (CHR '' '') (nat_string n @ '' '' @ r)) = nat_string n" "CHR ''*'' \<notin> set (nat_string n)"
proof -
  have "CHR '' '' \<notin> set (nat_string n)" using nat_string_digits[of "CHR '' ''" n] by (auto simp: is_digit_def)
  from split_append[OF this, of r] show "hd (split_at_char (CHR '' '') (nat_string n @ '' '' @ r)) = nat_string n" by simp
  show "CHR ''*'' \<notin> set (nat_string n)" using nat_string_digits[of "CHR ''*''" n] by (auto simp: is_digit_def)
qed

text \<open>Times that are not custom are at least a minute apart.\<close>

lemma generated_times_accepted:
  assumes "\<nexists>e. item = CustomTrigger e"
  shows "\<not> too_short (toCronExpression sec mins item)"
proof -
  from assms obtain r where "toCronExpression sec mins item = nat_string sec @ '' '' @ r"
    by (cases item) (auto simp: toCronExpression_def Let_def)
  then show ?thesis unfolding too_short_def using random_second_field(1)[of sec r] random_second_field(2)[of sec] by metis
qed

text \<open>
  Custom times are judged by their first field alone: one of five fields, whose first is the minute, is
  refused although it is five minutes long, and one that lists all seconds is taken.
\<close>

lemma custom_times_misjudged:
  "too_short (toCronExpression 0 0 (CustomTrigger ''*/5 * * * *''))"
  "\<not> too_short (toCronExpression 0 0 (CustomTrigger ''0-59 * * * * *''))"
  by code_simp+

end
