(* ===== verification/ActivationManager.thy ===== *)
theory ActivationManager
  imports ActiveTriggers WebhookService
begin

text \<open>
  The activation of workflows (packages/cli/src/active-workflow-manager.ts): adding and removing
  their webhooks, triggers and pollers, the queue of activations that are tried again, the errors
  kept for the user interface (activation-errors.service.ts), and the commands by which the leader of several
  main processes is told (services/orchestration).
\<close>

section \<open>The queue of activations\<close>

datatype WorkflowActivateMode = ActInit | ActCreate | ActUpdate | ActActivate | ActManual | ActLeadershipChange

definition WORKFLOW_REACTIVATE_INITIAL_TIMEOUT :: nat where
  "WORKFLOW_REACTIVATE_INITIAL_TIMEOUT = 1000"

definition WORKFLOW_REACTIVATE_MAX_TIMEOUT :: nat where
  "WORKFLOW_REACTIVATE_MAX_TIMEOUT = 24 * 60 * 60 * 1000"

record QueuedActivation =
  qa_mode :: WorkflowActivateMode
  qa_lastTimeout :: nat
  qa_timeout :: nat

text \<open>
  The queue, the timers that are set, each with the workflow and its delay, the retries that wait for
  the end of \<open>add\<close>, with the workflow and the mode, and the number of retries that threw.
\<close>

record ActivationQueue =
  aq_queued :: "QueuedActivation str_obj"
  aq_armed :: "(nat \<times> string \<times> WorkflowActivateMode \<times> nat) list"
  aq_trying :: "(string \<times> WorkflowActivateMode) list"
  aq_next :: nat
  aq_thrown :: nat

definition empty_queue :: ActivationQueue where
  "empty_queue = \<lparr>aq_queued = [], aq_armed = [], aq_trying = [], aq_next = 0, aq_thrown = 0\<rparr>"

definition removeQueuedWorkflowActivation :: "string \<Rightarrow> ActivationQueue \<Rightarrow> ActivationQueue" where
  "removeQueuedWorkflowActivation workflowId q =
     (case obj_get (aq_queued q) workflowId of
        None \<Rightarrow> q
      | Some e \<Rightarrow> q\<lparr>aq_armed := filter (\<lambda>t. fst t \<noteq> qa_timeout e) (aq_armed q), aq_queued := obj_del workflowId (aq_queued q)\<rparr>)"

definition removeAllQueuedWorkflowActivations :: "ActivationQueue \<Rightarrow> ActivationQueue" where
  "removeAllQueuedWorkflowActivations q = fold removeQueuedWorkflowActivation (obj_keys (aq_queued q)) q"

text \<open>An entry whose timer is a new one with the given delay.\<close>

definition set_retry :: "string \<Rightarrow> WorkflowActivateMode \<Rightarrow> WorkflowActivateMode \<Rightarrow> nat \<Rightarrow> ActivationQueue \<Rightarrow> ActivationQueue" where
  "set_retry workflowId entryMode mode delay q =
     q\<lparr>aq_queued := str_put workflowId \<lparr>qa_mode = entryMode, qa_lastTimeout = delay, qa_timeout = aq_next q\<rparr> (aq_queued q),
       aq_armed := aq_armed q @ [(aq_next q, workflowId, mode, delay)], aq_next := Suc (aq_next q)\<rparr>"

definition addQueuedWorkflowActivation :: "WorkflowActivateMode \<Rightarrow> string \<Rightarrow> ActivationQueue \<Rightarrow> ActivationQueue" where
  "addQueuedWorkflowActivation mode workflowId q =
     set_retry workflowId mode mode WORKFLOW_REACTIVATE_INITIAL_TIMEOUT (removeQueuedWorkflowActivation workflowId q)"

text \<open>A timer fires and the retry begins to add the workflow.\<close>

definition retry_begins :: "nat \<times> string \<times> WorkflowActivateMode \<times> nat \<Rightarrow> ActivationQueue \<Rightarrow> ActivationQueue" where
  "retry_begins t q =
     q\<lparr>aq_armed := filter (\<lambda>u. fst u \<noteq> fst t) (aq_armed q), aq_trying := aq_trying q @ [(fst (snd t), fst (snd (snd t)))]\<rparr>"

definition next_timeout :: "nat \<Rightarrow> nat" where
  "next_timeout lastTimeout =
     (if lastTimeout < WORKFLOW_REACTIVATE_MAX_TIMEOUT then min (lastTimeout * 2) WORKFLOW_REACTIVATE_MAX_TIMEOUT else lastTimeout)"

text \<open>After a retry failed; reading the timeout of an entry that is no longer there throws.\<close>

definition retry_failed :: "string \<Rightarrow> WorkflowActivateMode \<Rightarrow> ActivationQueue \<Rightarrow> ActivationQueue" where
  "retry_failed workflowId mode q =
     (case obj_get (aq_queued q) workflowId of
        None \<Rightarrow> q\<lparr>aq_thrown := Suc (aq_thrown q)\<rparr>
      | Some e \<Rightarrow> set_retry workflowId (qa_mode e) mode (next_timeout (qa_lastTimeout e)) q)"

section \<open>The manager\<close>

datatype manager_error = NotActivated string | TriggerError activation_error | HookError js_error

definition double_quoted :: "string \<Rightarrow> string" where
  "double_quoted m = [CHR 34] @ m @ [CHR 34]"

fun error_text :: "manager_error \<Rightarrow> string" where
  "error_text (NotActivated m) = m"
| "error_text (TriggerError (WorkflowActivationError m n)) = ''There was a problem activating the workflow: '' @ double_quoted m"
| "error_text (TriggerError (WorkflowDeactivationError i m)) =
     ''Failed to deactivate trigger of workflow ID '' @ double_quoted i @ '': '' @ double_quoted m"
| "error_text (HookError TypeError) = ''''"
| "error_text (HookError (ApplicationError m)) = m"
| "error_text (HookError (WorkflowOperationError m)) = m"

record 's Manager =
  mg_hooks :: "WebhookStore \<times> 's"
  mg_active :: ActiveState
  mg_queue :: ActivationQueue
  mg_errors :: "string str_obj"
  mg_published :: "(string \<times> string) list"
  mg_received :: "int str_obj"

text \<open>
  The setup of the process and what the outside gives during one operation: the stored workflows, the
  webhooks of a workflow, the methods of its node types, its triggers and pollers.
\<close>

record 's ManagerEnv =
  me_multi :: bool
  me_leader :: bool
  me_find :: "string \<Rightarrow> Workflow option"
  me_hooks :: "Workflow \<Rightarrow> js_error + IWebhookData list"
  me_methods :: "'s webhook_methods"
  me_env :: ActivationEnv

definition new_manager :: "'s \<Rightarrow> 's Manager" where
  "new_manager s =
     \<lparr>mg_hooks = (empty_store, s), mg_active = no_active_workflows, mg_queue = empty_queue, mg_errors = [], mg_published = [], mg_received = []\<rparr>"

definition register_error :: "string \<Rightarrow> string \<Rightarrow> 's Manager \<Rightarrow> 's Manager" where
  "register_error workflowId m mg = mg\<lparr>mg_errors := str_put workflowId m (mg_errors mg)\<rparr>"

definition deregister_error :: "string \<Rightarrow> 's Manager \<Rightarrow> 's Manager" where
  "deregister_error workflowId mg = mg\<lparr>mg_errors := obj_del workflowId (mg_errors mg)\<rparr>"

definition shouldAddWebhooks :: "bool \<Rightarrow> WorkflowActivateMode \<Rightarrow> bool" where
  "shouldAddWebhooks leader mode = (if mode = ActInit then True else if mode = ActLeadershipChange then False else leader)"

definition shouldAddTriggersAndPollers :: "bool \<Rightarrow> bool" where
  "shouldAddTriggersAndPollers leader = leader"

definition STARTING_NODES :: "string list" where
  "STARTING_NODES = [''@n8n/n8n-nodes-langchain.manualChatTrigger'', ''n8n-nodes-base.start'', ''n8n-nodes-base.manualTrigger'']"

definition addTriggersAndPollers :: "'s ManagerEnv \<Rightarrow> Workflow \<Rightarrow> 's Manager \<Rightarrow> activation_error option \<times> 's Manager" where
  "addTriggersAndPollers env w mg =
     (if getTriggerNodes (av_types (me_env env)) w \<noteq> [] \<or> getPollNodes (av_types (me_env env)) w \<noteq> []
      then (let (e, a) = aw_add (me_env env) w (mg_active mg) in (e, mg\<lparr>mg_active := a\<rparr>))
      else (None, mg))"

definition display :: "Workflow \<Rightarrow> string" where
  "display w = double_quoted (case wf_name w of None \<Rightarrow> ''undefined'' | Some n \<Rightarrow> n) @ '' (ID: '' @ wf_id w @ '')''"

text \<open>The part that throws: the workflow is found, can be activated, and is added.\<close>

definition add_parts ::
    "'s ManagerEnv \<Rightarrow> string \<Rightarrow> WorkflowActivateMode \<Rightarrow> Workflow option \<Rightarrow> 's Manager \<Rightarrow> (manager_error + unit) \<times> 's Manager" where
  "add_parts env workflowId mode existing mg =
     (case (case existing of Some w \<Rightarrow> Some w | None \<Rightarrow> me_find env workflowId) of
        None \<Rightarrow> (Inl (NotActivated (''Failed to find workflow with ID '' @ double_quoted workflowId)), mg)
      | Some w \<Rightarrow>
          (if \<not> checkIfWorkflowCanBeActivated (av_types (me_env env)) w (Some STARTING_NODES)
           then (Inl (NotActivated (''Workflow '' @ display w @
                  '' has no node to start the workflow - at least one trigger, poller or webhook node is required'')), mg)
           else
             let (r, hooks) = (if shouldAddWebhooks (me_leader env) mode
                   then addWebhooks (av_types (me_env env)) (me_methods env) w (me_hooks env w) (mg_hooks mg)
                   else (Inr (), mg_hooks mg));
                 mg1 = mg\<lparr>mg_hooks := hooks\<rparr>
             in case r of
                 Inl e \<Rightarrow> (Inl (HookError e), mg1)
               | Inr _ \<Rightarrow>
                   (if shouldAddTriggersAndPollers (me_leader env)
                    then (case addTriggersAndPollers env w mg1 of
                            (Some e, mg2) \<Rightarrow> (Inl (TriggerError e), mg2) | (None, mg2) \<Rightarrow> (Inr (), mg2))
                    else (Inr (), mg1))))"

definition unqueue :: "string \<Rightarrow> 's Manager \<Rightarrow> 's Manager" where
  "unqueue workflowId mg = mg\<lparr>mg_queue := removeQueuedWorkflowActivation workflowId (mg_queue mg)\<rparr>"

definition publish_command :: "string \<Rightarrow> string \<Rightarrow> 's Manager \<Rightarrow> 's Manager" where
  "publish_command command workflowId mg = mg\<lparr>mg_published := mg_published mg @ [(command, workflowId)]\<rparr>"

text \<open>
  The result is undefined when the work was left to the leader, else whether the activation is
  shown.  The number of triggers, which is stored at the end, is not modelled.
\<close>

definition manager_add ::
    "'s ManagerEnv \<Rightarrow> bool \<Rightarrow> string \<Rightarrow> WorkflowActivateMode \<Rightarrow> Workflow option \<Rightarrow> 's Manager \<Rightarrow>
     (manager_error + bool option) \<times> 's Manager" where
  "manager_add env shouldPublish workflowId mode existing mg =
     (if me_multi env \<and> shouldPublish then (Inr None, publish_command ''add-webhooks-triggers-and-pollers'' workflowId mg)
      else case add_parts env workflowId mode existing mg of
          (Inl e, mg1) \<Rightarrow> (Inl e, register_error workflowId (error_text e) mg1)
        | (Inr _, mg1) \<Rightarrow>
            (Inr (Some ((shouldAddWebhooks (me_leader env) mode \<or> shouldAddTriggersAndPollers (me_leader env)) \<and>
                mode \<in> {ActInit, ActLeadershipChange})),
             deregister_error workflowId (unqueue workflowId mg1)))"

definition removeWorkflowTriggersAndPollers :: "string \<Rightarrow> 's Manager \<Rightarrow> (activation_error + unit) \<times> 's Manager" where
  "removeWorkflowTriggersAndPollers workflowId mg =
     (if \<not> aw_isActive workflowId (mg_active mg) then (Inr (), mg)
      else let (r, a) = aw_remove workflowId (mg_active mg)
           in ((case r of Inl e \<Rightarrow> Inl e | Inr _ \<Rightarrow> Inr ()), mg\<lparr>mg_active := a\<rparr>))"

text \<open>Clearing the webhooks of a workflow that is stored; a failure is only logged.\<close>

definition clear_hooks :: "'s ManagerEnv \<Rightarrow> string \<Rightarrow> 's Manager \<Rightarrow> 's Manager" where
  "clear_hooks env workflowId mg =
     (case me_find env workflowId of
        None \<Rightarrow> mg
      | Some w \<Rightarrow> mg\<lparr>mg_hooks := snd (clearWebhooks (av_types (me_env env)) (me_methods env) w (me_hooks env w) (mg_hooks mg))\<rparr>)"

definition manager_remove :: "'s ManagerEnv \<Rightarrow> string \<Rightarrow> 's Manager \<Rightarrow> (activation_error + unit) \<times> 's Manager" where
  "manager_remove env workflowId mg =
     (let mg1 = clear_hooks env workflowId mg
      in if me_multi env then (Inr (), publish_command ''remove-triggers-and-pollers'' workflowId mg1)
         else removeWorkflowTriggersAndPollers workflowId (unqueue workflowId (deregister_error workflowId mg1)))"

section \<open>Retries, failing triggers and the start of the process\<close>

text \<open>The end of a retry: it adds the workflow as it was when it was queued.\<close>

definition retry_ends ::
    "'s ManagerEnv \<Rightarrow> string \<Rightarrow> WorkflowActivateMode \<Rightarrow> Workflow \<Rightarrow> 's Manager \<Rightarrow> 's Manager" where
  "retry_ends env workflowId mode w mg =
     (let mg0 = mg\<lparr>mg_queue := (mg_queue mg)\<lparr>aq_trying := remove1 (workflowId, mode) (aq_trying (mg_queue mg))\<rparr>\<rparr>
      in case manager_add env True workflowId mode (Some w) mg0 of
          (Inl e, mg1) \<Rightarrow> mg1\<lparr>mg_queue := retry_failed workflowId mode (mg_queue mg1)\<rparr>
        | (Inr _, mg1) \<Rightarrow> mg1)"

definition trigger_failed :: "string \<Rightarrow> WorkflowActivateMode \<Rightarrow> string \<Rightarrow> 's Manager \<Rightarrow> 's Manager" where
  "trigger_failed workflowId mode message mg =
     (let mg1 = register_error workflowId message (mg\<lparr>mg_active := snd (aw_remove workflowId (mg_active mg))\<rparr>)
      in mg1\<lparr>mg_queue := addQueuedWorkflowActivation mode workflowId (mg_queue mg1)\<rparr>)"

fun addActiveWorkflows :: "'s ManagerEnv \<Rightarrow> WorkflowActivateMode \<Rightarrow> Workflow list \<Rightarrow> 's Manager \<Rightarrow> 's Manager" where
  "addActiveWorkflows env mode [] mg = mg"
| "addActiveWorkflows env mode (w # ws) mg =
     (case manager_add env False (wf_id w) mode (Some w) mg of
        (Inr _, mg1) \<Rightarrow> addActiveWorkflows env mode ws mg1
      | (Inl e, mg1) \<Rightarrow>
          addActiveWorkflows env mode ws
            (if has_substring (error_text e) ''Authorization'' then mg1
             else mg1\<lparr>mg_queue := addQueuedWorkflowActivation ActInit (wf_id w) (mg_queue mg1)\<rparr>))"

section \<open>Commands of the other main processes\<close>

text \<open>A command is dropped when one of its name came less than 100 ms before.\<close>

definition debounceMessageReceiver :: "string \<Rightarrow> int \<Rightarrow> 's Manager \<Rightarrow> bool \<times> 's Manager" where
  "debounceMessageReceiver command now mg =
     (case obj_get (mg_received mg) command of
        Some t \<Rightarrow> (if now - t < 100 then (False, mg) else (True, mg\<lparr>mg_received := str_put command now (mg_received mg)\<rparr>))
      | None \<Rightarrow> (True, mg\<lparr>mg_received := str_put command now (mg_received mg)\<rparr>))"

text \<open>
  The two commands, which a main receives although it sent them itself, in a process whose role is
  either leader or follower; an activation that fails is made inactive in the database, which is not modelled.
\<close>

definition add_command :: "'s ManagerEnv \<Rightarrow> int \<Rightarrow> string \<Rightarrow> 's Manager \<Rightarrow> 's Manager" where
  "add_command env now workflowId mg =
     (case debounceMessageReceiver ''add-webhooks-triggers-and-pollers'' now mg of
        (False, mg1) \<Rightarrow> mg1
      | (True, mg1) \<Rightarrow>
          (if \<not> me_leader env then mg1
           else case manager_add env False workflowId ActActivate None mg1 of
               (Inl e, mg2) \<Rightarrow> publish_command ''workflow-failed-to-activate'' workflowId mg2
             | (Inr _, mg2) \<Rightarrow> publish_command ''display-workflow-activation'' workflowId mg2))"

definition remove_command :: "'s ManagerEnv \<Rightarrow> int \<Rightarrow> string \<Rightarrow> 's Manager \<Rightarrow> 's Manager" where
  "remove_command env now workflowId mg =
     (case debounceMessageReceiver ''remove-triggers-and-pollers'' now mg of
        (False, mg1) \<Rightarrow> mg1
      | (True, mg1) \<Rightarrow>
          (if \<not> me_leader env then mg1
           else case removeWorkflowTriggersAndPollers workflowId (deregister_error workflowId mg1) of
               (Inl e, mg2) \<Rightarrow> mg2
             | (Inr _, mg2) \<Rightarrow> publish_command ''display-workflow-deactivation'' workflowId mg2))"

end
