(* ===== verification/ActivationProperties.thy ===== *)
theory ActivationProperties
  imports ActivationManager ActiveTriggersProperties WebhookProperties
begin

text \<open>
  The queue of activations: each workflow in it is tried again, at intervals that double up to a day;
  and what the result of an activation says of the errors, the queue and the active workflows.
\<close>

section \<open>The queue\<close>

definition delay_ok :: "nat \<Rightarrow> bool" where
  "delay_ok d \<longleftrightarrow> WORKFLOW_REACTIVATE_INITIAL_TIMEOUT \<le> d \<and> d \<le> WORKFLOW_REACTIVATE_MAX_TIMEOUT"

text \<open>The timer of an entry is set, or a retry of its workflow runs.\<close>

definition has_retry :: "ActivationQueue \<Rightarrow> string \<Rightarrow> QueuedActivation \<Rightarrow> bool" where
  "has_retry q i e \<longleftrightarrow> (\<exists>m d. (qa_timeout e, i, m, d) \<in> set (aq_armed q)) \<or> (\<exists>m. (i, m) \<in> set (aq_trying q))"

text \<open>All but the workflows of \<open>X\<close>, whose retry has just ended, are tried again.\<close>

definition queue_but :: "string set \<Rightarrow> ActivationQueue \<Rightarrow> bool" where
  "queue_but X q \<longleftrightarrow>
     (\<forall>(t, i, m, d) \<in> set (aq_armed q). t < aq_next q \<and> delay_ok d) \<and>
     (\<forall>i e. obj_get (aq_queued q) i = Some e \<longrightarrow>
        qa_timeout e < aq_next q \<and> delay_ok (qa_lastTimeout e) \<and> (i \<notin> X \<longrightarrow> has_retry q i e) \<and>
        (\<forall>(t, j, m, d) \<in> set (aq_armed q). t = qa_timeout e \<longrightarrow> j = i))"

abbreviation queue_ok :: "ActivationQueue \<Rightarrow> bool" where
  "queue_ok \<equiv> queue_but {}"

lemma queue_butD:
  assumes "queue_but X q"
  shows "(t, i, m, d) \<in> set (aq_armed q) \<Longrightarrow> t < aq_next q" "(t, i, m, d) \<in> set (aq_armed q) \<Longrightarrow> delay_ok d"
    "obj_get (aq_queued q) i = Some e \<Longrightarrow> qa_timeout e < aq_next q" "obj_get (aq_queued q) i = Some e \<Longrightarrow> delay_ok (qa_lastTimeout e)"
    "obj_get (aq_queued q) i = Some e \<Longrightarrow> i \<notin> X \<Longrightarrow> has_retry q i e"
    "obj_get (aq_queued q) i = Some e \<Longrightarrow> (qa_timeout e, j, m, d) \<in> set (aq_armed q) \<Longrightarrow> j = i"
  using assms unfolding queue_but_def by fast+

lemma queue_butI:
  assumes "\<And>t i m d. (t, i, m, d) \<in> set (aq_armed q) \<Longrightarrow> t < aq_next q \<and> delay_ok d"
    and "\<And>i e. obj_get (aq_queued q) i = Some e \<Longrightarrow>
           qa_timeout e < aq_next q \<and> delay_ok (qa_lastTimeout e) \<and> (i \<notin> X \<longrightarrow> has_retry q i e)"
    and "\<And>i e j m d. obj_get (aq_queued q) i = Some e \<Longrightarrow> (qa_timeout e, j, m, d) \<in> set (aq_armed q) \<Longrightarrow> j = i"
  shows "queue_but X q"
  using assms unfolding queue_but_def by fast

lemma queue_but_unqueued:
  assumes "queue_but X q" and "obj_get (aq_queued q) i = None" and "X \<subseteq> insert i Y"
  shows "queue_but Y q"
proof (rule queue_butI)
  fix j e
  assume e: "obj_get (aq_queued q) j = Some e"
  with assms(2,3) have "j \<notin> Y \<Longrightarrow> j \<notin> X" by auto
  with queue_butD(3-5)[OF assms(1) e]
  show "qa_timeout e < aq_next q \<and> delay_ok (qa_lastTimeout e) \<and> (j \<notin> Y \<longrightarrow> has_retry q j e)" by blast
qed (use queue_butD(1,2,6)[OF assms(1)] in auto)

lemma empty_queue_ok: "queue_but X empty_queue"
  by (simp add: queue_but_def empty_queue_def)

lemma delay_ok_initial: "delay_ok WORKFLOW_REACTIVATE_INITIAL_TIMEOUT"
  by (simp add: delay_ok_def WORKFLOW_REACTIVATE_INITIAL_TIMEOUT_def WORKFLOW_REACTIVATE_MAX_TIMEOUT_def)

lemma delay_ok_next: "delay_ok d \<Longrightarrow> delay_ok (next_timeout d)"
  by (auto simp: delay_ok_def next_timeout_def)

lemma queued_remove:
  "obj_get (aq_queued (removeQueuedWorkflowActivation i q)) j = (if j = i then None else obj_get (aq_queued q) j)"
  by (simp add: removeQueuedWorkflowActivation_def split: option.split)

lemma remove_queued_ok:
  assumes "queue_but X q" and "X \<subseteq> insert i Y"
  shows "queue_but Y (removeQueuedWorkflowActivation i q)"
proof (cases "obj_get (aq_queued q) i")
  case None
  with queue_but_unqueued[OF assms(1) None assms(2)] show ?thesis by (simp add: removeQueuedWorkflowActivation_def)
next
  case (Some e)
  note ok = queue_butD[OF assms(1)]
  have "has_retry (removeQueuedWorkflowActivation i q) j f"
    if j: "j \<noteq> i" "j \<notin> Y" and f: "obj_get (aq_queued q) j = Some f" for j f
  proof -
    from j assms(2) have "has_retry q j f" using ok(5)[OF f] by blast
    with ok(6)[OF Some] j(1) Some show ?thesis unfolding has_retry_def removeQueuedWorkflowActivation_def by fastforce
  qed
  then show ?thesis
    by (intro queue_butI) (auto simp: queued_remove removeQueuedWorkflowActivation_def[of i q] Some
        split: if_splits dest: ok(1-4) ok(6))
qed

lemma set_retry_ok:
  assumes "queue_but X q" and "delay_ok d" and "X \<subseteq> insert i Y"
  shows "queue_but Y (set_retry i n m d q)"
proof (rule queue_butI)
  note ok = queue_butD[OF assms(1)]
  fix j e
  assume e: "obj_get (aq_queued (set_retry i n m d q)) j = Some e"
  show "qa_timeout e < aq_next (set_retry i n m d q) \<and> delay_ok (qa_lastTimeout e) \<and>
      (j \<notin> Y \<longrightarrow> has_retry (set_retry i n m d q) j e)"
  proof (cases "j = i")
    case False
    with e have f: "obj_get (aq_queued q) j = Some e" by (simp add: set_retry_def)
    from False assms(3) have "j \<notin> Y \<Longrightarrow> has_retry q j e" using ok(5)[OF f] by blast
    with ok(3,4)[OF f] show ?thesis by (auto simp: set_retry_def has_retry_def dest: less_SucI)
  next
    case True
    have "(aq_next q, i, m, d) \<in> set (aq_armed (set_retry i n m d q))" by (simp add: set_retry_def)
    moreover have "e = \<lparr>qa_mode = n, qa_lastTimeout = d, qa_timeout = aq_next q\<rparr>" using True e by (simp add: set_retry_def)
    ultimately have "has_retry (set_retry i n m d q) j e" using True unfolding has_retry_def by (metis QueuedActivation.select_convs(3))
    with True e assms(2) show ?thesis by (auto simp: set_retry_def)
  qed
  fix k l x
  assume "(qa_timeout e, k, l, x) \<in> set (aq_armed (set_retry i n m d q))"
  with e show "k = j" by (auto simp: set_retry_def split: if_splits dest: ok(1,3,6))
qed (use queue_butD(1,2)[OF assms(1)] assms(2) in \<open>auto simp: set_retry_def intro!: less_SucI\<close>)

lemma add_queued_ok: "queue_ok q \<Longrightarrow> queue_ok (addQueuedWorkflowActivation mode i q)"
  unfolding addQueuedWorkflowActivation_def by (rule set_retry_ok[OF remove_queued_ok delay_ok_initial]) auto

lemma retry_failed_ok:
  assumes "queue_but {i} q"
  shows "queue_ok (retry_failed i m q)"
proof (cases "obj_get (aq_queued q) i")
  case None
  have "queue_ok q" using queue_but_unqueued[OF assms None] by simp
  with None show ?thesis by (simp add: retry_failed_def queue_but_def has_retry_def)
next
  case (Some e)
  from set_retry_ok[OF assms delay_ok_next[OF queue_butD(4)[OF assms Some]], of i "{}"] show ?thesis
    by (simp add: retry_failed_def Some)
qed

lemma retry_begins_ok:
  assumes "queue_ok q" and "(t, i, m, d) \<in> set (aq_armed q)"
  shows "queue_ok (retry_begins (t, i, m, d) q)"
proof (rule queue_butI)
  note ok = queue_butD[OF assms(1)]
  fix j e
  assume "obj_get (aq_queued (retry_begins (t, i, m, d) q)) j = Some e"
  then have e: "obj_get (aq_queued q) j = Some e" by (simp add: retry_begins_def)
  have "qa_timeout e = t \<Longrightarrow> j = i" using ok(6)[OF e] assms(2) by blast
  with ok(3-5)[OF e] show "qa_timeout e < aq_next (retry_begins (t, i, m, d) q) \<and> delay_ok (qa_lastTimeout e) \<and>
      (j \<notin> {} \<longrightarrow> has_retry (retry_begins (t, i, m, d) q) j e)"
    by (auto simp: retry_begins_def has_retry_def)
  fix k l x
  assume "(qa_timeout e, k, l, x) \<in> set (aq_armed (retry_begins (t, i, m, d) q))"
  with e show "k = j" by (auto simp: retry_begins_def dest: ok(6))
qed (use queue_butD[OF assms(1)] in \<open>auto simp: retry_begins_def\<close>)

lemma end_trying_ok:
  assumes "queue_ok q"
  shows "queue_but {i} (q\<lparr>aq_trying := remove1 (i, m) (aq_trying q)\<rparr>)"
proof (rule queue_butI)
  note ok = queue_butD[OF assms]
  fix j e
  assume "obj_get (aq_queued (q\<lparr>aq_trying := remove1 (i, m) (aq_trying q)\<rparr>)) j = Some e"
  then have e: "obj_get (aq_queued q) j = Some e" by simp
  have "(j, n) \<in> set (aq_trying q) \<Longrightarrow> j \<noteq> i \<Longrightarrow> (j, n) \<in> set (remove1 (i, m) (aq_trying q))" for n
    by (simp add: in_set_remove1)
  with ok(3-5)[OF e] show "qa_timeout e < aq_next (q\<lparr>aq_trying := remove1 (i, m) (aq_trying q)\<rparr>) \<and>
      delay_ok (qa_lastTimeout e) \<and> (j \<notin> {i} \<longrightarrow> has_retry (q\<lparr>aq_trying := remove1 (i, m) (aq_trying q)\<rparr>) j e)"
    by (auto simp: has_retry_def)
  fix k l x
  assume "(qa_timeout e, k, l, x) \<in> set (aq_armed (q\<lparr>aq_trying := remove1 (i, m) (aq_trying q)\<rparr>))"
  with ok(6)[OF e] show "k = j" by simp
qed (use queue_butD[OF assms] in auto)

lemma remove_all_ok: "queue_ok q \<Longrightarrow> queue_ok (removeAllQueuedWorkflowActivations q)"
proof -
  have "queue_ok q \<Longrightarrow> queue_ok (fold removeQueuedWorkflowActivation is q)" for "is"
    by (induction "is" arbitrary: q) (auto intro: remove_queued_ok)
  then show "queue_ok q \<Longrightarrow> queue_ok (removeAllQueuedWorkflowActivations q)"
    by (simp add: removeAllQueuedWorkflowActivations_def)
qed

section \<open>All operations of a single main process\<close>

lemma queue_register [simp]: "mg_queue (register_error i m mg) = mg_queue mg" "mg_queue (deregister_error i mg) = mg_queue mg"
  by (simp_all add: register_error_def deregister_error_def)

lemma add_parts_queue: "mg_queue (snd (add_parts env i mode w mg)) = mg_queue mg"
  by (auto simp: add_parts_def addTriggersAndPollers_def Let_def split: option.splits prod.splits sum.splits)

lemma manager_add_queue:
  assumes "\<not> me_multi env"
  shows "mg_queue (snd (manager_add env publish i mode w mg)) =
    (if isl (fst (manager_add env publish i mode w mg)) then mg_queue mg else removeQueuedWorkflowActivation i (mg_queue mg))"
  using add_parts_queue[of env i mode w mg] assms
  by (auto simp: manager_add_def unqueue_def register_error_def deregister_error_def split: prod.splits sum.splits)

lemma manager_add_ok:
  assumes "\<not> me_multi env" and "queue_ok (mg_queue mg)"
  shows "queue_ok (mg_queue (snd (manager_add env publish i mode w mg)))"
  using assms(2) by (simp add: manager_add_queue[OF assms(1)] remove_queued_ok)

lemma manager_remove_queue:
  assumes "\<not> me_multi env"
  shows "mg_queue (snd (manager_remove env i mg)) = removeQueuedWorkflowActivation i (mg_queue mg)"
proof -
  have "mg_queue (snd (removeWorkflowTriggersAndPollers i m)) = mg_queue m" for m :: "'a Manager"
    by (auto simp: removeWorkflowTriggersAndPollers_def Let_def split: prod.splits sum.splits)
  moreover have "mg_queue (clear_hooks env i mg) = mg_queue mg" by (simp add: clear_hooks_def split: option.split)
  ultimately show ?thesis using assms by (simp add: manager_remove_def Let_def unqueue_def)
qed

lemma retry_ends_ok:
  assumes "\<not> me_multi env" and "queue_ok (mg_queue mg)"
  shows "queue_ok (mg_queue (retry_ends env i m w mg))"
proof -
  let ?mg = "mg\<lparr>mg_queue := (mg_queue mg)\<lparr>aq_trying := remove1 (i, m) (aq_trying (mg_queue mg))\<rparr>\<rparr>"
  note b = end_trying_ok[OF assms(2), of i m]
  note q = manager_add_queue[OF assms(1), of True i m "Some w" ?mg]
  show ?thesis
  proof (cases "manager_add env True i m (Some w) ?mg")
    case (Pair r mg1)
    show ?thesis
    proof (cases r)
      case (Inl e)
      with Pair q retry_failed_ok[OF b] show ?thesis by (simp add: retry_ends_def)
    next
      case (Inr x)
      have "queue_ok (removeQueuedWorkflowActivation i (mg_queue ?mg))" using remove_queued_ok[OF b, of i "{}"] by simp
      with Pair Inr q show ?thesis by (simp add: retry_ends_def)
    qed
  qed
qed

lemma trigger_failed_ok: "queue_ok (mg_queue mg) \<Longrightarrow> queue_ok (mg_queue (trigger_failed i m msg mg))"
  by (simp add: trigger_failed_def Let_def add_queued_ok)

lemma addActiveWorkflows_ok:
  "\<not> me_multi env \<Longrightarrow> queue_ok (mg_queue mg) \<Longrightarrow> queue_ok (mg_queue (addActiveWorkflows env mode ws mg))"
proof (induction env mode ws mg rule: addActiveWorkflows.induct)
  case (2 env mode w ws mg)
  have "queue_ok (mg_queue (snd (manager_add env False (wf_id w) mode (Some w) mg)))" by (rule manager_add_ok[OF 2(3,4)])
  then show ?case using 2 by (auto simp: add_queued_ok split: prod.split sum.split)
qed simp

text \<open>
  The operations in any order, one after the other: additions and removals for users, timers that fire, retries that
  end, triggers that fail, the start of the process and its end.
\<close>

inductive manager_step :: "'s Manager \<Rightarrow> 's Manager \<Rightarrow> bool" where
  mstep_add: "\<not> me_multi env \<Longrightarrow> manager_step mg (snd (manager_add env publish i mode w mg))"
| mstep_remove: "\<not> me_multi env \<Longrightarrow> manager_step mg (snd (manager_remove env i mg))"
| mstep_fires: "t \<in> set (aq_armed (mg_queue mg)) \<Longrightarrow> manager_step mg (mg\<lparr>mg_queue := retry_begins t (mg_queue mg)\<rparr>)"
| mstep_retry: "\<not> me_multi env \<Longrightarrow> (i, m) \<in> set (aq_trying (mg_queue mg)) \<Longrightarrow> wf_id w = i \<Longrightarrow> manager_step mg (retry_ends env i m w mg)"
| mstep_failed: "manager_step mg (trigger_failed i m msg mg)"
| mstep_start: "\<not> me_multi env \<Longrightarrow> manager_step mg (addActiveWorkflows env mode ws mg)"
| mstep_unqueue: "manager_step mg (mg\<lparr>mg_queue := removeAllQueuedWorkflowActivations (mg_queue mg)\<rparr>)"

definition manager_ok :: "'s Manager \<Rightarrow> bool" where
  "manager_ok mg \<longleftrightarrow> queue_ok (mg_queue mg)"

interpretation activations: step_invariant manager_step manager_ok
proof
  fix mg mg' :: "'a Manager"
  assume "manager_ok mg"
  then have ok: "queue_ok (mg_queue mg)" by (simp add: manager_ok_def)
  assume "manager_step mg mg'"
  then have "queue_ok (mg_queue mg')"
    by cases (use ok in \<open>auto intro: manager_add_ok retry_ends_ok trigger_failed_ok addActiveWorkflows_ok remove_all_ok retry_begins_ok
        simp: manager_remove_queue remove_queued_ok\<close>)
  then show "manager_ok mg'" by (simp add: manager_ok_def)
qed

lemma new_manager_ok: "manager_ok (new_manager s)"
  by (simp add: manager_ok_def new_manager_def empty_queue_ok)

text \<open>
  C22: Whatever operations a single main process does, in any order, each workflow in its queue of activations is tried
  again: its timer is set, or a retry of it runs; and every timer that is set has a delay of at
  least a second and at most a day.
\<close>

theorem queued_activation_retried:
  assumes "manager_step\<^sup>*\<^sup>* (new_manager s) mg" and "obj_get (aq_queued (mg_queue mg)) i = Some e"
  shows "((\<exists>m d. (qa_timeout e, i, m, d) \<in> set (aq_armed (mg_queue mg))) \<or> (\<exists>m. (i, m) \<in> set (aq_trying (mg_queue mg)))) \<and>
    (\<forall>(t, j, m, d) \<in> set (aq_armed (mg_queue mg)). 1000 \<le> d \<and> d \<le> 24 * 60 * 60 * 1000)"
proof -
  have ok: "queue_ok (mg_queue mg)"
    using activations.inv_steps[OF assms(1) new_manager_ok] by (simp add: manager_ok_def)
  from queue_butD(5)[OF ok assms(2)] have "has_retry (mg_queue mg) i e" by simp
  moreover have "\<forall>(t, j, m, d) \<in> set (aq_armed (mg_queue mg)). delay_ok d" using queue_butD(2)[OF ok] by fast
  ultimately show ?thesis
    by (simp add: has_retry_def delay_ok_def WORKFLOW_REACTIVATE_INITIAL_TIMEOUT_def WORKFLOW_REACTIVATE_MAX_TIMEOUT_def)
qed

theorem queued_activation_retried_witness:
  "\<exists>m. (''7'', m) \<in> set (aq_trying (retry_begins (0, ''7'', ActCreate, 1000) (addQueuedWorkflowActivation ActCreate ''7'' empty_queue)))"
proof -
  let ?m = "trigger_failed ''7'' ActCreate ''lost'' (new_manager ())"
  let ?t = "(0, ''7'', ActCreate, 1000)"
  let ?n = "?m\<lparr>mg_queue := retry_begins ?t (mg_queue ?m)\<rparr>"
  have q: "mg_queue ?m = addQueuedWorkflowActivation ActCreate ''7'' empty_queue"
    by (simp add: trigger_failed_def new_manager_def Let_def)
  have t: "?t \<in> set (aq_armed (addQueuedWorkflowActivation ActCreate ''7'' empty_queue))"
    and e: "obj_get (aq_queued (retry_begins ?t (addQueuedWorkflowActivation ActCreate ''7'' empty_queue))) ''7'' =
      Some \<lparr>qa_mode = ActCreate, qa_lastTimeout = 1000, qa_timeout = 0\<rparr>"
    and n: "aq_armed (retry_begins ?t (addQueuedWorkflowActivation ActCreate ''7'' empty_queue)) = []"
    by code_simp+
  have "manager_step (new_manager ()) ?m" by (rule mstep_failed)
  moreover have "manager_step ?m ?n" by (rule mstep_fires) (simp only: q t)
  ultimately have "manager_step\<^sup>*\<^sup>* (new_manager ()) ?n" by simp
  moreover have "obj_get (aq_queued (mg_queue ?n)) ''7'' = Some \<lparr>qa_mode = ActCreate, qa_lastTimeout = 1000, qa_timeout = 0\<rparr>"
    using e by (simp add: q)
  ultimately show ?thesis using queued_activation_retried[of "()" ?n] n by (fastforce simp: q)
qed

section \<open>The result of an activation\<close>

lemma add_parts_success:
  assumes "add_parts env i mode existing mg = (Inr u, mg')"
  shows "\<exists>w. (case existing of Some x \<Rightarrow> Some x | None \<Rightarrow> me_find env i) = Some w \<and>
    checkIfWorkflowCanBeActivated (av_types (me_env env)) w (Some STARTING_NODES) \<and>
    (me_leader env \<and> (getTriggerNodes (av_types (me_env env)) w \<noteq> [] \<or> getPollNodes (av_types (me_env env)) w \<noteq> []) \<longrightarrow>
       aw_isActive (wf_id w) (mg_active mg'))"
proof -
  from assms obtain w where w: "(case existing of Some x \<Rightarrow> Some x | None \<Rightarrow> me_find env i) = Some w"
    by (auto simp: add_parts_def split: option.splits)
  have "aw_isActive (wf_id w) (mg_active mg2)"
    if "addTriggersAndPollers env w mg1 = (e, mg2)"
      and "getTriggerNodes (av_types (me_env env)) w \<noteq> [] \<or> getPollNodes (av_types (me_env env)) w \<noteq> []" for mg1 mg2 e
  proof -
    from that have "mg_active mg2 = snd (aw_add (me_env env) w (mg_active mg1))"
      by (auto simp: addTriggersAndPollers_def split: prod.splits)
    with aw_add_active[OF prod.collapse[symmetric], where j = "wf_id w" and w = w] show ?thesis by simp
  qed
  with assms w show ?thesis
    by (auto simp: add_parts_def Let_def shouldAddTriggersAndPollers_def split: if_splits sum.splits prod.splits option.splits)
qed

lemma add_parts_errors: "mg_errors (snd (add_parts env i mode w mg)) = mg_errors mg"
  by (auto simp: add_parts_def addTriggersAndPollers_def Let_def split: option.splits prod.splits sum.splits)

text \<open>
  A main that adds a workflow itself either fails, and then the error that is kept for the workflow is that of this
  attempt and the queue is as before, or it succeeds, and then the workflow was found and can be
  activated, it has no error and is not in the queue of activations, and on the leader it is active
  when it has triggers or pollers.  The errors of other workflows stay.
\<close>

theorem activation_outcome:
  assumes "manager_add env False i mode existing mg = (r, mg')"
  shows "(\<forall>j. j \<noteq> i \<longrightarrow> obj_get (mg_errors mg') j = obj_get (mg_errors mg) j) \<and>
    (case r of
       Inl e \<Rightarrow> obj_get (mg_errors mg') i = Some (error_text e) \<and> mg_queue mg' = mg_queue mg
     | Inr b \<Rightarrow> b \<noteq> None \<and> obj_get (mg_errors mg') i = None \<and> obj_get (aq_queued (mg_queue mg')) i = None \<and>
         (\<exists>w. (case existing of Some x \<Rightarrow> Some x | None \<Rightarrow> me_find env i) = Some w \<and>
            checkIfWorkflowCanBeActivated (av_types (me_env env)) w (Some STARTING_NODES) \<and>
            (me_leader env \<and> (getTriggerNodes (av_types (me_env env)) w \<noteq> [] \<or> getPollNodes (av_types (me_env env)) w \<noteq> []) \<longrightarrow>
               aw_isActive (wf_id w) (mg_active mg'))))"
proof -
  obtain x mg1 where p: "add_parts env i mode existing mg = (x, mg1)" by fastforce
  have e: "mg_errors mg1 = mg_errors mg" and q: "mg_queue mg1 = mg_queue mg"
    using add_parts_errors[of env i mode existing mg] add_parts_queue[of env i mode existing mg] p by simp_all
  show ?thesis
  proof (cases x)
    case (Inl err)
    with assms p e q show ?thesis by (auto simp: manager_add_def register_error_def)
  next
    case (Inr u)
    note s = add_parts_success[OF p[unfolded Inr]]
    from assms p Inr have r: "r = Inr (Some ((shouldAddWebhooks (me_leader env) mode \<or> shouldAddTriggersAndPollers (me_leader env)) \<and>
        mode \<in> {ActInit, ActLeadershipChange}))" and mg': "mg' = deregister_error i (unqueue i mg1)"
      by (simp_all add: manager_add_def)
    have "mg_active mg' = mg_active mg1" by (simp add: mg' deregister_error_def unqueue_def)
    with s e show ?thesis by (simp add: r) (simp add: mg' deregister_error_def unqueue_def queued_remove)
  qed
qed

text \<open>A process whose only workflow has two triggers of which the second may fail.\<close>

definition one_workflow :: "(string + close_kind option) \<Rightarrow> unit ManagerEnv" where
  "one_workflow second =
     \<lparr>me_multi = False, me_leader = True, me_find = (\<lambda>i. if i = ''1'' then Some two_triggers else None),
      me_hooks = (\<lambda>w. Inr []), me_methods = (\<lambda>t g m. None), me_env = trigger_env second\<rparr>"

theorem activation_outcome_witness:
  "\<exists>r mg'. manager_add (one_workflow (Inl ''no'')) False ''1'' ActActivate None (new_manager ()) = (r, mg') \<and>
     obj_get (mg_errors mg') ''1'' = Some ''There was a problem activating the workflow: \"no\"''"
proof -
  let ?env = "one_workflow (Inl ''no'')"
  obtain r mg' where p: "manager_add ?env False ''1'' ActActivate None (new_manager ()) = (r, mg')" by fastforce
  have "fst (manager_add ?env False ''1'' ActActivate None (new_manager ())) =
      Inl (TriggerError (WorkflowActivationError ''no'' ''U''))" by code_simp
  with p activation_outcome[OF p] have "obj_get (mg_errors mg') ''1'' = Some (error_text (TriggerError (WorkflowActivationError ''no'' ''U'')))"
    by simp
  moreover have "error_text (TriggerError (WorkflowActivationError ''no'' ''U'')) = ''There was a problem activating the workflow: \"no\"''"
    by code_simp
  ultimately show ?thesis using p by auto
qed

section \<open>The delays\<close>

text \<open>Each retry that fails doubles the delay until it is a day.\<close>

lemma delays_double:
  "(next_timeout ^^ n) WORKFLOW_REACTIVATE_INITIAL_TIMEOUT = min (WORKFLOW_REACTIVATE_INITIAL_TIMEOUT * 2 ^ n) WORKFLOW_REACTIVATE_MAX_TIMEOUT"
  by (induction n) (auto simp: next_timeout_def WORKFLOW_REACTIVATE_INITIAL_TIMEOUT_def WORKFLOW_REACTIVATE_MAX_TIMEOUT_def min_def)

lemma failed_retry_delay:
  assumes "obj_get (aq_queued q) i = Some e"
  shows "obj_get (aq_queued (retry_failed i m q)) i = Some \<lparr>qa_mode = qa_mode e, qa_lastTimeout = next_timeout (qa_lastTimeout e), qa_timeout = aq_next q\<rparr>"
    "(aq_next q, i, m, next_timeout (qa_lastTimeout e)) \<in> set (aq_armed (retry_failed i m q))"
  by (simp_all add: retry_failed_def assms set_retry_def)

section \<open>Retries beside other operations\<close>

text \<open>The one workflow whose trigger failed, with its retry running.\<close>

definition retrying :: "unit Manager" where
  "retrying = (let mg = trigger_failed ''1'' ActActivate ''lost'' (new_manager ())
     in mg\<lparr>mg_queue := retry_begins (hd (aq_armed (mg_queue mg))) (mg_queue mg)\<rparr>)"

text \<open>
  A retry that runs is not stopped when the workflow is removed.  When it succeeds the workflow is
  active again; when it fails its handler throws, for the entry is gone.
\<close>

lemma removed_during_retry_active:
  "aw_isActive ''1'' (mg_active (retry_ends (one_workflow (Inr None)) ''1'' ActActivate two_triggers
     (snd (manager_remove (one_workflow (Inr None)) ''1'' retrying))))"
  by code_simp

lemma removed_during_retry_throws:
  "retry_failed i m (removeQueuedWorkflowActivation i q) =
     (removeQueuedWorkflowActivation i q)\<lparr>aq_thrown := Suc (aq_thrown (removeQueuedWorkflowActivation i q))\<rparr>"
  by (simp add: retry_failed_def queued_remove)

text \<open>When a trigger fails while a retry of its workflow runs and fails too, two timers are set for it.\<close>

lemma two_timers:
  "map (\<lambda>t. fst (snd t)) (aq_armed (retry_failed i m (addQueuedWorkflowActivation n i q))) =
     map (\<lambda>t. fst (snd t)) (aq_armed (removeQueuedWorkflowActivation i q)) @ [i, i]"
  by (simp add: retry_failed_def addQueuedWorkflowActivation_def set_retry_def)

section \<open>Several main processes\<close>

text \<open>
  With several mains a retry only asks the leader to add the workflow, and no timer is set again;
  a failure there makes the workflow inactive.  Removing a workflow leaves the queue as it is.
\<close>

lemma multi_main_retry:
  assumes "me_multi env"
  shows "retry_ends env i m w mg = publish_command ''add-webhooks-triggers-and-pollers'' i
     (mg\<lparr>mg_queue := (mg_queue mg)\<lparr>aq_trying := remove1 (i, m) (aq_trying (mg_queue mg))\<rparr>\<rparr>)"
  using assms by (simp add: retry_ends_def manager_add_def Let_def)

lemma multi_main_removal_keeps_queue:
  assumes "me_multi env"
  shows "mg_queue (snd (manager_remove env i mg)) = mg_queue mg" "mg_queue (remove_command env now i mg) = mg_queue mg"
proof -
  show "mg_queue (snd (manager_remove env i mg)) = mg_queue mg"
    using assms by (simp add: manager_remove_def Let_def publish_command_def clear_hooks_def split: option.split)
  have r: "mg_queue (snd (removeWorkflowTriggersAndPollers i m)) = mg_queue m" for m :: "'a Manager"
    by (auto simp: removeWorkflowTriggersAndPollers_def Let_def split: prod.splits sum.splits)
  have d: "debounceMessageReceiver c now mg = (b, mg1) \<Longrightarrow> mg_queue mg1 = mg_queue mg" for c b mg1
    by (auto simp: debounceMessageReceiver_def split: option.splits if_splits)
  obtain b mg1 where e: "debounceMessageReceiver ''remove-triggers-and-pollers'' now mg = (b, mg1)" by fastforce
  obtain x mg2 where f: "removeWorkflowTriggersAndPollers i (deregister_error i mg1) = (x, mg2)" by fastforce
  have "mg_queue mg2 = mg_queue mg" using r[of "deregister_error i mg1"] d[OF e] f by simp
  with d[OF e] show "mg_queue (remove_command env now i mg) = mg_queue mg"
    by (auto simp: remove_command_def e f publish_command_def split: bool.split sum.split)
qed

text \<open>A command is dropped when one of its name came just before, even for another workflow.\<close>

lemma commands_dropped:
  assumes "obj_get (mg_received mg) ''add-webhooks-triggers-and-pollers'' = Some t" and "now < t + 100"
  shows "add_command env now i mg = mg"
  using assms by (simp add: add_command_def debounceMessageReceiver_def)

lemma removals_dropped:
  assumes "obj_get (mg_received mg) ''remove-triggers-and-pollers'' = Some t" and "now < t + 100"
  shows "remove_command env now i mg = mg"
  using assms by (simp add: remove_command_def debounceMessageReceiver_def)

end
