(* ===== verification/ScheduleTrigger.thy ===== *)
theory ScheduleTrigger
  imports JsValues
begin

text \<open>
  The Schedule Trigger node (packages/nodes-base/nodes/Schedule): the cron expressions of its
  intervals and the check that lets only every so many of their ticks start the workflow.
\<close>

section \<open>Intervals\<close>

datatype TypeInterval = RecurHours | RecurDays | RecurWeeks | RecurMonths

datatype IRecurrenceRule =
    NotActivated_rule
  | Recurrence nat number TypeInterval

text \<open>The interval, then the minute, hour and day at which to trigger, where there are such.\<close>

datatype ScheduleInterval =
    CronField string
  | SecondsField number
  | MinutesField number
  | HoursField number "number option"
  | DaysField number "number option" "number option"
  | WeeksField number "number list" "number option" "number option"
  | MonthsField number "number option" "number option" "number option"

text \<open>What moment tells of a point in time in the time zone of the workflow.\<close>

record Moment =
  mo_hour :: nat
  mo_dayOfYear :: nat
  mo_week :: nat
  mo_month :: nat

definition randomInt :: "nat \<Rightarrow> nat \<Rightarrow> nat \<Rightarrow> nat" where
  "randomInt r mn mx = mn + r mod (mx - mn)"

text \<open>The random numbers are those that are drawn for the second, the minute, the hour and the day.\<close>

definition interval_cron :: "(nat \<Rightarrow> nat) \<Rightarrow> ScheduleInterval \<Rightarrow> string" where
  "interval_cron draw interval =
     (let sec = nat_string (randomInt (draw 0) 0 60);
          or_random = (\<lambda>v i mx. case v of Some x \<Rightarrow> num_string x | None \<Rightarrow> nat_string (randomInt (draw i) 0 mx))
      in case interval of
          CronField e \<Rightarrow> e
        | SecondsField n \<Rightarrow> ''*/'' @ num_string n @ '' * * * * *''
        | MinutesField n \<Rightarrow> sec @ '' */'' @ num_string n @ '' * * * *''
        | HoursField n m \<Rightarrow> sec @ '' '' @ or_random m 1 60 @ '' */'' @ num_string n @ '' * * *''
        | DaysField n m h \<Rightarrow> sec @ '' '' @ or_random m 1 60 @ '' '' @ or_random h 2 24 @ '' * * *''
        | WeeksField n days m h \<Rightarrow>
            sec @ '' '' @ or_random m 1 60 @ '' '' @ or_random h 2 24 @ '' * * '' @
            (if days = [] then ''*'' else join_with '','' (map num_string days))
        | MonthsField n m h d \<Rightarrow>
            sec @ '' '' @ or_random m 1 60 @ '' '' @ or_random h 2 24 @ '' '' @ or_random d 3 31 @ '' */'' @ num_string n @ '' *'')"

definition intervalToRecurrence :: "ScheduleInterval \<Rightarrow> nat \<Rightarrow> IRecurrenceRule" where
  "intervalToRecurrence interval index =
     (case interval of
        HoursField n m \<Rightarrow> (if n \<noteq> 1 then Recurrence index n RecurHours else NotActivated_rule)
      | DaysField n m h \<Rightarrow> (if n \<noteq> 1 then Recurrence index n RecurDays else NotActivated_rule)
      | WeeksField n days m h \<Rightarrow> (if n \<noteq> 1 then Recurrence index n RecurWeeks else NotActivated_rule)
      | MonthsField n m h d \<Rightarrow> (if n \<noteq> 1 then Recurrence index n RecurMonths else NotActivated_rule)
      | _ \<Rightarrow> NotActivated_rule)"

section \<open>The check\<close>

text \<open>The remainder of JavaScript, whose sign is that of the dividend; null counts as zero.\<close>

definition js_rem :: "number \<Rightarrow> number \<Rightarrow> number" where
  "js_rem x m = x - m * of_int (if x / m < 0 then \<lceil>x / m\<rceil> else \<lfloor>x / m\<rfloor>)"

definition slot_number :: "number slot \<Rightarrow> number" where
  "slot_number s = (case s of Val n \<Rightarrow> n | _ \<Rightarrow> 0)"

text \<open>The value that must have come since the last execution, of a cycle of the given length.\<close>

definition interval_passed :: "number \<Rightarrow> number \<Rightarrow> nat \<Rightarrow> number slot \<Rightarrow> bool" where
  "interval_passed intervalSize cycle now lastExecution \<longleftrightarrow>
     lastExecution = Undefined \<or> of_nat now = js_rem (intervalSize + slot_number lastExecution) cycle"

definition recurrenceCheck :: "IRecurrenceRule \<Rightarrow> Moment \<Rightarrow> number slot list \<Rightarrow> bool \<times> number slot list" where
  "recurrenceCheck recurrence momentTz recurrenceRules =
     (case recurrence of
        NotActivated_rule \<Rightarrow> (True, recurrenceRules)
      | Recurrence index intervalSize typeInterval \<Rightarrow>
          (if intervalSize = 0 then (False, recurrenceRules)
           else
             let lastExecution = arr_get recurrenceRules index;
                 (now, passed) = (case typeInterval of
                     RecurHours \<Rightarrow> (mo_hour momentTz, interval_passed intervalSize 24 (mo_hour momentTz) lastExecution)
                   | RecurDays \<Rightarrow> (mo_dayOfYear momentTz, interval_passed intervalSize 365 (mo_dayOfYear momentTz) lastExecution)
                   | RecurWeeks \<Rightarrow> (mo_week momentTz,
                       interval_passed intervalSize 52 (mo_week momentTz) lastExecution \<or>
                       lastExecution = Val (of_nat (mo_week momentTz)))
                   | RecurMonths \<Rightarrow> (mo_month momentTz, interval_passed intervalSize 12 (mo_month momentTz) lastExecution))
             in if passed then (True, arr_set recurrenceRules index (Val (of_nat now))) else (False, recurrenceRules)))"

section \<open>The node\<close>

text \<open>The static data of the node and the times for which it emitted an item.\<close>

record ScheduleState =
  ss_recurrenceRules :: "number slot list"
  ss_emitted :: "Moment list"

definition new_schedule :: ScheduleState where
  "new_schedule = \<lparr>ss_recurrenceRules = [], ss_emitted = []\<rparr>"

definition executeTrigger :: "IRecurrenceRule \<Rightarrow> Moment \<Rightarrow> ScheduleState \<Rightarrow> ScheduleState" where
  "executeTrigger recurrence momentTz s =
     (case recurrenceCheck recurrence momentTz (ss_recurrenceRules s) of
        (shouldTrigger, rs) \<Rightarrow>
          s\<lparr>ss_recurrenceRules := rs, ss_emitted := (if shouldTrigger then ss_emitted s @ [momentTz] else ss_emitted s)\<rparr>)"

definition schedule_rules :: "(nat \<Rightarrow> nat \<Rightarrow> nat) \<Rightarrow> ScheduleInterval list \<Rightarrow> (ScheduleInterval \<times> string \<times> IRecurrenceRule) list" where
  "schedule_rules draw intervals =
     map (\<lambda>(i, interval). (interval, interval_cron (draw i) interval, intervalToRecurrence interval i)) (enumerate 0 intervals)"

text \<open>What is registered until one expression is refused by the library.\<close>

fun register_rules ::
    "(string \<Rightarrow> string option) \<Rightarrow> (ScheduleInterval \<times> string \<times> IRecurrenceRule) list \<Rightarrow>
     string option \<times> (string \<times> IRecurrenceRule) list" where
  "register_rules cron_error [] = (None, [])"
| "register_rules cron_error ((interval, cronExpression, recurrence) # rs) =
     (case cron_error cronExpression of
        Some m \<Rightarrow> (Some (case interval of CronField _ \<Rightarrow> ''Invalid cron expression'' | _ \<Rightarrow> m), [])
      | None \<Rightarrow> (case register_rules cron_error rs of (e, regs) \<Rightarrow> (e, (cronExpression, recurrence) # regs)))"

text \<open>A manual execution, which only looks at the first rule.\<close>

definition manualTriggerFunction ::
    "(string \<Rightarrow> string option) \<Rightarrow> (ScheduleInterval \<times> string \<times> IRecurrenceRule) list \<Rightarrow> Moment \<Rightarrow> ScheduleState \<Rightarrow>
     js_error + ScheduleState" where
  "manualTriggerFunction cron_error rules momentTz s =
     (case rules of
        [] \<Rightarrow> Inl TypeError
      | (interval, cronExpression, recurrence) # _ \<Rightarrow>
          (case interval of
             CronField _ \<Rightarrow>
               (if cron_error cronExpression \<noteq> None then Inl (WorkflowOperationError ''Invalid cron expression'')
                else Inr (executeTrigger recurrence momentTz s))
           | _ \<Rightarrow> Inr (executeTrigger recurrence momentTz s)))"

end
