(* ===== verification/ScheduleProperties.thy ===== *)
theory ScheduleProperties
  imports ScheduleTrigger
begin

text \<open>
  When a schedule triggers.  The ticks of the cron library are given: one in hours that are multiples
  of the interval, as the step of the expression says, or one a day.
\<close>

section \<open>The check on whole numbers\<close>

lemma js_rem_nat: "0 < m \<Longrightarrow> js_rem (of_nat a) (of_nat m) = of_nat (a mod m)"
proof -
  assume "0 < m"
  have "\<lfloor>(of_nat a :: number) / of_nat m\<rfloor> = int (a div m)" by (rule floor_divide_of_nat_eq)
  moreover have "\<not> (of_nat a :: number) / of_nat m < 0" by (simp add: not_less)
  ultimately have "js_rem (of_nat a) (of_nat m) = of_nat a - of_nat m * of_nat (a div m)" by (simp add: js_rem_def)
  also have "\<dots> = of_nat (a mod m)"
    by (metis add_diff_cancel_left' mult_div_mod_eq of_nat_add of_nat_mult)
  finally show ?thesis .
qed

lemma interval_passed_nat:
  assumes "0 < m"
  shows "interval_passed (of_nat k) (of_nat m) now (Val (of_nat l)) \<longleftrightarrow> now = (k + l) mod m"
proof -
  have "js_rem (of_nat k + of_nat l) (of_nat m) = of_nat ((k + l) mod m)" using js_rem_nat[OF assms, of "k + l"] by simp
  then show ?thesis by (simp add: interval_passed_def slot_number_def)
qed

definition last_run :: "ScheduleState \<Rightarrow> nat \<Rightarrow> number slot" where
  "last_run s i = arr_get (ss_recurrenceRules s) i"

lemma executeTrigger_hours:
  assumes "k \<noteq> 0"
  shows "last_run s i = Undefined \<Longrightarrow> last_run (executeTrigger (Recurrence i (of_nat k) RecurHours) t s) i = Val (of_nat (mo_hour t)) \<and>
      ss_emitted (executeTrigger (Recurrence i (of_nat k) RecurHours) t s) = ss_emitted s @ [t]"
    and "last_run s i = Val (of_nat l) \<Longrightarrow> executeTrigger (Recurrence i (of_nat k) RecurHours) t s =
      (if mo_hour t = (k + l) mod 24
       then s\<lparr>ss_recurrenceRules := arr_set (ss_recurrenceRules s) i (Val (of_nat (mo_hour t))), ss_emitted := ss_emitted s @ [t]\<rparr>
       else s)"
  using assms interval_passed_nat[of 24 k "mo_hour t" l]
  by (auto simp: executeTrigger_def recurrenceCheck_def last_run_def Let_def interval_passed_def)

lemma executeTrigger_days:
  assumes "k \<noteq> 0"
  shows "last_run s i = Undefined \<Longrightarrow> last_run (executeTrigger (Recurrence i (of_nat k) RecurDays) t s) i = Val (of_nat (mo_dayOfYear t)) \<and>
      ss_emitted (executeTrigger (Recurrence i (of_nat k) RecurDays) t s) = ss_emitted s @ [t]"
    and "last_run s i = Val (of_nat l) \<Longrightarrow> executeTrigger (Recurrence i (of_nat k) RecurDays) t s =
      (if mo_dayOfYear t = (k + l) mod 365
       then s\<lparr>ss_recurrenceRules := arr_set (ss_recurrenceRules s) i (Val (of_nat (mo_dayOfYear t))), ss_emitted := ss_emitted s @ [t]\<rparr>
       else s)"
  using assms interval_passed_nat[of 365 k "mo_dayOfYear t" l]
  by (auto simp: executeTrigger_def recurrenceCheck_def last_run_def Let_def interval_passed_def)

section \<open>Every so many hours\<close>

text \<open>The rule of an interval of \<open>k\<close> hours.\<close>

definition hours_rule :: "nat \<Rightarrow> number option \<Rightarrow> nat \<Rightarrow> IRecurrenceRule" where
  "hours_rule k m i = intervalToRecurrence (HoursField (of_nat k) m) i"

definition run_ticks :: "IRecurrenceRule \<Rightarrow> Moment list \<Rightarrow> ScheduleState \<Rightarrow> ScheduleState" where
  "run_ticks rule ts s = fold (executeTrigger rule) ts s"

lemma hours_rule_recurrence: "k \<noteq> 1 \<Longrightarrow> hours_rule k m i = Recurrence i (of_nat k) RecurHours"
  by (simp add: hours_rule_def intervalToRecurrence_def)

text \<open>The ticks follow each other by \<open>k\<close> hours.\<close>

fun follow_hourly :: "nat \<Rightarrow> Moment list \<Rightarrow> bool" where
  "follow_hourly k (t # u # ts) \<longleftrightarrow> mo_hour u = (mo_hour t + k) mod 24 \<and> follow_hourly k (u # ts)"
| "follow_hourly k ts \<longleftrightarrow> True"

lemma follow_hourly_all:
  assumes "k \<noteq> 0"
  shows "last_run s i = Val (of_nat (mo_hour t)) \<Longrightarrow> follow_hourly k (t # ts) \<Longrightarrow>
    ss_emitted (run_ticks (Recurrence i (of_nat k) RecurHours) ts s) = ss_emitted s @ ts"
proof (induction ts arbitrary: s t)
  case (Cons u ts)
  let ?s = "executeTrigger (Recurrence i (of_nat k) RecurHours) u s"
  from Cons.prems(2) have u: "mo_hour u = (k + mo_hour t) mod 24" by (simp add: add.commute)
  note e = executeTrigger_hours(2)[OF assms Cons.prems(1), of u]
  have "last_run ?s i = Val (of_nat (mo_hour u))" and "ss_emitted ?s = ss_emitted s @ [u]"
    using e u by (simp_all add: last_run_def)
  with Cons.IH[of ?s u] Cons.prems(2) show ?case by (simp add: run_ticks_def)
qed (simp add: run_ticks_def)

text \<open>
  A schedule of every \<open>k\<close> hours whose ticks follow each other by \<open>k\<close> hours, as they do when \<open>k\<close>
  divides 24, triggers at every tick.
\<close>

theorem even_hours_trigger:
  assumes "k \<noteq> 0" and "follow_hourly k ts"
  shows "ss_emitted (run_ticks (hours_rule k m i) ts new_schedule) = ts"
proof (cases "k = 1")
  case True
  have "ss_emitted (run_ticks NotActivated_rule ts s) = ss_emitted s @ ts" for s
    by (induction ts arbitrary: s) (simp_all add: run_ticks_def executeTrigger_def recurrenceCheck_def)
  then show ?thesis using True by (simp add: hours_rule_def intervalToRecurrence_def new_schedule_def)
next
  case False
  note r = hours_rule_recurrence[OF False, of m i]
  show ?thesis
  proof (cases ts)
    case (Cons t us)
    have "last_run new_schedule i = Undefined" by (simp add: last_run_def new_schedule_def arr_get_def)
    note e = executeTrigger_hours(1)[OF assms(1) this, of t]
    with follow_hourly_all[OF assms(1), of "executeTrigger (Recurrence i (of_nat k) RecurHours) t new_schedule" i t us] assms(2) Cons
    show ?thesis by (simp add: r run_ticks_def new_schedule_def)
  qed (simp add: run_ticks_def new_schedule_def)
qed

definition at_hour :: "nat \<Rightarrow> Moment" where
  "at_hour h = \<lparr>mo_hour = h, mo_dayOfYear = 1, mo_week = 1, mo_month = 0\<rparr>"

theorem even_hours_trigger_witness:
  "map mo_hour (ss_emitted (run_ticks (hours_rule 6 None 0) (map at_hour [12, 18, 0, 6, 12]) new_schedule)) = [12, 18, 0, 6, 12]"
  by (subst even_hours_trigger) (simp_all add: at_hour_def)

text \<open>
  C21: A schedule of every \<open>k\<close> hours where \<open>k\<close> does not divide 24 triggers until the last multiple of
  \<open>k\<close> of the day and then never again: over any ticks, which come in hours that are multiples of
  \<open>k\<close>, it triggers at most once for each of these hours.
\<close>

theorem uneven_hours_stop:
  assumes "1 < k" "k < 24" "\<not> k dvd 24" and "\<forall>t \<in> set ts. k dvd mo_hour t \<and> mo_hour t < 24"
  shows "length (ss_emitted (run_ticks (hours_rule k m i) ts new_schedule)) \<le> 24 div k + 1"
proof -
  let ?rule = "Recurrence i (of_nat k) RecurHours"
  define Q where "Q s \<longleftrightarrow> (last_run s i = Undefined \<and> ss_emitted s = []) \<or>
     (\<exists>h. last_run s i = Val (of_nat h) \<and> k dvd h \<and> h < 24 \<and> k * length (ss_emitted s) \<le> h + k)" for s
  have step: "Q (executeTrigger ?rule t s)" if "Q s" and t: "k dvd mo_hour t" "mo_hour t < 24" for s t
    using \<open>Q s\<close> unfolding Q_def
  proof (elim disjE exE conjE)
    assume "last_run s i = Undefined" and e: "ss_emitted s = []"
    with executeTrigger_hours(1)[of k s i t] assms(1) t
    show "(last_run (executeTrigger ?rule t s) i = Undefined \<and> ss_emitted (executeTrigger ?rule t s) = []) \<or>
      (\<exists>h. last_run (executeTrigger ?rule t s) i = Val (of_nat h) \<and> k dvd h \<and> h < 24 \<and>
         k * length (ss_emitted (executeTrigger ?rule t s)) \<le> h + k)" by simp
  next
    fix h
    assume h: "last_run s i = Val (of_nat h)" "k dvd h" "h < 24" "k * length (ss_emitted s) \<le> h + k"
    note ex = executeTrigger_hours(2)[of k s i h t, OF _ h(1)]
    have "mo_hour t = k + h" if "mo_hour t = (k + h) mod 24"
    proof (cases "k + h < 24")
      case False
      with h(3) assms(2) have "(k + h) mod 24 = k + h - 24" by (simp add: mod_if)
      with that t(1) h(2) False have "k dvd 24" by (metis dvd_add_triv_left_iff dvd_diffD dvd_diffD1 le_add_diff_inverse2 linorder_not_less)
      with assms(3) show ?thesis by simp
    qed (use that in simp)
    with h t ex assms(1)
    show "(last_run (executeTrigger ?rule t s) i = Undefined \<and> ss_emitted (executeTrigger ?rule t s) = []) \<or>
      (\<exists>h. last_run (executeTrigger ?rule t s) i = Val (of_nat h) \<and> k dvd h \<and> h < 24 \<and>
         k * length (ss_emitted (executeTrigger ?rule t s)) \<le> h + k)" by (auto simp: last_run_def)
  qed
  have "Q (run_ticks ?rule ts s)" if "Q s" "\<forall>t \<in> set ts. k dvd mo_hour t \<and> mo_hour t < 24" for s
    using that by (induction ts arbitrary: s) (auto simp: run_ticks_def step)
  from this[OF _ assms(4)] have "Q (run_ticks ?rule ts new_schedule)"
    by (simp add: Q_def last_run_def new_schedule_def arr_get_def)
  then have "k * length (ss_emitted (run_ticks ?rule ts new_schedule)) < 24 + k" unfolding Q_def using assms(1) by fastforce
  also have "24 + k \<le> k * (24 div k + 2)"
  proof -
    have "k * (24 div k) + 24 mod k = 24" by (rule mult_div_mod_eq)
    moreover have "24 mod k < k" using assms(1) by simp
    ultimately show ?thesis unfolding distrib_left by linarith
  qed
  finally have "length (ss_emitted (run_ticks ?rule ts new_schedule)) < 24 div k + 2" by (simp only: mult_less_cancel1)
  then show ?thesis using hours_rule_recurrence[of k m i] assms(1) by simp
qed

theorem uneven_hours_stop_witness:
  "length (ss_emitted (run_ticks (hours_rule 5 None 0)
     (map at_hour [10, 15, 20, 0, 5, 10, 15, 20, 0, 5, 10, 15, 20]) new_schedule)) \<le> 5"
  using uneven_hours_stop[of 5 "map at_hour [10, 15, 20, 0, 5, 10, 15, 20, 0, 5, 10, 15, 20]" None 0] by (simp add: at_hour_def)

text \<open>The node with five ticks a day: after 20 o'clock it never triggers again.\<close>

lemma every_five_hours:
  "map mo_hour (ss_emitted (run_ticks (hours_rule 5 None 0)
     (map at_hour [10, 15, 20, 0, 5, 10, 15, 20, 0, 5, 10, 15, 20]) new_schedule)) = [10, 15, 20]"
  by code_simp

section \<open>Every so many days\<close>













text \<open>A due day without a tick, as when the process is down: nothing until that day of the next year.\<close>

lemma missed_day_waits:
  assumes "0 < k" "last_run s i = Val (of_nat l)" "\<forall>t \<in> set ts. mo_dayOfYear t \<noteq> (k + l) mod 365"
  shows "run_ticks (Recurrence i (of_nat k) RecurDays) ts s = s"
  using assms(3) by (induction ts) (use executeTrigger_days(2)[OF _ assms(2)] assms(1) in \<open>simp_all add: run_ticks_def\<close>)

section \<open>Weeks, restarts and manual executions\<close>

text \<open>
  A schedule of weeks that last triggered \<open>k\<close> weeks before week 52 waits for that week of the next year.
\<close>

lemma weeks_skip_last:
  assumes "1 \<le> mo_week t" "mo_week t \<le> 53" "0 < k" "last_run s i = Val (of_nat l)" "k + l = 52"
  shows "ss_emitted (executeTrigger (Recurrence i (of_nat k) RecurWeeks) t s) \<noteq> ss_emitted s \<longleftrightarrow> mo_week t = l"
proof -
  have "\<not> interval_passed (of_nat k) 52 (mo_week t) (Val (of_nat l))"
    using interval_passed_nat[of 52 k "mo_week t" l] assms(1,5) by simp
  with assms(3,4) show ?thesis by (auto simp: executeTrigger_def recurrenceCheck_def last_run_def Let_def)
qed

text \<open>
  Saved as JSON, a hole of the array becomes null, which is not undefined and counts as zero: a second
  interval of days that triggered makes the first one, which has not, wait for the \<open>k\<close>-th day of a year.
\<close>

definition restored :: "number slot list \<Rightarrow> number slot list" where
  "restored rs = map (\<lambda>r. if r = Undefined then Null else r) rs"

lemma restored_first_interval_waits:
  assumes "0 < k" "k < 365" "mo_dayOfYear t \<noteq> k"
  shows "recurrenceCheck (Recurrence 0 (of_nat k) RecurDays) t (restored (arr_set [] 1 (Val d))) = (False, restored (arr_set [] 1 (Val d)))"
proof -
  have "js_rem (of_nat k) 365 = (of_nat k :: number)" using js_rem_nat[of 365 k] assms(2) by simp
  with assms(1,3) show ?thesis
    by (simp add: recurrenceCheck_def restored_def arr_set_def arr_get_def interval_passed_def slot_number_def Let_def)
qed

text \<open>A manual execution of an active schedule gives no item unless the interval has just passed.\<close>

lemma manual_execution_suppressed:
  assumes "0 < k" "last_run s i = Val (of_nat l)" "mo_dayOfYear t \<noteq> (k + l) mod 365"
  shows "manualTriggerFunction e [(DaysField (of_nat k) m h, c, Recurrence i (of_nat k) RecurDays)] t s = Inr s"
  using executeTrigger_days(2)[OF _ assms(2), of k t] assms(1,3) by (simp add: manualTriggerFunction_def)

text \<open>The random day of a month may be 0, which no month has.\<close>

lemma random_day_zero:
  "interval_cron (\<lambda>i. 0) (MonthsField 2 (Some 0) (Some 0) None) = ''0 0 0 0 */2 *''"
  by code_simp

end
