(* ===== verification/ExecutionRecovery.thy ===== *)
theory ExecutionRecovery
  imports WorkflowTypes JsValues
begin

text \<open>
  What is done for an execution that a crash cut off: its status and the runs of its nodes are made up from the
  log of events (packages/cli/src/executions/execution-recovery.service.ts).  And the metadata that
  the code of a workflow keeps with its execution (packages/core/src/ExecutionMetadata.ts).
\<close>

section \<open>Recovery of an execution\<close>

text \<open>Times are in milliseconds.\<close>

record EventMessage =
  em_eventName :: string
  em_nodeName :: "string option"
  em_ts :: int

record IExecutionResponse =
  ex_status :: ExecutionStatus
  ex_stoppedAt :: "int option"
  ex_resultData :: "ResultData option"
  ex_nodes :: "INode list"

definition toRelevantMessages :: "EventMessage list \<Rightarrow> EventMessage list \<times> EventMessage list" where
  "toRelevantMessages messages =
     fold (\<lambda>cur (nodeMessages, workflowMessages).
         if starts_with (em_eventName cur) ''n8n.node.'' then (nodeMessages @ [cur], workflowMessages)
         else if starts_with (em_eventName cur) ''n8n.workflow.'' then (nodeMessages, workflowMessages @ [cur])
         else (nodeMessages, workflowMessages))
       messages ([], [])"

definition node_message :: "EventMessage list \<Rightarrow> INode \<Rightarrow> string \<Rightarrow> EventMessage option" where
  "node_message nodeMessages node eventName =
     find (\<lambda>m. em_nodeName m = Some (node_name node) \<and> em_eventName m = eventName) nodeMessages"

definition ARTIFICIAL_TASK_DATA :: ITaskDataConnections where
  "ARTIFICIAL_TASK_DATA = [(MainConn, [Val [empty_item\<lparr>json := [(''isArtificialRecoveredEventItem'', JBool True)]\<rparr>]])]"

definition NodeCrashedError :: ExecutionError where
  "NodeCrashedError = \<lparr>err_name = ''NodeCrashedError'', err_message = ''Execution stopped at this node''\<rparr>"

definition WorkflowCrashedError :: ExecutionError where
  "WorkflowCrashedError =
     \<lparr>err_name = ''WorkflowCrashedError'', err_message = ''Workflow did not finish, possible out-of-memory issue''\<rparr>"

text \<open>The run of a node that the log says was started; its start is given in whole seconds.\<close>

definition recovered_task :: "EventMessage \<Rightarrow> EventMessage option \<Rightarrow> ITaskData" where
  "recovered_task started finished =
     \<lparr>startTime = em_ts started div 1000,
      executionTime = (case finished of Some m \<Rightarrow> em_ts m - em_ts started | None \<Rightarrow> 0),
      executionStatus = Some (if finished \<noteq> None then Success else Crashed),
      task_data = (if finished \<noteq> None then Some ARTIFICIAL_TASK_DATA else None),
      task_error = (if finished \<noteq> None then None else Some NodeCrashedError),
      hints = [], task_source = [Null], task_metadata = None\<rparr>"

definition amend_node :: "EventMessage list \<Rightarrow> INode \<Rightarrow> int option \<times> ResultData \<Rightarrow> int option \<times> ResultData" where
  "amend_node nodeMessages node acc =
     (let (lastNodeRunTimestamp, rd) = acc
      in case node_message nodeMessages node ''n8n.node.started'' of
          None \<Rightarrow> acc
        | Some started \<Rightarrow>
            (if obj_has (runData rd) (node_name node) then acc
             else let finished = node_message nodeMessages node ''n8n.node.finished''
                  in (Some (case finished of Some m \<Rightarrow> em_ts m | None \<Rightarrow> em_ts started),
                      rd\<lparr>result_error := (if finished = None then Some WorkflowCrashedError else result_error rd),
                        lastNodeExecuted := Some (node_name node),
                        runData := str_put (node_name node) [recovered_task started finished] (runData rd)\<rparr>)))"

definition WORKFLOW_END_EVENTS :: "string set" where
  "WORKFLOW_END_EVENTS = {''n8n.workflow.success'', ''n8n.workflow.crashed'', ''n8n.workflow.failed''}"

definition toStoppedAt :: "int option \<Rightarrow> EventMessage list \<Rightarrow> int option" where
  "toStoppedAt timestamp messages =
     (case timestamp of
        Some t \<Rightarrow> Some t
      | None \<Rightarrow> map_option em_ts
          (case find (\<lambda>m. em_eventName m \<in> WORKFLOW_END_EVENTS) messages of
             Some m \<Rightarrow> Some m
           | None \<Rightarrow> find (\<lambda>m. em_eventName m = ''n8n.workflow.started'') messages))"

definition no_result :: ResultData where
  "no_result = \<lparr>result_error = None, runData = [], pinData = None, lastNodeExecuted = None\<rparr>"

text \<open>With messages: the amended execution, if the log tells of nodes and the execution did not succeed.\<close>

definition amend_with_logs :: "EventMessage list \<Rightarrow> IExecutionResponse option \<Rightarrow> IExecutionResponse option" where
  "amend_with_logs messages row =
     (case toRelevantMessages messages of
        (nodeMessages, workflowMessages) \<Rightarrow>
          (if nodeMessages = [] then None
           else case row of
               None \<Rightarrow> None
             | Some execution \<Rightarrow>
                 (if ex_status execution = Success then None
                  else let (t, rd) = fold (amend_node nodeMessages) (ex_nodes execution)
                             (None, case ex_resultData execution of None \<Rightarrow> no_result | Some rd \<Rightarrow> rd)
                       in Some (execution\<lparr>ex_status := (if ex_status execution = StatusError then StatusError else Crashed),
                           ex_stoppedAt := toStoppedAt t workflowMessages, ex_resultData := Some rd\<rparr>))))"

definition markAsCrashed :: "int \<Rightarrow> IExecutionResponse \<Rightarrow> IExecutionResponse" where
  "markAsCrashed now execution = execution\<lparr>ex_status := Crashed, ex_stoppedAt := Some now\<rparr>"

text \<open>An update leaves a column whose new value is undefined.\<close>

definition updateExistingExecution :: "IExecutionResponse \<Rightarrow> IExecutionResponse \<Rightarrow> IExecutionResponse" where
  "updateExistingExecution amended row =
     amended\<lparr>ex_stoppedAt := (case ex_stoppedAt amended of None \<Rightarrow> ex_stoppedAt row | Some t \<Rightarrow> Some t)\<rparr>"

text \<open>The row after the recovery and the execution with which the hooks are run, if they are.\<close>

definition recoverFromLogs ::
    "bool \<Rightarrow> int \<Rightarrow> EventMessage list \<Rightarrow> IExecutionResponse option \<Rightarrow> IExecutionResponse option \<times> IExecutionResponse option" where
  "recoverFromLogs isFollower now messages row =
     (if isFollower then (row, None)
      else if messages = [] then
        (let row1 = map_option (markAsCrashed now) row
         in (case row1 of None \<Rightarrow> (None, None) | Some e \<Rightarrow> (Some (updateExistingExecution e e), Some e)))
      else case amend_with_logs messages row of
          None \<Rightarrow> (row, None)
        | Some amended \<Rightarrow> (map_option (updateExistingExecution amended) row, Some amended))"

section \<open>Metadata of an execution\<close>

definition KV_LIMIT :: nat where
  "KV_LIMIT = 10"

datatype metadata_error = InvalidKey jval | InvalidCharacters string | InvalidValue string

definition key_char :: "char \<Rightarrow> bool" where
  "key_char c \<longleftrightarrow> c \<in> set ''ABCDEFGHIJKLMNOPQRSTUVWXYZabcdefghijklmnopqrstuvwxyz0123456789_''"

text \<open>The metadata may be missing; a key that is no text is looked up as text before it is refused.\<close>

definition setWorkflowExecutionMetadata ::
    "jval \<Rightarrow> jval \<Rightarrow> string str_obj option \<Rightarrow> metadata_error option \<times> string str_obj option" where
  "setWorkflowExecutionMetadata key value metadata =
     (let md = (case metadata of None \<Rightarrow> [] | Some m \<Rightarrow> m)
      in if \<not> obj_has md (js_string key) \<and> KV_LIMIT \<le> length (obj_keys md) then (None, Some md)
         else case key of
             JStr k \<Rightarrow>
               (if filter (\<lambda>c. \<not> key_char c) k \<noteq> [] then (Some (InvalidCharacters k), Some md)
                else case value of
                    JStr _ \<Rightarrow> (None, Some (str_put (take 50 k) (take 255 (js_string value)) md))
                  | JNum _ \<Rightarrow> (None, Some (str_put (take 50 k) (take 255 (js_string value)) md))
                  | _ \<Rightarrow> (Some (InvalidValue k), Some md))
           | _ \<Rightarrow> (Some (InvalidKey key), Some md))"

text \<open>All entries are set; the first error is thrown at the end.\<close>

fun set_entries ::
    "(string \<times> jval) list \<Rightarrow> metadata_error list \<times> string str_obj option \<Rightarrow> metadata_error list \<times> string str_obj option" where
  "set_entries [] acc = acc"
| "set_entries ((key, value) # es) (errors, metadata) =
     (case setWorkflowExecutionMetadata (JStr key) value metadata of
        (Some e, md) \<Rightarrow> set_entries es (errors @ [e], md)
      | (None, md) \<Rightarrow> set_entries es (errors, md))"

definition setAllWorkflowExecutionMetadata ::
    "jval str_obj \<Rightarrow> string str_obj option \<Rightarrow> metadata_error option \<times> string str_obj option" where
  "setAllWorkflowExecutionMetadata ob metadata =
     (case set_entries ob ([], metadata) of (errors, md) \<Rightarrow> (case errors of [] \<Rightarrow> None | e # _ \<Rightarrow> Some e, md))"

definition getAllWorkflowExecutionMetadata :: "string str_obj option \<Rightarrow> string str_obj" where
  "getAllWorkflowExecutionMetadata metadata = (case metadata of None \<Rightarrow> [] | Some md \<Rightarrow> md)"

definition getWorkflowExecutionMetadata :: "string str_obj option \<Rightarrow> jval \<Rightarrow> string option" where
  "getWorkflowExecutionMetadata metadata key =
     obj_get (getAllWorkflowExecutionMetadata metadata) (take 50 (js_string key))"

end
