(* ===== verification/RecoveryProperties.thy ===== *)
theory RecoveryProperties
  imports ExecutionRecovery Samples
begin

text \<open>
  What a recovered execution says of its nodes, and the bounds of the metadata of an execution.
\<close>

section \<open>Recovery\<close>

lemma relevant_messages:
  "toRelevantMessages messages =
     (filter (\<lambda>m. starts_with (em_eventName m) ''n8n.node.'') messages,
      filter (\<lambda>m. \<not> starts_with (em_eventName m) ''n8n.node.'' \<and> starts_with (em_eventName m) ''n8n.workflow.'') messages)"
proof -
  have "fold (\<lambda>cur (nodeMessages, workflowMessages).
         if starts_with (em_eventName cur) ''n8n.node.'' then (nodeMessages @ [cur], workflowMessages)
         else if starts_with (em_eventName cur) ''n8n.workflow.'' then (nodeMessages, workflowMessages @ [cur])
         else (nodeMessages, workflowMessages)) messages (xs, ys) =
      (xs @ filter (\<lambda>m. starts_with (em_eventName m) ''n8n.node.'') messages,
       ys @ filter (\<lambda>m. \<not> starts_with (em_eventName m) ''n8n.node.'' \<and> starts_with (em_eventName m) ''n8n.workflow.'') messages)" for xs ys
    by (induction messages arbitrary: xs ys) simp_all
  from this[of "[]" "[]"] show ?thesis by (simp add: toRelevantMessages_def)
qed








text \<open>An execution of two nodes of which the second did not end.\<close>

definition message :: "string \<Rightarrow> string \<Rightarrow> int \<Rightarrow> EventMessage" where
  "message n ev t = \<lparr>em_eventName = ''n8n.node.'' @ ev, em_nodeName = Some n, em_ts = t\<rparr>"

definition cut_off :: IExecutionResponse where
  "cut_off = \<lparr>ex_status = Running, ex_stoppedAt = None, ex_resultData = None, ex_nodes = [mk_node ''T'' ''trigger'', mk_node ''A'' ''set'']\<rparr>"

definition log_of_crash :: "EventMessage list" where
  "log_of_crash = [message ''T'' ''started'' 5000, message ''T'' ''finished'' 5250, message ''A'' ''started'' 6000]"


text \<open>A log without messages of nodes leaves the execution running.\<close>

lemma left_running:
  assumes "messages \<noteq> []" "\<forall>m \<in> set messages. \<not> starts_with (em_eventName m) ''n8n.node.''"
  shows "recoverFromLogs False now messages row = (row, None)"
proof -
  have "filter (\<lambda>m. starts_with (em_eventName m) ''n8n.node.'') messages = []" using assms(2) by (simp add: filter_empty_conv)
  with assms(1) show ?thesis by (simp add: recoverFromLogs_def amend_with_logs_def relevant_messages)
qed

text \<open>
  Only the first messages of a node count: a node in a loop that crashed when it ran again is taken to
  have succeeded, and so is the execution free of an error.
\<close>

lemma crash_in_loop_unseen:
  "map_option (\<lambda>a. map_option result_error (ex_resultData a))
     (fst (recoverFromLogs False 9000 (log_of_crash @ [message ''A'' ''finished'' 6100, message ''A'' ''started'' 6200]) (Some cut_off))) =
   Some (Some None)"
  by code_simp

text \<open>The start of a run that is made up is in seconds, its duration in milliseconds.\<close>

lemma start_in_seconds:
  "startTime (recovered_task (message ''A'' ''started'' 6000) (Some (message ''A'' ''finished'' 6100))) = 6"
  "executionTime (recovered_task (message ''A'' ''started'' 6000) (Some (message ''A'' ''finished'' 6100))) = 100"
  by code_simp+

section \<open>Metadata\<close>

text \<open>At most ten entries, keys of at most 50 letters, digits and underscores, values of at most 255 characters.\<close>

definition metadata_ok :: "string str_obj option \<Rightarrow> bool" where
  "metadata_ok metadata \<longleftrightarrow>
     (let md = getAllWorkflowExecutionMetadata metadata
      in obj_wf str_before md \<and> length (obj_keys md) \<le> KV_LIMIT \<and>
         (\<forall>(k, v) \<in> set md. length k \<le> 50 \<and> list_all key_char k \<and> length v \<le> 255))"

lemma metadata_ok_Some:
  "metadata_ok (Some md) \<longleftrightarrow> obj_wf str_before md \<and> length (obj_keys md) \<le> KV_LIMIT \<and>
     (\<forall>(k, v) \<in> set md. length k \<le> 50 \<and> list_all key_char k \<and> length v \<le> 255)"
  by (simp add: metadata_ok_def getAllWorkflowExecutionMetadata_def)

text \<open>What code can do: set one entry or several.\<close>

inductive metadata_step :: "string str_obj option \<Rightarrow> string str_obj option \<Rightarrow> bool" where
  step_set: "metadata_step md (snd (setWorkflowExecutionMetadata key value md))"
| step_set_all: "metadata_step md (snd (setAllWorkflowExecutionMetadata ob md))"

lemma set_metadata_ok:
  assumes "metadata_ok md"
  shows "metadata_ok (snd (setWorkflowExecutionMetadata key value md))"
proof -
  let ?md = "getAllWorkflowExecutionMetadata md"
  have ok: "obj_wf str_before ?md" "length (obj_keys ?md) \<le> KV_LIMIT"
    "\<And>k v. (k, v) \<in> set ?md \<Longrightarrow> length k \<le> 50 \<and> list_all key_char k \<and> length v \<le> 255"
    using assms by (auto simp: metadata_ok_def Let_def)
  have put: "metadata_ok (Some (str_put (take 50 k) (take 255 v) ?md))"
    if k: "filter (\<lambda>c. \<not> key_char c) k = []" and room: "obj_has ?md k \<or> length (obj_keys ?md) < KV_LIMIT" for k v
  proof -
    let ?new = "str_put (take 50 k) (take 255 v) ?md"
    have wf: "obj_wf str_before ?new" by (rule sobj.wf_put[OF ok(1)])
    have keys: "set (obj_keys ?new) = insert (take 50 k) (set (obj_keys ?md))"
      by (simp add: obj_keys_def set_keys_obj_put)
    have len: "length (obj_keys m) = card (set (obj_keys m))" if "obj_wf str_before m" for m :: "string str_obj"
      using that by (simp add: obj_wf_def distinct_card)
    have "length (obj_keys ?new) \<le> KV_LIMIT"
    proof (cases "obj_has ?md k")
      case True
      then obtain x where "(k, x) \<in> set ?md" by (auto simp: obj_has_def dest: map_of_SomeD)
      with ok(3) True have "take 50 k = k" "k \<in> set (obj_keys ?md)" by (auto simp: obj_has_iff)
      with keys have "set (obj_keys ?new) = set (obj_keys ?md)" by (simp add: insert_absorb)
      with ok(2) show ?thesis by (simp only: len[OF wf] len[OF ok(1)])
    next
      case False
      with room keys show ?thesis by (simp add: len[OF wf] len[OF ok(1)] card_insert_if)
    qed
    moreover have "list_all key_char k" using k by (simp add: filter_empty_conv list_all_iff)
    then have k50: "list_all key_char (take 50 k)" by (auto simp: list_all_iff dest: in_set_takeD)
    have "length x \<le> 50 \<and> list_all key_char x \<and> length y \<le> 255" if "(x, y) \<in> set ?new" for x y
    proof -
      from that have "(x, y) = (take 50 k, take 255 v) \<or> (x, y) \<in> set ?md"
        using set_obj_put[of str_before "take 50 k" "take 255 v" ?md] by blast
      then show ?thesis
      proof
        assume "(x, y) = (take 50 k, take 255 v)"
        with k50 show ?thesis by simp
      qed (rule ok(3))
    qed
    ultimately have "obj_wf str_before ?new \<and> length (obj_keys ?new) \<le> KV_LIMIT \<and>
        (\<forall>(x, y) \<in> set ?new. length x \<le> 50 \<and> list_all key_char x \<and> length y \<le> 255)" using wf by blast
    then show ?thesis unfolding metadata_ok_Some .
  qed
  have same: "metadata_ok (Some ?md)" using assms by (simp add: metadata_ok_def getAllWorkflowExecutionMetadata_def Let_def)
  have md: "(case md of None \<Rightarrow> [] | Some m \<Rightarrow> m) = ?md" by (simp add: getAllWorkflowExecutionMetadata_def)
  show ?thesis
    using same put by (cases "key"; cases "value") (auto simp: setWorkflowExecutionMetadata_def md Let_def)
qed

lemma set_entries_ok: "metadata_ok md \<Longrightarrow> metadata_ok (snd (set_entries es (errs, md)))"
proof (induction es arbitrary: errs md)
  case (Cons e es)
  obtain k v where e: "e = (k, v)" by fastforce
  from set_metadata_ok[OF Cons.prems, of "JStr k" v] show ?case
    by (auto simp: e split: prod.splits option.splits intro: Cons.IH)
qed simp

interpretation metadata: step_invariant metadata_step metadata_ok
proof
  fix md md'
  assume ok: "metadata_ok md"
  assume "metadata_step md md'"
  then show "metadata_ok md'"
  proof cases
    case (step_set_all ob)
    with set_entries_ok[OF ok, of ob "[]"] show ?thesis by (simp add: setAllWorkflowExecutionMetadata_def split: prod.splits)
  qed (use set_metadata_ok[OF ok] in auto)
qed

text \<open>
  C39: Whatever entries code sets, the metadata have at most ten of them, with keys of at most 50 letters, digits and
  underscores and values of at most 255 characters; and a text set under such a key is read again,
  cut to 255 characters, unless there is no room for a new key, which then stays missing.
\<close>

theorem metadata_bounded:
  assumes "metadata_step\<^sup>*\<^sup>* None md"
  shows "length (obj_keys (getAllWorkflowExecutionMetadata md)) \<le> 10 \<and>
    (\<forall>(k, v) \<in> set (getAllWorkflowExecutionMetadata md). length k \<le> 50 \<and> list_all key_char k \<and> length v \<le> 255) \<and>
    (\<forall>k v. list_all key_char k \<and> length k \<le> 50 \<longrightarrow>
       getWorkflowExecutionMetadata (snd (setWorkflowExecutionMetadata (JStr k) (JStr v) md)) (JStr k) =
         (if obj_has (getAllWorkflowExecutionMetadata md) k \<or> length (obj_keys (getAllWorkflowExecutionMetadata md)) < 10
          then Some (take 255 v) else None))"
proof -
  have "metadata_ok md"
    using metadata.inv_steps[OF assms] by (simp add: metadata_ok_def getAllWorkflowExecutionMetadata_def KV_LIMIT_def obj_keys_def)
  then have b: "length (obj_keys (getAllWorkflowExecutionMetadata md)) \<le> 10 \<and>
    (\<forall>(k, v) \<in> set (getAllWorkflowExecutionMetadata md). length k \<le> 50 \<and> list_all key_char k \<and> length v \<le> 255)"
    by (simp add: metadata_ok_def Let_def KV_LIMIT_def)
  have "getWorkflowExecutionMetadata (snd (setWorkflowExecutionMetadata (JStr k) (JStr v) md)) (JStr k) =
      (if obj_has (getAllWorkflowExecutionMetadata md) k \<or> length (obj_keys (getAllWorkflowExecutionMetadata md)) < 10
       then Some (take 255 v) else None)" if "list_all key_char k" "length k \<le> 50" for k v
  proof -
    have "filter (\<lambda>c. \<not> key_char c) k = []" using that(1) by (simp add: filter_empty_conv list_all_iff)
    with that(2) show ?thesis
      by (auto simp: setWorkflowExecutionMetadata_def getWorkflowExecutionMetadata_def getAllWorkflowExecutionMetadata_def
          KV_LIMIT_def Let_def obj_has_get split: option.splits)
  qed
  with b show ?thesis by blast
qed

theorem metadata_bounded_witness:
  "getWorkflowExecutionMetadata (snd (setWorkflowExecutionMetadata (JStr ''run'') (JStr ''x'')
     (snd (setWorkflowExecutionMetadata (JStr ''run'') (JStr ''y'') None)))) (JStr ''run'') = Some ''x''"
proof -
  let ?md = "snd (setWorkflowExecutionMetadata (JStr ''run'') (JStr ''y'') None)"
  have "metadata_step\<^sup>*\<^sup>* None ?md" by (intro r_into_rtranclp step_set)
  from metadata_bounded[OF this] have "\<forall>k v. list_all key_char k \<and> length k \<le> 50 \<longrightarrow>
       getWorkflowExecutionMetadata (snd (setWorkflowExecutionMetadata (JStr k) (JStr v) ?md)) (JStr k) =
         (if obj_has (getAllWorkflowExecutionMetadata ?md) k \<or> length (obj_keys (getAllWorkflowExecutionMetadata ?md)) < 10
          then Some (take 255 v) else None)" by blast
  moreover have "list_all key_char ''run''" "obj_has (getAllWorkflowExecutionMetadata ?md) ''run''" by code_simp+
  ultimately show ?thesis by simp
qed

text \<open>Once there is no room a long key is not set again: the whole of it is looked up, but only its start is kept.\<close>

lemma long_key_not_updated:
  assumes "length (obj_keys md) = 10" "50 < length k" "metadata_ok (Some md)"
  shows "setWorkflowExecutionMetadata (JStr k) v (Some md) = (None, Some md)"
proof -
  have "length x \<le> 50" if "x \<in> set (obj_keys md)" for x
    using assms(3) that by (auto simp: metadata_ok_def getAllWorkflowExecutionMetadata_def Let_def obj_keys_def)
  with assms(2) have "\<not> obj_has md k" by (fastforce simp: obj_has_iff)
  with assms(1) show ?thesis by (simp add: setWorkflowExecutionMetadata_def KV_LIMIT_def)
qed

end
