(* ===== verification/SortNodes.thy ===== *)
theory SortNodes
  imports MergeNode ScheduleTrigger
begin

text \<open>
  The nodes that order items (packages/nodes-base/nodes/Transform): Remove Duplicates and Sort.  The
  parameters of a node are arguments; of the functions of lodash \<open>lt\<close> and \<open>pick\<close> come to those of the
  Merge node.
\<close>

record sort_lodash =
  sl_lodash :: lodash
  sl_lt :: "jval \<Rightarrow> jval \<Rightarrow> bool"
  sl_pick :: "IDataObject \<Rightarrow> string list \<Rightarrow> IDataObject"

section \<open>Helpers\<close>

text \<open>
  \<open>Array.prototype.sort\<close>: what the standard says for a comparison that is consistent, a stable sort.  What
  it gives for any other is left to the implementation, and nothing is proved of it.
\<close>

fun js_insert :: "('a \<Rightarrow> 'a \<Rightarrow> int) \<Rightarrow> 'a \<Rightarrow> 'a list \<Rightarrow> 'a list" where
  "js_insert cmp x [] = [x]"
| "js_insert cmp x (y # ys) = (if cmp x y \<le> 0 then x # y # ys else y # js_insert cmp x ys)"

definition js_sort :: "('a \<Rightarrow> 'a \<Rightarrow> int) \<Rightarrow> 'a list \<Rightarrow> 'a list" where
  "js_sort cmp xs = foldr (js_insert cmp) xs []"

text \<open>The paths to the values of an object, with the values; arrays count as objects.\<close>

lemma zip_size [termination_simp]: "(i, v) \<in> set (zip is vs) \<Longrightarrow> size v < Suc (size_list size vs)"
  by (auto dest!: set_zip_rightD simp: less_Suc_eq_le intro: size_list_estimation'[OF _ order_refl])

fun flattenKeys :: "lodash \<Rightarrow> string list \<Rightarrow> jval \<Rightarrow> IDataObject" where
  "flattenKeys ld path (JObj ob) =
     fold (\<lambda>e cum. ld_merge ld cum [JObj e]) (map (\<lambda>e. flattenKeys ld (path @ [fst e]) (snd e)) ob) []"
| "flattenKeys ld path (JArr vs) =
     fold (\<lambda>e cum. ld_merge ld cum [JObj e])
       (map2 (\<lambda>i v. flattenKeys ld (path @ [nat_string i]) v) [0..<length vs] vs) []"
| "flattenKeys ld path v = [(join_with ''.'' path, v)]"

definition compareItems :: "lodash \<Rightarrow> INodeExecutionData \<Rightarrow> INodeExecutionData \<Rightarrow> string list \<Rightarrow> bool \<Rightarrow> bool" where
  "compareItems ld obj1 obj2 ks noDots =
     list_all (\<lambda>k. ld_isEqual ld (field_value ld noDots obj1 k) (field_value ld noDots obj2 k)) ks"

text \<open>A parameter that lists fields.\<close>

datatype fields_parameter = FieldsText string | FieldsList "string list" | FieldsOther

definition prepareFieldsArray :: "fields_parameter \<Rightarrow> string \<Rightarrow> node_failure + string list" where
  "prepareFieldsArray fs fieldName =
     (case fs of
        FieldsText s \<Rightarrow> Inr (filter (\<lambda>e. e \<noteq> []) (map str_trim (split_at_char (CHR '','') s)))
      | FieldsList ks \<Rightarrow> Inr ks
      | FieldsOther \<Rightarrow> Inl (AppFailure (''The '' @ [CHR 0x27] @ fieldName @ [CHR 0x27] @
          '' parameter must be a string of fields separated by commas or an array of strings.'') None))"

section \<open>Remove Duplicates\<close>

record RemoveDuplicatesNode =
  rd_lodash :: sort_lodash
  rd_version :: number
  rd_compare :: string
  rd_disableDotNotation :: bool
  rd_removeOtherFields :: bool
  rd_fieldsToExclude :: fields_parameter
  rd_fieldsToCompare :: fields_parameter

text \<open>The check of one key over the items; the type of the values so far is that of the last one.\<close>

fun validate_key ::
    "RemoveDuplicatesNode \<Rightarrow> string \<Rightarrow> string option \<Rightarrow> items \<Rightarrow> node_failure option" where
  "validate_key rd k type [] = None"
| "validate_key rd k type (item # rest) =
     (let v = field_value (sl_lodash (rd_lodash rd)) (rd_disableDotNotation rd) item k
      in if k = [] then Some (OperationFailure ''Name of field to compare is blank'' None)
         else if v = JNull \<and> 1 < rd_version rd then validate_key rd k type rest
         else if v = JUndef then Some (OperationFailure ([CHR 0x27] @ k @ [CHR 0x27] @ '' field is missing from some input items'') None)
         else if type \<noteq> None \<and> type \<noteq> Some (js_typeof v)
           then Some (OperationFailure ([CHR 0x27] @ k @ [CHR 0x27] @ '' isn'' @ [CHR 0x27] @ ''t always the same type'') None)
         else validate_key rd k (Some (js_typeof v)) rest)"

fun validateInputData :: "RemoveDuplicatesNode \<Rightarrow> items \<Rightarrow> string list \<Rightarrow> node_failure option" where
  "validateInputData rd inputs [] = None"
| "validateInputData rd inputs (k # ks) =
     (case validate_key rd k None inputs of Some e \<Rightarrow> Some e | None \<Rightarrow> validateInputData rd inputs ks)"

definition item_keys :: "RemoveDuplicatesNode \<Rightarrow> INodeExecutionData \<Rightarrow> string list" where
  "item_keys rd item =
     (if rd_disableDotNotation rd then obj_keys (json item)
      else obj_keys (flattenKeys (sl_lodash (rd_lodash rd)) [] (JObj (json item))))"

definition all_keys :: "RemoveDuplicatesNode \<Rightarrow> items \<Rightarrow> string list" where
  "all_keys rd inputs =
     fold (\<lambda>item ks. fold (\<lambda>k ks. if k \<in> set ks then ks else ks @ [k]) (item_keys rd item) ks) inputs (item_keys rd (hd inputs))"

text \<open>The keys to compare.  When fields are excluded, or selected, from paths the keys of the first item are taken anew.\<close>

definition compared_keys :: "RemoveDuplicatesNode \<Rightarrow> items \<Rightarrow> node_failure + string list" where
  "compared_keys rd inputs =
     (let ks = all_keys rd inputs
      in if rd_compare rd = ''allFieldsExcept'' then
           res_bind (prepareFieldsArray (rd_fieldsToExclude rd) ''Fields To Exclude'') (\<lambda>fs.
             if fs = [] then Inl (OperationFailure ''No fields specified. Please add a field to exclude from comparison'' None)
             else Inr (filter (\<lambda>k. k \<notin> set fs) (if rd_disableDotNotation rd then ks else item_keys rd (hd inputs))))
         else if rd_compare rd = ''selectedFields'' then
           res_bind (prepareFieldsArray (rd_fieldsToCompare rd) ''Fields To Compare'') (\<lambda>fs.
             if fs = [] then Inl (OperationFailure ''No fields specified. Please add a field to compare on'' None)
             else Inr (map str_trim fs))
         else Inr ks)"

definition compare_by_keys :: "sort_lodash \<Rightarrow> bool \<Rightarrow> string list \<Rightarrow> INodeExecutionData \<Rightarrow> INodeExecutionData \<Rightarrow> int" where
  "compare_by_keys sl noDots ks a b =
     (case find (\<lambda>k. \<not> ld_isEqual (sl_lodash sl) (field_value (sl_lodash sl) noDots a k) (field_value (sl_lodash sl) noDots b k)) ks of
        None \<Rightarrow> 0
      | Some k \<Rightarrow> (if sl_lt sl (field_value (sl_lodash sl) noDots a k) (field_value (sl_lodash sl) noDots b k) then -1 else 1))"

definition numbered :: "items \<Rightarrow> items" where
  "numbered inputs =
     map (\<lambda>(i, item). empty_item\<lparr>json := str_put ''__INDEX'' (JNum (of_nat i)) (json item), pairedItem := Some (paired_to i)\<rparr>)
       (enumerate 0 inputs)"

fun removed_indexes :: "(INodeExecutionData \<Rightarrow> INodeExecutionData \<Rightarrow> bool) \<Rightarrow> INodeExecutionData \<Rightarrow> items \<Rightarrow> jval list" where
  "removed_indexes same temp [] = []"
| "removed_indexes same temp (item # rest) =
     (if same item temp then get_prop (json item) ''__INDEX'' # removed_indexes same temp rest
      else removed_indexes same item rest)"

definition kept_items :: "items \<Rightarrow> jval list \<Rightarrow> items" where
  "kept_items inputs removed =
     map snd (filter (\<lambda>e. \<not> js_includes removed (JNum (of_nat (fst e)))) (enumerate 0 inputs))"

definition removeDuplicates_execute :: "RemoveDuplicatesNode \<Rightarrow> items \<Rightarrow> node_failure + items" where
  "removeDuplicates_execute rd inputs =
     (if inputs = [] then Inl not_iterable
      else res_bind (compared_keys rd inputs) (\<lambda>ks.
        let newItems = js_sort (compare_by_keys (rd_lodash rd) (rd_disableDotNotation rd) ks) (numbered inputs)
        in case validateInputData rd newItems ks of
            Some e \<Rightarrow> Inl e
          | None \<Rightarrow>
              let removed = removed_indexes (\<lambda>a b. compareItems (sl_lodash (rd_lodash rd)) a b ks (rd_disableDotNotation rd)) (hd newItems) (tl newItems);
                  returnData = kept_items inputs removed
              in Inr (if rd_removeOtherFields rd
                  then map (\<lambda>(i, item). empty_item\<lparr>json := sl_pick (rd_lodash rd) (json item) ks, pairedItem := Some (paired_to i)\<rparr>)
                         (enumerate 0 returnData)
                  else returnData)))"

section \<open>Sort\<close>

record SortField =
  sf_fieldName :: string
  sf_ascending :: bool

datatype SortType = SortRandom "nat \<Rightarrow> nat" | SortSimple "SortField list" | SortCode "items \<Rightarrow> node_failure + items"

text \<open>The exchange of two places, from the last to the second, with the numbers that are drawn.\<close>

fun shuffle_from :: "(nat \<Rightarrow> nat) \<Rightarrow> nat \<Rightarrow> 'a list \<Rightarrow> 'a list" where
  "shuffle_from draw 0 xs = xs"
| "shuffle_from draw (Suc n) xs =
     (let j = randomInt (draw (Suc n)) 0 (Suc n + 1)
      in shuffle_from draw n (xs[Suc n := xs ! j, j := xs ! Suc n]))"

definition shuffleArray :: "(nat \<Rightarrow> nat) \<Rightarrow> 'a list \<Rightarrow> 'a list" where
  "shuffleArray draw xs = shuffle_from draw (length xs - 1) xs"

definition lowered :: "jval \<Rightarrow> jval" where
  "lowered v = (case v of JStr s \<Rightarrow> JStr (lower s) | _ \<Rightarrow> v)"

definition sort_value :: "sort_lodash \<Rightarrow> bool \<Rightarrow> INodeExecutionData \<Rightarrow> string \<Rightarrow> jval" where
  "sort_value sl noDots item k = lowered (field_value (sl_lodash sl) noDots item k)"

definition compare_by_fields :: "sort_lodash \<Rightarrow> bool \<Rightarrow> SortField list \<Rightarrow> INodeExecutionData \<Rightarrow> INodeExecutionData \<Rightarrow> int" where
  "compare_by_fields sl noDots fs a b =
     (case find (\<lambda>f. \<not> ld_isEqual (sl_lodash sl) (sort_value sl noDots a (sf_fieldName f)) (sort_value sl noDots b (sf_fieldName f))) fs of
        None \<Rightarrow> 0
      | Some f \<Rightarrow> (if sl_lt sl (sort_value sl noDots a (sf_fieldName f)) (sort_value sl noDots b (sf_fieldName f)) then -1 else 1) *
          (if sf_ascending f then 1 else -1))"

definition field_found :: "sort_lodash \<Rightarrow> bool \<Rightarrow> items \<Rightarrow> SortField \<Rightarrow> bool" where
  "field_found sl noDots inputs f = is_present (sl_lodash sl) noDots inputs (sf_fieldName f)"

definition sort_execute :: "sort_lodash \<Rightarrow> bool \<Rightarrow> SortType \<Rightarrow> items \<Rightarrow> node_failure + items" where
  "sort_execute sl noDots type inputs =
     (case type of
        SortRandom draw \<Rightarrow> Inr (shuffleArray draw inputs)
      | SortSimple fs \<Rightarrow>
          (if fs = [] then Inl (OperationFailure ''No sorting specified. Please add a field to sort by'' None)
           else case find (\<lambda>f. \<not> field_found sl noDots inputs f) fs of
               Some f \<Rightarrow> Inl (OperationFailure (''Couldn'' @ [CHR 0x27] @ ''t find the field '' @ [CHR 0x27] @ sf_fieldName f @
                   [CHR 0x27] @ '' in the input data'') None)
             | None \<Rightarrow> Inr (js_sort (compare_by_fields sl noDots fs) inputs))
      | SortCode run \<Rightarrow> run inputs)"

end
