(* ===== verification/SplitOutNodes.thy ===== *)
theory SplitOutNodes
  imports SortNodes
begin

text \<open>
  The nodes that gather items and take them apart (packages/nodes-base/nodes/Transform): Aggregate, without binary data,
  and Split Out.  What a node reads with \<open>getNodeParameter\<close> is an argument, of lodash the functions \<open>set\<close>
  and \<open>unset\<close> come to those of the other nodes.
\<close>

record path_lodash =
  pl_lodash :: lodash
  pl_set :: "IDataObject \<Rightarrow> string \<Rightarrow> jval \<Rightarrow> IDataObject"
  pl_unset :: "IDataObject \<Rightarrow> string \<Rightarrow> IDataObject"

text \<open>The fields that no item had, from what was noted of each of them.\<close>

type_synonym noted_fields = "bool list str_obj"

definition note_field :: "string \<Rightarrow> bool \<Rightarrow> noted_fields \<Rightarrow> noted_fields" where
  "note_field k found noted = str_put k ((case obj_get noted k of None \<Rightarrow> [] | Some bs \<Rightarrow> bs) @ [found]) noted"

definition missing_hints :: "noted_fields \<Rightarrow> string list" where
  "missing_hints noted =
     map (\<lambda>e. ''The field '' @ [CHR 0x27] @ fst e @ [CHR 0x27] @ '' wasn'' @ [CHR 0x27] @ ''t found in any input item'')
       (filter (\<lambda>e. list_all Not (snd e)) noted)"

section \<open>Split Out\<close>

record SplitOutParameters =
  so_fieldToSplitOut :: string
  so_disableDotNotation :: bool
  so_destinationFieldName :: string
  so_include :: string
  so_fieldsToInclude :: fields_parameter
  so_includeBinary :: bool

definition without_json_prefix :: "string \<Rightarrow> string" where
  "without_json_prefix s = (if starts_with s ''$json.'' then drop 6 s else s)"

definition fieldsToSplitOut :: "SplitOutParameters \<Rightarrow> string list" where
  "fieldsToSplitOut p = map (\<lambda>f. without_json_prefix (str_trim f)) (split_at_char (CHR '','') (so_fieldToSplitOut p))"

definition destinationFields :: "SplitOutParameters \<Rightarrow> string list" where
  "destinationFields p =
     map str_trim (filter (\<lambda>f. str_trim f \<noteq> []) (split_at_char (CHR '','') (so_destinationFieldName p)))"

definition object_entries :: "jval \<Rightarrow> (string \<times> jval) list" where
  "object_entries v =
     (case v of JObj ob \<Rightarrow> ob | JArr vs \<Rightarrow> map (\<lambda>(i, x). (nat_string i, x)) (enumerate 0 vs) | _ \<Rightarrow> [])"

text \<open>The elements of the value of a field: a value that is no object is one, an object gives its values.\<close>

definition elements_of :: "jval \<Rightarrow> jval list" where
  "elements_of v =
     (case v of JUndef \<Rightarrow> [] | JArr vs \<Rightarrow> vs | JObj ob \<Rightarrow> map snd ob | _ \<Rightarrow> [v])"

definition entityToSplit ::
    "lodash \<Rightarrow> SplitOutParameters \<Rightarrow> INodeExecutionData \<Rightarrow> string \<Rightarrow> noted_fields \<Rightarrow> jval list \<times> noted_fields" where
  "entityToSplit ld p item f noted =
     (if f = ''$binary'' then (map (\<lambda>e. JObj [e]) (spread_value (binary item)), noted)
      else let v = field_value ld (so_disableDotNotation p) item f
           in (elements_of v,
               if v = JUndef then note_field f False noted
               else if obj_has noted f then note_field f True noted else noted))"

definition split_entry :: "nat \<Rightarrow> INodeExecutionData" where
  "split_entry i = empty_item\<lparr>pairedItem := Some (paired_to i)\<rparr>"

definition put_element ::
    "SplitOutParameters \<Rightarrow> nat \<Rightarrow> bool \<Rightarrow> string \<Rightarrow> string \<Rightarrow> jval \<Rightarrow> INodeExecutionData \<Rightarrow> INodeExecutionData" where
  "put_element p i multiSplit fieldToSplitOut destinationFieldName element cell =
     (let fieldName = (if destinationFieldName \<noteq> [] then destinationFieldName else fieldToSplitOut)
      in if fieldToSplitOut = ''$binary'' then
           (case element of
              JObj (e # _) \<Rightarrow> cell\<lparr>binary := JObj (str_put (fst e) (snd e) (spread_value (binary cell)))\<rparr>
            | _ \<Rightarrow> cell)
         else if js_typeof element = ''object'' \<and> element \<noteq> JNull \<and> so_include p = ''noOtherFields'' \<and>
                 destinationFieldName = [] \<and> \<not> multiSplit
         then empty_item\<lparr>json := fold (\<lambda>e. str_put (fst e) (snd e)) (object_entries element) (json cell),
                pairedItem := Some (paired_to i)\<rparr>
         else cell\<lparr>json := str_put fieldName element (json cell)\<rparr>)"

fun put_elements ::
    "SplitOutParameters \<Rightarrow> nat \<Rightarrow> bool \<Rightarrow> string \<Rightarrow> string \<Rightarrow> nat \<Rightarrow> jval list \<Rightarrow> items \<Rightarrow> items" where
  "put_elements p i multiSplit f dest n [] splited = splited"
| "put_elements p i multiSplit f dest n (element # es) splited =
     (let entries = (if n < length splited then splited else splited @ [split_entry i])
      in put_elements p i multiSplit f dest (Suc n) es (entries[n := put_element p i multiSplit f dest element (entries ! n)]))"

fun split_fields ::
    "lodash \<Rightarrow> SplitOutParameters \<Rightarrow> nat \<Rightarrow> INodeExecutionData \<Rightarrow> bool \<Rightarrow> nat \<Rightarrow> string list \<Rightarrow> items \<times> noted_fields \<Rightarrow>
     items \<times> noted_fields" where
  "split_fields ld p i item multiSplit n [] acc = acc"
| "split_fields ld p i item multiSplit n (f # fs) (splited, noted) =
     (let dest = (if n < length (destinationFields p) then destinationFields p ! n else []);
          (es, noted1) = entityToSplit ld p item f noted
      in split_fields ld p i item multiSplit (Suc n) fs (put_elements p i multiSplit f dest 0 es splited, noted1))"

text \<open>The other fields that are taken over, and the binary data.\<close>

definition include_fields ::
    "path_lodash \<Rightarrow> SplitOutParameters \<Rightarrow> INodeExecutionData \<Rightarrow> INodeExecutionData \<Rightarrow> node_failure + INodeExecutionData" where
  "include_fields pl p item cell =
     (if so_include p = ''allOtherFields'' then
        (let rest = fold (\<lambda>f ob. if so_disableDotNotation p then obj_del f ob else pl_unset pl ob f) (fieldsToSplitOut p) (json item)
         in Inr (cell\<lparr>json := fold (\<lambda>e. str_put (fst e) (snd e)) (json cell) rest\<rparr>))
      else if so_include p = ''selectedOtherFields'' then
        res_bind (prepareFieldsArray (so_fieldsToInclude p) ''Fields To Include'') (\<lambda>fs.
          if fs = [] then Inl (OperationFailure ''No fields specified'' None)
          else Inr (cell\<lparr>json := fold (\<lambda>f. str_put f (field_value (pl_lodash pl) (so_disableDotNotation p) item f)) fs (json cell)\<rparr>))
      else Inr cell)"

definition include_binary :: "SplitOutParameters \<Rightarrow> INodeExecutionData \<Rightarrow> INodeExecutionData \<Rightarrow> INodeExecutionData" where
  "include_binary p item cell =
     (if so_includeBinary p \<and> truthy (binary item) \<and> \<not> truthy (binary cell) then cell\<lparr>binary := binary item\<rparr> else cell)"

definition split_item ::
    "path_lodash \<Rightarrow> SplitOutParameters \<Rightarrow> nat \<Rightarrow> INodeExecutionData \<Rightarrow> noted_fields \<Rightarrow> node_failure + items \<times> noted_fields" where
  "split_item pl p i item noted =
     (if destinationFields p \<noteq> [] \<and> length (destinationFields p) \<noteq> length (fieldsToSplitOut p)
      then Inl (OperationFailure ''If multiple fields to split out are given, the same number of destination fields must be given'' None)
      else let (splited, noted1) = split_fields (pl_lodash pl) p i item (1 < length (fieldsToSplitOut p)) 0 (fieldsToSplitOut p) ([], noted)
           in res_bind (res_fold (\<lambda>cell out. res_bind (include_fields pl p item cell) (\<lambda>e. Inr (out @ [include_binary p item e]))) splited [])
                (\<lambda>out. Inr (out, noted1)))"

fun split_items_out ::
    "path_lodash \<Rightarrow> (nat \<Rightarrow> node_failure + SplitOutParameters) \<Rightarrow> nat \<Rightarrow> items \<Rightarrow> items \<times> noted_fields \<Rightarrow>
     node_failure + items \<times> noted_fields" where
  "split_items_out pl parameter i [] acc = Inr acc"
| "split_items_out pl parameter i (item # rest) (returnData, noted) =
     res_bind (parameter i) (\<lambda>p. res_bind (split_item pl p i item noted) (\<lambda>(out, noted1).
       split_items_out pl parameter (Suc i) rest (returnData @ out, noted1)))"

text \<open>The items and the hints.\<close>

definition splitOut_execute ::
    "path_lodash \<Rightarrow> (nat \<Rightarrow> node_failure + SplitOutParameters) \<Rightarrow> items \<Rightarrow> node_failure + items \<times> string list" where
  "splitOut_execute pl parameter inputs =
     res_bind (split_items_out pl parameter 0 inputs ([], [])) (\<lambda>(returnData, noted). Inr (returnData, missing_hints noted))"

section \<open>Aggregate\<close>

record FieldToAggregate =
  fa_fieldToAggregate :: string
  fa_renameField :: bool
  fa_outputFieldName :: string

record AggregateNode =
  ag_lodash :: path_lodash
  ag_individual :: bool
  ag_disableDotNotation :: bool
  ag_mergeLists :: bool
  ag_keepMissing :: bool
  ag_fields :: "FieldToAggregate list"
  ag_destinationFieldName :: string
  ag_fieldsToExclude :: fields_parameter
  ag_fieldsToInclude :: fields_parameter

definition all_paired :: "nat \<Rightarrow> PairedItem" where
  "all_paired n = PairedMany (map (\<lambda>i. \<lparr>pi_item = i, pi_input = None, pi_sourceOverwrite = None\<rparr>) [0..<n])"

text \<open>The values that one value adds to the list of a field.\<close>

definition aggregated_values :: "AggregateNode \<Rightarrow> jval \<Rightarrow> jval list" where
  "aggregated_values ag v =
     (let kept = (if ag_keepMissing ag then Some v
                  else case v of JArr vs \<Rightarrow> Some (JArr (filter (\<lambda>x. x \<noteq> JNull) vs)) | JNull \<Rightarrow> None | JUndef \<Rightarrow> None | _ \<Rightarrow> Some v)
      in case kept of
          None \<Rightarrow> []
        | Some (JArr vs) \<Rightarrow> (if ag_mergeLists ag then vs else [JArr vs])
        | Some x \<Rightarrow> [x])"

definition aggregated_name :: "AggregateNode \<Rightarrow> FieldToAggregate \<Rightarrow> string" where
  "aggregated_name ag f =
     (if fa_outputFieldName f \<noteq> [] then fa_outputFieldName f
      else if \<not> ag_disableDotNotation ag \<and> CHR ''.'' \<in> set (fa_fieldToAggregate f) then last (split_at_char (CHR ''.'') (fa_fieldToAggregate f))
      else fa_fieldToAggregate f)"

definition aggregated_field :: "AggregateNode \<Rightarrow> items \<Rightarrow> string \<Rightarrow> jval list" where
  "aggregated_field ag inputs k =
     concat (map (\<lambda>item. aggregated_values ag (field_value (pl_lodash (ag_lodash ag)) (ag_disableDotNotation ag) item k)) inputs)"

definition noted_of :: "AggregateNode \<Rightarrow> items \<Rightarrow> string \<Rightarrow> noted_fields \<Rightarrow> noted_fields" where
  "noted_of ag inputs k =
     fold (\<lambda>item. note_field k (field_value (pl_lodash (ag_lodash ag)) (ag_disableDotNotation ag) item k \<noteq> JUndef)) inputs"

fun aggregate_fields ::
    "AggregateNode \<Rightarrow> items \<Rightarrow> FieldToAggregate list \<Rightarrow> string list \<Rightarrow> jval list str_obj \<times> noted_fields \<Rightarrow>
     node_failure + jval list str_obj \<times> noted_fields" where
  "aggregate_fields ag inputs [] outputFields acc = Inr acc"
| "aggregate_fields ag inputs (f # fs) outputFields (vs, noted) =
     (let field = (if fa_renameField f then fa_outputFieldName f else fa_fieldToAggregate f)
      in if field \<in> set outputFields
         then Inl (OperationFailure (''The '' @ [CHR 0x27] @ field @ [CHR 0x27] @ '' output field is used more than once'') None)
         else aggregate_fields ag inputs fs (outputFields @ [field])
           (if fa_fieldToAggregate f = [] then (vs, noted)
            else (str_put (aggregated_name ag f) (aggregated_field ag inputs (fa_fieldToAggregate f)) vs,
                  noted_of ag inputs (fa_fieldToAggregate f) noted)))"

definition aggregate_individual :: "AggregateNode \<Rightarrow> items \<Rightarrow> node_failure + INodeExecutionData \<times> noted_fields" where
  "aggregate_individual ag inputs =
     (if ag_fields ag = [] then Inl (OperationFailure ''No fields specified'' None)
      else res_bind (aggregate_fields ag inputs (ag_fields ag) [] ([], [])) (\<lambda>(vs, noted).
        Inr (empty_item\<lparr>json := fold (\<lambda>(k, xs) ob. if ag_disableDotNotation ag then str_put k (JArr xs) ob else pl_set (ag_lodash ag) ob k (JArr xs)) vs [],
               pairedItem := Some (all_paired (length inputs))\<rparr>, noted)))"

definition chosen_fields :: "string list \<Rightarrow> string list \<Rightarrow> IDataObject \<Rightarrow> IDataObject" where
  "chosen_fields excluded included ob =
     filter (\<lambda>e. (excluded = [] \<or> fst e \<notin> set excluded) \<and> (included = [] \<or> fst e \<in> set included)) ob"

definition aggregate_all :: "AggregateNode \<Rightarrow> items \<Rightarrow> node_failure + INodeExecutionData" where
  "aggregate_all ag inputs =
     res_bind (prepareFieldsArray (ag_fieldsToExclude ag) ''Fields To Exclude'') (\<lambda>excluded.
     res_bind (prepareFieldsArray (ag_fieldsToInclude ag) ''Fields To Include'') (\<lambda>included.
       let chosen = (if excluded = [] \<and> included = [] then enumerate 0 (map json inputs)
             else filter (\<lambda>e. snd e \<noteq> []) (enumerate 0 (map (\<lambda>item. chosen_fields excluded included (json item)) inputs)))
       in Inr (empty_item\<lparr>json := [(ag_destinationFieldName ag, JArr (map (\<lambda>e. JObj (snd e)) chosen))],
            pairedItem := Some (PairedMany (map (\<lambda>e. \<lparr>pi_item = fst e, pi_input = None, pi_sourceOverwrite = None\<rparr>) chosen))\<rparr>)))"

definition aggregate_execute :: "AggregateNode \<Rightarrow> items \<Rightarrow> node_failure + INodeExecutionData \<times> string list" where
  "aggregate_execute ag inputs =
     (if ag_individual ag then res_bind (aggregate_individual ag inputs) (\<lambda>(item, noted). Inr (item, missing_hints noted))
      else res_bind (aggregate_all ag inputs) (\<lambda>item. Inr (item, [])))"

end
