(* ===== verification/SortProperties.thy ===== *)
theory SortProperties
  imports SortNodes MergeProperties "HOL-Library.Multiset"
begin

text \<open>
  Sorting with a consistent comparison, as the locale \<open>consistent_order\<close>, which the comparisons of the two nodes
  interpret on items whose values can be ordered; which items Remove Duplicates keeps, and
  what Sort gives.
\<close>

section \<open>Sorting\<close>

locale consistent_order =
  fixes cmp :: "'a \<Rightarrow> 'a \<Rightarrow> int"
    and S :: "'a set"
  assumes cmp_refl: "x \<in> S \<Longrightarrow> cmp x x = 0"
    and cmp_flip: "x \<in> S \<Longrightarrow> y \<in> S \<Longrightarrow> cmp x y < 0 \<longleftrightarrow> 0 < cmp y x"
    and cmp_trans: "x \<in> S \<Longrightarrow> y \<in> S \<Longrightarrow> z \<in> S \<Longrightarrow> cmp x y \<le> 0 \<Longrightarrow> cmp y z \<le> 0 \<Longrightarrow> cmp x z \<le> 0"
begin

lemma cmp_zero: "x \<in> S \<Longrightarrow> y \<in> S \<Longrightarrow> cmp x y = 0 \<longleftrightarrow> cmp y x = 0"
  using cmp_flip[of x y] cmp_flip[of y x] by linarith

lemma cmp_strict: "x \<in> S \<Longrightarrow> y \<in> S \<Longrightarrow> z \<in> S \<Longrightarrow> cmp x y < 0 \<Longrightarrow> cmp y z \<le> 0 \<Longrightarrow> cmp x z < 0"
  using cmp_flip[of x y] cmp_zero[of x z] cmp_trans[of x y z] cmp_trans[of y z x] by force

lemma cmp_zero_le: "x \<in> S \<Longrightarrow> y \<in> S \<Longrightarrow> z \<in> S \<Longrightarrow> cmp x y = 0 \<Longrightarrow> cmp y z \<le> 0 \<longleftrightarrow> cmp x z \<le> 0"
  using cmp_trans[of x y z] cmp_trans[of y x z] cmp_zero[of x y] by auto

lemma cmp_zero_trans: "x \<in> S \<Longrightarrow> y \<in> S \<Longrightarrow> z \<in> S \<Longrightarrow> cmp x y = 0 \<Longrightarrow> cmp y z = 0 \<longleftrightarrow> cmp x z = 0"
  using cmp_zero_le[of x y z] cmp_strict[of x z y] cmp_strict[of y z x] cmp_zero[of x y] cmp_flip[of x z] cmp_flip[of y z]
    cmp_flip[of z x] cmp_flip[of z y] cmp_trans[of z y x] cmp_trans[of z x y] by (smt (verit))

lemma insert_mset: "mset (js_insert cmp x ys) = add_mset x (mset ys)"
  by (induction ys) auto

lemma sort_mset: "mset (js_sort cmp xs) = mset xs"
  by (induction xs) (simp_all add: js_sort_def insert_mset)

lemma sort_set: "set (js_sort cmp xs) = set xs"
  using sort_mset by (metis set_mset_mset)

lemma insert_sorted:
  "x \<in> S \<Longrightarrow> set ys \<subseteq> S \<Longrightarrow> sorted_wrt (\<lambda>a b. cmp a b \<le> 0) ys \<Longrightarrow> sorted_wrt (\<lambda>a b. cmp a b \<le> 0) (js_insert cmp x ys)"
proof (induction ys)
  case (Cons y ys)
  have set: "set (js_insert cmp x ys) = insert x (set ys)" using insert_mset[of x ys] by (metis set_mset_mset set_mset_add_mset_insert)
  show ?case
  proof (cases "cmp x y \<le> 0")
    case True
    with Cons.prems show ?thesis by (auto intro: cmp_trans[of x y])
  next
    case False
    then have "cmp y x \<le> 0" using cmp_flip[of y x] Cons.prems by auto
    with False Cons set show ?thesis by auto
  qed
qed simp

lemma sort_sorted: "set xs \<subseteq> S \<Longrightarrow> sorted_wrt (\<lambda>a b. cmp a b \<le> 0) (js_sort cmp xs)"
proof (induction xs)
  case (Cons x xs)
  then show ?case using insert_sorted[of x "js_sort cmp xs"] sort_set[of xs] by (simp add: js_sort_def)
qed (simp add: js_sort_def)

lemma insert_filter:
  "x \<in> S \<Longrightarrow> set ys \<subseteq> S \<Longrightarrow> c \<in> S \<Longrightarrow>
     filter (\<lambda>y. cmp c y = 0) (js_insert cmp x ys) = (if cmp c x = 0 then x # filter (\<lambda>y. cmp c y = 0) ys else filter (\<lambda>y. cmp c y = 0) ys)"
proof (induction ys)
  case (Cons y ys)
  show ?case
  proof (cases "cmp x y \<le> 0")
    case False
    then have "cmp c x = 0 \<Longrightarrow> cmp c y \<noteq> 0" using cmp_zero_trans[of c x y] Cons.prems by auto
    with False Cons show ?thesis by auto
  qed simp
qed simp

lemma sort_stable: "set xs \<subseteq> S \<Longrightarrow> c \<in> S \<Longrightarrow> filter (\<lambda>y. cmp c y = 0) (js_sort cmp xs) = filter (\<lambda>y. cmp c y = 0) xs"
proof (induction xs)
  case (Cons x xs)
  then show ?case using insert_filter[of x "js_sort cmp xs" c] sort_set[of xs] by (simp add: js_sort_def)
qed (simp add: js_sort_def)

end

section \<open>Comparing by several values\<close>

text \<open>
  What is asked of the values that are compared, as is documented for numbers and for texts: \<open>isEqual\<close>
  is an equivalence and \<open>lt\<close> orders what is not equal.
\<close>

definition values_ordered :: "sort_lodash \<Rightarrow> jval set \<Rightarrow> bool" where
  "values_ordered sl V \<longleftrightarrow>
     (\<forall>a \<in> V. ld_isEqual (sl_lodash sl) a a) \<and>
     (\<forall>a \<in> V. \<forall>b \<in> V. ld_isEqual (sl_lodash sl) a b \<longrightarrow> ld_isEqual (sl_lodash sl) b a) \<and>
     (\<forall>a \<in> V. \<forall>b \<in> V. \<not> ld_isEqual (sl_lodash sl) a b \<longrightarrow> sl_lt sl a b \<noteq> sl_lt sl b a) \<and>
     (\<forall>a \<in> V. \<forall>b \<in> V. \<forall>c \<in> V. (ld_isEqual (sl_lodash sl) a b \<or> sl_lt sl a b) \<and> (ld_isEqual (sl_lodash sl) b c \<or> sl_lt sl b c) \<longrightarrow>
        ld_isEqual (sl_lodash sl) a c \<or> sl_lt sl a c)"

definition value_cmp :: "sort_lodash \<Rightarrow> int \<Rightarrow> jval \<Rightarrow> jval \<Rightarrow> int" where
  "value_cmp sl d a b = (if ld_isEqual (sl_lodash sl) a b then 0 else (if sl_lt sl a b then -1 else 1) * d)"

lemma value_cmp_consistent:
  assumes "values_ordered sl V" and "d \<in> {1, -1}"
  shows "consistent_order (\<lambda>x y. value_cmp sl d (f x) (f y)) {x. f x \<in> V}"
proof -
  let ?eq = "ld_isEqual (sl_lodash sl)" and ?lt = "sl_lt sl"
  have r: "?eq a a" if "a \<in> V" for a using assms(1) that by (simp add: values_ordered_def)
  have y: "?eq a b = ?eq b a" if "a \<in> V" "b \<in> V" for a b using assms(1) that unfolding values_ordered_def by blast
  have t: "?eq a b \<or> ?lt a b \<noteq> ?lt b a" if "a \<in> V" "b \<in> V" for a b using assms(1) that unfolding values_ordered_def by blast
  have tr: "?eq a c \<or> ?lt a c" if "a \<in> V" "b \<in> V" "c \<in> V" "?eq a b \<or> ?lt a b" "?eq b c \<or> ?lt b c" for a b c
    using assms(1) that unfolding values_ordered_def by blast
  have le1: "value_cmp sl 1 a b \<le> 0 \<longleftrightarrow> ?eq a b \<or> ?lt a b" for a b by (simp add: value_cmp_def)
  have le2: "value_cmp sl (-1) a b \<le> 0 \<longleftrightarrow> ?eq b a \<or> ?lt b a" if "a \<in> V" "b \<in> V" for a b
    using y[OF that] t[OF that] by (auto simp: value_cmp_def)
  show ?thesis
  proof
    fix x y z
    assume S: "x \<in> {x. f x \<in> V}" "y \<in> {x. f x \<in> V}" "z \<in> {x. f x \<in> V}"
      and le: "value_cmp sl d (f x) (f y) \<le> 0" "value_cmp sl d (f y) (f z) \<le> 0"
    from assms(2) consider "d = 1" | "d = -1" by blast
    then show "value_cmp sl d (f x) (f z) \<le> 0"
    proof cases
      case 1
      with le S tr[of "f x" "f y" "f z"] show ?thesis by (simp add: le1)
    next
      case 2
      with le S tr[of "f z" "f y" "f x"] show ?thesis by (simp add: le2)
    qed
  next
    fix x y
    assume "x \<in> {x. f x \<in> V}" "y \<in> {x. f x \<in> V}"
    then show "value_cmp sl d (f x) (f y) < 0 \<longleftrightarrow> 0 < value_cmp sl d (f y) (f x)"
      using y[of "f x" "f y"] t[of "f x" "f y"] assms(2) by (auto simp: value_cmp_def)
  qed (simp add: value_cmp_def r)
qed

text \<open>One comparison after another.\<close>

definition then_cmp :: "('a \<Rightarrow> 'a \<Rightarrow> int) \<Rightarrow> ('a \<Rightarrow> 'a \<Rightarrow> int) \<Rightarrow> 'a \<Rightarrow> 'a \<Rightarrow> int" where
  "then_cmp c1 c2 x y = (if c1 x y = 0 then c2 x y else c1 x y)"

lemma then_consistent:
  assumes "consistent_order c1 S" and "consistent_order c2 S"
  shows "consistent_order (then_cmp c1 c2) S"
proof
  note z1 = consistent_order.cmp_zero[OF assms(1)] and f1 = consistent_order.cmp_flip[OF assms(1)]
  fix x y
  assume S: "x \<in> S" "y \<in> S"
  show "then_cmp c1 c2 x y < 0 \<longleftrightarrow> 0 < then_cmp c1 c2 y x"
    using z1[OF S] f1[OF S] consistent_order.cmp_flip[OF assms(2) S] by (auto simp: then_cmp_def)
next
  fix x y z
  assume S: "x \<in> S" "y \<in> S" "z \<in> S" and le: "then_cmp c1 c2 x y \<le> 0" "then_cmp c1 c2 y z \<le> 0"
  then have c: "c1 x y \<le> 0" "c1 y z \<le> 0" by (auto simp: then_cmp_def split: if_splits)
  show "then_cmp c1 c2 x z \<le> 0"
  proof (cases "c1 x y = 0 \<and> c1 y z = 0")
    case True
    with consistent_order.cmp_zero_trans[OF assms(1) S] have "c1 x z = 0" by simp
    with True le consistent_order.cmp_trans[OF assms(2) S] show ?thesis by (simp add: then_cmp_def)
  next
    case False
    have "c1 x z < 0"
    proof (cases "c1 x y < 0")
      case True
      with consistent_order.cmp_strict[OF assms(1) S] c show ?thesis by blast
    next
      case eq: False
      with c False have "c1 x y = 0" "c1 y z < 0" by auto
      with consistent_order.cmp_zero_trans[OF assms(1) S] consistent_order.cmp_zero_le[OF assms(1) S] show ?thesis by force
    qed
    then show ?thesis by (simp add: then_cmp_def)
  qed
qed (simp add: then_cmp_def consistent_order.cmp_refl[OF assms(1)] consistent_order.cmp_refl[OF assms(2)])

lemma consistent_subset: "consistent_order c S \<Longrightarrow> T \<subseteq> S \<Longrightarrow> consistent_order c T"
  by (unfold consistent_order_def) (meson subsetD)

text \<open>The items whose values of all the given kinds can be ordered.\<close>

definition comparable :: "sort_lodash \<Rightarrow> ('k \<Rightarrow> 'a \<Rightarrow> jval) \<Rightarrow> 'k list \<Rightarrow> ('k \<Rightarrow> jval set) \<Rightarrow> 'a set" where
  "comparable sl value_of ks V = {x. \<forall>k \<in> set ks. value_of k x \<in> V k \<and> values_ordered sl (V k)}"

fun lex_cmp :: "sort_lodash \<Rightarrow> ('k \<Rightarrow> 'a \<Rightarrow> jval) \<Rightarrow> ('k \<Rightarrow> int) \<Rightarrow> 'k list \<Rightarrow> 'a \<Rightarrow> 'a \<Rightarrow> int" where
  "lex_cmp sl value_of d [] x y = 0"
| "lex_cmp sl value_of d (k # ks) x y =
     then_cmp (\<lambda>x y. value_cmp sl (d k) (value_of k x) (value_of k y)) (lex_cmp sl value_of d ks) x y"

lemma lex_consistent:
  assumes "\<And>k. d k \<in> {1, -1}"
  shows "consistent_order (lex_cmp sl value_of d ks) (comparable sl value_of ks V)"
proof (induction ks)
  case Nil
  show ?case by unfold_locales simp_all
next
  case (Cons k ks)
  have rest: "consistent_order (lex_cmp sl value_of d ks) (comparable sl value_of (k # ks) V)"
    by (rule consistent_subset[OF Cons.IH]) (auto simp: comparable_def)
  show ?case
  proof (cases "values_ordered sl (V k)")
    case True
    have "consistent_order (\<lambda>x y. value_cmp sl (d k) (value_of k x) (value_of k y)) (comparable sl value_of (k # ks) V)"
      by (rule consistent_subset[OF value_cmp_consistent[OF True assms]]) (auto simp: comparable_def)
    from then_consistent[OF this rest] show ?thesis by simp
  next
    case False
    then have "comparable sl value_of (k # ks) V = {}" by (auto simp: comparable_def)
    then show ?thesis by (simp add: consistent_order_def)
  qed
qed

section \<open>The comparisons of the nodes\<close>

definition key_value :: "sort_lodash \<Rightarrow> bool \<Rightarrow> string \<Rightarrow> INodeExecutionData \<Rightarrow> jval" where
  "key_value sl noDots k x = field_value (sl_lodash sl) noDots x k"

definition by_field :: "sort_lodash \<Rightarrow> bool \<Rightarrow> SortField \<Rightarrow> INodeExecutionData \<Rightarrow> jval" where
  "by_field sl noDots f x = sort_value sl noDots x (sf_fieldName f)"

lemma compare_by_keys_lex: "compare_by_keys sl noDots ks = lex_cmp sl (key_value sl noDots) (\<lambda>k. 1) ks"
proof (intro ext)
  show "compare_by_keys sl noDots ks x y = lex_cmp sl (key_value sl noDots) (\<lambda>k. 1) ks x y" for x y
    by (induction ks) (auto simp: compare_by_keys_def then_cmp_def value_cmp_def key_value_def)
qed

lemma compare_by_fields_lex:
  "compare_by_fields sl noDots fs = lex_cmp sl (by_field sl noDots) (\<lambda>f. if sf_ascending f then 1 else -1) fs"
proof (intro ext)
  show "compare_by_fields sl noDots fs x y = lex_cmp sl (by_field sl noDots) (\<lambda>f. if sf_ascending f then 1 else -1) fs x y" for x y
    by (induction fs) (auto simp: compare_by_fields_def then_cmp_def value_cmp_def by_field_def)
qed

interpretation keys_order: consistent_order "compare_by_keys sl noDots ks" "comparable sl (key_value sl noDots) ks V" for sl noDots ks V
  unfolding compare_by_keys_lex by (rule lex_consistent) simp

interpretation fields_order: consistent_order "compare_by_fields sl noDots fs" "comparable sl (by_field sl noDots) fs V" for sl noDots fs V
  unfolding compare_by_fields_lex by (rule lex_consistent) simp

lemma same_keys: "compareItems (sl_lodash sl) x y ks noDots \<longleftrightarrow> compare_by_keys sl noDots ks x y = 0"
  by (induction ks) (auto simp: compareItems_def compare_by_keys_def)

text \<open>
  What the order is meant to be: of the first field in which two items differ, the value of the earlier one is less, or
  greater for a descending field.
\<close>

fun in_order :: "sort_lodash \<Rightarrow> bool \<Rightarrow> SortField list \<Rightarrow> INodeExecutionData \<Rightarrow> INodeExecutionData \<Rightarrow> bool" where
  "in_order sl noDots [] a b \<longleftrightarrow> True"
| "in_order sl noDots (f # fs) a b \<longleftrightarrow>
     (let x = sort_value sl noDots a (sf_fieldName f); y = sort_value sl noDots b (sf_fieldName f)
      in if ld_isEqual (sl_lodash sl) x y then in_order sl noDots fs a b
         else if sf_ascending f then sl_lt sl x y else sl_lt sl y x)"

definition equal_fields :: "sort_lodash \<Rightarrow> bool \<Rightarrow> SortField list \<Rightarrow> INodeExecutionData \<Rightarrow> INodeExecutionData \<Rightarrow> bool" where
  "equal_fields sl noDots fs a b \<longleftrightarrow>
     (\<forall>f \<in> set fs. ld_isEqual (sl_lodash sl) (sort_value sl noDots a (sf_fieldName f)) (sort_value sl noDots b (sf_fieldName f)))"

lemma equal_fields_iff: "compare_by_fields sl noDots fs a b = 0 \<longleftrightarrow> equal_fields sl noDots fs a b"
  by (induction fs) (auto simp: compare_by_fields_def equal_fields_def)

lemma in_order_iff:
  "a \<in> comparable sl (by_field sl noDots) fs V \<Longrightarrow> b \<in> comparable sl (by_field sl noDots) fs V \<Longrightarrow>
     compare_by_fields sl noDots fs a b \<le> 0 \<longleftrightarrow> in_order sl noDots fs a b"
proof (induction fs)
  case Nil
  show ?case by (simp add: compare_by_fields_def)
next
  case (Cons f fs)
  let ?x = "sort_value sl noDots a (sf_fieldName f)" and ?y = "sort_value sl noDots b (sf_fieldName f)"
  have "?x \<in> V f" "?y \<in> V f" "values_ordered sl (V f)" using Cons.prems by (simp_all add: comparable_def by_field_def)
  then have t: "\<not> ld_isEqual (sl_lodash sl) ?x ?y \<Longrightarrow> sl_lt sl ?x ?y \<noteq> sl_lt sl ?y ?x" unfolding values_ordered_def by blast
  have "compare_by_fields sl noDots fs a b \<le> 0 \<longleftrightarrow> in_order sl noDots fs a b"
    using Cons.prems by (intro Cons.IH) (auto simp: comparable_def)
  with t show ?case by (auto simp: compare_by_fields_def Let_def)
qed

text \<open>
  C13: A Sort node by fields gives the items it got, each as often, in the order of the fields, and items with equal
  fields in the order they came in, when the values of each field can be ordered.
\<close>

theorem sort_orders_items:
  assumes "sort_execute sl noDots (SortSimple fs) inputs = Inr out"
    and "\<forall>item \<in> set inputs. \<forall>f \<in> set fs. values_ordered sl (V f) \<and> sort_value sl noDots item (sf_fieldName f) \<in> V f"
  shows "mset out = mset inputs \<and> sorted_wrt (in_order sl noDots fs) out \<and>
    (\<forall>item \<in> set inputs. filter (equal_fields sl noDots fs item) out = filter (equal_fields sl noDots fs item) inputs)"
proof -
  have out: "out = js_sort (compare_by_fields sl noDots fs) inputs"
    using assms(1) by (auto simp: sort_execute_def split: if_splits option.splits)
  have S: "set inputs \<subseteq> comparable sl (by_field sl noDots) fs V" using assms(2) by (auto simp: comparable_def by_field_def)
  have "sorted_wrt (\<lambda>a b. compare_by_fields sl noDots fs a b \<le> 0) out" unfolding out by (rule fields_order.sort_sorted[OF S])
  then have "sorted_wrt (in_order sl noDots fs) out"
    by (rule sorted_wrt_mono_rel[rotated])
      (use S fields_order.sort_set[of sl noDots fs inputs] in_order_iff[THEN iffD1, OF subsetD[OF S] subsetD[OF S]] in \<open>auto simp: out\<close>)
  moreover have "filter (equal_fields sl noDots fs item) out = filter (equal_fields sl noDots fs item) inputs" if "item \<in> set inputs" for item
    using fields_order.sort_stable[OF S] S that unfolding out equal_fields_iff by blast
  ultimately show ?thesis using fields_order.sort_mset[of sl noDots fs inputs] by (simp add: out)
qed

text \<open>The library on values of one type, as far as the samples need it.\<close>

definition sample_sort :: sort_lodash where
  "sample_sort = \<lparr>sl_lodash = sample_lodash, sl_lt = (\<lambda>a b. js_compare a b = Some Less), sl_pick = (\<lambda>ob ks. filter (\<lambda>e. fst e \<in> set ks) ob)\<rparr>"

lemma numbers_ordered: "values_ordered sample_sort (range JNum)"
  by (auto simp: values_ordered_def sample_sort_def sample_lodash_def js_compare_def compare_numbers_def is_primitive_def)

definition two_numbers :: "number \<Rightarrow> number \<Rightarrow> INodeExecutionData" where
  "two_numbers a b = record_of [(''a'', JNum a), (''b'', JNum b)]"

theorem sort_orders_items_witness:
  "\<exists>out. sort_execute sample_sort True (SortSimple [\<lparr>sf_fieldName = ''a'', sf_ascending = False\<rparr>])
       [two_numbers 1 1, two_numbers 2 2, two_numbers 1 3] = Inr out \<and> out = [two_numbers 2 2, two_numbers 1 1, two_numbers 1 3] \<and>
     sorted_wrt (in_order sample_sort True [\<lparr>sf_fieldName = ''a'', sf_ascending = False\<rparr>]) out"
proof -
  let ?fs = "[\<lparr>sf_fieldName = ''a'', sf_ascending = False\<rparr>]"
  let ?in = "[two_numbers 1 1, two_numbers 2 2, two_numbers 1 3]"
  have e: "sort_execute sample_sort True (SortSimple ?fs) ?in = Inr [two_numbers 2 2, two_numbers 1 1, two_numbers 1 3]" by code_simp
  have "sort_value sample_sort True (two_numbers a b) ''a'' \<in> range JNum" for a b
    by (simp add: sort_value_def field_value_def two_numbers_def record_of_def get_prop_def lowered_def)
  then show ?thesis using e sort_orders_items[OF e, of "\<lambda>f. range JNum"] numbers_ordered by simp
qed

text \<open>A random order gives the items it got, each as often.\<close>

lemma shuffle_from_mset: "n < length xs \<Longrightarrow> mset (shuffle_from draw n xs) = mset xs"
proof (induction n arbitrary: xs)
  case (Suc n)
  let ?j = "randomInt (draw (Suc n)) 0 (Suc n + 1)"
  have "?j < length xs" using Suc.prems by (simp add: randomInt_def) (metis Suc_lessI mod_less_divisor order.strict_trans zero_less_Suc)
  then have "mset (xs[Suc n := xs ! ?j, ?j := xs ! Suc n]) = mset xs" using Suc.prems by (simp add: mset_swap)
  with Suc show ?case by (simp add: Let_def)
qed simp

lemma shuffleArray_mset: "mset (shuffleArray draw xs) = mset xs"
  by (cases xs) (simp_all add: shuffleArray_def shuffle_from_mset)

section \<open>Which items are removed\<close>

text \<open>The elements that are equal to an earlier one.\<close>

fun later_equals :: "('a \<Rightarrow> 'a \<Rightarrow> bool) \<Rightarrow> 'a list \<Rightarrow> 'a set" where
  "later_equals eq [] = {}"
| "later_equals eq (x # xs) = {y \<in> set xs. eq x y} \<union> later_equals eq xs"

lemma later_equals_subset: "later_equals eq xs \<subseteq> set xs"
  by (induction xs) auto

lemma later_equals_hd:
  assumes "\<And>x y. x \<in> S \<Longrightarrow> y \<in> S \<Longrightarrow> eq x y = eq y x" and "\<And>x. x \<in> S \<Longrightarrow> eq x x"
  shows "set xs \<subseteq> S \<Longrightarrow> distinct xs \<Longrightarrow> z \<in> later_equals eq xs \<longleftrightarrow> z \<in> set xs \<and> z \<noteq> hd (filter (eq z) xs)"
proof (induction xs)
  case (Cons x xs)
  show ?case
  proof (cases "z = x")
    case True
    with Cons.prems assms(2)[of x] later_equals_subset[of eq xs] show ?thesis by auto
  next
    case False
    with Cons assms(1)[of x z] show ?thesis by (auto dest: subsetD[OF later_equals_subset])
  qed
qed simp

lemma later_equals_nth:
  "distinct xs \<Longrightarrow> j < length xs \<Longrightarrow> xs ! j \<in> later_equals eq xs \<longleftrightarrow> (\<exists>i < j. eq (xs ! i) (xs ! j))"
proof (induction xs arbitrary: j)
  case (Cons x xs)
  show ?case
  proof (cases j)
    case 0
    with Cons.prems later_equals_subset[of eq xs] show ?thesis by auto
  next
    case (Suc n)
    then have "(\<exists>i < j. eq ((x # xs) ! i) (xs ! n)) \<longleftrightarrow> eq x (xs ! n) \<or> (\<exists>i < n. eq (xs ! i) (xs ! n))"
      using less_Suc_eq_0_disj by auto
    with Suc Cons show ?thesis by auto
  qed
qed simp

text \<open>A stable sort does not change which these are.\<close>

context consistent_order
begin

lemma later_equals_sort:
  assumes "set xs \<subseteq> S" "distinct xs"
  shows "later_equals (\<lambda>x y. cmp x y = 0) (js_sort cmp xs) = later_equals (\<lambda>x y. cmp x y = 0) xs"
proof -
  have d: "distinct (js_sort cmp xs)" using sort_mset[of xs] assms(2) by (metis mset_eq_imp_distinct_iff)
  have f: "filter (\<lambda>y. cmp z y = 0) (js_sort cmp xs) = filter (\<lambda>y. cmp z y = 0) xs" if "z \<in> set xs" for z
    using sort_stable[OF assms(1)] that assms(1) by blast
  note h = later_equals_hd[where S = S and eq = "\<lambda>x y. cmp x y = 0", OF cmp_zero cmp_refl]
  show ?thesis
    using h[of "js_sort cmp xs"] h[of xs] assms d f by (auto simp: sort_set)
qed

end

lemma removed_sorted:
  assumes "consistent_order cmp S" and "\<And>x y. x \<in> S \<Longrightarrow> y \<in> S \<Longrightarrow> same x y \<longleftrightarrow> cmp x y = 0"
  shows "sorted_wrt (\<lambda>a b. cmp a b \<le> 0) (t # xs) \<Longrightarrow> set (t # xs) \<subseteq> S \<Longrightarrow>
    set (removed_indexes same t xs) = (\<lambda>z. get_prop (json z) ''__INDEX'') ` later_equals (\<lambda>x y. cmp x y = 0) (t # xs)"
proof (induction xs arbitrary: t)
  case (Cons y ys)
  have S: "t \<in> S" "y \<in> S" "set ys \<subseteq> S" using Cons.prems(2) by auto
  show ?case
  proof (cases "cmp t y = 0")
    case True
    then have "same y t" using assms(2) S consistent_order.cmp_zero[OF assms(1)] by blast
    moreover have "cmp y z = 0 \<longleftrightarrow> cmp t z = 0" if "z \<in> set ys" for z
      using consistent_order.cmp_zero_trans[OF assms(1) S(1,2) _ True] S(3) that by blast
    ultimately show ?thesis using True Cons.IH[of t] Cons.prems by (auto simp: image_iff)
  next
    case False
    then have "\<not> same y t" using assms(2) S consistent_order.cmp_zero[OF assms(1)] by blast
    moreover have "cmp t z \<noteq> 0" if "z \<in> set ys" for z
    proof -
      have "cmp t y < 0" using False Cons.prems(1) by simp
      moreover have "cmp y z \<le> 0" using Cons.prems(1) that by simp
      ultimately show ?thesis using consistent_order.cmp_strict[OF assms(1) S(1,2)] S(3) that by fastforce
    qed
    ultimately show ?thesis using False Cons.IH[of y] Cons.prems by auto
  qed
qed simp

section \<open>Remove Duplicates\<close>

text \<open>The field that the node adds is not one that is compared.\<close>

definition ignores_index :: "sort_lodash \<Rightarrow> bool \<Rightarrow> string list \<Rightarrow> bool" where
  "ignores_index sl noDots ks \<longleftrightarrow>
     (\<forall>k \<in> set ks. \<forall>x y v. json y = str_put ''__INDEX'' v (json x) \<longrightarrow> key_value sl noDots k y = key_value sl noDots k x)"

lemma numbered_nth: "i < length inputs \<Longrightarrow> json (numbered inputs ! i) = str_put ''__INDEX'' (JNum (of_nat i)) (json (inputs ! i))"
  by (simp add: numbered_def nth_enumerate_eq)

lemma length_numbered [simp]: "length (numbered inputs) = length inputs"
  by (simp add: numbered_def)

lemma numbered_index: "i < length inputs \<Longrightarrow> get_prop (json (numbered inputs ! i)) ''__INDEX'' = JNum (of_nat i)"
  by (simp add: numbered_nth get_prop_def)

lemma distinct_numbered: "distinct (numbered inputs)"
proof (unfold distinct_conv_nth, intro allI impI)
  fix i j
  assume "i < length (numbered inputs)" "j < length (numbered inputs)" "i \<noteq> j"
  then show "numbered inputs ! i \<noteq> numbered inputs ! j"
    using numbered_index[of i inputs] numbered_index[of j inputs] by (metis jval.inject(2) length_numbered of_nat_eq_iff)
qed

lemma enumerated: "enumerate 0 xs = map (\<lambda>j. (j, xs ! j)) [0..<length xs]"
  by (rule nth_equalityI) (simp_all add: nth_enumerate_eq)

lemma compared_numbered:
  assumes "ignores_index sl noDots ks" "i < length inputs" "j < length inputs"
  shows "compareItems (sl_lodash sl) (numbered inputs ! i) (numbered inputs ! j) ks noDots \<longleftrightarrow>
    compareItems (sl_lodash sl) (inputs ! i) (inputs ! j) ks noDots"
proof -
  have "field_value (sl_lodash sl) noDots (numbered inputs ! n) k = field_value (sl_lodash sl) noDots (inputs ! n) k"
    if "n < length inputs" "k \<in> set ks" for n k
    using assms(1) that numbered_nth[OF that(1)] unfolding ignores_index_def key_value_def by blast
  with assms(2,3) show ?thesis by (simp add: compareItems_def list_all_iff)
qed

text \<open>The indexes that are removed are those of the items that are equal to an earlier one.\<close>

lemma removed_later:
  assumes "inputs \<noteq> []" and S: "set (numbered inputs) \<subseteq> comparable sl (key_value sl nd) ks V"
  shows "set (removed_indexes (\<lambda>a b. compareItems (sl_lodash sl) a b ks nd)
        (hd (js_sort (compare_by_keys sl nd ks) (numbered inputs))) (tl (js_sort (compare_by_keys sl nd ks) (numbered inputs)))) =
    (\<lambda>z. get_prop (json z) ''__INDEX'') ` later_equals (\<lambda>x y. compare_by_keys sl nd ks x y = 0) (numbered inputs)"
proof -
  let ?N = "numbered inputs" and ?cmp = "compare_by_keys sl nd ks"
  have "js_sort ?cmp ?N \<noteq> []" using keys_order.sort_set[of sl nd ks ?N] assms(1) by (metis length_numbered length_0_conv set_empty)
  then obtain t xs where ts: "js_sort ?cmp ?N = t # xs" by (cases "js_sort ?cmp ?N") auto
  have so: "sorted_wrt (\<lambda>a b. ?cmp a b \<le> 0) (t # xs)" using keys_order.sort_sorted[OF S] by (simp only: ts)
  have sub: "set (t # xs) \<subseteq> comparable sl (key_value sl nd) ks V" using keys_order.sort_set[of sl nd ks ?N] S by (simp only: ts)
  have "set (removed_indexes (\<lambda>a b. compareItems (sl_lodash sl) a b ks nd) (hd (js_sort ?cmp ?N)) (tl (js_sort ?cmp ?N))) = (\<lambda>z. get_prop (json z) ''__INDEX'') ` later_equals (\<lambda>x y. ?cmp x y = 0) (t # xs)"
    using removed_sorted[OF keys_order.consistent_order_axioms same_keys so sub] by (simp only: ts list.sel)
  also have "\<dots> = (\<lambda>z. get_prop (json z) ''__INDEX'') ` later_equals (\<lambda>x y. ?cmp x y = 0) ?N"
    using keys_order.later_equals_sort[OF S distinct_numbered] by (simp only: ts)
  finally show ?thesis .
qed

lemma removed_included:
  assumes "set R = (\<lambda>z. get_prop (json z) ''__INDEX'') ` later_equals (\<lambda>x y. compare_by_keys sl nd ks x y = 0) (numbered inputs)"
    and "ignores_index sl nd ks" and j: "j < length inputs"
  shows "js_includes R (JNum (of_nat j)) \<longleftrightarrow> (\<exists>i < j. compareItems (sl_lodash sl) (inputs ! i) (inputs ! j) ks nd)"
proof -
  let ?N = "numbered inputs" and ?cmp = "compare_by_keys sl nd ks" and ?same = "\<lambda>a b. compareItems (sl_lodash sl) a b ks nd"
  define D where "D = later_equals (\<lambda>x y. ?cmp x y = 0) ?N"
  have R: "set R = (\<lambda>z. get_prop (json z) ''__INDEX'') ` D" using assms(1) by (simp only: D_def)
  have D: "z \<in> D \<Longrightarrow> \<exists>i < length inputs. z = ?N ! i" for z
  proof -
    assume "z \<in> D"
    then have "z \<in> set ?N" unfolding D_def by (rule subsetD[OF later_equals_subset])
    then show "\<exists>i < length inputs. z = ?N ! i" unfolding in_set_conv_nth length_numbered by blast
  qed
  have "js_includes R (JNum (of_nat j)) \<longleftrightarrow> JNum (of_nat j) \<in> set R"
    by (auto simp: js_includes_def js_same_def list_ex_iff is_primitive_def)
  also have "\<dots> \<longleftrightarrow> ?N ! j \<in> D"
  proof
    assume "JNum (of_nat j) \<in> set R"
    then obtain z where z: "JNum (of_nat j) = get_prop (json z) ''__INDEX''" "z \<in> D" unfolding R by (rule imageE)
    from D[OF z(2)] obtain i where i: "i < length inputs" "z = ?N ! i" by blast
    have "JNum (of_nat j) = JNum (of_nat i)" unfolding z(1) i(2) by (rule numbered_index[OF i(1)])
    then have "i = j" by simp
    then show "?N ! j \<in> D" using z(2) unfolding i(2) by (rule subst)
  next
    assume "?N ! j \<in> D"
    then have "get_prop (json (?N ! j)) ''__INDEX'' \<in> set R" unfolding R by (rule imageI)
    then show "JNum (of_nat j) \<in> set R" by (simp only: numbered_index[OF j])
  qed
  also have "\<dots> \<longleftrightarrow> (\<exists>i < j. ?same (?N ! i) (?N ! j))"
    using later_equals_nth[OF distinct_numbered, of j inputs] j by (simp only: same_keys D_def length_numbered)
  also have "\<dots> \<longleftrightarrow> (\<exists>i < j. ?same (inputs ! i) (inputs ! j))"
    using compared_numbered[OF assms(2) _ j] j by (meson order.strict_trans)
  finally show ?thesis .
qed

text \<open>
  C11: When the values of each compared field can be ordered, Remove Duplicates keeps exactly the items that are not
  equal in these fields to an earlier item, in their order, unless it reports an error of the fields.
\<close>

theorem removeDuplicates_keeps_first:
  assumes "removeDuplicates_execute rd inputs = Inr out" and "\<not> rd_removeOtherFields rd" and "compared_keys rd inputs = Inr ks"
    and "ignores_index (rd_lodash rd) (rd_disableDotNotation rd) ks"
    and "\<forall>item \<in> set inputs. \<forall>k \<in> set ks. values_ordered (rd_lodash rd) (V k) \<and>
           field_value (sl_lodash (rd_lodash rd)) (rd_disableDotNotation rd) item k \<in> V k"
  shows "out = map (nth inputs) (filter (\<lambda>j. \<not> (\<exists>i < j.
     compareItems (sl_lodash (rd_lodash rd)) (inputs ! i) (inputs ! j) ks (rd_disableDotNotation rd))) [0..<length inputs])"
proof -
  let ?sl = "rd_lodash rd" and ?nd = "rd_disableDotNotation rd" and ?N = "numbered inputs"
  let ?cmp = "compare_by_keys ?sl ?nd ks" and ?S = "comparable ?sl (key_value ?sl ?nd) ks V"
  let ?same = "\<lambda>a b. compareItems (sl_lodash ?sl) a b ks ?nd"
  let ?R = "removed_indexes ?same (hd (js_sort ?cmp ?N)) (tl (js_sort ?cmp ?N))"
  from assms(1-3) have ne: "inputs \<noteq> []" and out: "out = kept_items inputs ?R"
    by (auto simp: removeDuplicates_execute_def Let_def split: if_splits option.splits)
  have S: "set ?N \<subseteq> ?S"
  proof
    fix x assume "x \<in> set ?N"
    then obtain i where i: "i < length inputs" "x = ?N ! i" by (auto simp: in_set_conv_nth)
    then have e: "key_value ?sl ?nd k x = key_value ?sl ?nd k (inputs ! i)" if "k \<in> set ks" for k
      using assms(4) that numbered_nth[OF i(1)] unfolding ignores_index_def by blast
    from i(1) have "inputs ! i \<in> set inputs" by simp
    with assms(5) e show "x \<in> ?S" by (simp add: comparable_def key_value_def)
  qed
  define R where "R = ?R"
  have R: "set R = (\<lambda>z. get_prop (json z) ''__INDEX'') ` later_equals (\<lambda>x y. ?cmp x y = 0) ?N"
    unfolding R_def by (rule removed_later[OF ne S])
  note dup = removed_included[OF R assms(4)]
  have "kept_items inputs R = map snd (filter (\<lambda>e. \<not> js_includes R (JNum (of_nat (fst e)))) (map (\<lambda>j. (j, inputs ! j)) [0..<length inputs]))"
    by (simp add: kept_items_def enumerated)
  also have "\<dots> = map (nth inputs) (filter (\<lambda>j. \<not> js_includes R (JNum (of_nat j))) [0..<length inputs])"
    by (simp add: filter_map o_def)
  also have "\<dots> = map (nth inputs) (filter (\<lambda>j. \<not> (\<exists>i < j. ?same (inputs ! i) (inputs ! j))) [0..<length inputs])"
    by (intro arg_cong[where f = "map (nth inputs)"] filter_cong refl) (simp add: dup)
  finally show ?thesis by (simp only: out R_def)
qed

definition sample_duplicates :: "string \<Rightarrow> bool \<Rightarrow> RemoveDuplicatesNode" where
  "sample_duplicates kind noDots =
     \<lparr>rd_lodash = sample_sort, rd_version = 1, rd_compare = kind, rd_disableDotNotation = noDots, rd_removeOtherFields = False,
      rd_fieldsToExclude = FieldsText ''c'', rd_fieldsToCompare = FieldsText ''a, b''\<rparr>"

theorem removeDuplicates_keeps_first_witness:
  "removeDuplicates_execute (sample_duplicates ''selectedFields'' True)
     [two_numbers 2 1, two_numbers 1 1, two_numbers 2 1, two_numbers 1 2] = Inr [two_numbers 2 1, two_numbers 1 1, two_numbers 1 2]"
proof -
  let ?rd = "sample_duplicates ''selectedFields'' True"
  let ?in = "[two_numbers 2 1, two_numbers 1 1, two_numbers 2 1, two_numbers 1 2]"
  have k: "compared_keys ?rd ?in = Inr [''a'', ''b'']" by code_simp
  have "\<not> isl (removeDuplicates_execute ?rd ?in)" by code_simp
  then obtain out where out: "removeDuplicates_execute ?rd ?in = Inr out"
    by (cases "removeDuplicates_execute ?rd ?in") auto
  have i: "ignores_index (rd_lodash ?rd) (rd_disableDotNotation ?rd) [''a'', ''b'']"
    by (simp add: ignores_index_def key_value_def field_value_def sample_duplicates_def get_prop_def)
  have "field_value ld True (two_numbers a b) k \<in> range JNum" if "k \<in> {''a'', ''b''}" for ld a b k
    using that by (auto simp: field_value_def two_numbers_def record_of_def get_prop_def)
  then have v: "\<forall>item \<in> set ?in. \<forall>k \<in> set [''a'', ''b'']. values_ordered (rd_lodash ?rd) (range JNum) \<and>
      field_value (sl_lodash (rd_lodash ?rd)) (rd_disableDotNotation ?rd) item k \<in> range JNum"
    using numbers_ordered by (simp add: sample_duplicates_def)
  have "filter (\<lambda>j. \<not> (\<exists>i < j. compareItems (sl_lodash (rd_lodash ?rd)) (?in ! i) (?in ! j) [''a'', ''b''] (rd_disableDotNotation ?rd)))
      [0..<length ?in] = [0, 1, 3]" by code_simp
  with removeDuplicates_keeps_first[OF out _ k i v] have "out = [two_numbers 2 1, two_numbers 1 1, two_numbers 1 2]"
    by (simp add: sample_duplicates_def)
  with out show ?thesis by simp
qed

text \<open>
  When fields are excluded and dots are paths, only the fields of the first item are compared: an item with a field more
  counts as a duplicate.  Without paths the same items are refused.
\<close>

lemma further_fields_ignored:
  "removeDuplicates_execute (sample_duplicates ''allFieldsExcept'' False)
     [record_of [(''a'', JNum 1)], record_of [(''a'', JNum 1), (''b'', JNum 2)]] = Inr [record_of [(''a'', JNum 1)]]"
  "isl (removeDuplicates_execute (sample_duplicates ''allFieldsExcept'' True)
     [record_of [(''a'', JNum 1)], record_of [(''a'', JNum 1), (''b'', JNum 2)]])"
  by code_simp+

end
