(* ===== verification/SplitOutProperties.thy ===== *)
theory SplitOutProperties
  imports SplitOutNodes SortProperties
begin

text \<open>
  Split Out takes apart what Aggregate gathered; where fields of the two nodes get lost.
\<close>

section \<open>Objects rebuilt from their entries\<close>

text \<open>Putting the entries of an object one after the other into an empty one gives the object.\<close>

lemma put_last:
  assumes "k \<notin> fst ` set ob" and "\<forall>x \<in> fst ` set ob. \<not> b k x"
  shows "obj_put b k v ob = ob @ [(k, v)]"
  using assms by (induction ob) auto

lemma rebuild_object:
  assumes "obj_wf b (xs @ ob)"
  shows "fold (\<lambda>e. obj_put b (fst e) (snd e)) ob xs = xs @ ob"
  using assms
proof (induction ob arbitrary: xs)
  case (Cons e ob)
  have "obj_put b (fst e) (snd e) xs = xs @ [e]"
    using Cons.prems put_last[of "fst e" xs b "snd e"] by (auto simp: obj_wf_def obj_keys_def sorted_wrt_append)
  with Cons show ?case by simp
qed simp

section \<open>Taking apart what was gathered\<close>

lemma put_elements_new:
  "n = length splited \<Longrightarrow>
     put_elements p i multi f d n es splited = splited @ map (\<lambda>e. put_element p i multi f d e (split_entry i)) es"
  by (induction p i multi f d n es splited rule: put_elements.induct) (auto simp: Let_def nth_append)

definition plain_field :: "string \<Rightarrow> bool" where
  "plain_field f \<longleftrightarrow> CHR '','' \<notin> set f \<and> str_trim f = f \<and> \<not> starts_with f ''$json.'' \<and> f \<noteq> ''$binary''"

definition splits_field :: "SplitOutParameters \<Rightarrow> string \<Rightarrow> bool" where
  "splits_field p f \<longleftrightarrow> so_fieldToSplitOut p = f \<and> so_destinationFieldName p = [] \<and> so_include p = ''noOtherFields'' \<and> \<not> so_includeBinary p"

lemma fields_of_plain: "plain_field f \<Longrightarrow> splits_field p f \<Longrightarrow> fieldsToSplitOut p = [f] \<and> destinationFields p = []"
  by (simp add: plain_field_def splits_field_def fieldsToSplitOut_def destinationFields_def split_plain without_json_prefix_def
      split_at_char_simps(1) str_trim_def)

lemma include_nothing:
  assumes "splits_field p f"
  shows "res_fold (\<lambda>e out. res_bind (include_fields pl p item e) (\<lambda>x. Inr (out @ [include_binary p item x]))) es out = Inr (out @ es)"
  using assms by (induction es arbitrary: out) (simp_all add: splits_field_def include_fields_def include_binary_def)

text \<open>
  C12: What an Aggregate node gathers from all items into one field, a Split Out node on this field takes apart again: it gives
  the data of the same items in the same order, and no hint.
\<close>

theorem aggregate_split_roundtrip:
  assumes "\<not> ag_individual ag" "ag_fieldsToExclude ag = FieldsText []" "ag_fieldsToInclude ag = FieldsText []"
    and "plain_field (ag_destinationFieldName ag)" and "splits_field p (ag_destinationFieldName ag)"
    and "\<forall>v. ld_get (pl_lodash pl) [(ag_destinationFieldName ag, v)] (ag_destinationFieldName ag) = v"
    and "\<forall>item \<in> set inputs. obj_wf str_before (json item)"
  shows "\<exists>item out. aggregate_execute ag inputs = Inr (item, []) \<and> splitOut_execute pl (\<lambda>i. Inr p) [item] = Inr (out, []) \<and>
    map json out = map json inputs"
proof -
  let ?d = "ag_destinationFieldName ag"
  have "map (\<lambda>e. JObj (snd e)) (enumerate n (map json xs)) = map (\<lambda>x. JObj (json x)) xs" for n xs
    by (induction xs arbitrary: n) simp_all
  then have "\<exists>item. aggregate_execute ag inputs = Inr (item, []) \<and> json item = [(?d, JArr (map (\<lambda>x. JObj (json x)) inputs))]"
    using assms(1-3) by (simp add: aggregate_execute_def aggregate_all_def prepareFieldsArray_def split_at_char_simps(1) str_trim_def Let_def)
  then obtain item where a: "aggregate_execute ag inputs = Inr (item, [])" and j: "json item = [(?d, JArr (map (\<lambda>x. JObj (json x)) inputs))]"
    by blast
  have f: "fieldsToSplitOut p = [?d]" "destinationFields p = []" using fields_of_plain[OF assms(4,5)] by simp_all
  have "field_value (pl_lodash pl) (so_disableDotNotation p) item ?d = JArr (map (\<lambda>x. JObj (json x)) inputs)"
    using assms(6) by (simp add: field_value_def j get_prop_def)
  then have e: "entityToSplit (pl_lodash pl) p item ?d [] = (map (\<lambda>x. JObj (json x)) inputs, [])"
    using assms(4) by (simp add: entityToSplit_def plain_field_def elements_of_def obj_has_def)
  have put: "put_element p 0 False ?d [] (JObj ob) (split_entry 0) = empty_item\<lparr>json := ob, pairedItem := Some (paired_to 0)\<rparr>"
    if "obj_wf str_before ob" for ob
    using assms(4,5) rebuild_object[of str_before "[]" ob] that
    by (simp add: put_element_def plain_field_def splits_field_def js_typeof_def object_entries_def split_entry_def empty_item_def)
  let ?out = "map (\<lambda>x. empty_item\<lparr>json := json x, pairedItem := Some (paired_to 0)\<rparr>) inputs"
  have "put_elements p 0 False ?d [] 0 (map (\<lambda>x. JObj (json x)) inputs) [] = ?out"
    using put_elements_new[of 0 "[]" p 0 False ?d "[]"] put assms(7) by simp
  then have "split_item pl p 0 item [] = Inr (?out, [])"
    using include_nothing[OF assms(5)] by (simp add: split_item_def f e)
  then have "splitOut_execute pl (\<lambda>i. Inr p) [item] = Inr (?out, [])"
    by (simp add: splitOut_execute_def missing_hints_def)
  with a show ?thesis by (auto simp: comp_def)
qed

definition sample_paths :: path_lodash where
  "sample_paths = \<lparr>pl_lodash = sample_lodash, pl_set = (\<lambda>ob k v. str_put k v ob), pl_unset = (\<lambda>ob k. obj_del k ob)\<rparr>"

definition sample_split :: "string \<Rightarrow> SplitOutParameters" where
  "sample_split f =
     \<lparr>so_fieldToSplitOut = f, so_disableDotNotation = False, so_destinationFieldName = [], so_include = ''noOtherFields'',
      so_fieldsToInclude = FieldsText [], so_includeBinary = False\<rparr>"

definition sample_aggregate :: "FieldToAggregate list \<Rightarrow> AggregateNode" where
  "sample_aggregate fs =
     \<lparr>ag_lodash = sample_paths, ag_individual = (fs \<noteq> []), ag_disableDotNotation = False, ag_mergeLists = False, ag_keepMissing = False,
      ag_fields = fs, ag_destinationFieldName = ''data'', ag_fieldsToExclude = FieldsText [], ag_fieldsToInclude = FieldsText []\<rparr>"

theorem aggregate_split_roundtrip_witness:
  "\<exists>item out. aggregate_execute (sample_aggregate []) [two_numbers 1 2, two_numbers 3 4] = Inr (item, []) \<and>
     splitOut_execute sample_paths (\<lambda>i. Inr (sample_split ''data'')) [item] = Inr (out, []) \<and>
     map json out = [json (two_numbers 1 2), json (two_numbers 3 4)]"
proof -
  have p: "plain_field ''data''" "obj_wf str_before (json (two_numbers 1 2))" "obj_wf str_before (json (two_numbers 3 4))" by code_simp+
  show ?thesis
    using aggregate_split_roundtrip[of "sample_aggregate []" "sample_split ''data''" sample_paths "[two_numbers 1 2, two_numbers 3 4]"] p
    by (simp add: sample_aggregate_def sample_split_def splits_field_def sample_paths_def sample_lodash_def get_prop_def)
qed

section \<open>What goes wrong\<close>

text \<open>
  A field that an earlier item had is only noted once an item lacked it: one item without it
  gives the hint that no item has it.
\<close>

lemma hint_although_found:
  "map_sum id snd (splitOut_execute sample_paths (\<lambda>i. Inr (sample_split ''a'')) [two_numbers 1 2, record_of []]) =
     Inr [''The field '' @ [CHR 0x27] @ ''a'' @ [CHR 0x27] @ '' wasn'' @ [CHR 0x27] @ ''t found in any input item'']"
  by code_simp

text \<open>Two paths with the same last part give one list: the check for names that are used twice looks at the whole paths.\<close>

lemma aggregated_paths_clash:
  "map_sum id (\<lambda>r. json (fst r)) (aggregate_execute (sample_aggregate
       [\<lparr>fa_fieldToAggregate = ''x.id'', fa_renameField = False, fa_outputFieldName = []\<rparr>,
        \<lparr>fa_fieldToAggregate = ''y.id'', fa_renameField = False, fa_outputFieldName = []\<rparr>])
     [record_of [(''x.id'', JNum 1), (''y.id'', JNum 2)]]) = Inr [(''id'', JArr [JNum 2])]"
  by code_simp

end
