(* ===== verification/Spec2Isabelle.thy ===== *)
theory Spec2Isabelle
  imports GraphProperties EngineOutcomes EngineReach WaitTracker Permissions ParameterIssues NodeDataProperties
    TestWebhookProperties LeaderProperties ExpressionProperties ArrayProperties AugmentProperties
    FlowProperties MergeProperties ActiveTriggersProperties ActivationProperties
    ScheduleProperties RecoveryProperties SplitOutProperties
begin

text \<open>
  \<^bold>\<open>The n8n workflow automation engine.\<close>

  n8n runs workflows: graphs of nodes whose connections carry lists of items.  This
  development models the parts of the repository that decide what runs, when, and for
  whom, and of the nodes themselves those that steer and join the items.

  \<^bold>\<open>Parts and how they interact.\<close>

  \<^item> packages/workflow/src/Workflow.ts holds one workflow: its nodes, its connections by
    source and, computed from them, by destination.  Everything else asks it for children,
    parents, the highest nodes above a node, the start node, and lets it run a node.
  \<^item> packages/workflow/src/NodeHelpers.ts gives the parameters of a node their values, from
    what the user stored and from the description of the node's type: the defaults are added
    or removed, the values of parameters that are not displayed are dropped, and what is
    missing or has the wrong type (TypeValidation.ts) is reported.  Nodes that route items
    by conditions evaluate them with NodeParameters/FilterParameter.ts.
  \<^item> packages/core/src/WorkflowExecute.ts executes a workflow.  Its state is the stack of
    items to run, the data that nodes with several inputs wait for, and the recorded runs.
    Each round of its main loop takes the item on top of the stack, checks that its data is
    there, runs the node with its tries, records the run and puts the nodes behind its
    outputs on the stack or among the waiting ones; when the stack is empty it releases a
    waiting node that can get no more data.
  \<^item> packages/nodes-base/nodes holds the nodes.  If, Filter, Switch, Limit and Loop Over Items
    decide which items go on and where, Merge joins the items of several inputs, Sort, Remove
    Duplicates, Aggregate and Split Out order, gather and split them, the Schedule Trigger decides
    which ticks of its timers start the workflow.
  \<^item> packages/cli/src runs executions for users.  ActiveExecutions keeps those of the process
    and asks ConcurrencyControlService, which keeps a ConcurrencyQueue, to throttle them;
    WaitTracker resumes the ones that wait for a point in time; ExecutionService stops an
    execution wherever it is: in the queue, active or waiting; ExecutionRecoveryService amends
    executions that a crash cut off.
  \<^item> An expression of a node is split into text and code (Extensions/ExpressionParser.ts); the
    code reads the data of other nodes through WorkflowDataProxy.ts, whose objects are wrapped
    by AugmentObject.ts so that they are not changed, and calls the functions of
    Extensions/ArrayExtensions.ts.
  \<^item> packages/cli/src/webhooks lets requests start workflows: an active workflow registers its
    webhooks in a table behind a cache (webhook.service.ts, active-workflow-manager.ts), where
    live-webhooks.ts looks them up; a manual execution registers them in the cache for two
    minutes (test-webhooks.ts, test-webhook-registrations.service.ts).  active-workflow-manager.ts
    also starts its triggers and pollers, which packages/core/src/ActiveWorkflows.ts keeps with their
    timers (ScheduledTaskManager.ts), and tries an activation again that failed.
  \<^item> services/orchestration/main/multi-main-setup.ee.ts elects, among several main processes, the
    leader that keeps timers and triggers; its events start and stop the wait tracker.
  \<^item> packages/cli/src/permissions, services/role.service.ts and packages/@n8n/permissions
    decide what a user may do, SubworkflowPolicyChecker which workflow may call another.

  \<^bold>\<open>Theories.\<close>

  \<^item> Prelude: JavaScript objects with the order of their keys (\<open>obj\<close>, the locale
    \<open>js_object\<close> with three interpretations), array slots that are undefined or null
    (\<open>slot\<close>, \<open>arr_get\<close>, \<open>arr_set\<close>), JSON values, errors (\<open>js_error\<close>), results that may throw
    (\<open>res_bind\<close>, \<open>res_fold\<close>), the locale \<open>step_invariant\<close> that every step relation interprets with its
    invariant, and the lemmas on lists.
  \<^item> WorkflowTypes: the records and datatypes of Interfaces.ts, named as there.
  \<^item> WorkflowGraph, GraphSearch, HighestNode: \<open>getConnectionsByDestination\<close>, the depth-first
    search \<open>getConnectedNodes\<close>, the breadth-first search \<open>searchNodesBFS\<close>, \<open>getHighestNode\<close> and
    \<open>getNodeConnectionIndexes\<close>, with the reachability relation \<open>edges\<close> they are proved
    against; GraphProperties holds what they promise.
  \<^item> WorkflowNodes: construction, activation, readiness, static data, node queries, start
    node, webhook life cycle.  WorkflowRename: \<open>renameNode\<close> with its regular expressions.
  \<^item> WaitingExecution: \<open>addNodeToBeExecuted\<close> and its parts, on the record \<open>ExecutionData\<close>;
    WaitingInvariant: the invariant \<open>waiting_inv\<close> and the refinement of an abstract store.
  \<^item> NodeExecution: \<open>runNode\<close>, pinned data, the tries, error routing, paired items;
    NodeProperties: what they promise.
  \<^item> ExecutionEngine: the record \<open>Engine\<close>, one round \<open>engine_step\<close>, the loop \<open>engine_loop\<close>, the
    release \<open>releaseWaiting\<close>; ExecutionRuns: how an execution starts (\<open>start_run\<close>,
    \<open>start_partial\<close>) and what it returns (\<open>finish\<close>).
  \<^item> EngineProperties and EngineOutcomes: what a round, the loop and the result guarantee.
    EngineInvariant states as the locale \<open>engine_invariant\<close> what a predicate needs to be
    kept by the loop; EngineWaiting interprets it with \<open>waiting_inv\<close> and EngineReach with
    the nodes an execution can reach.  WaitingRelease: the release of a waiting node.
  \<^item> ConcurrencyQueue: the queue and the locale \<open>admission\<close> of a fair gate that it
    implements; ActiveExecutions: the control service and the active executions, an \<open>add\<close>
    split at its suspensions; ActiveExecutionsProperties: the step relation \<open>exec_step\<close> and the
    invariant \<open>limit_inv\<close>.  WaitTracker: timers, resumption and \<open>stop\<close>.
  \<^item> Permissions: the scopes of the roles, \<open>combineScopes\<close>, the role service, the check of a
    request (\<open>userHasScope\<close>) and of a call between workflows (\<open>check_subworkflow\<close>).
  \<^item> JsValues: what JavaScript does with values of any type: conversion to numbers and texts,
    comparison, strict equality, access to properties, methods of strings.
  \<^item> ParameterDisplay: the descriptions of parameters (\<open>INodeProperties\<close>) and
    \<open>displayParameter\<close>; ParameterOrder: \<open>getParameterResolveOrder\<close>; ParameterValues:
    \<open>getNodeParameters\<close>, by recursion over the description; ParameterProperties: what it
    promises; ParameterIssues: \<open>getParameterIssues\<close>, \<open>mergeIssues\<close> and what they call.
  \<^item> TypeValidation: the parsers and \<open>validateFieldType\<close>; FilterParameter: conditions, the
    switch over their operators (\<open>filter_switch\<close>) and \<open>executeFilter\<close>.
  \<^item> NodeData: the record \<open>proxy\<close>, \<open>getNodeExecutionData\<close>, \<open>getPairedItem\<close> and what an expression
    reads with \<open>$(node)\<close>; NodeDataProperties: the relation \<open>comes_from\<close> of items and what following
    the links promises.
  \<^item> WebhookPaths: \<open>getNodeWebhooks\<close> and the segments of paths; WebhookService: the table and the
    cache (\<open>WebhookStore\<close>), \<open>findWebhook\<close>, \<open>addWebhooks\<close>, \<open>clearWebhooks\<close> and the way of a request
    (\<open>route_request\<close>); WebhookProperties: the step relation \<open>hook_step\<close> with the invariant
    \<open>coherent\<close>.  TestWebhooks: the record \<open>TestHooks\<close>, \<open>needsWebhook\<close>, \<open>cancelWebhook\<close>,
    \<open>executeTestWebhook\<close>; TestWebhookProperties: the step relation \<open>test_step\<close>.
  \<^item> ActiveTriggers: the record \<open>ActiveState\<close> with the active workflows, their timers and, of the
    outside, the open triggers; \<open>aw_add\<close>, \<open>aw_remove\<close>; ActiveTriggersProperties: the step relation
    \<open>activation_step\<close> with the invariants \<open>crons_ok\<close> and \<open>open_ok\<close>.  ActivationManager: the queue of
    activations with its timers (\<open>ActivationQueue\<close>), the record \<open>Manager\<close>, \<open>manager_add\<close>,
    \<open>manager_remove\<close>, the retries split at their suspension (\<open>retry_begins\<close>, \<open>retry_ends\<close>) and the
    commands between mains; ActivationProperties: the step relation \<open>manager_step\<close> with the
    invariant \<open>queue_ok\<close>.
  \<^item> LeaderElection: the record \<open>Cluster\<close> with the leader key and the processes, whose tasks stop
    at each command to Redis, and the step relation \<open>main_step\<close>; LeaderProperties: the invariants
    \<open>holder_inv\<close> and \<open>untimed_inv\<close>.
  \<^item> ExpressionParser and ExpressionProperties: \<open>splitExpression\<close> and \<open>joinExpression\<close>.
    ArrayExtensions and ArrayProperties: the functions on arrays, \<open>chunk\<close> with a loop that may
    not end.  AugmentObject: a store of objects and proxies; AugmentProperties: the step relation
    \<open>client_step\<close> of code that uses a proxy and the invariant \<open>isolated\<close>.
  \<^item> FlowNodes: the \<open>execute\<close> methods of If, Filter, Switch, Limit and Loop Over Items, the last with
    its context (\<open>SplitContext\<close>); FlowProperties: where each item goes.  MergeNode: comparing values
    (\<open>fuzzyCompare\<close>), \<open>findMatches\<close>, \<open>mergeMatched\<close> and the modes; MergeProperties: combining by fields
    as a join.
  \<^item> SortNodes: \<open>js_sort\<close>, a stable sort, \<open>removeDuplicates_execute\<close> and \<open>sort_execute\<close>; SortProperties: the
    locale \<open>consistent_order\<close> of comparisons, which both nodes interpret.  SplitOutNodes: \<open>aggregate_execute\<close>
    and \<open>splitOut_execute\<close>; SplitOutProperties: the one undoes the other.
  \<^item> ScheduleTrigger: \<open>interval_cron\<close>, which is \<open>toCronExpression\<close> of the node, \<open>recurrenceCheck\<close> and the
    record \<open>ScheduleState\<close>; ScheduleProperties: on which ticks a schedule triggers.
    ExecutionRecovery: \<open>recoverFromLogs\<close>, and the metadata of an execution (ExecutionMetadata.ts);
    RecoveryProperties: what becomes of each node, and the bounds of the metadata.
  \<^item> Samples: the small workflow at which properties are evaluated.

  \<^bold>\<open>What the lemmas show.\<close>

  The searches of the graph compute reachability, distance and the highest enabled nodes.
  The waiting entries stay well formed through every operation and through the whole loop,
  and each call that collects data refines filling a slot of an abstract store.  Recorded
  runs are only ever appended; a failed node can be started again from the state the loop
  leaves; a cancellation runs nothing; under execution order v1 only nodes reachable from
  the start run.  Production executions stay within their limit over any interleaving of
  the operations.  The order of the parameters exists exactly for the rules that can be
  resolved; removing and adding the defaults again loses no value; a value that is valid
  has its type; the negation of a filter is its opposite; a required value that is
  missing is reported.  What is listed as allowed is what the check of a request allows.
  The item that an expression finds in another node is linked to the current one through
  recorded runs, and the search ends when runs only name earlier ones.  A request that fits
  a registered path finds a webhook, and the cache is not seen where no path has variables.
  A workflow that was removed has no timer and no trigger left, an activation that failed is
  tried again until it succeeds or the workflow is removed, and the error that is kept for a
  workflow is that of its last attempt.
  Two processes are leader at once only after the leader key has run out, and one round of
  checks repairs it.  Expressions survive splitting and joining, and data survive whatever
  an expression does with them.
  If and Switch send every item where its conditions say, a loop over items goes over each
  once, and combining by fields is a join of its inputs; Sort orders its items and keeps all, Remove
  Duplicates keeps the first of equal items, and Split Out undoes Aggregate.
  An execution that a crash cut off has a run for every node that was started, and tells of the crash
  exactly if one of these did not end; the metadata of an execution stay within their bounds.
  Several theorems prove what the code does where it does not do what it means to: sources
  that are lost, a waiting run that is overwritten, inputs collected twice, an execution
  started twice or never, a webhook that is served after its removal, a leadership that no
  process ever takes again, a loop that does not end, triggers that stay open after a failed
  activation, a removed workflow that a running retry activates again, schedules that stop for good.

  \<^bold>\<open>Conventions and bounds.\<close>

  \<^item> A throw is \<open>Inl\<close> of a \<open>js_error\<close>; the texts of TypeErrors are not modelled.  A throw inside
    \<open>addNodeToBeExecuted\<close> leaves the state from before the call.
  \<^item> Items and nodes are values: that the code shares one object between entries is not
    modelled, as no modelled code mutates a shared one.
  \<^item> Names equal to properties of \<open>Object.prototype\<close> are not modelled.
  \<^item> Numbers are rationals, written as the shortest decimal that denotes them; neither NaN,
    the infinities nor Date objects occur among the values stored with a node, but NaN and
    the infinities occur where a text is converted.
  \<^item> The recursions over descriptions of parameters end because the descriptions get smaller;
    the loop that orders the parameters ends because the code counts its iterations.
  \<^item> The searches for the highest nodes and for connection indexes have as fuel one more
    than the number of destination nodes, proved to be enough; the release of a waiting
    node has one more than the number of waiting runs, proved to be enough.  The main loop
    may run forever, since a workflow may be cyclic, so \<open>engine_loop\<close> has explicit fuel and
    returns None when it is used up; its properties hold for any fuel.
  \<^item> \<open>getPairedItem\<close> has fuel, since recorded runs could name each other as sources; when every
    run only names runs of smaller rank, the rank plus two is proved to be enough.  The loop of
    \<open>chunk\<close> is a partial function whose result None means that it does not end.  Splitting an
    expression ends because the rest gets shorter.
  \<^item> Entries of the cache of webhooks may expire at any time; storing in it, which the code does
    not wait for, is done at once.  Cancelling a test webhook takes the number of keys after which
    the deactivation it starts takes effect as an argument.
  \<^item> A key of Redis counts its seconds down; the four commands that the election uses are atomic.
  \<^item> Sorting by a comparison that is not consistent is left to the implementation by the standard;
    the properties of the nodes that sort ask for values that can be ordered.
  \<^item> The clock, a cancellation and a failing hook enter each round as a \<open>tick\<close>.

  \<^bold>\<open>Parameters of the model.\<close>

  What a node type does (\<open>node_body\<close>), the registry of node types, the resolution of
  expressions, the rows a query of the database returns, and the time.  The functions \<open>get\<close>
  and \<open>isEqual\<close> of lodash, the engine for regular expressions (the record \<open>library\<close>), JSON.parse,
  the parser of object literals and the date formats of luxon (the record \<open>parsers\<close>).  The
  complete parameters of a node and its issues are arguments of WorkflowNodes; \<open>getNodeParameters\<close>
  and \<open>getNodeParametersIssues\<close> are what they stand for.  Whether two places hold the same item
  (\<open>px_same\<close>), the resolution of the fields of webhook descriptions, the methods of a node type at
  its external service, what the trigger and poll methods of node types answer and what of a text the
  cron library accepts (the record \<open>ActivationEnv\<close>), the ticks of a schedule and the fields of their times (the record \<open>Moment\<close>), the execution that a request starts, the workflow of an id;
  what \<open>getNodeParameter\<close> gives a steering node for an item and the functions of lodash that merge
  objects (the record \<open>lodash\<close>), compare and set values (\<open>sort_lodash\<close>, \<open>path_lodash\<close>); the deep equality of deep-equal and \<open>uniqWith\<close> of lodash, of which the set operations only use that the
  one is an equivalence and the other keeps one value of each class.

  \<^bold>\<open>Not modelled.\<close>

  The evaluation of expressions, which runs a JavaScript engine; the other nodes, whose
  bodies call external services; the editor and the design system; database entities and
  migrations; the REST and public API controllers; scaling mode, which goes through an
  external queue; the run data that AI sub-nodes add through their parent; the execution of a workflow by a webhook and its response; the texts of the errors
  of expressions; telemetry and logging.
\<close>

end
